(* ===== verification/Nouns_Prelude.thy ===== *)
theory Nouns_Prelude imports Main "HOL-Library.AList" begin

text \<open>
  What the components share: the strings of the source (numbers printed and read in a radix,
  padding, slicing), the insertion-ordered \<open>Map\<close> of JavaScript, numbers that can be
  \<open>NaN\<close>, and the interface of a component that is driven by events and keeps an invariant.

  A source string is a \<open>string\<close> (a list of 8-bit characters).  A \<open>Map\<close> is an
  association list with distinct keys in insertion order: \<open>get\<close> is \<open>map_of\<close>,
  \<open>set\<close> is \<open>AList.update\<close> (an existing key keeps its place, a new one goes to the
  end), \<open>delete\<close> is \<open>AList.delete\<close> and \<open>size\<close> is \<open>length\<close>.
\<close>

named_theorems js_string \<open>printing, reading and slicing strings\<close>
named_theorems js_num \<open>numbers with NaN\<close>

type_synonym address = string
type_synonym 'v js_map = "(string \<times> 'v) list"

section \<open>Numbers in a radix\<close>

fun digits :: "nat \<Rightarrow> nat \<Rightarrow> nat list" where
  "digits b n = (if b < 2 \<or> n < b then [n] else digits b (n div b) @ [n mod b])"

declare digits.simps [simp del]

definition undigits :: "nat \<Rightarrow> nat list \<Rightarrow> nat" where
  "undigits b ds = foldl (\<lambda>v d. v * b + d) 0 ds"

lemma undigits_snoc [simp]: "undigits b (ds @ [d]) = undigits b ds * b + d"
  by (simp add: undigits_def)

lemma undigits_Nil [simp]: "undigits b [] = 0"
  by (simp add: undigits_def)

lemma undigits_single [simp]: "undigits b [d] = d"
  by (simp add: undigits_def)

lemma undigits_Cons0 [simp]: "undigits b (0 # ds) = undigits b ds"
  by (simp add: undigits_def)

lemma undigits_replicate0 [simp]: "undigits b (replicate k 0 @ ds) = undigits b ds"
  by (induction k) simp_all

lemma undigits_digits [simp]: "undigits b (digits b n) = n"
proof (induction b n rule: digits.induct)
  case (1 b n)
  then show ?case by (subst digits.simps) (simp add: undigits_def)
qed

lemma digits_bound: "2 \<le> b \<Longrightarrow> d \<in> set (digits b n) \<Longrightarrow> d < b"
proof (induction b n rule: digits.induct)
  case (1 b n)
  then show ?case by (subst (asm) digits.simps) (auto split: if_splits)
qed

lemma digits_not_Nil [simp]: "digits b n \<noteq> []"
  by (subst digits.simps) simp

lemma digits_inject [simp]: "digits b m = digits b n \<longleftrightarrow> m = n"
  by (metis undigits_digits)

lemma length_digits_le:
  assumes "2 \<le> b" and "n < b ^ k" and "0 < k"
  shows "length (digits b n) \<le> k"
  using assms
proof (induction b n arbitrary: k rule: digits.induct)
  case (1 b n)
  show ?case
  proof (cases "n < b")
    case True
    with 1(2,4) show ?thesis by (subst digits.simps) simp
  next
    case False
    with 1(3) have "k \<noteq> 1" by auto
    with 1(4) obtain j where j: "k = Suc j" "0 < j" by (cases k) auto
    have "n div b < b ^ j"
      using 1(2,3) j(1) by (simp add: less_mult_imp_div_less mult.commute)
    then have "length (digits b (n div b)) \<le> j"
      using 1(1) [of j] False 1(2) j(2) by simp
    with False 1(2) j(1) show ?thesis by (subst digits.simps) simp
  qed
qed

section \<open>Digits as characters\<close>

definition hex_digit :: "nat \<Rightarrow> char" where
  "hex_digit d = (if d < 10 then char_of (48 + d) else char_of (87 + d))"

definition hex_val :: "char \<Rightarrow> nat option" where
  "hex_val c =
     (let n = (of_char c :: nat) in
      if 48 \<le> n \<and> n \<le> 57 then Some (n - 48)
      else if 97 \<le> n \<and> n \<le> 102 then Some (n - 87)
      else if 65 \<le> n \<and> n \<le> 70 then Some (n - 55)
      else None)"

lemma hex_val_digit [js_string, simp]: "d < 16 \<Longrightarrow> hex_val (hex_digit d) = Some d"
  by (auto simp: hex_val_def hex_digit_def Let_def)

lemma hex_digit_inject: "d < 16 \<Longrightarrow> e < 16 \<Longrightarrow> hex_digit d = hex_digit e \<Longrightarrow> d = e"
  by (metis hex_val_digit option.inject)

lemma map_hex_digit_inject:
  assumes "\<forall>d \<in> set xs. d < 16" and "\<forall>d \<in> set ys. d < 16"
    and "map hex_digit xs = map hex_digit ys"
  shows "xs = ys"
  using assms by (metis (no_types, lifting) hex_val_digit list.map_comp map_idI comp_apply
      list.inj_map_strong option.inject)

definition to_radix :: "nat \<Rightarrow> nat \<Rightarrow> string" where
  "to_radix b n = map hex_digit (digits b n)"

lemma to_radix_not_Nil [simp]: "to_radix b n \<noteq> []"
  by (simp add: to_radix_def)

lemma to_radix_inject [simp]:
  assumes "2 \<le> b" "b \<le> 16"
  shows "to_radix b m = to_radix b n \<longleftrightarrow> m = n"
proof
  assume "to_radix b m = to_radix b n"
  then have "digits b m = digits b n"
    unfolding to_radix_def using assms
    by (intro map_hex_digit_inject) (auto dest!: digits_bound[OF assms(1)])
  then show "m = n" by simp
qed simp

lemma to_radix_hex_digits:
  assumes "2 \<le> b" "b \<le> 16" "c \<in> set (to_radix b n)"
  shows "\<exists>d < b. c = hex_digit d"
  using assms by (auto simp: to_radix_def dest: digits_bound)

text \<open>\<open>String(n)\<close> for an integer, and the decimal \<open>toString\<close> of a big integer.\<close>

definition nat_to_string :: "nat \<Rightarrow> string" where
  "nat_to_string n = to_radix 10 n"

definition int_to_string :: "int \<Rightarrow> string" where
  "int_to_string i = (if i < 0 then CHR ''-'' # nat_to_string (nat (- i)) else nat_to_string (nat i))"

lemma nat_to_string_inject [simp]: "nat_to_string m = nat_to_string n \<longleftrightarrow> m = n"
  by (simp add: nat_to_string_def)

lemma nat_to_string_not_Nil [simp]: "nat_to_string n \<noteq> []"
  by (simp add: nat_to_string_def)

lemma nat_to_string_digit: "c \<in> set (nat_to_string n) \<Longrightarrow> \<exists>d < 10. c = hex_digit d"
  unfolding nat_to_string_def by (rule to_radix_hex_digits) auto

lemma hex_digit_neqI: "d < 16 \<Longrightarrow> hex_val c = None \<Longrightarrow> hex_digit d \<noteq> c"
  by (metis hex_val_digit option.distinct(1))

lemma hex_digit_neq_minus: "d < 16 \<Longrightarrow> hex_digit d \<noteq> CHR ''-''"
  by (erule hex_digit_neqI) (simp add: hex_val_def)

lemma minus_notin_nat_to_string [simp]: "CHR ''-'' \<notin> set (nat_to_string n)"
proof
  assume "CHR ''-'' \<in> set (nat_to_string n)"
  then obtain d where "d < 10" "CHR ''-'' = hex_digit d"
    by (auto dest: nat_to_string_digit)
  then show False using hex_digit_neq_minus [of d] by auto
qed

lemma int_to_string_inject [simp]: "int_to_string i = int_to_string j \<longleftrightarrow> i = j"
proof -
  have "CHR ''-'' # s \<noteq> nat_to_string n" for s n
    by (metis list.set_intros(1) minus_notin_nat_to_string)
  then show ?thesis
    unfolding int_to_string_def by (auto simp: nat_eq_iff dest: sym)
qed

section \<open>Padding and slicing\<close>

definition padStart :: "nat \<Rightarrow> char \<Rightarrow> string \<Rightarrow> string" where
  "padStart k c s = replicate (k - length s) c @ s"

text \<open>\<open>s.substring(from, to)\<close> with \<open>from \<le> to\<close>.\<close>

definition substring :: "nat \<Rightarrow> nat \<Rightarrow> string \<Rightarrow> string" where
  "substring i j s = take (j - i) (drop i s)"

text \<open>\<open>parseInt(s, 16)\<close>: leading blanks, a sign, an optional \<open>0x\<close>, then the longest
  prefix of hexadecimal digits; \<open>None\<close> is \<open>NaN\<close>.\<close>

definition is_blank :: "char \<Rightarrow> bool" where
  "is_blank c = (let n = (of_char c :: nat) in (9 \<le> n \<and> n \<le> 13) \<or> n = 32)"

definition parse_hex :: "string \<Rightarrow> int option" where
  "parse_hex s =
     (let t = dropWhile is_blank s;
          neg = (take 1 t = ''-'');
          u = (if take 1 t = ''-'' \<or> take 1 t = ''+'' then drop 1 t else t);
          v = (if take 2 u = ''0x'' \<or> take 2 u = ''0X'' then drop 2 u else u);
          ds = takeWhile (\<lambda>c. hex_val c \<noteq> None) v
      in if ds = [] then None
         else Some ((if neg then -1 else 1) * int (undigits 16 (map (the \<circ> hex_val) ds))))"

lemma hex_digit_class:
  assumes "d < 16"
  shows "\<not> is_blank (hex_digit d)" "hex_digit d \<noteq> CHR ''-''" "hex_digit d \<noteq> CHR ''+''"
    "hex_digit d \<noteq> CHR ''x''" "hex_digit d \<noteq> CHR ''X''"
proof -
  show "\<not> is_blank (hex_digit d)"
    using assms by (auto simp: is_blank_def hex_digit_def Let_def)
  show "hex_digit d \<noteq> CHR ''-''" "hex_digit d \<noteq> CHR ''+''"
    "hex_digit d \<noteq> CHR ''x''" "hex_digit d \<noteq> CHR ''X''"
    by (rule hex_digit_neqI [OF assms], simp add: hex_val_def)+
qed

lemma takeWhile_hex_digits:
  "\<forall>d \<in> set ds. d < 16 \<Longrightarrow> takeWhile (\<lambda>c. hex_val c \<noteq> None) (map hex_digit ds) = map hex_digit ds"
  by (auto simp: takeWhile_eq_all_conv)

lemma parse_hex_digits [js_string]:
  assumes "ds \<noteq> []" and ds: "\<forall>d \<in> set ds. d < 16"
  shows "parse_hex (map hex_digit ds) = Some (int (undigits 16 ds))"
proof -
  let ?s = "map hex_digit ds"
  obtain e es where e: "ds = e # es" using assms by (cases ds) auto
  have cls: "\<not> is_blank (hex_digit e)" "hex_digit e \<noteq> CHR ''-''" "hex_digit e \<noteq> CHR ''+''"
    using ds e by (auto dest: hex_digit_class)
  have "dropWhile is_blank ?s = ?s" using cls e by simp
  moreover have "take 1 ?s \<noteq> ''-''" "take 1 ?s \<noteq> ''+''" using cls e by auto
  moreover have "take 2 ?s \<noteq> ''0x''" "take 2 ?s \<noteq> ''0X''"
    using ds e by (cases es; auto dest: hex_digit_class)+
  moreover have "map (the \<circ> hex_val) ?s = ds"
    using ds by (auto intro: map_idI)
  ultimately show ?thesis
    using assms unfolding parse_hex_def Let_def takeWhile_hex_digits [OF ds]
    by (simp only: if_False simp_thms map_is_Nil_conv takeWhile_hex_digits [OF ds]) simp
qed

section \<open>Numbers with NaN\<close>

text \<open>A number the source may read as \<open>NaN\<close> is \<open>None\<close>; comparisons with it are false.\<close>

type_synonym jsnum = "int option"

definition js_add :: "jsnum \<Rightarrow> jsnum \<Rightarrow> jsnum" where
  "js_add x y = (case (x, y) of (Some i, Some j) \<Rightarrow> Some (i + j) | _ \<Rightarrow> None)"

definition js_sub :: "jsnum \<Rightarrow> jsnum \<Rightarrow> jsnum" where
  "js_sub x y = (case (x, y) of (Some i, Some j) \<Rightarrow> Some (i - j) | _ \<Rightarrow> None)"

definition js_mul :: "jsnum \<Rightarrow> jsnum \<Rightarrow> jsnum" where
  "js_mul x y = (case (x, y) of (Some i, Some j) \<Rightarrow> Some (i * j) | _ \<Rightarrow> None)"

definition js_le :: "jsnum \<Rightarrow> jsnum \<Rightarrow> bool" where
  "js_le x y = (case (x, y) of (Some i, Some j) \<Rightarrow> i \<le> j | _ \<Rightarrow> False)"

definition js_lt :: "jsnum \<Rightarrow> jsnum \<Rightarrow> bool" where
  "js_lt x y = (case (x, y) of (Some i, Some j) \<Rightarrow> i < j | _ \<Rightarrow> False)"

definition js_eq :: "jsnum \<Rightarrow> jsnum \<Rightarrow> bool" where
  "js_eq x y = (case (x, y) of (Some i, Some j) \<Rightarrow> i = j | _ \<Rightarrow> False)"

definition js_show :: "jsnum \<Rightarrow> string" where
  "js_show x = (case x of Some i \<Rightarrow> int_to_string i | None \<Rightarrow> ''NaN'')"

lemma js_ops [js_num, simp]:
  "js_add (Some i) (Some j) = Some (i + j)" "js_add None y = None" "js_add x None = None"
  "js_sub (Some i) (Some j) = Some (i - j)" "js_sub None y = None" "js_sub x None = None"
  "js_mul (Some i) (Some j) = Some (i * j)" "js_mul None y = None" "js_mul x None = None"
  "js_le (Some i) (Some j) = (i \<le> j)" "js_le None y = False" "js_le x None = False"
  "js_lt (Some i) (Some j) = (i < j)" "js_lt None y = False" "js_lt x None = False"
  "js_eq (Some i) (Some j) = (i = j)" "js_eq None y = False" "js_eq x None = False"
  by (auto simp: js_add_def js_sub_def js_mul_def js_le_def js_lt_def js_eq_def split: option.splits)

section \<open>Insertion-ordered maps\<close>

lemma map_of_update [simp]: "map_of (AList.update k v m) = (map_of m)(k \<mapsto> v)"
  by (rule ext) (simp add: AList.update_conv')

lemma update_new: "k \<notin> fst ` set m \<Longrightarrow> AList.update k v m = m @ [(k, v)]"
  by (induction m) auto

lemma keys_update_old: "k \<in> fst ` set m \<Longrightarrow> map fst (AList.update k v m) = map fst m"
  by (induction m) auto

section \<open>Cardinalities\<close>

lemma int_card_remove: "finite A \<Longrightarrow> x \<in> A \<Longrightarrow> int (card (A - {x})) = int (card A) - 1"
  using card.remove [of A x] by simp

section \<open>Addresses\<close>

definition zero_address :: string where
  "zero_address = ''0x0000000000000000000000000000000000000000''"

text \<open>ASCII letters; the addresses compared are hexadecimal.\<close>

definition to_lower :: "string \<Rightarrow> string" where
  "to_lower = map (\<lambda>c. if 65 \<le> (of_char c :: nat) \<and> (of_char c :: nat) \<le> 90 then char_of ((of_char c :: nat) + 32) else c)"

section \<open>Loops that may fail\<close>

text \<open>All values, or none if one is missing.\<close>

fun all_or_none :: "'a option list \<Rightarrow> 'a list option" where
  "all_or_none [] = Some []"
| "all_or_none (None # xs) = None"
| "all_or_none (Some x # xs) = map_option (\<lambda>ys. x # ys) (all_or_none xs)"

text \<open>\<open>toString\<close> of a bignumber.js integer is exponential from \<open>10 ^ 21\<close> on, which the integers of ethers refuse
  (\<open>None\<close>).\<close>

definition ethers_number :: "int \<Rightarrow> int option" where
  "ethers_number n = (if \<bar>n\<bar> < 10 ^ 21 then Some n else None)"

text \<open>A loop over the elements of an array; the first failure ends it.\<close>

fun each :: "('a \<Rightarrow> 's \<Rightarrow> 's option) \<Rightarrow> 'a list \<Rightarrow> 's \<Rightarrow> 's option" where
  "each f [] s = Some s"
| "each f (x # xs) s = (case f x s of None \<Rightarrow> None | Some s' \<Rightarrow> each f xs s')"

text \<open>Loops preserve what their body preserves.\<close>

lemma each_preserves_all:
  assumes "each f xs s = Some s'" "P s" "list_all Q xs"
    "\<And>x s s'. Q x \<Longrightarrow> P s \<Longrightarrow> f x s = Some s' \<Longrightarrow> P s'"
  shows "P s'"
  using assms(1-3) by (induction xs arbitrary: s) (auto split: option.splits intro: assms(4))

lemma each_preserves:
  assumes "each f xs s = Some s'" "P s" "\<And>x s s'. P s \<Longrightarrow> f x s = Some s' \<Longrightarrow> P s'"
  shows "P s'"
  using assms(1,2) by (induction xs arbitrary: s) (auto split: option.splits intro: assms(3))

lemma each_append: "each f (xs @ ys) s = Option.bind (each f xs s) (each f ys)"
  by (induction xs arbitrary: s) (auto split: option.splits)

section \<open>Components driven by events\<close>

text \<open>
  A component receives events and changes its state.  \<open>ok\<close> says which events its
  environment may deliver in a state; the invariant survives each of them, hence every run.
\<close>

fun admissible :: "('s \<Rightarrow> 'e \<Rightarrow> bool) \<Rightarrow> ('e \<Rightarrow> 's \<Rightarrow> 's) \<Rightarrow> 'e list \<Rightarrow> 's \<Rightarrow> bool" where
  "admissible ok step [] s = True"
| "admissible ok step (e # es) s = (ok s e \<and> admissible ok step es (step e s))"

lemma admissible_all: "admissible (\<lambda>s e. P e) step es s = list_all P es"
  by (induction es arbitrary: s) auto

locale event_driven =
  fixes step :: "'e \<Rightarrow> 's \<Rightarrow> 's"
    and ok :: "'s \<Rightarrow> 'e \<Rightarrow> bool"
    and inv :: "'s \<Rightarrow> bool"
  assumes step_inv: "inv s \<Longrightarrow> ok s e \<Longrightarrow> inv (step e s)"
begin

lemma run_inv: "inv s \<Longrightarrow> admissible ok step es s \<Longrightarrow> inv (fold step es s)"
  by (induction es arbitrary: s) (auto intro: step_inv)

lemma run_inv_always:
  assumes "inv s" and "\<And>s e. ok s e"
  shows "inv (fold step es s)"
proof -
  have "admissible ok step es s" using assms(2) by (induction es arbitrary: s) auto
  with assms(1) show ?thesis by (rule run_inv)
qed

end

end
