(* ===== verification/Image_RLE.thy ===== *)
theory Image_RLE imports Nouns_Prelude begin

text \<open>
  The run-length encoder of the SDK: \<open>packages/nouns-sdk/src/image/image.ts\<close> (class
  \<open>Image\<close>) with \<open>image/utils.ts\<close> and the interfaces of \<open>image/types.ts\<close>.
  An \<open>Image\<close> object is the record \<open>image\<close>; \<open>toRLE\<close> returns the string, the
  colour map it has extended and the object with its new bounds and tuples.  Coordinates are
  integers (\<open>right\<close> counts down to -1 in \<open>calcBounds\<close>), colour channels, counts and
  indexes naturals.
\<close>

section \<open>Data\<close>

record rgba_color =
  c_r :: nat
  c_g :: nat
  c_b :: nat
  c_a :: nat

record image_bounds =
  b_top :: int
  b_right :: int
  b_bottom :: int
  b_left :: int

record image =
  i_width :: int
  i_height :: int
  i_bounds :: image_bounds
  i_tuples :: "(nat \<times> nat) list"
  getRgbaAt :: "int \<Rightarrow> int \<Rightarrow> rgba_color"

definition new_image :: "int \<Rightarrow> int \<Rightarrow> (int \<Rightarrow> int \<Rightarrow> rgba_color) \<Rightarrow> image" where
  "new_image width height rgbaAt =
     \<lparr>i_width = width, i_height = height,
      i_bounds = \<lparr>b_top = 0, b_right = 0, b_bottom = 0, b_left = 0\<rparr>,
      i_tuples = [], getRgbaAt = rgbaAt\<rparr>"

section \<open>Operations\<close>

definition toPaddedHex :: "int \<Rightarrow> string" where
  "toPaddedHex c =
     padStart 2 (CHR ''0'')
       (if c < 0 then CHR ''-'' # to_radix 16 (nat (- c)) else to_radix 16 (nat c))"

definition rgbToHex :: "nat \<Rightarrow> nat \<Rightarrow> nat \<Rightarrow> string" where
  "rgbToHex r g b = toPaddedHex (int r) @ toPaddedHex (int g) @ toPaddedHex (int b)"

definition isTransparentColumn :: "image \<Rightarrow> int \<Rightarrow> bool" where
  "isTransparentColumn img column =
     list_all (\<lambda>row. c_a (getRgbaAt img column row) = 0) [0..i_height img - 1]"

definition isTransparentRow :: "image \<Rightarrow> int \<Rightarrow> bool" where
  "isTransparentRow img row =
     list_all (\<lambda>column. c_a (getRgbaAt img column row) = 0) [0..i_width img - 1]"

text \<open>The four loops of \<open>calcBounds\<close>.\<close>

function find_bottom :: "image \<Rightarrow> int \<Rightarrow> int" where
  "find_bottom img bottom =
     (if bottom > 0 \<and> isTransparentRow img bottom then find_bottom img (bottom - 1) else bottom)"
  by pat_completeness auto
termination by (relation "measure (\<lambda>(img, bottom). nat bottom)") auto

function find_top :: "image \<Rightarrow> int \<Rightarrow> int \<Rightarrow> int" where
  "find_top img bottom tp =
     (if tp < bottom \<and> isTransparentRow img tp then find_top img bottom (tp + 1) else tp)"
  by pat_completeness auto
termination by (relation "measure (\<lambda>(img, bottom, tp). nat (bottom - tp))") auto

function find_right :: "image \<Rightarrow> int \<Rightarrow> int" where
  "find_right img right =
     (if right \<ge> 0 \<and> isTransparentColumn img right then find_right img (right - 1) else right)"
  by pat_completeness auto
termination by (relation "measure (\<lambda>(img, right). nat (right + 1))") auto

function find_left :: "image \<Rightarrow> int \<Rightarrow> int \<Rightarrow> int" where
  "find_left img right left =
     (if left < right \<and> isTransparentColumn img left then find_left img right (left + 1) else left)"
  by pat_completeness auto
termination by (relation "measure (\<lambda>(img, right, left). nat (right - left))") auto

declare find_bottom.simps [simp del] find_top.simps [simp del]
  find_right.simps [simp del] find_left.simps [simp del]

definition calcBounds :: "image \<Rightarrow> image_bounds" where
  "calcBounds img =
     (let bottom = find_bottom img (i_height img - 1);
          tp = find_top img bottom 0;
          right = find_right img (i_width img - 1);
          left = find_left img right 0
      in \<lparr>b_top = tp, b_right = right + 1, b_bottom = bottom, b_left = left\<rparr>)"

fun encode_loop :: "nat list \<Rightarrow> nat \<Rightarrow> nat \<Rightarrow> string list \<Rightarrow> (nat \<times> nat) list \<Rightarrow>
    string list \<times> (nat \<times> nat) list \<times> nat \<times> nat" where
  "encode_loop [] previous count encoding tuples = (encoding, tuples, previous, count)"
| "encode_loop (d # ds) previous count encoding tuples =
     (if d \<noteq> previous \<or> count = 255
      then encode_loop ds d 1
             (encoding @ [toPaddedHex (int count), toPaddedHex (int previous)])
             (tuples @ [(count, previous)])
      else encode_loop ds previous (count + 1) encoding tuples)"

text \<open>On an empty array \<open>previous\<close> is \<open>undefined\<close>, and nothing is pushed.\<close>

definition encode :: "nat list \<Rightarrow> (nat \<times> nat) list \<Rightarrow> string \<times> (nat \<times> nat) list" where
  "encode data tuples =
     (case data of
        [] \<Rightarrow> ('''', tuples)
      | first # rest \<Rightarrow>
          (let (encoding, tuples', previous, count) = encode_loop rest first 1 [] tuples
           in (concat (encoding @ [toPaddedHex (int count), toPaddedHex (int previous)]), tuples')))"

text \<open>One iteration of the pixel loop of \<open>toRLE\<close>, and the order of the pixels.\<close>

definition visit_pixel ::
    "image \<Rightarrow> int \<times> int \<Rightarrow> nat js_map \<times> nat list \<Rightarrow> nat js_map \<times> nat list" where
  "visit_pixel img p st =
     (let (x, y) = p; (colors, indexes) = st;
          px = getRgbaAt img x y;
          hexColor = rgbToHex (c_r px) (c_g px) (c_b px);
          colors' = (if map_of colors hexColor = None
                     then AList.update hexColor (length colors) colors else colors)
      in (colors', indexes @ [if c_a px = 0 then 0 else the (map_of colors' hexColor)]))"

definition bounds_pixels :: "image_bounds \<Rightarrow> (int \<times> int) list" where
  "bounds_pixels bs =
     concat (map (\<lambda>y. map (\<lambda>x. (x, y)) [b_left bs..b_right bs - 1]) [b_top bs..b_bottom bs])"

definition toRLE :: "image \<Rightarrow> nat js_map \<Rightarrow> string \<times> nat js_map \<times> image" where
  "toRLE img colors =
     (let bs = calcBounds img;
          (colors', indexes) = fold (visit_pixel img) (bounds_pixels bs) (colors, []);
          metadata = map toPaddedHex [0, b_top bs, b_right bs, b_bottom bs, b_left bs];
          (body, tuples') = encode indexes (i_tuples img)
      in (''0x'' @ concat metadata @ body, colors', img\<lparr>i_bounds := bs, i_tuples := tuples'\<rparr>))"

section \<open>Bounds\<close>

lemma find_bottom_spec:
  "b0 \<ge> 0 \<Longrightarrow> 0 \<le> find_bottom img b0 \<and> find_bottom img b0 \<le> b0
     \<and> (\<forall>r. find_bottom img b0 < r \<and> r \<le> b0 \<longrightarrow> isTransparentRow img r)
     \<and> (find_bottom img b0 = 0 \<or> \<not> isTransparentRow img (find_bottom img b0))"
proof (induction img b0 rule: find_bottom.induct)
  case (1 img b)
  show ?case
  proof (cases "b > 0 \<and> isTransparentRow img b")
    case True
    then have eq: "find_bottom img b = find_bottom img (b - 1)"
      by (subst find_bottom.simps) simp
    show ?thesis unfolding eq using 1 True by (auto simp: less_le)
  next
    case False
    then have "find_bottom img b = b"
      by (subst find_bottom.simps) (rule if_not_P)
    with False 1(2-) show ?thesis by auto
  qed
qed

lemma find_top_spec:
  "t0 \<le> bo \<Longrightarrow> t0 \<le> find_top img bo t0 \<and> find_top img bo t0 \<le> bo
     \<and> (\<forall>r. t0 \<le> r \<and> r < find_top img bo t0 \<longrightarrow> isTransparentRow img r)
     \<and> (find_top img bo t0 = bo \<or> \<not> isTransparentRow img (find_top img bo t0))"
proof (induction img bo t0 rule: find_top.induct)
  case (1 img bo t)
  show ?case
  proof (cases "t < bo \<and> isTransparentRow img t")
    case True
    then have eq: "find_top img bo t = find_top img bo (t + 1)"
      by (subst find_top.simps) simp
    show ?thesis unfolding eq using 1 True by (auto) (metis add1_zle_eq order_le_less)+
  next
    case False
    then have "find_top img bo t = t"
      by (subst find_top.simps) (rule if_not_P)
    with False 1(2-) show ?thesis by auto
  qed
qed

lemma find_right_spec:
  "r0 \<ge> -1 \<Longrightarrow> -1 \<le> find_right img r0 \<and> find_right img r0 \<le> r0
     \<and> (\<forall>c. find_right img r0 < c \<and> c \<le> r0 \<longrightarrow> isTransparentColumn img c)
     \<and> (find_right img r0 = -1 \<or> \<not> isTransparentColumn img (find_right img r0))"
proof (induction img r0 rule: find_right.induct)
  case (1 img r)
  show ?case
  proof (cases "r \<ge> 0 \<and> isTransparentColumn img r")
    case True
    then have eq: "find_right img r = find_right img (r - 1)"
      by (subst find_right.simps) simp
    show ?thesis unfolding eq using 1 True by (auto) (metis zle_diff1_eq order_le_less)+
  next
    case False
    then have "find_right img r = r"
      by (subst find_right.simps) (rule if_not_P)
    with False 1(2-) show ?thesis by auto
  qed
qed

lemma find_left_spec:
  "0 \<le> l0 \<Longrightarrow> l0 \<le> max l0 r \<Longrightarrow> l0 \<le> find_left img r l0 \<and> find_left img r l0 \<le> max l0 r
     \<and> (\<forall>c. l0 \<le> c \<and> c < find_left img r l0 \<longrightarrow> isTransparentColumn img c)
     \<and> (find_left img r l0 \<ge> r \<or> \<not> isTransparentColumn img (find_left img r l0))"
proof (induction img r l0 rule: find_left.induct)
  case (1 img r l)
  show ?case
  proof (cases "l < r \<and> isTransparentColumn img l")
    case True
    then have eq: "find_left img r l = find_left img r (l + 1)"
      by (subst find_left.simps) simp
    show ?thesis unfolding eq using 1 True by (auto) (metis add1_zle_eq order_le_less)+
  next
    case False
    then have "find_left img r l = l"
      by (subst find_left.simps) (rule if_not_P)
    with False 1(2-) show ?thesis by auto
  qed
qed

text \<open>A pixel of the image that is not fully transparent.\<close>

definition opaque :: "image \<Rightarrow> int \<Rightarrow> int \<Rightarrow> bool" where
  "opaque img x y \<longleftrightarrow>
     0 \<le> x \<and> x < i_width img \<and> 0 \<le> y \<and> y < i_height img \<and> c_a (getRgbaAt img x y) \<noteq> 0"

definition within_bounds :: "image_bounds \<Rightarrow> int \<Rightarrow> int \<Rightarrow> bool" where
  "within_bounds bs x y \<longleftrightarrow> b_left bs \<le> x \<and> x < b_right bs \<and> b_top bs \<le> y \<and> y \<le> b_bottom bs"

lemma isTransparentRow_iff:
  "isTransparentRow img y \<longleftrightarrow> (\<forall>x. 0 \<le> x \<and> x < i_width img \<longrightarrow> c_a (getRgbaAt img x y) = 0)"
  by (auto simp: isTransparentRow_def list_all_iff)

lemma isTransparentColumn_iff:
  "isTransparentColumn img x \<longleftrightarrow> (\<forall>y. 0 \<le> y \<and> y < i_height img \<longrightarrow> c_a (getRgbaAt img x y) = 0)"
  by (auto simp: isTransparentColumn_def list_all_iff)

lemma calcBounds_range:
  assumes "0 < i_width img" "0 < i_height img"
  shows "0 \<le> b_top (calcBounds img)" "b_top (calcBounds img) \<le> b_bottom (calcBounds img)"
    "b_bottom (calcBounds img) < i_height img"
    "0 \<le> b_left (calcBounds img)" "b_left (calcBounds img) \<le> b_right (calcBounds img)"
    "b_right (calcBounds img) \<le> i_width img"
proof -
  let ?b = "find_bottom img (i_height img - 1)"
  let ?r = "find_right img (i_width img - 1)"
  have b: "0 \<le> ?b" "?b \<le> i_height img - 1"
    using find_bottom_spec [of "i_height img - 1" img] assms by auto
  have r: "-1 \<le> ?r" "?r \<le> i_width img - 1"
    using find_right_spec [of "i_width img - 1" img] assms by auto
  have t: "0 \<le> find_top img ?b 0" "find_top img ?b 0 \<le> ?b"
    using find_top_spec [of 0 ?b img] b by auto
  have l: "0 \<le> find_left img ?r 0" "find_left img ?r 0 \<le> max 0 ?r"
    using find_left_spec [of 0 ?r img] by auto
  show "0 \<le> b_top (calcBounds img)" "b_top (calcBounds img) \<le> b_bottom (calcBounds img)"
    "b_bottom (calcBounds img) < i_height img"
    "0 \<le> b_left (calcBounds img)" "b_left (calcBounds img) \<le> b_right (calcBounds img)"
    "b_right (calcBounds img) \<le> i_width img"
    using b r t l by (auto simp: calcBounds_def Let_def)
qed

lemma opaque_within_bounds:
  assumes "opaque img x y"
  shows "within_bounds (calcBounds img) x y"
proof -
  let ?b = "find_bottom img (i_height img - 1)"
  let ?r = "find_right img (i_width img - 1)"
  have o: "0 \<le> x" "x < i_width img" "0 \<le> y" "y < i_height img"
    "\<not> isTransparentRow img y" "\<not> isTransparentColumn img x"
    using assms by (auto simp: opaque_def isTransparentRow_iff isTransparentColumn_iff)
  have "y \<le> ?b"
    using find_bottom_spec [of "i_height img - 1" img] o by (meson linorder_not_le zle_diff1_eq order_trans)
  moreover have "find_top img ?b 0 \<le> y"
    using find_top_spec [of 0 ?b img] find_bottom_spec [of "i_height img - 1" img] o
    by (metis linorder_not_le zle_diff1_eq order_trans)
  moreover have "x \<le> ?r"
    using find_right_spec [of "i_width img - 1" img] o by (smt (verit) linorder_not_le)
  moreover have "find_left img ?r 0 \<le> x"
    using find_left_spec [of 0 ?r img] o by (smt (verit) linorder_not_le)
  ultimately show ?thesis
    by (simp add: within_bounds_def calcBounds_def Let_def)
qed

lemma calcBounds_tight:
  assumes "opaque img x0 y0"
  shows "\<exists>x. opaque img x (b_top (calcBounds img))" "\<exists>x. opaque img x (b_bottom (calcBounds img))"
    "\<exists>y. opaque img (b_left (calcBounds img)) y" "\<exists>y. opaque img (b_right (calcBounds img) - 1) y"
proof -
  let ?b = "find_bottom img (i_height img - 1)" and ?r = "find_right img (i_width img - 1)"
  have size: "0 < i_width img" "0 < i_height img"
    using assms by (auto simp: opaque_def)
  have wb: "within_bounds (calcBounds img) x0 y0"
    using assms by (rule opaque_within_bounds)
  note rng = calcBounds_range [OF size]
  have row: "0 \<le> y \<Longrightarrow> y < i_height img \<Longrightarrow> \<not> isTransparentRow img y \<Longrightarrow> \<exists>x. opaque img x y" for y
    by (auto simp: opaque_def isTransparentRow_iff)
  have col: "0 \<le> x \<Longrightarrow> x < i_width img \<Longrightarrow> \<not> isTransparentColumn img x \<Longrightarrow> \<exists>y. opaque img x y" for x
    by (auto simp: opaque_def isTransparentColumn_iff)
  have bot: "\<not> isTransparentRow img ?b"
  proof
    assume tr: "isTransparentRow img ?b"
    then have "?b = 0" using find_bottom_spec [of "i_height img - 1" img] size by auto
    then have "y0 = ?b" using wb rng by (auto simp: within_bounds_def calcBounds_def Let_def)
    with tr assms show False by (auto simp: opaque_def isTransparentRow_iff)
  qed
  then show "\<exists>x. opaque img x (b_bottom (calcBounds img))"
    using row rng by (auto simp: calcBounds_def Let_def)
  have "\<not> isTransparentRow img (find_top img ?b 0)"
    using find_top_spec [of 0 ?b img] find_bottom_spec [of "i_height img - 1" img] size bot by auto
  then show "\<exists>x. opaque img x (b_top (calcBounds img))"
    using row rng by (auto simp: calcBounds_def Let_def)
  have r0: "?r \<ge> 0"
    using wb assms by (auto simp: within_bounds_def calcBounds_def Let_def opaque_def)
  then have rt: "\<not> isTransparentColumn img ?r"
    using find_right_spec [of "i_width img - 1" img] size by auto
  then show "\<exists>y. opaque img (b_right (calcBounds img) - 1) y"
    using col r0 rng by (auto simp: calcBounds_def Let_def)
  have "\<not> isTransparentColumn img (find_left img ?r 0)"
    using find_left_spec [of 0 ?r img] r0 rt by (auto simp: max_def)
  then show "\<exists>y. opaque img (b_left (calcBounds img)) y"
    using col rng r0 find_left_spec [of 0 ?r img] by (auto simp: calcBounds_def Let_def)
qed

section \<open>Runs\<close>

text \<open>What \<open>encode\<close> promises: the run-length pairs of the data, as a recursion.\<close>

fun rle_runs :: "nat \<Rightarrow> nat \<Rightarrow> nat list \<Rightarrow> (nat \<times> nat) list" where
  "rle_runs p c [] = [(c, p)]"
| "rle_runs p c (d # ds) =
     (if d \<noteq> p \<or> c = 255 then (c, p) # rle_runs d 1 ds else rle_runs p (Suc c) ds)"

fun runs_of :: "nat list \<Rightarrow> (nat \<times> nat) list" where
  "runs_of [] = []"
| "runs_of (d # ds) = rle_runs d 1 ds"

definition expand_runs :: "(nat \<times> nat) list \<Rightarrow> nat list" where
  "expand_runs rs = concat (map (\<lambda>(n, v). replicate n v) rs)"

definition run_hex :: "nat \<times> nat \<Rightarrow> string" where
  "run_hex r = toPaddedHex (int (fst r)) @ toPaddedHex (int (snd r))"

lemma expand_runs_simps [simp]:
  "expand_runs [] = []" "expand_runs ((n, v) # rs) = replicate n v @ expand_runs rs"
  by (simp_all add: expand_runs_def)

lemma rle_runs_not_Nil [simp]: "rle_runs p c ds \<noteq> []"
  by (induction p c ds rule: rle_runs.induct) auto

lemma expand_rle_runs: "expand_runs (rle_runs p c ds) = replicate c p @ ds"
  by (induction p c ds rule: rle_runs.induct) (auto simp: replicate_app_Cons_same)

lemma expand_runs_of [simp]: "expand_runs (runs_of ds) = ds"
  by (cases ds) (auto simp: expand_rle_runs)

lemma rle_runs_counts:
  "1 \<le> c \<Longrightarrow> c \<le> 255 \<Longrightarrow> r \<in> set (rle_runs p c ds) \<Longrightarrow> 1 \<le> fst r \<and> fst r \<le> 255"
  by (induction p c ds arbitrary: r rule: rle_runs.induct) (auto split: if_splits)

lemma runs_of_counts: "r \<in> set (runs_of ds) \<Longrightarrow> 1 \<le> fst r \<and> fst r \<le> 255"
  by (cases ds) (auto dest: rle_runs_counts [rotated 2])

lemma rle_runs_values: "snd ` set (rle_runs p c ds) = insert p (set ds)"
  by (induction p c ds rule: rle_runs.induct) auto

lemma runs_of_values: "snd ` set (runs_of ds) = set ds"
  by (cases ds) (auto simp: rle_runs_values)

text \<open>Neighbouring runs can only share their value when the first is full.\<close>

fun maximal_runs :: "(nat \<times> nat) list \<Rightarrow> bool" where
  "maximal_runs (r # s # rs) = ((snd r \<noteq> snd s \<or> fst r = 255) \<and> maximal_runs (s # rs))"
| "maximal_runs _ = True"

lemma hd_rle_runs: "snd (hd (rle_runs p c ds)) = p"
  by (induction p c ds rule: rle_runs.induct) auto

lemma maximal_runs_Cons:
  "maximal_runs (r # rs) \<longleftrightarrow> maximal_runs rs \<and> (rs = [] \<or> snd r \<noteq> snd (hd rs) \<or> fst r = 255)"
  by (cases rs) auto

lemma maximal_rle_runs: "maximal_runs (rle_runs p c ds)"
  by (induction p c ds rule: rle_runs.induct) (auto simp: maximal_runs_Cons hd_rle_runs)

lemma maximal_runs_of: "maximal_runs (runs_of ds)"
  by (cases ds) (auto simp: maximal_rle_runs)

lemma encode_loop_runs:
  "encode_loop ds p c enc tup = (enc', tup', p', c') \<Longrightarrow>
     \<exists>rs. rle_runs p c ds = rs @ [(c', p')] \<and> tup' = tup @ rs \<and>
       concat enc' = concat enc @ concat (map run_hex rs)"
proof (induction ds p c enc tup rule: encode_loop.induct)
  case (1 p c enc tup)
  then show ?case by auto
next
  case (2 d ds p c enc tup)
  show ?case
  proof (cases "d \<noteq> p \<or> c = 255")
    case True
    with 2(1,3) obtain rs where "rle_runs d 1 ds = rs @ [(c', p')]" "tup' = (tup @ [(c, p)]) @ rs"
      "concat enc' = concat (enc @ [toPaddedHex (int c), toPaddedHex (int p)]) @ concat (map run_hex rs)"
      by fastforce
    with True show ?thesis by (intro exI [of _ "(c, p) # rs"]) (auto simp: run_hex_def [of "(_, _)"])
  next
    case False
    with 2(2,3) show ?thesis by simp
  qed
qed

lemma encode_eq:
  "encode data tup = (concat (map run_hex (runs_of data)), tup @ butlast (runs_of data))"
proof (cases data)
  case Nil
  then show ?thesis by (simp add: encode_def)
next
  case (Cons d ds)
  obtain enc' tup' p' c' where l: "encode_loop ds d 1 [] tup = (enc', tup', p', c')"
    by (cases "encode_loop ds d 1 [] tup") auto
  from encode_loop_runs [OF this] Cons l show ?thesis
    by (auto simp: encode_def run_hex_def)
qed

section \<open>The colour map\<close>

text \<open>Indexes are positions, the transparent colour \<open>''\<close> has index 0.\<close>

definition palette_ok :: "nat js_map \<Rightarrow> bool" where
  "palette_ok m \<longleftrightarrow>
     distinct (map fst m) \<and> map snd m = [0..<length m] \<and> m \<noteq> [] \<and> fst (hd m) = ''''"

definition pixel_hex :: "image \<Rightarrow> int \<times> int \<Rightarrow> string" where
  "pixel_hex img p =
     (let px = getRgbaAt img (fst p) (snd p) in rgbToHex (c_r px) (c_g px) (c_b px))"

definition pixel_index :: "image \<Rightarrow> nat js_map \<Rightarrow> int \<times> int \<Rightarrow> nat" where
  "pixel_index img m p =
     (if c_a (getRgbaAt img (fst p) (snd p)) = 0 then 0 else the (map_of m (pixel_hex img p)))"

definition add_color :: "string \<Rightarrow> nat js_map \<Rightarrow> nat js_map" where
  "add_color k m = (if map_of m k = None then m @ [(k, length m)] else m)"

lemma palette_ok_lookup:
  assumes "palette_ok m" "map_of m k = Some i"
  shows "i < length m" "map fst m ! i = k"
proof -
  from assms have "(k, i) \<in> set m" by (auto dest: map_of_SomeD)
  then obtain j where j: "j < length m" "m ! j = (k, i)" by (auto simp: in_set_conv_nth)
  have "i = j"
    using assms(1) j unfolding palette_ok_def
    by (metis add_0 length_map nth_map nth_upt snd_conv)
  with j show "i < length m" "map fst m ! i = k" by auto
qed

lemma palette_ok_Nil_key: "palette_ok m \<Longrightarrow> map_of m '''' = Some 0"
  by (cases m) (auto simp: palette_ok_def upt_rec)

lemma palette_ok_index0: "palette_ok m \<Longrightarrow> map_of m k = Some 0 \<Longrightarrow> k = ''''"
  by (metis palette_ok_Nil_key palette_ok_lookup(2))

lemma add_color_palette_ok [simp]: "palette_ok m \<Longrightarrow> palette_ok (add_color k m)"
  by (auto simp: palette_ok_def add_color_def map_of_eq_None_iff hd_append)

lemma add_color_present [simp]: "map_of (add_color k m) k \<noteq> None"
  by (cases "map_of m k") (simp_all add: add_color_def map_add_def)

lemma add_color_preserves: "map_of m k = Some i \<Longrightarrow> map_of (add_color k' m) k = Some i"
  by (auto simp: add_color_def)

lemma add_color_prefix: "\<exists>new. add_color k m = m @ new"
  by (auto simp: add_color_def)

lemma visit_pixel_eq:
  "visit_pixel img p (m, ixs) =
     (add_color (pixel_hex img p) m, ixs @ [pixel_index img (add_color (pixel_hex img p) m) p])"
proof (cases p)
  case (Pair x y)
  have "AList.update k (length m) m = m @ [(k, length m)]" if "map_of m k = None" for k
    using that by (intro update_new) (auto simp: map_of_eq_None_iff)
  with Pair show ?thesis
    by (auto simp: visit_pixel_def Let_def add_color_def pixel_hex_def pixel_index_def)
qed

text \<open>The pixel loop: one index per pixel, each the index of its colour in the final map.\<close>

definition add_colors :: "image \<Rightarrow> (int \<times> int) list \<Rightarrow> nat js_map \<Rightarrow> nat js_map" where
  "add_colors img ps m = fold (\<lambda>p. add_color (pixel_hex img p)) ps m"

lemma add_colors_simps [simp]:
  "add_colors img [] m = m"
  "add_colors img (p # ps) m = add_colors img ps (add_color (pixel_hex img p) m)"
  by (simp_all add: add_colors_def)

lemma add_colors_palette_ok [simp]: "palette_ok m \<Longrightarrow> palette_ok (add_colors img ps m)"
  by (induction ps arbitrary: m) auto

lemma add_colors_preserves: "map_of m k = Some i \<Longrightarrow> map_of (add_colors img ps m) k = Some i"
  by (induction ps arbitrary: m) (auto intro: add_color_preserves)

lemma add_colors_prefix: "\<exists>new. add_colors img ps m = m @ new"
proof (induction ps arbitrary: m)
  case (Cons p ps)
  obtain a where "add_color (pixel_hex img p) m = m @ a" using add_color_prefix by blast
  with Cons [of "m @ a"] show ?case by auto
qed simp

lemma add_colors_present: "p \<in> set ps \<Longrightarrow> map_of (add_colors img ps m) (pixel_hex img p) \<noteq> None"
proof (induction ps arbitrary: m)
  case (Cons q ps)
  show ?case
  proof (cases "p = q")
    case True
    obtain i where "map_of (add_color (pixel_hex img q) m) (pixel_hex img q) = Some i"
      using add_color_present by blast
    from add_colors_preserves [OF this] True show ?thesis by auto
  next
    case False
    with Cons show ?thesis by auto
  qed
qed simp

lemma visit_pixels:
  "fold (visit_pixel img) ps (m, ixs) =
     (add_colors img ps m, ixs @ map (pixel_index img (add_colors img ps m)) ps)"
proof (induction ps arbitrary: m ixs)
  case (Cons p ps)
  let ?m = "add_color (pixel_hex img p) m"
  obtain i where "map_of ?m (pixel_hex img p) = Some i" using add_color_present by blast
  moreover from add_colors_preserves [OF this]
  have "map_of (add_colors img ps ?m) (pixel_hex img p) = Some i" .
  ultimately have "pixel_index img ?m p = pixel_index img (add_colors img ps ?m) p"
    by (simp add: pixel_index_def)
  with Cons [of ?m] show ?case by (simp add: visit_pixel_eq)
qed simp

lemma toRLE_eq:
  "toRLE img colors =
     (let bs = calcBounds img; ps = bounds_pixels bs; m = add_colors img ps colors;
          rs = runs_of (map (pixel_index img m) ps)
      in (''0x'' @ concat (map toPaddedHex [0, b_top bs, b_right bs, b_bottom bs, b_left bs])
            @ concat (map run_hex rs),
          m, img\<lparr>i_bounds := bs, i_tuples := i_tuples img @ butlast rs\<rparr>))"
  by (simp add: toRLE_def Let_def visit_pixels encode_eq)

end
