(* ===== verification/Svg_Builder.thy ===== *)
theory Svg_Builder imports Image_RLE begin

text \<open>
  The decoder and the renderer of the SDK: \<open>packages/nouns-sdk/src/image/svg-builder.ts\<close>.
  The numbers come from \<open>parseInt\<close> on outside data, so they can be \<open>NaN\<close> (\<open>jsnum\<close>).
  A pushed \<open><rect>\<close> is a \<open>svg_rect\<close> until it is joined (\<open>render_rect\<close>); the
  \<open>while\<close> loop is a partial function whose value is \<open>None\<close> when it does not end.
\<close>

section \<open>Decoding\<close>

record decoded_bounds =
  d_top :: jsnum
  d_right :: jsnum
  d_bottom :: jsnum
  d_left :: jsnum

record decoded_image =
  paletteIndex :: jsnum
  d_bounds :: decoded_bounds
  rects :: "(jsnum \<times> jsnum) list"

definition is_line_end :: "char \<Rightarrow> bool" where
  "is_line_end c = (c = CHR 0x0A \<or> c = CHR 0x0D)"

text \<open>\<open>s.match(/.{1,4}/g)\<close>, with no match as the empty list.\<close>

function match_quads :: "string \<Rightarrow> string list" where
  "match_quads [] = []"
| "match_quads (c # cs) =
     (if is_line_end c then match_quads cs
      else (let q = takeWhile (\<lambda>d. \<not> is_line_end d) (take 4 (c # cs))
            in q # match_quads (drop (length q) (c # cs))))"
  by pat_completeness auto
termination by (relation "measure length") (auto simp: Let_def)

definition decodeImage :: "string \<Rightarrow> decoded_image" where
  "decodeImage rle =
     (let data = (if take 2 rle = ''0x'' then drop 2 rle else rle);
          part = (\<lambda>i j. parse_hex (substring i j data))
      in \<lparr>paletteIndex = part 0 2,
          d_bounds = \<lparr>d_top = part 2 4, d_right = part 4 6, d_bottom = part 6 8, d_left = part 8 10\<rparr>,
          rects = map (\<lambda>rect. (parse_hex (substring 0 2 rect), parse_hex (substring 2 4 rect)))
                    (match_quads (drop 10 data))\<rparr>)"

section \<open>Drawing\<close>

definition getRectLength :: "jsnum \<Rightarrow> jsnum \<Rightarrow> jsnum \<Rightarrow> jsnum" where
  "getRectLength currentX drawLength rightBound =
     (let remainingPixelsInLine = js_sub rightBound currentX
      in if js_le drawLength remainingPixelsInLine then drawLength else remainingPixelsInLine)"

record svg_rect =
  r_length :: jsnum
  r_x :: jsnum
  r_y :: jsnum
  r_fill :: "string option"

text \<open>\<open>paletteColors[colorIndex]\<close>; \<open>None\<close> is \<open>undefined\<close>.\<close>

definition palette_at :: "string list \<Rightarrow> jsnum \<Rightarrow> string option" where
  "palette_at cs ix =
     (case ix of Some i \<Rightarrow> if 0 \<le> i \<and> i < int (length cs) then Some (cs ! nat i) else None
      | None \<Rightarrow> None)"

definition render_rect :: "svg_rect \<Rightarrow> string" where
  \<open>render_rect r =
     ''<rect width="'' @ js_show (js_mul (r_length r) (Some 10)) @ ''" height="10" x="''
       @ js_show (js_mul (r_x r) (Some 10)) @ ''" y="'' @ js_show (js_mul (r_y r) (Some 10))
       @ ''" fill="#'' @ (case r_fill r of Some c \<Rightarrow> c | None \<Rightarrow> ''undefined'') @ ''" />''\<close>

partial_function (option) draw_loop ::
    "decoded_bounds \<Rightarrow> jsnum \<Rightarrow> string option \<Rightarrow> jsnum \<Rightarrow> jsnum \<Rightarrow>
     jsnum \<Rightarrow> jsnum \<Rightarrow> svg_rect list \<Rightarrow> (jsnum \<times> jsnum \<times> svg_rect list) option" where
  "draw_loop bs colorIndex hexColor drawLength len currentX currentY svgRects =
     (if js_lt (Some 0) len
      then (let svgRects' = (if colorIndex \<noteq> Some 0
                             then svgRects @ [\<lparr>r_length = len, r_x = currentX, r_y = currentY, r_fill = hexColor\<rparr>]
                             else svgRects);
                x = js_add currentX len;
                wrap = js_eq x (d_right bs);
                x' = (if wrap then d_left bs else x);
                y' = (if wrap then js_add currentY (Some 1) else currentY);
                drawLength' = js_sub drawLength len
            in draw_loop bs colorIndex hexColor drawLength' (getRectLength x' drawLength' (d_right bs))
                 x' y' svgRects')
      else Some (currentX, currentY, svgRects))"

declare draw_loop.simps [code]

fun draw_rects :: "decoded_bounds \<Rightarrow> string list \<Rightarrow> (jsnum \<times> jsnum) list \<Rightarrow>
    jsnum \<times> jsnum \<times> svg_rect list \<Rightarrow> svg_rect list option" where
  "draw_rects bs palette [] (x, y, acc) = Some acc"
| "draw_rects bs palette ((drawLength, colorIndex) # ds) (x, y, acc) =
     (case draw_loop bs colorIndex (palette_at palette colorIndex) drawLength
             (getRectLength x drawLength (d_right bs)) x y acc of
        None \<Rightarrow> None
      | Some st \<Rightarrow> draw_rects bs palette ds st)"

definition draw_part :: "string list \<Rightarrow> string \<Rightarrow> svg_rect list option" where
  "draw_part palette data =
     (let img = decodeImage data; bs = d_bounds img
      in draw_rects bs palette (rects img) (d_left bs, d_top bs, []))"

definition svg_open :: "string \<Rightarrow> string" where
  \<open>svg_open bgColor =
     ''<svg width="320" height="320" viewBox="0 0 320 320" xmlns="http://www.w3.org/2000/svg" shape-rendering="crispEdges"><rect width="100%" height="100%" fill="#''
       @ bgColor @ ''" />''\<close>

fun draw_parts :: "string list \<Rightarrow> string list \<Rightarrow> string \<Rightarrow> string option" where
  "draw_parts palette [] result = Some result"
| "draw_parts palette (part # parts) result =
     (case draw_part palette part of
        None \<Rightarrow> None
      | Some svgRects \<Rightarrow> draw_parts palette parts (result @ concat (map render_rect svgRects)))"

definition buildSVG :: "string list \<Rightarrow> string list \<Rightarrow> string \<Rightarrow> string option" where
  "buildSVG parts paletteColors bgColor =
     (case draw_parts paletteColors parts (svg_open bgColor) of
        None \<Rightarrow> None
      | Some svgWithoutEndTag \<Rightarrow> Some (svgWithoutEndTag @ ''</svg>''))"

section \<open>Termination and painting\<close>

text \<open>The cells a rectangle covers, and the walk of the drawing position along the lines.\<close>

definition rect_cells :: "svg_rect \<Rightarrow> ((int \<times> int) \<times> string option) list" where
  "rect_cells r =
     (case (r_length r, r_x r, r_y r) of
        (Some n, Some x, Some y) \<Rightarrow> map (\<lambda>i. ((x + int i, y), r_fill r)) [0..<nat n]
      | _ \<Rightarrow> [])"

definition step_right :: "int \<Rightarrow> int \<Rightarrow> int \<times> int \<Rightarrow> int \<times> int" where
  "step_right l r p = (if fst p + 1 = r then (l, snd p + 1) else (fst p + 1, snd p))"

fun walk :: "int \<Rightarrow> int \<Rightarrow> int \<times> int \<Rightarrow> nat \<Rightarrow> (int \<times> int) list" where
  "walk l r p 0 = []"
| "walk l r p (Suc n) = p # walk l r (step_right l r p) n"

fun walk_to :: "int \<Rightarrow> int \<Rightarrow> int \<times> int \<Rightarrow> nat \<Rightarrow> int \<times> int" where
  "walk_to l r p 0 = p"
| "walk_to l r p (Suc n) = walk_to l r (step_right l r p) n"

lemma walk_add: "walk l r p (m + n) = walk l r p m @ walk l r (walk_to l r p m) n"
  by (induction m arbitrary: p) auto

lemma walk_to_add: "walk_to l r p (m + n) = walk_to l r (walk_to l r p m) n"
  by (induction m arbitrary: p) auto

lemma length_walk [simp]: "length (walk l r p n) = n"
  by (induction n arbitrary: p) auto

lemma walk_line: "x + int k \<le> r \<Longrightarrow> walk l r (x, y) k = map (\<lambda>i. (x + int i, y)) [0..<k]"
proof (induction k arbitrary: x)
  case (Suc k)
  show ?case
  proof (cases k)
    case 0
    then show ?thesis by simp
  next
    case (Suc j)
    with Suc.prems have "step_right l r (x, y) = (x + 1, y)" by (simp add: step_right_def)
    with Suc.IH [of "x + 1"] Suc.prems show ?thesis
      by (simp add: upt_conv_Cons map_Suc_upt [symmetric] o_def add.assoc del: upt_Suc)
  qed
qed simp

lemma walk_to_line:
  "0 < k \<Longrightarrow> x + int k \<le> r \<Longrightarrow>
     walk_to l r (x, y) k = (if x + int k = r then (l, y + 1) else (x + int k, y))"
proof (induction k arbitrary: x)
  case (Suc k)
  then show ?case
    by (cases "k = 0") (auto simp: step_right_def)
qed simp

lemma walk_to_in: "l < r \<Longrightarrow> l \<le> fst p \<Longrightarrow> fst p < r \<Longrightarrow>
    l \<le> fst (walk_to l r p n) \<and> fst (walk_to l r p n) < r"
  by (induction n arbitrary: p) (auto simp: step_right_def)


definition painted :: "svg_rect list \<Rightarrow> ((int \<times> int) \<times> string option) list" where
  "painted rs = concat (map rect_cells rs)"

lemma painted_simps [simp]:
  "painted [] = []" "painted (rs @ ss) = painted rs @ painted ss" "painted (r # rs) = rect_cells r @ painted rs"
  by (simp_all add: painted_def)

lemma draw_loop_end: "\<not> js_lt (Some 0) len \<Longrightarrow> draw_loop bs ci hex dl len x y acc = Some (x, y, acc)"
  by (subst draw_loop.simps) simp

lemma getRectLength_Some [simp]: "getRectLength (Some x) (Some n) (Some r) = Some (min n (r - x))"
  by (simp add: getRectLength_def min_def)

text \<open>A run of \<open>n\<close> cells is drawn in finitely many rectangles, which cover the next \<open>n\<close> cells
  of the walk.\<close>

lemma draw_loop_run:
  assumes lr: "l < r" and bs: "d_left bs = Some l" "d_right bs = Some r"
  shows "l \<le> x \<Longrightarrow> x < r \<Longrightarrow>
    \<exists>rs. draw_loop bs ci hex (Some (int n)) (Some (min (int n) (r - x))) (Some x) (Some y) acc
           = Some (Some (fst (walk_to l r (x, y) n)), Some (snd (walk_to l r (x, y) n)), acc @ rs)
       \<and> painted rs = (if ci = Some 0 then [] else map (\<lambda>p. (p, hex)) (walk l r (x, y) n))"
proof (induction n arbitrary: x y acc rule: less_induct)
  case (less n)
  show ?case
  proof (cases "n = 0")
    case True
    then show ?thesis using less.prems
      by (intro exI [of _ "[]"]) (simp add: draw_loop_end)
  next
    case False
    define k where "k = nat (min (int n) (r - x))"
    have k: "0 < k" "k \<le> n" "int k = min (int n) (r - x)" "x + int k \<le> r"
      using False less.prems by (auto simp: k_def)
    define p where "p = walk_to l r (x, y) k"
    have p: "p = (if x + int k = r then (l, y + 1) else (x + int k, y))"
      unfolding p_def using k by (intro walk_to_line) auto
    have pin: "l \<le> fst p" "fst p < r"
      using walk_to_in [of l r "(x, y)" k] lr less.prems by (auto simp: p_def)
    let ?r = "\<lparr>r_length = Some (int k), r_x = Some x, r_y = Some y, r_fill = hex\<rparr>"
    let ?acc = "if ci \<noteq> Some 0 then acc @ [?r] else acc"
    have step: "draw_loop bs ci hex (Some (int n)) (Some (int k)) (Some x) (Some y) acc
      = draw_loop bs ci hex (Some (int (n - k))) (Some (min (int (n - k)) (r - fst p)))
          (Some (fst p)) (Some (snd p)) ?acc"
      by (subst draw_loop.simps) (use k p bs in \<open>auto simp: Let_def of_nat_diff\<close>)
    from less.IH [of "n - k" "fst p" "snd p" ?acc] k pin obtain rs where rs:
      "draw_loop bs ci hex (Some (int (n - k))) (Some (min (int (n - k)) (r - fst p)))
          (Some (fst p)) (Some (snd p)) ?acc
       = Some (Some (fst (walk_to l r p (n - k))), Some (snd (walk_to l r p (n - k))), ?acc @ rs)"
      "painted rs = (if ci = Some 0 then [] else map (\<lambda>p. (p, hex)) (walk l r p (n - k)))"
      by auto
    have n: "n = k + (n - k)" using k by simp
    have cells: "rect_cells ?r = map (\<lambda>p. (p, hex)) (walk l r (x, y) k)"
      using k(4) by (simp add: rect_cells_def walk_line o_def)
    have "walk l r (x, y) n = walk l r (x, y) k @ walk l r p (n - k)"
      "walk_to l r (x, y) n = walk_to l r p (n - k)"
      unfolding p_def by (subst n, simp only: walk_add walk_to_add)+
    with rs cells step k(3) show ?thesis
      by (intro exI [of _ "(if ci \<noteq> Some 0 then [?r] else []) @ rs"]) auto
  qed
qed


definition run_nums :: "nat \<times> nat \<Rightarrow> jsnum \<times> jsnum" where
  "run_nums r = (Some (int (fst r)), Some (int (snd r)))"

text \<open>What the walk paints for a list of values: nothing for value 0.\<close>

definition paint_values :: "string list \<Rightarrow> (int \<times> int) list \<Rightarrow> nat list \<Rightarrow> ((int \<times> int) \<times> string option) list" where
  "paint_values palette ps vs =
     map (\<lambda>(p, v). (p, palette_at palette (Some (int v)))) (filter (\<lambda>(p, v). v \<noteq> 0) (zip ps vs))"

lemma paint_values_append:
  "length ps = length vs \<Longrightarrow>
     paint_values pal (ps @ qs) (vs @ ws) = paint_values pal ps vs @ paint_values pal qs ws"
  by (simp add: paint_values_def)

lemma paint_values_replicate:
  "paint_values pal ps (replicate (length ps) v)
     = (if v = 0 then [] else map (\<lambda>p. (p, palette_at pal (Some (int v)))) ps)"
  by (induction ps) (auto simp: paint_values_def)

lemma draw_rects_runs:
  assumes lr: "l < r" and bs: "d_left bs = Some l" "d_right bs = Some r"
  shows "l \<le> x \<Longrightarrow> x < r \<Longrightarrow>
    \<exists>out. draw_rects bs pal (map run_nums rs) (Some x, Some y, acc) = Some (acc @ out)
       \<and> painted out = paint_values pal (walk l r (x, y) (length (expand_runs rs))) (expand_runs rs)"
proof (induction rs arbitrary: x y acc)
  case Nil
  then show ?case by (simp add: paint_values_def)
next
  case (Cons run rs)
  obtain n v where run: "run = (n, v)" by (cases run)
  let ?hex = "palette_at pal (Some (int v))"
  obtain out1 where out1:
    "draw_loop bs (Some (int v)) ?hex (Some (int n)) (Some (min (int n) (r - x))) (Some x) (Some y) acc
       = Some (Some (fst (walk_to l r (x, y) n)), Some (snd (walk_to l r (x, y) n)), acc @ out1)"
    "painted out1 = (if Some (int v) = Some 0 then [] else map (\<lambda>p. (p, ?hex)) (walk l r (x, y) n))"
    using draw_loop_run [OF lr bs Cons.prems, of "Some (int v)" ?hex n y acc] by auto
  define q where "q = walk_to l r (x, y) n"
  have "l \<le> fst q" "fst q < r"
    using walk_to_in [of l r "(x, y)" n] lr Cons.prems by (auto simp: q_def)
  from Cons.IH [OF this, of "snd q" "acc @ out1"] obtain out2 where out2:
    "draw_rects bs pal (map run_nums rs) (Some (fst q), Some (snd q), acc @ out1) = Some ((acc @ out1) @ out2)"
    "painted out2 = paint_values pal (walk l r q (length (expand_runs rs))) (expand_runs rs)"
    by auto
  have "painted out1 = paint_values pal (walk l r (x, y) n) (replicate n v)"
    using out1(2) paint_values_replicate [of pal "walk l r (x, y) n" v] by simp
  then have "painted (out1 @ out2) = paint_values pal (walk l r (x, y) (length (expand_runs (run # rs))))
      (expand_runs (run # rs))"
    using out2(2) by (simp add: run walk_add q_def paint_values_append)
  moreover have "draw_rects bs pal (map run_nums (run # rs)) (Some x, Some y, acc) = Some (acc @ (out1 @ out2))"
    using out1(1) out2(1) by (simp add: run run_nums_def bs q_def)
  ultimately show ?case by blast
qed

subsection \<open>The pixels of the bounds in drawing order\<close>

definition bounds_rows :: "int \<Rightarrow> int \<Rightarrow> int \<Rightarrow> nat \<Rightarrow> (int \<times> int) list" where
  "bounds_rows l r t k = concat (map (\<lambda>i. map (\<lambda>x. (x, t + int i)) [l..r - 1]) [0..<k])"

lemma upto_map: "l \<le> r \<Longrightarrow> [l..r - 1] = map (\<lambda>i. l + int i) [0..<nat (r - l)]"
  by (rule nth_equalityI) auto

lemma row_walk: "l \<le> r \<Longrightarrow> map (\<lambda>x. (x, y)) [l..r - 1] = walk l r (l, y) (nat (r - l))"
  by (subst walk_line) (auto simp: upto_map o_def)

lemma rows_walk:
  assumes "l < r"
  shows "bounds_rows l r t k = walk l r (l, t) (k * nat (r - l))
    \<and> walk_to l r (l, t) (k * nat (r - l)) = (l, t + int k)"
proof (induction k)
  case 0
  then show ?case by (simp add: bounds_rows_def)
next
  case (Suc k)
  let ?w = "nat (r - l)"
  have a: "Suc k * ?w = k * ?w + ?w" by simp
  have "walk_to l r (l, t + int k) ?w = (l, t + int k + 1)"
    using assms by (subst walk_to_line) auto
  with Suc assms show ?case
    unfolding a walk_add walk_to_add
    by (simp add: bounds_rows_def row_walk)
qed

lemma bounds_pixels_rows:
  "bounds_pixels bs = bounds_rows (b_left bs) (b_right bs) (b_top bs) (nat (b_bottom bs + 1 - b_top bs))"
proof (cases "b_top bs \<le> b_bottom bs + 1")
  case True
  with upto_map [of "b_top bs" "b_bottom bs + 1"] show ?thesis
    by (simp add: bounds_pixels_def bounds_rows_def o_def)
next
  case False
  then show ?thesis by (simp add: bounds_pixels_def bounds_rows_def)
qed

lemma bounds_pixels_walk:
  assumes "b_left bs < b_right bs"
  shows "bounds_pixels bs
    = walk (b_left bs) (b_right bs) (b_left bs, b_top bs) (length (bounds_pixels bs))"
proof -
  obtain n where "bounds_pixels bs = walk (b_left bs) (b_right bs) (b_left bs, b_top bs) n"
    using rows_walk [OF assms] by (auto simp: bounds_pixels_rows)
  then show ?thesis by (metis length_walk)
qed

lemma set_bounds_pixels: "set (bounds_pixels bs) = {(x, y). within_bounds bs x y}"
  by (auto simp: bounds_pixels_def within_bounds_def)

lemma distinct_bounds_pixels: "distinct (bounds_pixels bs)"
proof -
  have "distinct (concat (map (\<lambda>y. map (\<lambda>x. (x, y)) xs) ys))" if "distinct xs" "distinct ys"
    for xs ys :: "int list"
    using that by (induction ys) (auto simp: distinct_map inj_on_def)
  then show ?thesis by (simp add: bounds_pixels_def)
qed


section \<open>Reading back what the encoder wrote\<close>

definition hex_byte :: "nat \<Rightarrow> string" where
  "hex_byte n = [hex_digit (n div 16), hex_digit (n mod 16)]"

lemma toPaddedHex_byte:
  assumes "n < 256"
  shows "toPaddedHex (int n) = hex_byte n"
proof (cases "n < 16")
  case True
  moreover have "hex_digit 0 = CHR ''0''" by code_simp
  ultimately show ?thesis
    by (simp add: toPaddedHex_def to_radix_def padStart_def hex_byte_def digits.simps)
next
  case False
  with assms have "digits 16 n = [n div 16, n mod 16]"
    by (simp add: digits.simps)
  then show ?thesis
    by (simp add: toPaddedHex_def to_radix_def padStart_def hex_byte_def)
qed

lemma length_hex_byte [simp]: "length (hex_byte n) = 2"
  by (simp add: hex_byte_def)

lemma parse_hex_byte [simp]:
  assumes "n < 256"
  shows "parse_hex (hex_byte n) = Some (int n)"
proof -
  have "parse_hex (map hex_digit [n div 16, n mod 16]) = Some (int (undigits 16 [n div 16, n mod 16]))"
    using assms by (intro parse_hex_digits) auto
  then show ?thesis by (simp add: hex_byte_def undigits_def mult.commute)
qed

lemma hex_byte_no_line_end: "n < 256 \<Longrightarrow> c \<in> set (hex_byte n) \<Longrightarrow> \<not> is_line_end c"
  using hex_digit_neqI [of _ "CHR 0x0A"] hex_digit_neqI [of _ "CHR 0x0D"]
  by (auto simp: hex_byte_def is_line_end_def hex_val_def)

lemma match_quads_Cons4:
  "\<forall>c \<in> {a, b, c, d}. \<not> is_line_end c \<Longrightarrow> match_quads (a # b # c # d # s) = [a, b, c, d] # match_quads s"
  by (simp add: Let_def numeral_eq_Suc)

lemma match_quads_bytes:
  "m < 256 \<Longrightarrow> n < 256 \<Longrightarrow>
     match_quads (hex_byte m @ hex_byte n @ s) = (hex_byte m @ hex_byte n) # match_quads s"
  using hex_byte_no_line_end [of m] hex_byte_no_line_end [of n]
  by (simp add: hex_byte_def match_quads_Cons4 del: match_quads.simps)

definition byte_runs :: "(nat \<times> nat) list \<Rightarrow> bool" where
  "byte_runs rs \<longleftrightarrow> (\<forall>r \<in> set rs. fst r < 256 \<and> snd r < 256)"

lemma match_quads_runs:
  "byte_runs rs \<Longrightarrow>
     match_quads (concat (map run_hex rs)) = map (\<lambda>r. hex_byte (fst r) @ hex_byte (snd r)) rs"
proof (induction rs)
  case (Cons r rs)
  then show ?case
    by (simp add: run_hex_def [of r] toPaddedHex_byte match_quads_bytes byte_runs_def)
qed simp

definition decoded :: "nat \<Rightarrow> nat \<Rightarrow> nat \<Rightarrow> nat \<Rightarrow> (nat \<times> nat) list \<Rightarrow> decoded_image" where
  "decoded t r b l rs =
     \<lparr>paletteIndex = Some 0,
      d_bounds = \<lparr>d_top = Some (int t), d_right = Some (int r), d_bottom = Some (int b), d_left = Some (int l)\<rparr>,
      rects = map run_nums rs\<rparr>"

lemma substring_append [simp]: "substring i j (s @ t) = (if length s \<le> i
    then substring (i - length s) (j - length s) t
    else take (j - i) (drop i s @ t))"
  by (simp add: substring_def)

lemma decodeImage_bytes:
  assumes "t < 256" "r < 256" "b < 256" "l < 256" "byte_runs rs"
  shows "decodeImage (''0x'' @ concat (map hex_byte [0, t, r, b, l]) @ concat (map run_hex rs))
    = decoded t r b l rs"
proof -
  have "parse_hex (substring 0 2 (hex_byte (fst r) @ hex_byte (snd r))) = Some (int (fst r))"
    "parse_hex (substring 2 4 (hex_byte (fst r) @ hex_byte (snd r))) = Some (int (snd r))"
    if "r \<in> set rs" for r
    using that assms(5) by (auto simp: byte_runs_def substring_def)
  moreover have "drop 10 (concat (map hex_byte [0, t, r, b, l]) @ s) = s" for s
    by simp
  moreover have "parse_hex (substring 0 2 (concat (map hex_byte [0, t, r, b, l]) @ s)) = Some 0"
    "parse_hex (substring 2 4 (concat (map hex_byte [0, t, r, b, l]) @ s)) = Some (int t)"
    "parse_hex (substring 4 6 (concat (map hex_byte [0, t, r, b, l]) @ s)) = Some (int r)"
    "parse_hex (substring 6 8 (concat (map hex_byte [0, t, r, b, l]) @ s)) = Some (int b)"
    "parse_hex (substring 8 10 (concat (map hex_byte [0, t, r, b, l]) @ s)) = Some (int l)" for s
    using assms(1-4) by (simp_all add: substring_def)
  ultimately show ?thesis
    using match_quads_runs [OF assms(5)]
    by (simp only: decodeImage_def Let_def decoded_def) (simp add: o_def run_nums_def)
qed

text \<open>The hypotheses under which an image fits the one-byte fields of the format.\<close>

definition fits_format :: "image \<Rightarrow> nat js_map \<Rightarrow> bool" where
  "fits_format img colors \<longleftrightarrow>
     0 < i_width img \<and> i_width img \<le> 255 \<and> 0 < i_height img \<and> i_height img \<le> 256
     \<and> palette_ok colors \<and> length (add_colors img (bounds_pixels (calcBounds img)) colors) \<le> 256"

lemma pixel_index_bound:
  assumes "palette_ok m" "p \<in> set ps"
  shows "pixel_index img (add_colors img ps m) p < length (add_colors img ps m)"
proof -
  have ok: "palette_ok (add_colors img ps m)" using assms(1) by simp
  then have "0 < length (add_colors img ps m)" by (auto simp: palette_ok_def)
  moreover obtain i where "map_of (add_colors img ps m) (pixel_hex img p) = Some i"
    using add_colors_present [OF assms(2)] by blast
  ultimately show ?thesis
    using palette_ok_lookup(1) [OF ok] by (auto simp: pixel_index_def)
qed

lemma fits_format_runs:
  assumes "fits_format img colors"
  defines "ps \<equiv> bounds_pixels (calcBounds img)"
  shows "byte_runs (runs_of (map (pixel_index img (add_colors img ps colors)) ps))"
    (is "byte_runs ?rs")
proof -
  have "snd r < 256" if "r \<in> set ?rs" for r
  proof -
    have "snd r \<in> set (map (pixel_index img (add_colors img ps colors)) ps)"
      using that runs_of_values by fastforce
    then show ?thesis
      using pixel_index_bound [of colors _ ps img] assms by (fastforce simp: fits_format_def)
  qed
  moreover have "fst r < 256" if "r \<in> set ?rs" for r
    using runs_of_counts [OF that] by simp
  ultimately show ?thesis by (simp add: byte_runs_def)
qed

lemma fits_format_bounds:
  assumes "fits_format img colors"
  defines "bs \<equiv> calcBounds img"
  shows "0 \<le> b_top bs" "b_top bs < 256" "0 \<le> b_right bs" "b_right bs < 256"
    "0 \<le> b_bottom bs" "b_bottom bs < 256" "0 \<le> b_left bs" "b_left bs < 256" "b_left bs \<le> b_right bs"
  using calcBounds_range [of img] assms(1) unfolding fits_format_def bs_def by linarith+

definition decoded_of :: "image_bounds \<Rightarrow> (nat \<times> nat) list \<Rightarrow> decoded_image" where
  "decoded_of bs rs =
     \<lparr>paletteIndex = Some 0,
      d_bounds = \<lparr>d_top = Some (b_top bs), d_right = Some (b_right bs),
                  d_bottom = Some (b_bottom bs), d_left = Some (b_left bs)\<rparr>,
      rects = map run_nums rs\<rparr>"

lemma decode_encoded:
  assumes "fits_format img colors"
  defines "bs \<equiv> calcBounds img"
  defines "m \<equiv> add_colors img (bounds_pixels bs) colors"
  shows "decodeImage (fst (toRLE img colors)) = decoded_of bs (runs_of (map (pixel_index img m) (bounds_pixels bs)))"
proof -
  note b = fits_format_bounds [OF assms(1), folded bs_def]
  have hex: "map toPaddedHex [0, b_top bs, b_right bs, b_bottom bs, b_left bs]
    = map hex_byte [0, nat (b_top bs), nat (b_right bs), nat (b_bottom bs), nat (b_left bs)]"
    using b toPaddedHex_byte [of 0] toPaddedHex_byte [of "nat (b_top bs)"] toPaddedHex_byte [of "nat (b_right bs)"]
      toPaddedHex_byte [of "nat (b_bottom bs)"] toPaddedHex_byte [of "nat (b_left bs)"] by simp
  have "fst (toRLE img colors) = ''0x'' @ concat (map toPaddedHex [0, b_top bs, b_right bs, b_bottom bs, b_left bs])
      @ concat (map run_hex (runs_of (map (pixel_index img m) (bounds_pixels bs))))"
    by (simp add: toRLE_eq Let_def bs_def m_def)
  then show ?thesis
    unfolding hex using b fits_format_runs [OF assms(1), folded bs_def, folded m_def]
    by (simp only:) (subst decodeImage_bytes, auto simp: decoded_def decoded_of_def nat_less_iff)
qed

lemma draw_encoded:
  assumes "fits_format img colors"
  defines "bs \<equiv> calcBounds img"
  defines "m \<equiv> add_colors img (bounds_pixels bs) colors"
  shows "\<exists>out. draw_part pal (fst (toRLE img colors)) = Some out \<and>
    painted out = paint_values pal (bounds_pixels bs) (map (pixel_index img m) (bounds_pixels bs))"
proof (cases "b_left bs < b_right bs")
  case True
  let ?vs = "map (pixel_index img m) (bounds_pixels bs)"
  have "\<exists>out. draw_rects (d_bounds (decoded_of bs (runs_of ?vs))) pal (map run_nums (runs_of ?vs))
      (Some (b_left bs), Some (b_top bs), []) = Some ([] @ out) \<and>
    painted out = paint_values pal (walk (b_left bs) (b_right bs) (b_left bs, b_top bs)
      (length (expand_runs (runs_of ?vs)))) (expand_runs (runs_of ?vs))"
    by (rule draw_rects_runs) (use True in \<open>auto simp: decoded_of_def\<close>)
  with bounds_pixels_walk [OF True] decode_encoded [OF assms(1), folded bs_def, folded m_def]
  show ?thesis by (auto simp: draw_part_def decoded_of_def)
next
  case False
  then have "bounds_pixels bs = []"
    by (simp add: bounds_pixels_def)
  with decode_encoded [OF assms(1), folded bs_def, folded m_def] show ?thesis
    by (simp add: draw_part_def decoded_of_def Let_def paint_values_def)
qed

lemma paint_values_pixels:
  assumes ok: "palette_ok m" and ps: "\<And>p. p \<in> set ps \<Longrightarrow> map_of m (pixel_hex img p) \<noteq> None"
  shows "paint_values (map fst m) ps (map (pixel_index img m) ps)
    = map (\<lambda>p. (p, Some (pixel_hex img p))) (filter (\<lambda>p. c_a (getRgbaAt img (fst p) (snd p)) \<noteq> 0) ps)"
  using ps
proof (induction ps)
  case Nil
  then show ?case by (simp add: paint_values_def)
next
  case (Cons p ps)
  obtain i where i: "map_of m (pixel_hex img p) = Some i" using Cons.prems [of p] by auto
  have "pixel_hex img p \<noteq> ''''"
    by (simp add: pixel_hex_def Let_def rgbToHex_def toPaddedHex_def padStart_def)
  with palette_ok_index0 [OF ok] i have "i \<noteq> 0" by metis
  moreover have "palette_at (map fst m) (Some (int i)) = Some (pixel_hex img p)"
    using palette_ok_lookup [OF ok i] by (simp add: palette_at_def)
  ultimately show ?case
    using Cons i by (simp add: paint_values_def pixel_index_def)
qed

subsection \<open>Returning and not returning\<close>

lemma draw_loop_returns:
  "\<exists>st. draw_loop bs ci hex (Some dl) (getRectLength x (Some dl) (d_right bs)) x y acc = Some st"
proof (induction "nat dl" arbitrary: dl x y acc rule: less_induct)
  case less
  show ?case
  proof (cases "js_lt (Some 0) (getRectLength x (Some dl) (d_right bs))")
    case False
    then show ?thesis by (simp add: draw_loop_end)
  next
    case True
    then obtain x0 r where xr: "x = Some x0" "d_right bs = Some r" "0 < min dl (r - x0)"
      by (cases x; cases "d_right bs") (auto simp: getRectLength_def split: if_splits)
    then have "nat (dl - min dl (r - x0)) < nat dl" by auto
    from less [OF this] xr show ?thesis
      by (subst draw_loop.simps) (auto simp: Let_def)
  qed
qed

lemma draw_rects_returns:
  "\<forall>d \<in> set ds. fst d \<noteq> None \<Longrightarrow> \<exists>out. draw_rects bs pal ds (x, y, acc) = Some out"
proof (induction ds arbitrary: x y acc)
  case (Cons d ds)
  obtain dl ci where d: "d = (Some dl, ci)" using Cons.prems by (cases d) auto
  obtain st where "draw_loop bs ci (palette_at pal ci) (Some dl) (getRectLength x (Some dl) (d_right bs)) x y acc
    = Some st" using draw_loop_returns by blast
  with Cons d show ?case by (cases st) auto
qed simp

text \<open>A run of NaN length, at a position before the right bound, is never finished.\<close>

definition stuck :: "decoded_bounds \<Rightarrow> jsnum \<Rightarrow> jsnum \<Rightarrow> jsnum \<Rightarrow> bool" where
  "stuck bs dl len x \<longleftrightarrow> dl = None \<and>
     (\<exists>l r i. d_left bs = Some l \<and> d_right bs = Some r \<and> l < r \<and> x = Some i \<and> i < r \<and> len = Some (r - i))"

lemma draw_loop_NaN:
  "draw_loop bs ci hex dl len x y acc = Some st \<Longrightarrow> \<not> stuck bs dl len x"
proof (erule draw_loop.raw_induct [rotated, where P = "\<lambda>bs ci hex dl len x y acc st. \<not> stuck bs dl len x"])
  fix f :: "decoded_bounds \<Rightarrow> jsnum \<Rightarrow> string option \<Rightarrow> jsnum \<Rightarrow> jsnum \<Rightarrow>
     jsnum \<Rightarrow> jsnum \<Rightarrow> svg_rect list \<Rightarrow> (jsnum \<times> jsnum \<times> svg_rect list) option"
  fix bs ci hex dl len x y acc st
  assume IH: "\<And>bs ci hex dl len x y acc st. f bs ci hex dl len x y acc = Some st \<Longrightarrow> \<not> stuck bs dl len x"
    and eq: "(if js_lt (Some 0) len
      then (let svgRects' = (if ci \<noteq> Some 0
                             then acc @ [\<lparr>r_length = len, r_x = x, r_y = y, r_fill = hex\<rparr>]
                             else acc);
                x = js_add x len;
                wrap = js_eq x (d_right bs);
                x' = (if wrap then d_left bs else x);
                y' = (if wrap then js_add y (Some 1) else y);
                drawLength' = js_sub dl len
            in f bs ci hex drawLength' (getRectLength x' drawLength' (d_right bs))
                 x' y' svgRects')
      else Some (x, y, acc)) = Some st"
  show "\<not> stuck bs dl len x"
  proof
    assume "stuck bs dl len x"
    then obtain l r i where s: "dl = None" "d_left bs = Some l" "d_right bs = Some r" "l < r" "x = Some i"
      "i < r" "len = Some (r - i)" by (auto simp: stuck_def)
    obtain acc' where "f bs ci hex None (Some (r - l)) (Some l) (js_add y (Some 1)) acc' = Some st"
      using eq s by (auto simp: Let_def getRectLength_def split: if_splits)
    with IH s show False by (fastforce simp: stuck_def)
  qed
qed

section \<open>Palettes that grow\<close>

definition palette_extends :: "nat js_map \<Rightarrow> nat js_map \<Rightarrow> bool" where
  "palette_extends m m' \<longleftrightarrow> palette_ok m \<and> palette_ok m' \<and> (\<exists>new. m' = m @ new)"

lemma palette_extends_lookup:
  "palette_extends m m' \<Longrightarrow> map_of m k = Some i \<Longrightarrow> map_of m' k = Some i"
  by (auto simp: palette_extends_def)

lemma palette_extends_add_colors: "palette_ok m \<Longrightarrow> palette_extends m (add_colors img ps m)"
  using add_colors_prefix [of img ps m] by (simp add: palette_extends_def)

lemma palette_extends_trans:
  "palette_extends m m' \<Longrightarrow> palette_extends m' m'' \<Longrightarrow> palette_extends m m''"
  by (auto simp: palette_extends_def)

lemma paint_encoded_cells:
  assumes fits: "fits_format img colors"
    and ext: "palette_extends (fst (snd (toRLE img colors))) m'"
  shows "\<exists>out. draw_part (map fst m') (fst (toRLE img colors)) = Some out \<and>
    painted out = map (\<lambda>p. (p, Some (pixel_hex img p)))
      (filter (\<lambda>p. c_a (getRgbaAt img (fst p) (snd p)) \<noteq> 0) (bounds_pixels (calcBounds img)))"
proof -
  let ?ps = "bounds_pixels (calcBounds img)"
  let ?m = "add_colors img ?ps colors"
  have m: "palette_extends ?m m'" using ext by (simp add: toRLE_eq Let_def)
  have known: "\<exists>i. map_of ?m (pixel_hex img p) = Some i" if "p \<in> set ?ps" for p
    using add_colors_present [OF that] by auto
  have eq: "map (pixel_index img ?m) ?ps = map (pixel_index img m') ?ps"
    using known palette_extends_lookup [OF m] by (force simp: pixel_index_def)
  have "paint_values (map fst m') ?ps (map (pixel_index img ?m) ?ps)
    = map (\<lambda>p. (p, Some (pixel_hex img p))) (filter (\<lambda>p. c_a (getRgbaAt img (fst p) (snd p)) \<noteq> 0) ?ps)"
    unfolding eq
  proof (rule paint_values_pixels)
    show "palette_ok m'" using m by (simp add: palette_extends_def)
    show "map_of m' (pixel_hex img p) \<noteq> None" if "p \<in> set ?ps" for p
      using known [OF that] palette_extends_lookup [OF m] by auto
  qed
  with draw_encoded [OF fits, of "map fst m'"] show ?thesis by simp
qed

lemma opaque_in_bounds:
  assumes "0 < i_width img" "0 < i_height img"
  shows "set (filter (\<lambda>p. c_a (getRgbaAt img (fst p) (snd p)) \<noteq> 0) (bounds_pixels (calcBounds img)))
    = {(x, y). opaque img x y}"
  using calcBounds_range [OF assms] opaque_within_bounds [of img]
  by (fastforce simp: set_bounds_pixels opaque_def within_bounds_def)

section \<open>Properties\<close>

definition demo_image :: image where
  "demo_image = new_image 3 2 (\<lambda>x y. \<lparr>c_r = 255, c_g = 0, c_b = nat x, c_a = (if x = 0 \<and> y = 0 then 0 else 255)\<rparr>)"

lemma demo_image_fits: "fits_format demo_image [('''', 0)]"
  by code_simp

text \<open>C24. An image that fits the format, encoded by \<open>toRLE\<close> and given to \<open>buildSVG\<close> with
  the palette the encoder built (or a later, larger one), is drawn: the rectangles cover every
  opaque pixel exactly once, with that pixel's colour, and no other cell.\<close>

theorem svg_paints_image:
  assumes "fits_format img colors"
    and "palette_extends (fst (snd (toRLE img colors))) m'"
  shows "\<exists>out. buildSVG [fst (toRLE img colors)] (map fst m') bg
        = Some (svg_open bg @ concat (map render_rect out) @ ''</svg>'')
    \<and> distinct (map fst (painted out))
    \<and> set (painted out) = {((x, y), Some (pixel_hex img (x, y))) | x y. opaque img x y}"
proof -
  let ?f = "filter (\<lambda>p. c_a (getRgbaAt img (fst p) (snd p)) \<noteq> 0) (bounds_pixels (calcBounds img))"
  obtain out where out: "draw_part (map fst m') (fst (toRLE img colors)) = Some out"
    "painted out = map (\<lambda>p. (p, Some (pixel_hex img p))) ?f"
    using paint_encoded_cells [OF assms] by blast
  have "set ?f = {(x, y). opaque img x y}"
    using assms(1) by (intro opaque_in_bounds) (auto simp: fits_format_def)
  with out distinct_bounds_pixels show ?thesis
    by (intro exI [of _ out]) (auto simp: buildSVG_def o_def)
qed

theorem svg_paints_image_witness:
  "\<exists>out. buildSVG [fst (toRLE demo_image [('''', 0)])]
          (map fst (fst (snd (toRLE demo_image [('''', 0)])))) ''e1d7d5''
        = Some (svg_open ''e1d7d5'' @ concat (map render_rect out) @ ''</svg>'')
    \<and> distinct (map fst (painted out))
    \<and> set (painted out) = {((x, y), Some (pixel_hex demo_image (x, y))) | x y. opaque demo_image x y}"
proof (rule svg_paints_image [OF demo_image_fits])
  show "palette_extends (fst (snd (toRLE demo_image [('''', 0)]))) (fst (snd (toRLE demo_image [('''', 0)])))"
    unfolding palette_extends_def by (intro conjI exI [of _ "[]"]) code_simp+
qed

text \<open>Decoding what \<open>toRLE\<close> wrote gives back the bounds of the image and, expanded, the
  colour index of each pixel of the bounds in row order; the runs are 1 to 255 long and as long
  as that limit allows.\<close>

theorem decode_toRLE:
  assumes "fits_format img colors" and "toRLE img colors = (rle, colors', img')"
  shows "\<exists>rs. decodeImage rle = decoded_of (calcBounds img) rs
    \<and> expand_runs rs = map (pixel_index img colors') (bounds_pixels (calcBounds img))
    \<and> (\<forall>r \<in> set rs. 1 \<le> fst r \<and> fst r \<le> 255) \<and> maximal_runs rs"
  using decode_encoded [OF assms(1)] assms(2) runs_of_counts maximal_runs_of
  by (intro exI [of _ "runs_of (map (pixel_index img colors') (bounds_pixels (calcBounds img)))"])
     (auto simp: toRLE_eq Let_def)

theorem decode_toRLE_witness:
  "\<exists>rs. decodeImage (fst (toRLE demo_image [('''', 0)])) = decoded_of (calcBounds demo_image) rs
    \<and> expand_runs rs = map (pixel_index demo_image (fst (snd (toRLE demo_image [('''', 0)]))))
        (bounds_pixels (calcBounds demo_image))
    \<and> (\<forall>r \<in> set rs. 1 \<le> fst r \<and> fst r \<le> 255) \<and> maximal_runs rs"
  by (rule decode_toRLE [OF demo_image_fits, of _ _ "snd (snd (toRLE demo_image [('''', 0)]))"])
     (simp only: prod.collapse)

text \<open>The bounds \<open>calcBounds\<close> finds contain every opaque pixel, and each of the four sides
  touches one: they are the bounding box of the image's content.\<close>

theorem calcBounds_bounding_box:
  assumes "opaque img x0 y0"
  shows "(\<forall>x y. opaque img x y \<longrightarrow> within_bounds (calcBounds img) x y)
    \<and> (\<exists>x. opaque img x (b_top (calcBounds img))) \<and> (\<exists>x. opaque img x (b_bottom (calcBounds img)))
    \<and> (\<exists>y. opaque img (b_left (calcBounds img)) y) \<and> (\<exists>y. opaque img (b_right (calcBounds img) - 1) y)"
  using opaque_within_bounds calcBounds_tight [OF assms] by blast

theorem calcBounds_bounding_box_witness:
  "(\<exists>x. opaque demo_image x (b_top (calcBounds demo_image)))
    \<and> (\<exists>x. opaque demo_image x (b_bottom (calcBounds demo_image)))
    \<and> (\<exists>y. opaque demo_image (b_left (calcBounds demo_image)) y)
    \<and> (\<exists>y. opaque demo_image (b_right (calcBounds demo_image) - 1) y)"
proof -
  have "opaque demo_image 1 0" by code_simp
  from calcBounds_bounding_box [OF this] show ?thesis by blast
qed

text \<open>C26. \<open>buildSVG\<close> returns for every part whose run lengths decode to numbers, whatever the
  bounds, the colour indexes and the palette are.\<close>

theorem buildSVG_returns:
  assumes "\<forall>part \<in> set parts. \<forall>d \<in> set (rects (decodeImage part)). fst d \<noteq> None"
  shows "\<exists>svg. buildSVG parts palette bg = Some svg"
proof -
  have "\<exists>res. draw_parts palette parts acc = Some res" for acc
    using assms
  proof (induction parts arbitrary: acc)
    case (Cons part parts)
    then obtain out where "draw_part palette part = Some out"
      using draw_rects_returns unfolding draw_part_def Let_def by (metis list.set_intros(1))
    with Cons show ?case by simp
  qed simp
  then obtain res where "draw_parts palette parts (svg_open bg) = Some res" by blast
  then show ?thesis by (simp add: buildSVG_def)
qed

theorem buildSVG_returns_witness:
  "\<exists>svg. buildSVG [''0x000004010203010200'', ''''] [''''] ''d5d7e1'' = Some svg"
proof (rule buildSVG_returns)
  have "rects (decodeImage ''0x000004010203010200'') = [(Some 3, Some 1), (Some 2, Some 0)]"
    "rects (decodeImage '''') = []"
    by code_simp+
  then show "\<forall>part \<in> set [''0x000004010203010200'', '''']. \<forall>d \<in> set (rects (decodeImage part)). fst d \<noteq> None"
    by simp
qed

text \<open>A part whose first run length is not hexadecimal makes \<open>buildSVG\<close> draw lines for
  ever, when its bounds are not empty.\<close>

theorem buildSVG_diverges:
  assumes "d_left (d_bounds (decodeImage part)) = Some l" "d_right (d_bounds (decodeImage part)) = Some r"
    and "l < r" "rects (decodeImage part) = (None, ci) # ds"
  shows "buildSVG (part # parts) palette bg = None"
proof -
  let ?bs = "d_bounds (decodeImage part)"
  have "stuck ?bs None (Some (r - l)) (Some l)"
    using assms by (simp add: stuck_def)
  then have "draw_loop ?bs ci (palette_at palette ci) None (Some (r - l)) (Some l) (d_top ?bs) [] = None"
    using draw_loop_NaN not_Some_eq by metis
  then show ?thesis
    using assms by (simp add: buildSVG_def draw_part_def Let_def getRectLength_def)
qed

theorem buildSVG_diverges_witness:
  "buildSVG [''0x0000040100zz02''] [''''] ''d5d7e1'' = None"
  by (rule buildSVG_diverges [of _ 0 4 "Some 2" "[]"]) code_simp+

end
