(* ===== verification/Png_Encoder.thy ===== *)
theory Png_Encoder imports Svg_Builder "HOL-Library.Multiset" begin

text \<open>
  The collection encoder of the SDK, \<open>packages/nouns-sdk/src/image/png-collection-encoder.ts\<close>
  (class \<open>PNGCollectionEncoder\<close>): the shared colour map, the images by name, the folders.
  \<open>undefined\<close> values (\<open>images.get\<close> of a missing name, \<open>data.root\<close> of an empty
  collection) are \<open>None\<close>.
\<close>

section \<open>State and operations\<close>

record encoded_image =
  filename :: string
  img_data :: "string option"

record png_encoder =
  enc_colors :: "nat js_map"
  enc_images :: "string js_map"
  enc_folders :: "string list js_map"

definition new_encoder :: "string list option \<Rightarrow> png_encoder" where
  "new_encoder colors =
     \<lparr>enc_colors = (case colors of
          None \<Rightarrow> [('''', 0)]
        | Some cs \<Rightarrow> fold (\<lambda>(index, color) m. AList.update color index m) (zip [0..<length cs] cs) [('''', 0)]),
      enc_images = [], enc_folders = []\<rparr>"

definition encodeImage :: "string \<Rightarrow> image \<Rightarrow> string option \<Rightarrow> png_encoder \<Rightarrow> string \<times> png_encoder" where
  "encodeImage name png folder enc =
     (let (rle, colors, img) = toRLE (new_image (i_width png) (i_height png) (getRgbaAt png)) (enc_colors enc);
          enc1 = enc\<lparr>enc_colors := colors, enc_images := AList.update name rle (enc_images enc)\<rparr>
      in (rle,
          case folder of
            None \<Rightarrow> enc1
          | Some f \<Rightarrow>
              if f = '''' then enc1
              else (let names = (case map_of (enc_folders enc1) f of None \<Rightarrow> [] | Some ns \<Rightarrow> ns)
                    in enc1\<lparr>enc_folders := AList.update f (names @ [name]) (enc_folders enc1)\<rparr>)))"

text \<open>The own keys of an object in \<open>Object.entries\<close> order: array indexes first, ascending.\<close>

definition array_index :: "string \<Rightarrow> nat option" where
  "array_index s =
     (if s \<noteq> '''' \<and> list_all (\<lambda>c. 48 \<le> (of_char c :: nat) \<and> (of_char c :: nat) \<le> 57) s
      then (let n = undigits 10 (map (\<lambda>c. of_char c - 48) s)
            in if nat_to_string n = s \<and> n < 4294967295 then Some n else None)
      else None)"

definition object_entries :: "'v js_map \<Rightarrow> 'v js_map" where
  "object_entries m =
     sort_key (\<lambda>(k, v). the (array_index k)) (filter (\<lambda>(k, v). array_index k \<noteq> None) m)
       @ filter (\<lambda>(k, v). array_index k = None) m"

fun write_folder :: "string list \<Rightarrow> string js_map \<times> encoded_image list \<Rightarrow> string js_map \<times> encoded_image list" where
  "write_folder [] (images, out) = (images, out)"
| "write_folder (f # fs) (images, out) =
     write_folder fs (AList.delete f images, out @ [\<lparr>filename = f, img_data = map_of images f\<rparr>])"

fun write_folders :: "string list js_map \<Rightarrow> string js_map \<times> encoded_image list js_map \<Rightarrow>
    string js_map \<times> encoded_image list js_map" where
  "write_folders [] (images, result) = (images, result)"
| "write_folders ((folder, filenames) # rest) (images, result) =
     (let (images', out) = write_folder filenames (images, [])
      in write_folders rest (images', AList.update folder out result))"

definition format_images :: "bool \<Rightarrow> png_encoder \<Rightarrow> encoded_image list js_map" where
  "format_images flatten enc =
     (let images = enc_images enc;
          folders = object_entries (enc_folders enc);
          (images', dat) = (if \<not> flatten \<and> folders \<noteq> []
                            then write_folders folders (images, []) else (images, []))
      in if images' \<noteq> []
         then AList.update ''root'' (map (\<lambda>(f, d). \<lparr>filename = f, img_data = Some d\<rparr>) images') dat
         else dat)"

record image_data =
  palette :: "string list"
  images :: "encoded_image list js_map"

definition get_data :: "png_encoder \<Rightarrow> image_data" where
  "get_data enc = \<lparr>palette = map fst (enc_colors enc), images = format_images False enc\<rparr>"

definition get_images :: "png_encoder \<Rightarrow> encoded_image list option" where
  "get_images enc = map_of (format_images True enc) ''root''"

section \<open>The encoder as an event-driven component\<close>

record encode_call =
  call_name :: string
  call_png :: image
  call_folder :: "string option"

definition encode_step :: "encode_call \<Rightarrow> png_encoder \<Rightarrow> png_encoder" where
  "encode_step c enc = snd (encodeImage (call_name c) (call_png c) (call_folder c) enc)"

definition call_image :: "encode_call \<Rightarrow> image" where
  "call_image c = new_image (i_width (call_png c)) (i_height (call_png c)) (getRgbaAt (call_png c))"

text \<open>Each name once, no folder called \<open>root\<close>, and the image fits the format.\<close>

definition encode_ok :: "png_encoder \<Rightarrow> encode_call \<Rightarrow> bool" where
  "encode_ok enc c \<longleftrightarrow> map_of (enc_images enc) (call_name c) = None \<and> call_folder c \<noteq> Some ''root''
     \<and> fits_format (call_image c) (enc_colors enc)"

definition folder_names :: "png_encoder \<Rightarrow> string list" where
  "folder_names enc = concat (map snd (enc_folders enc))"

definition encoder_inv :: "png_encoder \<Rightarrow> bool" where
  "encoder_inv enc \<longleftrightarrow> palette_ok (enc_colors enc) \<and> distinct (map fst (enc_images enc))
     \<and> distinct (map fst (enc_folders enc)) \<and> ''root'' \<notin> fst ` set (enc_folders enc)
     \<and> distinct (folder_names enc) \<and> set (folder_names enc) \<subseteq> fst ` set (enc_images enc)"

section \<open>Bookkeeping\<close>

definition image_entry :: "string \<times> string \<Rightarrow> encoded_image" where
  "image_entry p = \<lparr>filename = fst p, img_data = Some (snd p)\<rparr>"

lemma mset_delete_entry:
  assumes "distinct (map fst m)" "map_of m k = Some v"
  shows "mset m = add_mset (k, v) (mset (AList.delete k m))"
  using assms
proof (induction m)
  case (Cons p m)
  show ?case
  proof (cases "fst p = k")
    case True
    with Cons.prems have "k \<notin> fst ` set m" "p = (k, v)" by (auto simp: prod_eq_iff)
    then show ?thesis by (simp add: delete_idem)
  next
    case False
    with Cons show ?thesis by (cases p) (auto simp: AList.delete_eq add_mset_commute)
  qed
qed simp

lemma distinct_delete_keys: "distinct (map fst m) \<Longrightarrow> distinct (map fst (AList.delete k m))"
  by (induction m) (auto simp: AList.delete_eq)

lemma keys_delete: "fst ` set (AList.delete k m) = fst ` set m - {k}"
  by (auto simp: AList.delete_eq image_iff)

lemma write_folder_entries:
  assumes "distinct fs" "set fs \<subseteq> fst ` set m" "distinct (map fst m)" "write_folder fs (m, out) = (m', out')"
  shows "mset out' + image_mset image_entry (mset m') = mset out + image_mset image_entry (mset m)
    \<and> distinct (map fst m') \<and> fst ` set m' = fst ` set m - set fs"
  using assms
proof (induction fs arbitrary: m out)
  case (Cons f fs)
  then obtain d where d: "map_of m f = Some d"
    by (metis (no_types, lifting) list.set_intros(1) map_of_eq_None_iff not_Some_eq subsetD)
  let ?m = "AList.delete f m"
  have "mset out' + image_mset image_entry (mset m')
      = mset (out @ [\<lparr>filename = f, img_data = map_of m f\<rparr>]) + image_mset image_entry (mset ?m)
    \<and> distinct (map fst m') \<and> fst ` set m' = fst ` set ?m - set fs"
    using Cons.prems by (intro Cons.IH) (auto simp: keys_delete distinct_delete_keys)
  then show ?case
    using mset_delete_entry [OF Cons.prems(3) d] d by (auto simp: image_entry_def [of "(f, d)"] keys_delete)
qed simp

lemma write_folders_entries:
  assumes "distinct (concat (map snd fds))" "set (concat (map snd fds)) \<subseteq> fst ` set m" "distinct (map fst m)"
    and "distinct (map fst fds)" "fst ` set fds \<inter> fst ` set res = {}"
    and "write_folders fds (m, res) = (m', res')"
  shows "mset (concat (map snd res')) + image_mset image_entry (mset m')
      = mset (concat (map snd res)) + image_mset image_entry (mset m)
    \<and> fst ` set res' = fst ` set res \<union> fst ` set fds
    \<and> fst ` set m' = fst ` set m - set (concat (map snd fds))"
  using assms
proof (induction fds arbitrary: m res)
  case (Cons fd fds)
  obtain folder fs where fd: "fd = (folder, fs)" by (cases fd)
  obtain m1 out where w: "write_folder fs (m, []) = (m1, out)" by fastforce
  have new: "AList.update folder out res = res @ [(folder, out)]"
    using Cons.prems(5) fd by (intro update_new) auto
  have one: "mset out + image_mset image_entry (mset m1) = image_mset image_entry (mset m)"
    "distinct (map fst m1)" "fst ` set m1 = fst ` set m - set fs"
    using write_folder_entries [OF _ _ Cons.prems(3) w] Cons.prems(1,2) fd by auto
  have "mset (concat (map snd res')) + image_mset image_entry (mset m')
      = mset (concat (map snd (res @ [(folder, out)]))) + image_mset image_entry (mset m1)
    \<and> fst ` set res' = fst ` set (res @ [(folder, out)]) \<union> fst ` set fds
    \<and> fst ` set m' = fst ` set m1 - set (concat (map snd fds))"
  proof (rule Cons.IH)
    show "set (concat (map snd fds)) \<subseteq> fst ` set m1"
      using Cons.prems(1,2) fd one(3) by auto
    show "write_folders fds (m1, res @ [(folder, out)]) = (m', res')"
      using Cons.prems(6) fd w new by simp
  qed (use Cons.prems fd one in auto)
  then show ?case using one fd by (auto simp: ac_simps)
qed simp

lemma mset_object_entries: "mset (object_entries m) = mset m"
proof -
  have "mset (filter P m) + mset (filter (\<lambda>x. \<not> P x) m) = mset m" for P
    by (induction m) auto
  from this [of "\<lambda>(k, v). array_index k \<noteq> None"] show ?thesis
    by (simp add: object_entries_def case_prod_unfold)
qed

lemma object_entries_perm:
  "mset (concat (map snd (object_entries m))) = mset (concat (map snd m))"
  "mset (map fst (object_entries m)) = mset (map fst m)"
proof -
  have "sum_list (map f xs) = sum_list (map f ys)" if "mset xs = mset ys"
    for f :: "string \<times> 'a list \<Rightarrow> 'a multiset" and xs ys
    using that by (metis mset_map sum_mset_sum_list)
  from this [OF mset_object_entries] show "mset (concat (map snd (object_entries m))) = mset (concat (map snd m))"
    by (simp add: mset_concat o_def)
  show "mset (map fst (object_entries m)) = mset (map fst m)"
    using mset_object_entries by (metis mset_map)
qed

lemma format_images_entries:
  assumes "encoder_inv enc"
  shows "mset (concat (map snd (format_images flatten enc))) = mset (map image_entry (enc_images enc))"
proof -
  let ?fds = "object_entries (enc_folders enc)"
  have fds: "distinct (concat (map snd ?fds))" "set (concat (map snd ?fds)) \<subseteq> fst ` set (enc_images enc)"
    "distinct (map fst ?fds)" "''root'' \<notin> fst ` set ?fds"
    using assms object_entries_perm [of "enc_folders enc"]
      mset_eq_imp_distinct_iff mset_eq_setD unfolding encoder_inv_def folder_names_def
    by (metis, metis, metis, metis list.set_map)
  define st where "st = (if \<not> flatten \<and> ?fds \<noteq> [] then write_folders ?fds (enc_images enc, []) else (enc_images enc, []))"
  obtain m' res' where st': "st = (m', res')" by (cases st)
  have "mset (concat (map snd res')) + image_mset image_entry (mset m') = image_mset image_entry (mset (enc_images enc))
     \<and> ''root'' \<notin> fst ` set res'"
  proof (cases "\<not> flatten \<and> ?fds \<noteq> []")
    case True
    with st' have "write_folders ?fds (enc_images enc, []) = (m', res')" by (simp add: st_def)
    with write_folders_entries [OF fds(1,2) _ fds(3), of "[]" m' res'] fds(4) assms show ?thesis
      by (simp add: encoder_inv_def)
  next
    case False
    with st' show ?thesis by (auto simp: st_def)
  qed
  moreover have "(\<lambda>(f, d). \<lparr>filename = f, img_data = Some d\<rparr>) = image_entry"
    by (auto simp: image_entry_def)
  ultimately show ?thesis
    using st' by (cases "m' = []") (simp_all add: format_images_def Let_def st_def [symmetric] update_new)
qed

section \<open>The invariant\<close>

text \<open>The state with the calls made so far: each image is stored under its name, and the palette
  has only grown since it was encoded.\<close>

type_synonym encoder_log = "png_encoder \<times> encode_call list"

definition log_step :: "encode_call \<Rightarrow> encoder_log \<Rightarrow> encoder_log" where
  "log_step c st = (encode_step c (fst st), snd st @ [c])"

definition log_ok :: "encoder_log \<Rightarrow> encode_call \<Rightarrow> bool" where
  "log_ok st c = encode_ok (fst st) c"

definition log_inv :: "encoder_log \<Rightarrow> bool" where
  "log_inv st \<longleftrightarrow> encoder_inv (fst st) \<and> map fst (enc_images (fst st)) = map call_name (snd st)
     \<and> (\<forall>c \<in> set (snd st). \<exists>colors. fits_format (call_image c) colors
          \<and> map_of (enc_images (fst st)) (call_name c) = Some (fst (toRLE (call_image c) colors))
          \<and> palette_extends (fst (snd (toRLE (call_image c) colors))) (enc_colors (fst st)))"

lemma encode_step_colors [simp]:
  "enc_colors (encode_step c enc) = fst (snd (toRLE (call_image c) (enc_colors enc)))"
  by (simp add: encode_step_def encodeImage_def Let_def call_image_def case_prod_unfold split: option.split)

lemma encode_step_images [simp]:
  "enc_images (encode_step c enc)
     = AList.update (call_name c) (fst (toRLE (call_image c) (enc_colors enc))) (enc_images enc)"
  by (simp add: encode_step_def encodeImage_def Let_def call_image_def case_prod_unfold split: option.split)

definition push_name :: "string \<Rightarrow> string \<Rightarrow> string list js_map \<Rightarrow> string list js_map" where
  "push_name f n m = AList.update f ((case map_of m f of None \<Rightarrow> [] | Some ns \<Rightarrow> ns) @ [n]) m"

lemma encode_step_folders:
  "enc_folders (encode_step c enc)
     = (case call_folder c of None \<Rightarrow> enc_folders enc
        | Some f \<Rightarrow> if f = '''' then enc_folders enc else push_name f (call_name c) (enc_folders enc))"
  by (simp add: encode_step_def encodeImage_def Let_def push_name_def case_prod_unfold split: option.split)

lemma push_name_entries:
  "distinct (map fst m) \<Longrightarrow>
     mset (concat (map snd (push_name f n m))) = add_mset n (mset (concat (map snd m)))"
proof (induction m)
  case (Cons p m)
  have "map_of m f = None" if "f \<notin> fst ` set m" using that by (simp add: map_of_eq_None_iff)
  with Cons show ?case by (cases p) (auto simp: push_name_def)
qed (simp add: push_name_def)

lemma push_name_keys:
  "distinct (map fst m) \<Longrightarrow> distinct (map fst (push_name f n m)) \<and> fst ` set (push_name f n m) = insert f (fst ` set m)"
  by (simp add: push_name_def distinct_update dom_update)

lemma toRLE_colors: "palette_ok m \<Longrightarrow> palette_extends m (fst (snd (toRLE img m)))"
  by (simp add: toRLE_eq Let_def palette_extends_add_colors)

lemma encode_step_inv:
  assumes inv: "encoder_inv enc" and ok: "encode_ok enc c"
  shows "encoder_inv (encode_step c enc)"
proof -
  have new: "call_name c \<notin> fst ` set (enc_images enc)"
    using ok by (simp add: encode_ok_def map_of_eq_None_iff)
  have k: "distinct (map fst (enc_folders enc))" using inv by (simp add: encoder_inv_def)
  have base: "palette_ok (enc_colors (encode_step c enc))" "distinct (map fst (enc_images (encode_step c enc)))"
    "fst ` set (enc_images (encode_step c enc)) = insert (call_name c) (fst ` set (enc_images enc))"
    using inv toRLE_colors [of "enc_colors enc" "call_image c"]
    by (simp_all add: encoder_inv_def palette_extends_def distinct_update dom_update)
  have old: "distinct (folder_names enc)" "set (folder_names enc) \<subseteq> fst ` set (enc_images enc)"
    "''root'' \<notin> fst ` set (enc_folders enc)"
    using inv by (simp_all add: encoder_inv_def)
  show ?thesis
  proof (cases "enc_folders (encode_step c enc) = enc_folders enc")
    case True
    with base old k show ?thesis by (auto simp: encoder_inv_def folder_names_def)
  next
    case False
    then obtain f where f: "call_folder c = Some f" "f \<noteq> ''root''"
      "enc_folders (encode_step c enc) = push_name f (call_name c) (enc_folders enc)"
      using ok by (auto simp: encode_step_folders encode_ok_def split: option.splits if_splits)
    have "mset (folder_names (encode_step c enc)) = mset (call_name c # folder_names enc)"
      using push_name_entries [OF k] f by (simp add: folder_names_def)
    from mset_eq_imp_distinct_iff [OF this] mset_eq_setD [OF this] new old
    have "distinct (folder_names (encode_step c enc))"
      "set (folder_names (encode_step c enc)) \<subseteq> fst ` set (enc_images (encode_step c enc))"
      unfolding base(3) by auto
    with base push_name_keys [OF k] f old show ?thesis by (auto simp: encoder_inv_def)
  qed
qed

lemma log_step_inv:
  assumes inv: "log_inv st" and ok: "log_ok st c"
  shows "log_inv (log_step c st)"
proof -
  obtain enc hist where st: "st = (enc, hist)" by (cases st)
  have i: "encoder_inv enc" "map fst (enc_images enc) = map call_name hist" and o: "encode_ok enc c"
    using inv ok by (auto simp: st log_inv_def log_ok_def)
  have new: "call_name c \<notin> fst ` set (enc_images enc)" and fits: "fits_format (call_image c) (enc_colors enc)"
    using o by (auto simp: encode_ok_def map_of_eq_None_iff)
  have pal: "palette_ok (enc_colors enc)" using i by (simp add: encoder_inv_def)
  let ?r = "toRLE (call_image c) (enc_colors enc)"
  have grow: "palette_extends (enc_colors enc) (fst (snd ?r))" using pal by (rule toRLE_colors)
  then have self: "palette_extends (fst (snd ?r)) (fst (snd ?r))" by (auto simp: palette_extends_def)
  have "\<exists>colors. fits_format (call_image d) colors
          \<and> map_of (enc_images (encode_step c enc)) (call_name d) = Some (fst (toRLE (call_image d) colors))
          \<and> palette_extends (fst (snd (toRLE (call_image d) colors))) (enc_colors (encode_step c enc))"
    if d: "d \<in> set (hist @ [c])" for d
  proof (cases "d = c")
    case True
    with fits self show ?thesis by (intro exI [of _ "enc_colors enc"]) simp
  next
    case False
    with d have dd: "d \<in> set hist" by simp
    then have "call_name d \<in> fst ` set (enc_images enc)" using i(2) by (metis image_eqI list.set_map)
    with new have "call_name d \<noteq> call_name c" by metis
    with inv dd grow show ?thesis by (fastforce simp: st log_inv_def intro: palette_extends_trans)
  qed
  with encode_step_inv [OF i(1) o] i(2) new show ?thesis
    by (simp add: st log_step_def log_inv_def update_new)
qed

interpretation png: event_driven log_step log_ok log_inv
  by unfold_locales (rule log_step_inv)

lemma log_inv_start: "log_inv (new_encoder None, [])"
  by (simp add: log_inv_def encoder_inv_def new_encoder_def palette_ok_def folder_names_def)

lemma log_run: "fold log_step cs (enc, hist) = (fold encode_step cs enc, hist @ cs)"
  by (induction cs arbitrary: enc hist) (auto simp: log_step_def)

lemma log_admissible: "admissible log_ok log_step cs (enc, hist) = admissible encode_ok encode_step cs enc"
  by (induction cs arbitrary: enc hist) (auto simp: log_step_def log_ok_def)

lemma encoder_run:
  assumes "admissible encode_ok encode_step cs (new_encoder None)"
  shows "log_inv (fold encode_step cs (new_encoder None), cs)"
  using png.run_inv [OF log_inv_start, of cs] assms by (simp add: log_run log_admissible)

section \<open>Properties\<close>

definition demo_calls :: "encode_call list" where
  "demo_calls =
     [\<lparr>call_name = ''head'', call_png = demo_image, call_folder = Some ''heads''\<rparr>,
      \<lparr>call_name = ''body'', call_png = demo_image, call_folder = None\<rparr>]"

lemma demo_calls_admissible: "admissible encode_ok encode_step demo_calls (new_encoder None)"
  by code_simp



text \<open>The files written out hold each encoded image exactly once: over all folders and
  \<open>root\<close>, \<open>data.images\<close> lists the stored images, and so does the flattened \<open>images\<close>.\<close>

theorem collection_lists_every_image:
  assumes "admissible encode_ok encode_step cs (new_encoder None)"
  shows "mset (concat (map snd (images (get_data (fold encode_step cs (new_encoder None))))))
      = mset (map image_entry (enc_images (fold encode_step cs (new_encoder None))))
    \<and> map fst (enc_images (fold encode_step cs (new_encoder None))) = map call_name cs
    \<and> get_images (fold encode_step cs (new_encoder None))
        = (if cs = [] then None else Some (map image_entry (enc_images (fold encode_step cs (new_encoder None)))))"
proof -
  let ?enc = "fold encode_step cs (new_encoder None)"
  have inv: "encoder_inv ?enc" "map fst (enc_images ?enc) = map call_name cs"
    using encoder_run [OF assms] by (auto simp: log_inv_def)
  have "(\<lambda>(f, d). \<lparr>filename = f, img_data = Some d\<rparr>) = image_entry"
    by (auto simp: image_entry_def)
  moreover have "enc_images ?enc = [] \<longleftrightarrow> cs = []"
    using inv(2) by (metis map_is_Nil_conv)
  ultimately have "get_images ?enc = (if cs = [] then None else Some (map image_entry (enc_images ?enc)))"
    by (simp add: get_images_def format_images_def)
  with format_images_entries [OF inv(1)] inv(2) show ?thesis by (simp add: get_data_def)
qed

theorem collection_lists_every_image_witness:
  "mset (concat (map snd (images (get_data (fold encode_step demo_calls (new_encoder None))))))
      = mset (map image_entry (enc_images (fold encode_step demo_calls (new_encoder None))))
    \<and> map fst (enc_images (fold encode_step demo_calls (new_encoder None))) = map call_name demo_calls
    \<and> get_images (fold encode_step demo_calls (new_encoder None))
        = (if demo_calls = [] then None else Some (map image_entry (enc_images (fold encode_step demo_calls (new_encoder None)))))"
  by (rule collection_lists_every_image [OF demo_calls_admissible])

text \<open>Images are kept by name alone: encoding two images of one name into two folders keeps
  only the second, and \<open>data\<close> writes an entry with \<open>undefined\<close> data for the other.\<close>

theorem same_name_loses_image:
  fixes n :: string and img1 img2 :: image
  assumes "a \<noteq> b" "array_index a = None" "array_index b = None" "a \<noteq> ''''" "b \<noteq> ''''" "b \<noteq> ''root''"
  defines "enc \<equiv> snd (encodeImage n img2 (Some b) (snd (encodeImage n img1 (Some a) (new_encoder None))))"
  shows "map_of (images (get_data enc)) b = Some [\<lparr>filename = n, img_data = None\<rparr>]
    \<and> map_of (images (get_data enc)) a
        = Some [\<lparr>filename = n, img_data = Some (fst (encodeImage n img2 (Some b)
              (snd (encodeImage n img1 (Some a) (new_encoder None)))))\<rparr>]"
  using assms(1-6)
  by (simp add: enc_def encodeImage_def Let_def case_prod_unfold new_encoder_def get_data_def format_images_def
      object_entries_def)

theorem same_name_loses_image_witness:
  "map_of (images (get_data (snd (encodeImage ''x'' demo_image (Some ''glasses'')
        (snd (encodeImage ''x'' demo_image (Some ''heads'') (new_encoder None))))))) ''glasses''
      = Some [\<lparr>filename = ''x'', img_data = None\<rparr>]"
proof -
  have "array_index ''heads'' = None" "array_index ''glasses'' = None" by code_simp+
  then show ?thesis
    using same_name_loses_image [of "''heads''" "''glasses''" "''x''" demo_image demo_image] by simp
qed

end
