(* ===== verification/Web_Auction.thy ===== *)
theory Web_Auction imports Nouns_Prelude begin

text \<open>
  The auction state of the web application (\<open>packages/nouns-webapp/src\<close>): the slices
  \<open>state/slices/auction.ts\<close>, \<open>onDisplayAuction.ts\<close>, \<open>pastAuctions.ts\<close>, \<open>account.ts\<close>,
  \<open>contracts.ts\<close> and \<open>application.ts\<close>, the events of \<open>utils/types.ts\<close>, and the selectors
  of \<open>utils/nounderNoun.ts\<close>, \<open>wrappers/onDisplayAuction.ts\<close> and \<open>wrappers/nounsAuction.ts\<close>.
  A \<open>BigNumber\<close>, and the JSON form in which the store keeps it, is an \<open>int\<close>.
\<close>

section \<open>Data\<close>

record auction =
  amount :: int
  bidder :: string
  startTime :: int
  endTime :: int
  nounId :: int
  settled :: bool

record bid_event =
  b_nounId :: int
  b_sender :: string
  b_value :: int
  b_extended :: bool
  b_transactionHash :: string
  b_timestamp :: int

record auction_create_event =
  cr_nounId :: int
  cr_startTime :: int
  cr_endTime :: int

record auction_settled_event =
  se_nounId :: int
  se_winner :: string
  se_amount :: int

record auction_extended_event =
  ex_nounId :: int
  ex_endTime :: int

record auction_state =
  activeAuction :: "auction option"
  a_bids :: "bid_event list"

definition initial_auction_state :: auction_state where
  "initial_auction_state = \<lparr>activeAuction = None, a_bids = []\<rparr>"

section \<open>The auction slice\<close>

definition reduxSafeNewAuction :: "auction_create_event \<Rightarrow> auction" where
  "reduxSafeNewAuction a =
     \<lparr>amount = 0, bidder = '''', startTime = cr_startTime a, endTime = cr_endTime a,
      nounId = cr_nounId a, settled = False\<rparr>"

definition reduxSafeAuction :: "auction \<Rightarrow> auction" where
  "reduxSafeAuction a =
     \<lparr>amount = amount a, bidder = bidder a, startTime = startTime a, endTime = endTime a,
      nounId = nounId a, settled = settled a\<rparr>"

definition reduxSafeBid :: "bid_event \<Rightarrow> bid_event" where
  "reduxSafeBid b =
     \<lparr>b_nounId = b_nounId b, b_sender = b_sender b, b_value = b_value b, b_extended = b_extended b,
      b_transactionHash = b_transactionHash b, b_timestamp = b_timestamp b\<rparr>"

text \<open>\<open>reduce\<close> without a start value; it throws on an empty array, which the slice never passes.\<close>

fun maxBid :: "bid_event list \<Rightarrow> bid_event option" where
  "maxBid [] = None"
| "maxBid (b # bs) = Some (foldl (\<lambda>prev current. if b_value prev > b_value current then prev else current) b bs)"

definition containsBid :: "bid_event list \<Rightarrow> bid_event \<Rightarrow> bool" where
  "containsBid bs b = (b_transactionHash b \<in> set (map b_transactionHash bs))"

definition setActiveAuction :: "auction_create_event \<Rightarrow> auction_state \<Rightarrow> auction_state" where
  "setActiveAuction e st = st\<lparr>activeAuction := Some (reduxSafeNewAuction e), a_bids := []\<rparr>"

definition setFullAuction :: "auction \<Rightarrow> auction_state \<Rightarrow> auction_state" where
  "setFullAuction a st = st\<lparr>activeAuction := Some (reduxSafeAuction a)\<rparr>"

definition appendBid :: "bid_event \<Rightarrow> auction_state \<Rightarrow> auction_state" where
  "appendBid b st =
     (case activeAuction st of
        None \<Rightarrow> st
      | Some a \<Rightarrow>
          if nounId a \<noteq> b_nounId b then st
          else if containsBid (a_bids st) b then st
          else (let bs = reduxSafeBid b # a_bids st
                in case maxBid bs of
                     None \<Rightarrow> st
                   | Some m \<Rightarrow> st\<lparr>a_bids := bs, activeAuction := Some (a\<lparr>amount := b_value m, bidder := b_sender m\<rparr>)\<rparr>))"

definition setAuctionSettled :: "auction_settled_event \<Rightarrow> auction_state \<Rightarrow> auction_state" where
  "setAuctionSettled e st =
     (case activeAuction st of
        None \<Rightarrow> st
      | Some a \<Rightarrow>
          if nounId a \<noteq> se_nounId e then st
          else st\<lparr>activeAuction := Some (a\<lparr>settled := True, bidder := se_winner e, amount := se_amount e\<rparr>)\<rparr>)"

definition setAuctionExtended :: "auction_extended_event \<Rightarrow> auction_state \<Rightarrow> auction_state" where
  "setAuctionExtended e st =
     (case activeAuction st of
        None \<Rightarrow> st
      | Some a \<Rightarrow>
          if nounId a \<noteq> ex_nounId e then st
          else st\<lparr>activeAuction := Some (a\<lparr>endTime := ex_endTime e\<rparr>)\<rparr>)"

section \<open>The auction on display\<close>

record on_display_state =
  lastAuctionNounId :: "int option"
  onDisplayAuctionNounId :: "int option"

definition initial_on_display :: on_display_state where
  "initial_on_display = \<lparr>lastAuctionNounId = None, onDisplayAuctionNounId = None\<rparr>"

definition setLastAuctionNounId :: "int \<Rightarrow> on_display_state \<Rightarrow> on_display_state" where
  "setLastAuctionNounId n st = st\<lparr>lastAuctionNounId := Some n\<rparr>"

definition setOnDisplayAuctionNounId :: "int \<Rightarrow> on_display_state \<Rightarrow> on_display_state" where
  "setOnDisplayAuctionNounId n st = st\<lparr>onDisplayAuctionNounId := Some n\<rparr>"

definition setPrevOnDisplayAuctionNounId :: "on_display_state \<Rightarrow> on_display_state" where
  "setPrevOnDisplayAuctionNounId st =
     (case onDisplayAuctionNounId st of
        None \<Rightarrow> st
      | Some n \<Rightarrow> if n = 0 then st else st\<lparr>onDisplayAuctionNounId := Some (n - 1)\<rparr>)"

definition setNextOnDisplayAuctionNounId :: "on_display_state \<Rightarrow> on_display_state" where
  "setNextOnDisplayAuctionNounId st =
     (case onDisplayAuctionNounId st of
        None \<Rightarrow> st
      | Some n \<Rightarrow>
          if lastAuctionNounId st = Some n then st
          else st\<lparr>onDisplayAuctionNounId := Some (n + 1)\<rparr>)"

section \<open>Past auctions\<close>

text \<open>A row of the query result: \<open>bidder\<close> may be null.\<close>

record past_bid =
  pb_id :: string
  pb_amount :: int
  pb_blockTimestamp :: int
  pb_bidder :: string

record past_auction =
  pa_id :: int
  pa_amount :: int
  pa_startTime :: int
  pa_endTime :: int
  pa_bidder :: "string option"
  pa_bids :: "past_bid list"

definition reduxSafePastAuctions :: "past_auction list \<Rightarrow> auction_state list" where
  "reduxSafePastAuctions auctions =
     map (\<lambda>a. \<lparr>activeAuction = Some \<lparr>amount = pa_amount a,
                 bidder = (case pa_bidder a of Some k \<Rightarrow> k | None \<Rightarrow> ''''),
                 startTime = pa_startTime a, endTime = pa_endTime a, nounId = pa_id a, settled = False\<rparr>,
               a_bids = map (\<lambda>b. \<lparr>b_nounId = pa_id a, b_sender = pb_bidder b, b_value = pb_amount b,
                 b_extended = False, b_transactionHash = pb_id b, b_timestamp = pb_blockTimestamp b\<rparr>) (pa_bids a)\<rparr>)
       auctions"

definition addPastAuctions :: "past_auction list \<Rightarrow> auction_state list \<Rightarrow> auction_state list" where
  "addPastAuctions data st = reduxSafePastAuctions data"

section \<open>Small slices\<close>

text \<open>\<open>setActiveAccount\<close> of \<open>account.ts\<close> and of \<open>contracts.ts\<close>: null becomes undefined.\<close>

definition setActiveAccount :: "string option \<Rightarrow> string option \<Rightarrow> string option" where
  "setActiveAccount payload activeAccount = payload"

record application_state =
  stateBackgroundColor :: string
  isCoolBackground :: bool
  alertModal :: "bool \<times> string option \<times> string option"

definition grey :: string where
  "grey = ''#d5d7e1''"

definition initial_application :: application_state where
  "initial_application =
     \<lparr>stateBackgroundColor = grey, isCoolBackground = True, alertModal = (False, None, None)\<rparr>"

definition setStateBackgroundColor :: "string \<Rightarrow> application_state \<Rightarrow> application_state" where
  "setStateBackgroundColor c st = st\<lparr>stateBackgroundColor := c, isCoolBackground := (c = grey)\<rparr>"

definition setAlertModal :: "bool \<times> string option \<times> string option \<Rightarrow> application_state \<Rightarrow> application_state" where
  "setAlertModal m st = st\<lparr>alertModal := m\<rparr>"

section \<open>Selectors\<close>

definition isNounderNoun :: "int \<Rightarrow> bool" where
  "isNounderNoun n = (n mod 10 = 0 \<or> n = 0)"

definition emptyNounderAuction :: "int \<Rightarrow> auction" where
  "emptyNounderAuction n =
     \<lparr>amount = 0, bidder = '''', startTime = 0, endTime = 0, nounId = n, settled = False\<rparr>"

text \<open>\<open>BigNumber.from(undefined)\<close> throws: a state without an auction before the one sought is an
  error (\<open>Inl\<close>).\<close>

datatype js_error = InvalidBigNumber

fun findAuction :: "int \<Rightarrow> auction_state list \<Rightarrow> js_error + auction option" where
  "findAuction n [] = Inr None"
| "findAuction n (st # sts) =
     (case activeAuction st of
        None \<Rightarrow> Inl InvalidBigNumber
      | Some a \<Rightarrow> if nounId a = n then Inr (Some a) else findAuction n sts)"

definition generateEmptyNounderAuction :: "int \<Rightarrow> auction_state list \<Rightarrow> js_error + auction" where
  "generateEmptyNounderAuction n pastAuctions =
     (case findAuction (n + 1) pastAuctions of
        Inl err \<Rightarrow> Inl err
      | Inr None \<Rightarrow> Inr (emptyNounderAuction n)
      | Inr (Some next_auction) \<Rightarrow> Inr ((emptyNounderAuction n)\<lparr>startTime := startTime next_auction\<rparr>))"

definition deserializeAuction :: "auction \<Rightarrow> auction" where
  "deserializeAuction a =
     \<lparr>amount = amount a, bidder = bidder a, startTime = startTime a, endTime = endTime a,
      nounId = nounId a, settled = False\<rparr>"

definition deserializeBid :: "bid_event \<Rightarrow> bid_event" where
  "deserializeBid b =
     \<lparr>b_nounId = b_nounId b, b_sender = b_sender b, b_value = b_value b, b_extended = b_extended b,
      b_transactionHash = b_transactionHash b, b_timestamp = b_timestamp b\<rparr>"

definition deserializeBids :: "bid_event list \<Rightarrow> bid_event list" where
  "deserializeBids bs = sort_key (\<lambda>b. - b_timestamp b) (map deserializeBid bs)"

text \<open>The first state whose auction satisfies a condition; states without one are passed over.\<close>

definition find_past :: "(auction \<Rightarrow> bool) \<Rightarrow> auction_state list \<Rightarrow> auction_state option" where
  "find_past P sts = find (\<lambda>st. case activeAuction st of None \<Rightarrow> False | Some a \<Rightarrow> P a) sts"

definition useOnDisplayAuction ::
    "auction_state \<Rightarrow> on_display_state \<Rightarrow> auction_state list option \<Rightarrow> js_error + auction option" where
  "useOnDisplayAuction st disp past =
     (case (onDisplayAuctionNounId disp, activeAuction st, past) of
        (Some n, Some current, Some pastAuctions) \<Rightarrow>
          if n = nounId current then Inr (Some (deserializeAuction current))
          else if isNounderNoun n
          then (case generateEmptyNounderAuction n pastAuctions of
                  Inl err \<Rightarrow> Inl err | Inr a \<Rightarrow> Inr (Some (deserializeAuction a)))
          else Inr (case find_past (\<lambda>a. nounId a = n) pastAuctions of
                      None \<Rightarrow> None | Some found \<Rightarrow> map_option deserializeAuction (activeAuction found))
      | _ \<Rightarrow> Inr None)"

definition useAuctionBids ::
    "int \<Rightarrow> auction_state \<Rightarrow> on_display_state \<Rightarrow> auction_state list \<Rightarrow> bid_event list option" where
  "useAuctionBids n st disp pastAuctions =
     (if lastAuctionNounId disp = Some n then Some (deserializeBids (a_bids st))
      else map_option (\<lambda>found. deserializeBids (a_bids found)) (find_past (\<lambda>a. nounId a = n) pastAuctions))"

definition useNounCanVoteTimestamp :: "int \<Rightarrow> auction_state list \<Rightarrow> int" where
  "useNounCanVoteTimestamp n pastAuctions =
     (let nextNounId = n + 1;
          forQuery = (if isNounderNoun nextNounId then nextNounId + 1 else nextNounId)
      in case find_past (\<lambda>a. nounId a = forQuery) pastAuctions of
           None \<Rightarrow> 0
         | Some found \<Rightarrow> (case activeAuction found of None \<Rightarrow> 0 | Some a \<Rightarrow> startTime a))"

section \<open>The invariant of the auction slice\<close>

datatype auction_action =
    SetActive auction_create_event
  | SetFull auction
  | Append bid_event
  | Settled auction_settled_event
  | Extended auction_extended_event

definition auction_reducer :: "auction_action \<Rightarrow> auction_state \<Rightarrow> auction_state" where
  "auction_reducer act st =
     (case act of
        SetActive e \<Rightarrow> setActiveAuction e st
      | SetFull a \<Rightarrow> setFullAuction a st
      | Append b \<Rightarrow> appendBid b st
      | Settled e \<Rightarrow> setAuctionSettled e st
      | Extended e \<Rightarrow> setAuctionExtended e st)"

text \<open>The whole auction is only set before bids have come in.\<close>

definition auction_ok :: "auction_state \<Rightarrow> auction_action \<Rightarrow> bool" where
  "auction_ok st act = (case act of SetFull a \<Rightarrow> a_bids st = [] | _ \<Rightarrow> True)"

definition auction_inv :: "auction_state \<Rightarrow> bool" where
  "auction_inv st \<longleftrightarrow> distinct (map b_transactionHash (a_bids st))
     \<and> (case activeAuction st of
          None \<Rightarrow> a_bids st = []
        | Some a \<Rightarrow> (\<forall>b \<in> set (a_bids st). b_nounId b = nounId a)
            \<and> (a_bids st \<noteq> [] \<and> \<not> settled a \<longrightarrow>
                (\<exists>b \<in> set (a_bids st). b_value b = amount a \<and> b_sender b = bidder a)
                \<and> (\<forall>b \<in> set (a_bids st). b_value b \<le> amount a)))"

lemma maxBid_max:
  assumes "maxBid bs = Some m"
  shows "m \<in> set bs \<and> (\<forall>b \<in> set bs. b_value b \<le> b_value m)"
proof -
  have "foldl (\<lambda>p c. if b_value p > b_value c then p else c) x xs \<in> set (x # xs)
    \<and> (\<forall>b \<in> set (x # xs). b_value b \<le> b_value (foldl (\<lambda>p c. if b_value p > b_value c then p else c) x xs))"
    for x :: bid_event and xs
  proof (induction xs arbitrary: x)
    case (Cons y ys)
    let ?z = "if b_value x > b_value y then x else y"
    define r where "r = foldl (\<lambda>p c. if b_value p > b_value c then p else c) ?z ys"
    have r: "r \<in> set (?z # ys)" "b_value ?z \<le> b_value r" "\<forall>b \<in> set ys. b_value b \<le> b_value r"
      using Cons [of ?z] unfolding r_def by simp_all
    have z: "?z = x \<or> ?z = y" "b_value x \<le> b_value ?z" "b_value y \<le> b_value ?z" by auto
    have "r \<in> set (x # y # ys)" using r(1) z(1) by (metis list.set_intros(1,2) set_ConsD)
    moreover have "\<forall>b \<in> set (x # y # ys). b_value b \<le> b_value r"
      using r(2,3) z(2,3) by (metis order_trans set_ConsD)
    ultimately show ?case unfolding foldl_Cons r_def by (rule conjI)
  qed simp
  with assms show ?thesis by (cases bs) auto
qed

lemma reduxSafeBid_id [simp]: "reduxSafeBid b = b"
  by (simp add: reduxSafeBid_def)

lemma appendBid_cases:
  obtains "appendBid b st = st"
  | a m where "activeAuction st = Some a" "nounId a = b_nounId b"
      "b_transactionHash b \<notin> b_transactionHash ` set (a_bids st)" "maxBid (b # a_bids st) = Some m"
      "appendBid b st = st\<lparr>a_bids := b # a_bids st, activeAuction := Some (a\<lparr>amount := b_value m, bidder := b_sender m\<rparr>)\<rparr>"
proof (cases "appendBid b st = st")
  case False
  then obtain a where a: "activeAuction st = Some a" "nounId a = b_nounId b" "\<not> containsBid (a_bids st) b"
    by (auto simp: appendBid_def split: option.splits if_splits)
  obtain m where m: "maxBid (b # a_bids st) = Some m" by simp
  have "appendBid b st = st\<lparr>a_bids := b # a_bids st, activeAuction := Some (a\<lparr>amount := b_value m, bidder := b_sender m\<rparr>)\<rparr>"
    using a m by (simp add: appendBid_def Let_def del: maxBid.simps)
  with a m that(2) show ?thesis by (auto simp: containsBid_def)
qed

lemma auction_step_inv:
  assumes inv: "auction_inv st" and ok: "auction_ok st act"
  shows "auction_inv (auction_reducer act st)"
proof (cases act)
  case (Append b)
  show ?thesis
  proof (cases rule: appendBid_cases [of b st])
    case 1
    with Append inv show ?thesis by (simp add: auction_reducer_def)
  next
    case (2 a m)
    with maxBid_max [OF 2(4)] Append inv show ?thesis
      by (auto simp: auction_reducer_def auction_inv_def)
  qed
qed (use inv ok in \<open>auto simp: auction_reducer_def auction_inv_def auction_ok_def setActiveAuction_def
       setFullAuction_def setAuctionSettled_def setAuctionExtended_def reduxSafeNewAuction_def
       split: option.splits\<close>)

interpretation auction_slice: event_driven auction_reducer auction_ok auction_inv
  by unfold_locales (rule auction_step_inv)

lemma auction_inv_initial: "auction_inv initial_auction_state"
  by (simp add: auction_inv_def initial_auction_state_def)

section \<open>Properties\<close>

definition demo_bid :: "int \<Rightarrow> string \<Rightarrow> bid_event" where
  "demo_bid v h = \<lparr>b_nounId = 7, b_sender = ''0xa'', b_value = v, b_extended = False, b_transactionHash = h,
     b_timestamp = 1\<rparr>"

definition demo_actions :: "auction_action list" where
  "demo_actions = [SetActive \<lparr>cr_nounId = 7, cr_startTime = 0, cr_endTime = 9\<rparr>, Append (demo_bid 5 ''0x1''),
     Append (demo_bid 3 ''0x2''), Append (demo_bid 5 ''0x1'')]"



text \<open>Stepping back and forth never leaves the range from noun 0 to the last auctioned noun.\<close>

theorem display_stays_in_range:
  assumes "lastAuctionNounId st = Some n" "onDisplayAuctionNounId st = Some d" "0 \<le> d" "d \<le> n"
    and "set steps \<subseteq> {setPrevOnDisplayAuctionNounId, setNextOnDisplayAuctionNounId}"
  shows "lastAuctionNounId (fold (\<lambda>f. f) steps st) = Some n
    \<and> (\<exists>d'. onDisplayAuctionNounId (fold (\<lambda>f. f) steps st) = Some d' \<and> 0 \<le> d' \<and> d' \<le> n)"
  using assms
proof (induction steps arbitrary: st d)
  case (Cons f steps)
  from Cons.prems have f: "f = setPrevOnDisplayAuctionNounId \<or> f = setNextOnDisplayAuctionNounId" by auto
  then obtain d' where "lastAuctionNounId (f st) = Some n" "onDisplayAuctionNounId (f st) = Some d'" "0 \<le> d'" "d' \<le> n"
    using Cons.prems(1-4)
    by (cases "d = 0"; cases "d = n") (auto simp: setPrevOnDisplayAuctionNounId_def setNextOnDisplayAuctionNounId_def)
  from Cons.IH [OF this] Cons.prems(5) show ?case by simp
qed simp

theorem display_stays_in_range_witness:
  "lastAuctionNounId (fold (\<lambda>f. f) [setPrevOnDisplayAuctionNounId, setNextOnDisplayAuctionNounId, setNextOnDisplayAuctionNounId]
      \<lparr>lastAuctionNounId = Some 3, onDisplayAuctionNounId = Some 3\<rparr>) = Some 3"
  using display_stays_in_range [of "\<lparr>lastAuctionNounId = Some 3, onDisplayAuctionNounId = Some 3\<rparr>" 3 3
      "[setPrevOnDisplayAuctionNounId, setNextOnDisplayAuctionNounId, setNextOnDisplayAuctionNounId]"]
  by simp

text \<open>A past auction whose noun id is a multiple of ten is never shown: the page shows an empty
  founders' auction with amount 0 and no bidder, also for ids above 1820, where the contract has
  stopped giving such nouns to the founders and auctions them.\<close>

theorem late_multiple_of_ten_hidden:
  assumes "onDisplayAuctionNounId disp = Some n" "n mod 10 = 0" "activeAuction st = Some current"
    and "nounId current \<noteq> n" "\<forall>s \<in> set past. activeAuction s \<noteq> None"
  shows "\<exists>a. useOnDisplayAuction st disp (Some past) = Inr (Some a) \<and> amount a = 0 \<and> bidder a = '''' \<and> nounId a = n"
proof -
  have "\<exists>r. findAuction m past = Inr r" for m
    using assms(5) by (induction past) auto
  then obtain r where "findAuction (n + 1) past = Inr r" by blast
  with assms show ?thesis
    by (cases r) (auto simp: useOnDisplayAuction_def isNounderNoun_def generateEmptyNounderAuction_def
        emptyNounderAuction_def deserializeAuction_def)
qed

definition demo_past :: auction_state where
  "demo_past = \<lparr>activeAuction = Some \<lparr>amount = 9, bidder = ''0xb'', startTime = 0, endTime = 9, nounId = 1830, settled = False\<rparr>,
     a_bids = []\<rparr>"

theorem late_multiple_of_ten_hidden_witness:
  "\<exists>a. useOnDisplayAuction
      \<lparr>activeAuction = Some \<lparr>amount = 1, bidder = ''0xa'', startTime = 0, endTime = 9, nounId = 1900, settled = False\<rparr>, a_bids = []\<rparr>
      \<lparr>lastAuctionNounId = Some 1900, onDisplayAuctionNounId = Some 1830\<rparr> (Some [demo_past]) = Inr (Some a)
    \<and> amount a = 0 \<and> bidder a = '''' \<and> nounId a = 1830"
  by (rule late_multiple_of_ten_hidden [where current =
        "\<lparr>amount = 1, bidder = ''0xa'', startTime = 0, endTime = 9, nounId = 1900, settled = False\<rparr>"])
     (simp_all add: demo_past_def)

end
