(* ===== verification/Web_Logs.thy ===== *)
theory Web_Logs imports Nouns_Prelude begin

text \<open>
  The log fetching of the web application (\<open>packages/nouns-webapp/src\<close>): the keys of
  \<open>utils/logParsing.ts\<close>, the slice \<open>state/slices/logs.ts\<close>, the updater
  \<open>state/updaters/logs.ts\<close> and the hook \<open>hooks/useLogs.ts\<close>.  The provider's \<open>getLogs\<close> is a
  parameter; a rejected promise is \<open>None\<close>.
\<close>

section \<open>Joining and splitting\<close>

fun join_with :: "char \<Rightarrow> string list \<Rightarrow> string" where
  "join_with c [] = ''''"
| "join_with c [s] = s"
| "join_with c (s # t # ss) = s @ c # join_with c (t # ss)"

fun split_on :: "char \<Rightarrow> string \<Rightarrow> string list" where
  "split_on c [] = ['''']"
| "split_on c (d # s) =
     (if d = c then '''' # split_on c s
      else (case split_on c s of [] \<Rightarrow> [[d]] | p # ps \<Rightarrow> (d # p) # ps))"

lemma split_on_not_Nil [simp]: "split_on c s \<noteq> []"
  by (induction s) (auto split: list.split)

lemma split_on_plain: "c \<notin> set s \<Longrightarrow> split_on c s = [s]"
  by (induction s) auto

lemma split_on_append: "c \<notin> set s \<Longrightarrow> split_on c (s @ c # t) = s # split_on c t"
  by (induction s) auto

lemma split_join: "ss \<noteq> [] \<Longrightarrow> \<forall>s \<in> set ss. c \<notin> set s \<Longrightarrow> split_on c (join_with c ss) = ss"
  by (induction c ss rule: join_with.induct) (auto simp: split_on_plain split_on_append)

lemma set_join_with: "set (join_with c ss) \<subseteq> insert c (\<Union> (set ` set ss))"
  by (induction c ss rule: join_with.induct) auto

section \<open>Filters and keys\<close>

datatype topic = One string | Many "string list"

record event_filter =
  f_address :: "string option"
  f_topics :: "topic option list option"
  f_fromBlock :: "int option"

record eth_log =
  l_topics :: "string list"
  l_transactionHash :: string
  l_data :: string

definition topic_key :: "topic option \<Rightarrow> string" where
  "topic_key t =
     (case t of
        None \<Rightarrow> [CHR 0x00]
      | Some (One s) \<Rightarrow> if s = '''' then [CHR 0x00] else s
      | Some (Many ss) \<Rightarrow> join_with (CHR '';'') ss)"

definition filterToKey :: "event_filter \<Rightarrow> string" where
  "filterToKey f =
     (case f_address f of Some a \<Rightarrow> a | None \<Rightarrow> '''') @ CHR '':'' #
     (case f_topics f of Some ts \<Rightarrow> join_with (CHR ''-'') (map topic_key ts) | None \<Rightarrow> '''')"

text \<open>A key without a colon makes \<open>pcs[1].split\<close> throw: \<open>None\<close>.\<close>

definition keyToFilter :: "string \<Rightarrow> event_filter option" where
  "keyToFilter k =
     (case split_on (CHR '':'') k of
        addr # rest # _ \<Rightarrow>
          Some \<lparr>f_address = (if length addr = 0 then None else Some addr),
                f_topics = Some (map (\<lambda>t. let parts = split_on (CHR '';'') t
                                          in Some (if length parts = 1 then One (hd parts) else Many parts))
                                   (split_on (CHR ''-'') rest)),
                f_fromBlock = None\<rparr>
      | _ \<Rightarrow> None)"

section \<open>The slice\<close>

record fetch_results =
  r_blockNumber :: int
  r_logs :: "eth_log list option"

text \<open>\<open>r_logs = None\<close> is a result with \<open>error: true\<close>.\<close>

record fetch_state =
  listeners :: int
  fetchingBlockNumber :: "int option"
  results :: "fetch_results option"

type_synonym logs_state = "fetch_state js_map"

definition addListener :: "event_filter \<Rightarrow> logs_state \<Rightarrow> logs_state" where
  "addListener f st =
     (let key = filterToKey f
      in case map_of st key of
           None \<Rightarrow> AList.update key \<lparr>listeners = 1, fetchingBlockNumber = None, results = None\<rparr> st
         | Some x \<Rightarrow> AList.update key (x\<lparr>listeners := listeners x + 1\<rparr>) st)"

fun fetchingLogs :: "event_filter list \<Rightarrow> int \<Rightarrow> logs_state \<Rightarrow> logs_state" where
  "fetchingLogs [] blockNumber st = st"
| "fetchingLogs (f # fs) blockNumber st =
     (let key = filterToKey f
      in case map_of st key of
           None \<Rightarrow> fetchingLogs fs blockNumber st
         | Some x \<Rightarrow> fetchingLogs fs blockNumber (AList.update key (x\<lparr>fetchingBlockNumber := Some blockNumber\<rparr>) st))"

definition newer_results :: "fetch_state \<Rightarrow> int \<Rightarrow> bool" where
  "newer_results x blockNumber = (case results x of None \<Rightarrow> False | Some r \<Rightarrow> r_blockNumber r > blockNumber)"

definition fetchedLogs :: "event_filter \<Rightarrow> int \<Rightarrow> eth_log list \<Rightarrow> logs_state \<Rightarrow> logs_state" where
  "fetchedLogs f blockNumber logs st =
     (let key = filterToKey f
      in case map_of st key of
           None \<Rightarrow> st
         | Some x \<Rightarrow>
             if newer_results x blockNumber then st
             else AList.update key (x\<lparr>results := Some \<lparr>r_blockNumber = blockNumber, r_logs = Some logs\<rparr>\<rparr>) st)"

definition fetchedLogsError :: "event_filter \<Rightarrow> int \<Rightarrow> logs_state \<Rightarrow> logs_state" where
  "fetchedLogsError f blockNumber st =
     (let key = filterToKey f
      in case map_of st key of
           None \<Rightarrow> st
         | Some x \<Rightarrow>
             if newer_results x blockNumber then st
             else AList.update key (x\<lparr>results := Some \<lparr>r_blockNumber = blockNumber, r_logs = None\<rparr>\<rparr>) st)"

definition removeListener :: "event_filter \<Rightarrow> logs_state \<Rightarrow> logs_state" where
  "removeListener f st =
     (let key = filterToKey f
      in case map_of st key of
           None \<Rightarrow> st
         | Some x \<Rightarrow> AList.update key (x\<lparr>listeners := listeners x - 1\<rparr>) st)"

section \<open>The updater\<close>

definition MAX_BLOCKS_PER_CALL :: int where
  "MAX_BLOCKS_PER_CALL = 1000000"

definition needs_fetch :: "int \<Rightarrow> fetch_state \<Rightarrow> bool" where
  "needs_fetch blockNumber x =
     (if listeners x = 0 then False
      else if (case fetchingBlockNumber x of None \<Rightarrow> False | Some n \<Rightarrow> n \<ge> blockNumber) then False
      else if (case results x of None \<Rightarrow> False | Some r \<Rightarrow> r_blockNumber r \<ge> blockNumber) then False
      else True)"

definition filtersNeedFetch :: "int option \<Rightarrow> logs_state \<Rightarrow> event_filter option list" where
  "filtersNeedFetch blockNumber st =
     (case blockNumber of
        None \<Rightarrow> []
      | Some n \<Rightarrow> map (\<lambda>(k, x). keyToFilter k) (filter (\<lambda>(k, x). needs_fetch n x) st))"

function block_ranges :: "int \<Rightarrow> int \<Rightarrow> (int \<times> int) list" where
  "block_ranges fromBlock blockNumber =
     (if fromBlock \<le> blockNumber
      then (fromBlock, min (fromBlock + MAX_BLOCKS_PER_CALL) blockNumber)
             # block_ranges (fromBlock + MAX_BLOCKS_PER_CALL) blockNumber
      else [])"
  by pat_completeness auto
termination
  by (relation "measure (\<lambda>(f, b). nat (b + 1 - f))") (auto simp: MAX_BLOCKS_PER_CALL_def)

declare block_ranges.simps [simp del]

definition filter_ranges :: "event_filter \<Rightarrow> int \<Rightarrow> (int \<times> int) list" where
  "filter_ranges f blockNumber = block_ranges (case f_fromBlock f of Some n \<Rightarrow> n | None \<Rightarrow> 0) blockNumber"

text \<open>The promise of one filter: the action it dispatches when all calls have settled.\<close>

definition fetch_filter ::
    "(event_filter \<Rightarrow> int \<times> int \<Rightarrow> eth_log list option) \<Rightarrow> event_filter \<Rightarrow> int \<Rightarrow> logs_state \<Rightarrow> logs_state" where
  "fetch_filter getLogs f blockNumber =
     (let logs = map (getLogs f) (filter_ranges f blockNumber)
      in if None \<in> set logs then fetchedLogsError f blockNumber
         else fetchedLogs f blockNumber (concat (map the logs)))"

section \<open>The hook\<close>

datatype sync_state = INVALID | LOADING | SYNCING | ERROR | SYNCED

definition useLogs :: "event_filter option \<Rightarrow> int option \<Rightarrow> logs_state \<Rightarrow> eth_log list option \<times> sync_state" where
  "useLogs f blockNumber logs =
     (case (f, blockNumber) of
        (Some g, Some n) \<Rightarrow>
          if n = 0 then (None, INVALID)
          else (case map_of logs (filterToKey g) of
                  None \<Rightarrow> (None, LOADING)
                | Some x \<Rightarrow> (case results x of
                      None \<Rightarrow> (None, LOADING)
                    | Some r \<Rightarrow> (case r_logs r of
                          None \<Rightarrow> (None, ERROR)
                        | Some ls \<Rightarrow> (Some ls, if r_blockNumber r \<ge> n then SYNCED else SYNCING))))
      | _ \<Rightarrow> (None, INVALID))"

section \<open>Ranges\<close>

definition calls_for_block :: "int \<Rightarrow> (int \<times> int) list \<Rightarrow> nat" where
  "calls_for_block n rs = length (filter (\<lambda>(a, b). a \<le> n \<and> n \<le> b) rs)"

lemma block_ranges_calls:
  assumes "from \<le> n" "n \<le> last_block"
  shows "calls_for_block n (block_ranges from last_block)
    = (if from < n \<and> (n - from) mod MAX_BLOCKS_PER_CALL = 0 then 2 else 1)"
  using assms
proof (induction "from" last_block rule: block_ranges.induct)
  case (1 f b)
  let ?M = MAX_BLOCKS_PER_CALL
  have M: "?M = 1000000" by (simp add: MAX_BLOCKS_PER_CALL_def)
  have step: "block_ranges f b = (f, min (f + ?M) b) # block_ranges (f + ?M) b"
    using 1(2,3) by (subst block_ranges.simps) simp
  have later: "calls_for_block n (block_ranges g b) = 0" if "n < g" for g
    using that
  proof (induction g b rule: block_ranges.induct)
    case (1 g b)
    then show ?case by (subst block_ranges.simps) (simp add: calls_for_block_def M)
  qed
  show ?case
  proof (cases "f + ?M \<le> n")
    case True
    have ih: "calls_for_block n (block_ranges (f + ?M) b) = (if f + ?M < n \<and> (n - (f + ?M)) mod ?M = 0 then 2 else 1)"
      using 1(1) True 1(2,3) by simp
    have "(n - (f + ?M)) mod ?M = (n - f) mod ?M"
      by (metis add_diff_cancel_right' diff_diff_eq mod_add_self2 diff_add_cancel)
    with ih True 1(3) show ?thesis
      by (auto simp: step calls_for_block_def M)
  next
    case False
    then have "(n - f) mod ?M = n - f" using 1(2) M by (intro mod_pos_pos_trivial) auto
    with False later [of "f + ?M"] 1(2,3) show ?thesis by (auto simp: step calls_for_block_def)
  qed
qed

section \<open>Properties\<close>

text \<open>The calls the updater makes for a filter of the store cover every block up to the current
  one, and a block once, except that each positive multiple of a million is in two calls, so that
  its logs come back twice.\<close>

theorem updater_covers_blocks:
  assumes "keyToFilter k = Some f" "0 \<le> n" "n \<le> blockNumber"
  shows "calls_for_block n (filter_ranges f blockNumber) = (if 0 < n \<and> n mod 1000000 = 0 then 2 else 1)"
proof -
  have "f_fromBlock f = None" using assms(1) by (auto simp: keyToFilter_def split: list.splits)
  with block_ranges_calls [OF assms(2,3)] show ?thesis
    by (simp add: filter_ranges_def MAX_BLOCKS_PER_CALL_def)
qed

theorem updater_covers_blocks_witness:
  "calls_for_block 1000000 (filter_ranges \<lparr>f_address = Some ''0xa'', f_topics = Some [Some (One ''0xb'')], f_fromBlock = None\<rparr> 1500000) = 2"
  using updater_covers_blocks [of "''0xa:0xb''" _ 1000000 1500000]
  by (simp add: keyToFilter_def)

definition plain :: "string \<Rightarrow> bool" where
  "plain s = (s \<noteq> '''' \<and> CHR '':'' \<notin> set s \<and> CHR ''-'' \<notin> set s \<and> CHR '';'' \<notin> set s)"

definition plain_topic :: "topic option \<Rightarrow> bool" where
  "plain_topic t = (case t of None \<Rightarrow> False | Some (One s) \<Rightarrow> plain s | Some (Many ss) \<Rightarrow> 2 \<le> length ss \<and> list_all plain ss)"

lemma plain_topic_key:
  assumes "plain_topic t"
  shows "CHR '':'' \<notin> set (topic_key t)" "CHR ''-'' \<notin> set (topic_key t)"
    "(let parts = split_on (CHR '';'') (topic_key t) in Some (if length parts = 1 then One (hd parts) else Many parts)) = t"
proof -
  obtain x where t: "t = Some x" using assms by (auto simp: plain_topic_def split: option.splits)
  have "CHR '':'' \<notin> set (topic_key t) \<and> CHR ''-'' \<notin> set (topic_key t)
    \<and> split_on (CHR '';'') (topic_key t) = (case x of One s \<Rightarrow> [s] | Many ss \<Rightarrow> ss)"
  proof (cases x)
    case (One s)
    with assms t show ?thesis by (simp add: plain_topic_def plain_def topic_key_def split_on_plain)
  next
    case (Many ss)
    with assms t have ss: "ss \<noteq> []" "\<forall>s \<in> set ss. plain s" by (auto simp: plain_topic_def list_all_iff)
    then have "CHR '':'' \<notin> insert (CHR '';'') (\<Union> (set ` set ss))" "CHR ''-'' \<notin> insert (CHR '';'') (\<Union> (set ` set ss))"
      by (auto simp: plain_def)
    with ss Many t show ?thesis
      using set_join_with [of "CHR '';''" ss] split_join [of ss "CHR '';''"]
      by (auto simp: topic_key_def plain_def)
  qed
  then show "CHR '':'' \<notin> set (topic_key t)" "CHR ''-'' \<notin> set (topic_key t)"
    "(let parts = split_on (CHR '';'') (topic_key t) in Some (if length parts = 1 then One (hd parts) else Many parts)) = t"
    using assms t by (auto simp: Let_def plain_topic_def split: topic.splits)
qed

text \<open>A filter whose address and topics are free of the separators, with no null topic and no
  one-element alternative, is recovered from its key except for \<open>fromBlock\<close>, which is always lost;
  the updater then searches from block 0.\<close>

theorem filter_key_roundtrip:
  assumes "f_address f = Some a" "plain a" "f_topics f = Some ts" "ts \<noteq> []" "list_all plain_topic ts"
  shows "keyToFilter (filterToKey f) = Some (f\<lparr>f_fromBlock := None\<rparr>)"
proof -
  let ?ks = "map topic_key ts"
  have no: "\<forall>k \<in> set ?ks. CHR '':'' \<notin> set k" "\<forall>k \<in> set ?ks. CHR ''-'' \<notin> set k"
    using assms(5) plain_topic_key by (auto simp: list_all_iff)
  then have "CHR '':'' \<notin> set (join_with (CHR ''-'') ?ks)"
    using set_join_with [of "CHR ''-''" ?ks] by auto
  then have "split_on (CHR '':'') (filterToKey f) = [a, join_with (CHR ''-'') ?ks]"
    using assms(1-3) by (simp add: filterToKey_def plain_def split_on_append split_on_plain)
  moreover have "split_on (CHR ''-'') (join_with (CHR ''-'') ?ks) = ?ks"
    using assms(4) no(2) by (intro split_join) auto
  moreover have "map (\<lambda>t. let parts = split_on (CHR '';'') t
      in Some (if length parts = 1 then One (hd parts) else Many parts)) ?ks = ts"
    using assms(5) plain_topic_key(3) by (simp add: list_all_iff map_idI)
  ultimately show ?thesis
    using assms(1-3) by (cases f) (simp add: keyToFilter_def plain_def)
qed

theorem filter_key_roundtrip_witness:
  "keyToFilter (filterToKey \<lparr>f_address = Some ''0xa'', f_topics = Some [Some (One ''0xb''), Some (Many [''0xc'', ''0xd''])],
      f_fromBlock = Some 15\<rparr>)
    = Some \<lparr>f_address = Some ''0xa'', f_topics = Some [Some (One ''0xb''), Some (Many [''0xc'', ''0xd''])], f_fromBlock = None\<rparr>"
  using filter_key_roundtrip [of "\<lparr>f_address = Some ''0xa'', f_topics = Some [Some (One ''0xb''), Some (Many [''0xc'', ''0xd''])],
      f_fromBlock = Some 15\<rparr>" "''0xa''" "[Some (One ''0xb''), Some (Many [''0xc'', ''0xd''])]"]
  by (simp add: plain_def plain_topic_def)

datatype logs_action =
    AddListener event_filter
  | FetchingLogs "event_filter list" int
  | FetchedLogs event_filter int "eth_log list"
  | FetchedLogsError event_filter int
  | RemoveListener event_filter

definition logs_reducer :: "logs_action \<Rightarrow> logs_state \<Rightarrow> logs_state" where
  "logs_reducer act st =
     (case act of
        AddListener f \<Rightarrow> addListener f st
      | FetchingLogs fs n \<Rightarrow> fetchingLogs fs n st
      | FetchedLogs f n ls \<Rightarrow> fetchedLogs f n ls st
      | FetchedLogsError f n \<Rightarrow> fetchedLogsError f n st
      | RemoveListener f \<Rightarrow> removeListener f st)"

text \<open>The block of the result stored under a key.\<close>

definition result_block :: "logs_state \<Rightarrow> string \<Rightarrow> int option" where
  "result_block st k = (case map_of st k of None \<Rightarrow> None | Some x \<Rightarrow> map_option r_blockNumber (results x))"

definition has_result_since :: "string \<Rightarrow> int \<Rightarrow> logs_state \<Rightarrow> bool" where
  "has_result_since k n st = (case result_block st k of None \<Rightarrow> False | Some m \<Rightarrow> n \<le> m)"

lemma fetchingLogs_results: "result_block (fetchingLogs fs n st) k = result_block st k"
proof (induction fs n st rule: fetchingLogs.induct)
  case (2 f fs n st)
  have "result_block (AList.update (filterToKey f) (x\<lparr>fetchingBlockNumber := Some n\<rparr>) st) k = result_block st k"
    if "map_of st (filterToKey f) = Some x" for x
    using that by (auto simp: result_block_def)
  with 2 show ?case by (cases "map_of st (filterToKey f)") (simp_all add: Let_def)
qed simp

lemma logs_step_since:
  "has_result_since k n st \<Longrightarrow> has_result_since k n (logs_reducer act st)"
proof (cases act)
  case (FetchingLogs fs m)
  then show "has_result_since k n st \<Longrightarrow> has_result_since k n (logs_reducer act st)"
    by (simp add: logs_reducer_def has_result_since_def fetchingLogs_results)
qed (auto simp: logs_reducer_def has_result_since_def addListener_def removeListener_def fetchedLogs_def
      fetchedLogsError_def Let_def result_block_def newer_results_def split: option.splits if_splits)

interpretation logs_slice: event_driven logs_reducer "\<lambda>st act. True" "has_result_since k n" for k n
  by unfold_locales (rule logs_step_since)

text \<open>A result of the store is never replaced by one of an earlier block, whatever actions
  arrive and in whatever order the promises settle.\<close>

theorem results_never_go_back:
  assumes "result_block st k = Some n"
  shows "\<exists>m. result_block (fold logs_reducer acts st) k = Some m \<and> n \<le> m"
proof -
  have "has_result_since k n st" using assms by (simp add: has_result_since_def)
  then have "has_result_since k n (fold logs_reducer acts st)" by (rule logs_slice.run_inv_always) simp
  then show ?thesis by (auto simp: has_result_since_def split: option.splits)
qed

theorem results_never_go_back_witness:
  "\<exists>m. result_block (fold logs_reducer [FetchedLogs \<lparr>f_address = Some ''a'', f_topics = None, f_fromBlock = None\<rparr> 3 []]
      [(''a:'', \<lparr>listeners = 1, fetchingBlockNumber = None, results = Some \<lparr>r_blockNumber = 5, r_logs = None\<rparr>\<rparr>)]) ''a:''
        = Some m \<and> 5 \<le> m"
  by (rule results_never_go_back) (simp add: result_block_def)

end
