(* ===== verification/Js_Objects.thy ===== *)
theory Js_Objects imports Nouns_Prelude begin

text \<open>
  Values and objects as the untyped parts of the source handle them (\<open>Record<string, any>\<close>), and
  the SQL statements the source sends to its database as operations on lists of rows.  A big integer
  (\<open>BigInt\<close>, ethers or bignumber.js) is \<open>BigNum\<close>.  SQL comparison is equality of values (a
  number column against a string: of its decimals), false on \<open>NULL\<close>; a \<open>SELECT\<close> without an order returns the rows in insertion order.
\<close>

section \<open>Values\<close>

datatype js_value =
    Undefined
  | Null
  | Bool bool
  | Num int
  | BigNum int
  | Str string
  | Arr "js_value list"
  | Obj "(string \<times> js_value) list"

type_synonym obj = "js_value js_map"

definition field :: "obj \<Rightarrow> string \<Rightarrow> js_value" where
  "field r k = (case map_of r k of Some v \<Rightarrow> v | None \<Rightarrow> Undefined)"

definition member :: "js_value \<Rightarrow> string \<Rightarrow> js_value" where
  "member v k = (case v of Obj r \<Rightarrow> field r k | _ \<Rightarrow> Undefined)"

text \<open>\<open>{...a, ...b}\<close>: later properties override.\<close>

definition spread :: "obj \<Rightarrow> obj \<Rightarrow> obj" where
  "spread a b = fold (\<lambda>(k, v) m. AList.update k v m) b a"

definition js_truthy :: "js_value \<Rightarrow> bool" where
  "js_truthy v =
     (case v of Undefined \<Rightarrow> False | Null \<Rightarrow> False | Bool b \<Rightarrow> b | Num n \<Rightarrow> n \<noteq> 0 | Str s \<Rightarrow> s \<noteq> '''' | _ \<Rightarrow> True)"

definition truthy_string :: "string option \<Rightarrow> bool" where
  "truthy_string s = (s \<noteq> None \<and> s \<noteq> Some '''')"

text \<open>\<open>v.toString()\<close> of a number or a big number, and what it reads back as an integer.\<close>

definition as_int :: "js_value \<Rightarrow> int option" where
  "as_int v = (case v of Num n \<Rightarrow> Some n | BigNum n \<Rightarrow> Some n | _ \<Rightarrow> None)"

definition as_string :: "js_value \<Rightarrow> string" where
  "as_string v =
     (case v of Undefined \<Rightarrow> ''undefined'' | Null \<Rightarrow> ''null'' | Bool b \<Rightarrow> (if b then ''true'' else ''false'')
      | Num n \<Rightarrow> int_to_string n | BigNum n \<Rightarrow> int_to_string n | Str s \<Rightarrow> s | Arr _ \<Rightarrow> '''' | Obj _ \<Rightarrow> ''[object Object]'')"

lemma field_update [simp]: "field (AList.update k v r) j = (if j = k then v else field r j)"
  by (simp add: field_def)

lemma field_Cons [simp]: "field ((k, v) # r) j = (if j = k then v else field r j)"
  by (simp add: field_def)

lemma field_Nil [simp]: "field [] j = Undefined"
  by (simp add: field_def)

lemma field_spread: "k \<notin> fst ` set b \<Longrightarrow> field (spread a b) k = field a k"
  unfolding spread_def by (induction b arbitrary: a) auto

section \<open>Text\<close>

text \<open>\<open>\s\<close> of an 8-bit character.\<close>

definition is_space :: "char \<Rightarrow> bool" where
  "is_space c = (of_char c \<in> {9, 10, 11, 12, 13, 32, 160 :: nat})"

definition trim :: "string \<Rightarrow> string" where
  "trim s = rev (dropWhile is_space (rev (dropWhile is_space s)))"

abbreviation newline :: char where "newline \<equiv> CHR 0x0A"

definition line_of :: "string \<Rightarrow> string" where
  "line_of s = takeWhile (\<lambda>c. c \<noteq> newline) s"

section \<open>Tables\<close>

type_synonym table = "obj list"

definition sql_eq :: "js_value \<Rightarrow> js_value \<Rightarrow> bool" where
  "sql_eq a b =
     (case (a, b) of
        (Null, _) \<Rightarrow> False
      | (_, Null) \<Rightarrow> False
      | (Num n, Str s) \<Rightarrow> int_to_string n = s
      | (Str s, Num n) \<Rightarrow> int_to_string n = s
      | _ \<Rightarrow> a = b)"

definition project :: "(string \<times> string) list \<Rightarrow> obj \<Rightarrow> obj" where
  "project cols r = map (\<lambda>(c, name). (name, field r c)) cols"

text \<open>Columns selected under their own names.\<close>

definition select :: "string list \<Rightarrow> table \<Rightarrow> table" where
  "select cols rows = map (project (map (\<lambda>c. (c, c)) cols)) rows"

text \<open>A parameter of a statement: big numbers are written as numbers, \<open>undefined\<close> as \<open>NULL\<close>.\<close>

definition sql_param :: "js_value \<Rightarrow> js_value" where
  "sql_param v = (case v of BigNum n \<Rightarrow> Num n | Undefined \<Rightarrow> Null | _ \<Rightarrow> v)"

text \<open>\<open>INSERT\<close>: the named columns get the parameters, the others what the database fills in
  (\<open>fill\<close>, from the rows there are: defaults and the automatic id).\<close>

definition insert_row :: "(table \<Rightarrow> obj) \<Rightarrow> (string \<times> js_value) list \<Rightarrow> table \<Rightarrow> table" where
  "insert_row fill vals rows = rows @ [spread (fill rows) (map (\<lambda>(c, v). (c, sql_param v)) vals)]"

definition update_rows :: "(obj \<Rightarrow> bool) \<Rightarrow> (string \<times> js_value) list \<Rightarrow> table \<Rightarrow> table" where
  "update_rows P vals rows =
     map (\<lambda>r. if P r then spread r (map (\<lambda>(c, v). (c, sql_param v)) vals) else r) rows"

text \<open>\<open>ORDER BY c ASC\<close> and \<open>DESC\<close> on a numeric column, \<open>NULL\<close> lowest.\<close>

definition sort_value :: "string \<Rightarrow> obj \<Rightarrow> bool \<times> int" where
  "sort_value c r = (case field r c of Num n \<Rightarrow> (True, n) | _ \<Rightarrow> (False, 0))"

definition value_le :: "bool \<times> int \<Rightarrow> bool \<times> int \<Rightarrow> bool" where
  "value_le a b = (if fst a = fst b then snd a \<le> snd b else fst b)"

fun insert_by :: "('a \<Rightarrow> 'a \<Rightarrow> bool) \<Rightarrow> 'a \<Rightarrow> 'a list \<Rightarrow> 'a list" where
  "insert_by le x [] = [x]"
| "insert_by le x (y # ys) = (if le x y then x # y # ys else y # insert_by le x ys)"

definition sort_by :: "('a \<Rightarrow> 'a \<Rightarrow> bool) \<Rightarrow> 'a list \<Rightarrow> 'a list" where
  "sort_by le xs = foldr (insert_by le) xs []"

definition order_asc :: "string \<Rightarrow> table \<Rightarrow> table" where
  "order_asc c = sort_by (\<lambda>a b. value_le (sort_value c a) (sort_value c b))"

definition order_desc :: "string \<Rightarrow> table \<Rightarrow> table" where
  "order_desc c = sort_by (\<lambda>a b. value_le (sort_value c b) (sort_value c a))"

lemma set_insert_by [simp]: "set (insert_by le x xs) = insert x (set xs)"
  by (induction xs) auto

lemma set_sort_by [simp]: "set (sort_by le xs) = set xs"
  unfolding sort_by_def by (induction xs) auto

lemma length_sort_by [simp]: "length (sort_by le xs) = length xs"
proof -
  have "length (insert_by le x ys) = Suc (length ys)" for x ys by (induction ys) auto
  then show ?thesis unfolding sort_by_def by (induction xs) auto
qed

text \<open>\<open>text LIKE pattern\<close>: percent matches any text, underscore any character, backslash quotes.\<close>

fun sql_like :: "string \<Rightarrow> string \<Rightarrow> bool" where
  "sql_like [] s = (s = [])"
| "sql_like (p # ps) [] = (p = CHR ''%'' \<and> sql_like ps [])"
| "sql_like (p # ps) (c # s) =
     (if p = CHR ''%'' then sql_like ps (c # s) \<or> sql_like (p # ps) s
      else if p = CHR ''_'' then sql_like ps s
      else if p = CHR 0x5C then (case ps of [] \<Rightarrow> c = p \<and> s = [] | q # qs \<Rightarrow> c = q \<and> sql_like qs s)
      else c = p \<and> sql_like ps s)"

text \<open>A row inserted by \<open>insert_row\<close>.\<close>

lemma field_insert_row:
  assumes "distinct (map fst vals)" "(k, v) \<in> set vals"
  shows "field (spread b (map (\<lambda>(c, v). (c, sql_param v)) vals)) k = sql_param v"
  using assms
proof (induction vals arbitrary: b)
  case (Cons p vals)
  obtain c w where p: "p = (c, w)" by (cases p)
  show ?case
  proof (cases "(k, v) \<in> set vals")
    case True
    with Cons p show ?thesis by (simp add: spread_def)
  next
    case False
    with Cons.prems p have kv: "k = c" "v = w" "c \<notin> fst ` set vals" by auto
    have "field (spread (AList.update c (sql_param w) b) (map (\<lambda>(c, v). (c, sql_param v)) vals)) c
        = field (AList.update c (sql_param w) b) c"
      by (rule field_spread) (use kv in force)
    with p kv show ?thesis by (simp add: spread_def)
  qed
qed simp

end
