(* ===== verification/Composables_Contracts.thy ===== *)
theory Composables_Contracts imports Js_Objects begin

text \<open>
  The contract readers of the web application, \<open>utils/composables/composablesContracts.ts\<close> and
  \<open>nounsContracts.ts\<close>.  What ethers gives for a contract is a parameter: \<open>rpc_events\<close> is
  \<open>queryFilter\<close> on an address, an event name and the filter's arguments (\<open>Null\<close> matches
  anything), \<open>rpc_call\<close> is a read-only call.  \<open>rt\<close> holds the decoders of the runtime.
\<close>

record raw_event =
  re_blockNumber :: int
  re_blockHash :: string
  re_transactionIndex :: int
  re_args :: obj

record rpc =
  rpc_events :: "string \<Rightarrow> string \<Rightarrow> js_value list \<Rightarrow> raw_event list"
  rpc_call :: "string \<Rightarrow> string \<Rightarrow> js_value list \<Rightarrow> js_value"

record runtime =
  rt_parse_json :: "string \<Rightarrow> js_value option"
  rt_from_base64 :: "string \<Rightarrow> string"

record composables_config =
  cfg_composableItemFactory :: string
  cfg_composablesMarketProxy :: string
  cfg_nounsToken :: string

definition event_with_block :: "raw_event \<Rightarrow> obj" where
  "event_with_block e =
     spread [(''blockNumber'', Num (re_blockNumber e)), (''blockHash'', Str (re_blockHash e))] (re_args e)"

definition event_with_index :: "raw_event \<Rightarrow> obj" where
  "event_with_index e =
     spread [(''blockNumber'', Num (re_blockNumber e)), (''blockHash'', Str (re_blockHash e)),
             (''transactionIndex'', Num (re_transactionIndex e))] (re_args e)"

definition event_args :: "raw_event \<Rightarrow> obj" where
  "event_args e = spread [] (re_args e)"

section \<open>Factory and items\<close>

definition predictCollectionAddress :: "composables_config \<Rightarrow> rpc \<Rightarrow> string \<Rightarrow> int \<Rightarrow> js_value" where
  "predictCollectionAddress cfg net creatorAddress nonce =
     rpc_call net (cfg_composableItemFactory cfg) ''predictCollectionAddress'' [Str creatorAddress, Num nonce]"

definition chain_collectionCreated :: "composables_config \<Rightarrow> rpc \<Rightarrow> obj list" where
  "chain_collectionCreated cfg net =
     map event_with_block (rpc_events net (cfg_composableItemFactory cfg) ''CollectionCreated'' [])"

definition getComposablePart :: "rpc \<Rightarrow> string \<Rightarrow> string \<Rightarrow> js_value" where
  "getComposablePart net itemTokenAddress itemTokenId =
     (if itemTokenAddress \<noteq> '''' \<and> itemTokenId \<noteq> ''''
      then rpc_call net itemTokenAddress ''getPartBytes'' [Str itemTokenId] else Undefined)"

definition isApprovedForAll :: "rpc \<Rightarrow> string \<Rightarrow> string \<Rightarrow> string \<Rightarrow> js_value" where
  "isApprovedForAll net collectionAddress owner operator =
     rpc_call net collectionAddress ''isApprovedForAll'' [Str owner, Str operator]"

definition chain_collectionOwner :: "rpc \<Rightarrow> string \<Rightarrow> js_value" where
  "chain_collectionOwner net collectionAddress = rpc_call net collectionAddress ''owner'' []"

definition chain_collectionName :: "rpc \<Rightarrow> string \<Rightarrow> js_value" where
  "chain_collectionName net collectionAddress = rpc_call net collectionAddress ''name'' []"

definition chain_collectionSymbol :: "rpc \<Rightarrow> string \<Rightarrow> js_value" where
  "chain_collectionSymbol net collectionAddress = rpc_call net collectionAddress ''symbol'' []"

text \<open>\<open>parseInt(itemCount.toString())\<close>; \<open>None\<close> is \<open>NaN\<close>.\<close>

definition chain_itemCount :: "rpc \<Rightarrow> string \<Rightarrow> int option" where
  "chain_itemCount net collectionAddress = as_int (rpc_call net collectionAddress ''getImageCount'' [])"

text \<open>The image inside a data URI: base64 JSON whose \<open>image\<close> is a base64 data URI itself.  Text that
  is not JSON, or has no \<open>image\<close> string, throws: \<open>None\<close>.\<close>

definition decode_svg :: "runtime \<Rightarrow> string \<Rightarrow> string option" where
  "decode_svg rt dataURI =
     (case rt_parse_json rt (rt_from_base64 rt (drop 29 dataURI)) of
        None \<Rightarrow> None
      | Some v \<Rightarrow> (case member v ''image'' of
            Str image_uri \<Rightarrow> Some (rt_from_base64 rt (drop 26 image_uri))
          | _ \<Rightarrow> None))"

datatype 'a svg_result = Svg 'a | NoSvg | Thrown

definition getCollectionItemSVGBuffer :: "runtime \<Rightarrow> rpc \<Rightarrow> string \<Rightarrow> string \<Rightarrow> string svg_result" where
  "getCollectionItemSVGBuffer rt net collectionAddress tokenId =
     (if collectionAddress \<noteq> '''' \<and> tokenId \<noteq> ''''
      then (case rpc_call net collectionAddress ''dataURI'' [Str tokenId] of
              Str uri \<Rightarrow> (if uri = '''' then NoSvg
                          else case decode_svg rt uri of Some svg \<Rightarrow> Svg svg | None \<Rightarrow> Thrown)
            | v \<Rightarrow> if js_truthy v then Thrown else NoSvg)
      else NoSvg)"

definition chain_palette :: "rpc \<Rightarrow> string \<Rightarrow> js_value" where
  "chain_palette net collectionAddress = rpc_call net collectionAddress ''palettes'' [Num 0]"

definition chain_imageBytes :: "rpc \<Rightarrow> string \<Rightarrow> string \<Rightarrow> js_value" where
  "chain_imageBytes net collectionAddress tokenId = rpc_call net collectionAddress ''getImageBytes'' [Str tokenId]"

definition chain_metaGenerated :: "rpc \<Rightarrow> string \<Rightarrow> string \<Rightarrow> js_value" where
  "chain_metaGenerated net collectionAddress tokenId = rpc_call net collectionAddress ''generateMeta'' [Str tokenId]"

definition or_null :: "string option \<Rightarrow> js_value" where
  "or_null s = (case s of Some x \<Rightarrow> Str x | None \<Rightarrow> Null)"

definition getTransferSingleEvents :: "rpc \<Rightarrow> string \<Rightarrow> string option \<Rightarrow> string option \<Rightarrow> obj list" where
  "getTransferSingleEvents net tokenAddress from_holder to_holder =
     map event_args (rpc_events net tokenAddress ''TransferSingle'' [Null, or_null from_holder, or_null to_holder])"

section \<open>Composer\<close>

definition chain_composedChildBatch :: "rpc \<Rightarrow> string \<Rightarrow> string \<Rightarrow> int \<Rightarrow> int \<Rightarrow> js_value" where
  "chain_composedChildBatch net composerProxyAddress tokenId position1Start position1End =
     rpc_call net composerProxyAddress ''getComposedChildBatch'' [Str tokenId, Num position1Start, Num position1End]"

definition getChildReceivedEvents :: "rpc \<Rightarrow> string \<Rightarrow> string \<Rightarrow> obj list" where
  "getChildReceivedEvents net composerProxyAddress tokenId =
     map event_args (rpc_events net composerProxyAddress ''ChildReceived'' [Str tokenId, Null, Null])"

definition getChildTransferredEvents :: "rpc \<Rightarrow> string \<Rightarrow> string \<Rightarrow> obj list" where
  "getChildTransferredEvents net composerProxyAddress tokenId =
     map event_args (rpc_events net composerProxyAddress ''ChildTransferred'' [Str tokenId, Null, Null])"

section \<open>Market\<close>

definition chain_listingCreated :: "composables_config \<Rightarrow> rpc \<Rightarrow> obj list" where
  "chain_listingCreated cfg net =
     map event_with_block (rpc_events net (cfg_composablesMarketProxy cfg) ''ListingCreated'' [])"

definition chain_listingFilled :: "composables_config \<Rightarrow> rpc \<Rightarrow> string option \<Rightarrow> string option \<Rightarrow> obj list" where
  "chain_listingFilled cfg net buyer tokenAddress =
     (let args = (if truthy_string buyer then [Null, or_null buyer, Null, Null]
                  else if truthy_string tokenAddress then [Null, Null, or_null tokenAddress, Null]
                  else [])
      in map event_with_index (rpc_events net (cfg_composablesMarketProxy cfg) ''ListingFilled'' args))"

definition chain_listingDeleted :: "composables_config \<Rightarrow> rpc \<Rightarrow> obj list" where
  "chain_listingDeleted cfg net =
     map event_with_block (rpc_events net (cfg_composablesMarketProxy cfg) ''ListingDeleted'' [])"

definition getSellerBalance :: "composables_config \<Rightarrow> rpc \<Rightarrow> string \<Rightarrow> js_value" where
  "getSellerBalance cfg net sellerAddress =
     rpc_call net (cfg_composablesMarketProxy cfg) ''balances'' [Str sellerAddress]"

section \<open>Nouns\<close>

definition getNounSeed :: "rpc \<Rightarrow> string \<Rightarrow> string \<Rightarrow> js_value" where
  "getNounSeed net tokenAddress tokenId =
     (if tokenAddress \<noteq> '''' \<and> tokenId \<noteq> '''' then rpc_call net tokenAddress ''seeds'' [Str tokenId] else Undefined)"

definition getNounSVGBuffer ::
    "composables_config \<Rightarrow> runtime \<Rightarrow> rpc \<Rightarrow> string option \<Rightarrow> string \<Rightarrow> string svg_result" where
  "getNounSVGBuffer cfg rt net tokenAddress tokenId =
     (let nounTokenAddress = (if truthy_string tokenAddress then the tokenAddress else cfg_nounsToken cfg)
      in if nounTokenAddress \<noteq> '''' \<and> tokenId \<noteq> ''''
         then (case rpc_call net nounTokenAddress ''dataURI''
                      [Str tokenId, Obj [(''gasLimit'', Num 200000000)]] of
                 Str uri \<Rightarrow> (if uri = '''' then NoSvg
                             else case decode_svg rt uri of Some svg \<Rightarrow> Svg svg | None \<Rightarrow> Thrown)
               | v \<Rightarrow> if js_truthy v then Thrown else NoSvg)
         else NoSvg)"

section \<open>Facts about events\<close>

lemma field_event_with_block:
  "k \<notin> fst ` set (re_args e) \<Longrightarrow> field (event_with_block e) k
     = (if k = ''blockNumber'' then Num (re_blockNumber e) else if k = ''blockHash'' then Str (re_blockHash e) else Undefined)"
  by (simp add: event_with_block_def field_spread)

end
