(* ===== verification/Composables_Indexer.thy ===== *)
theory Composables_Indexer imports Composables_Contracts begin

text \<open>
  The database index of the web application, \<open>utils/composables/composablesIndexer.ts\<close>: its
  tables, the statements that read them and the jobs that copy chain events into them.  \<open>fill\<close> is
  what the database puts into the columns an insert does not name.  A \<open>null\<close> on which the code calls
  a method makes it throw: \<open>None\<close>.
\<close>

section \<open>Tables\<close>

record db =
  t_collection_created :: table
  t_collections :: table
  t_items :: table
  t_listing_created :: table
  t_listing_deleted :: table
  t_listing_filled :: table
  t_profiles :: table

type_synonym filler = "string \<Rightarrow> table \<Rightarrow> obj"

definition isIndexerEnabled :: "string option \<Rightarrow> bool" where
  "isIndexerEnabled host = (host \<noteq> None)"

section \<open>Reading\<close>

definition collection_columns :: "string list" where
  "collection_columns = [''tokenAddress'', ''owner'', ''name'', ''symbol'', ''itemCount'']"

definition where_eq :: "string \<Rightarrow> js_value \<Rightarrow> table \<Rightarrow> table" where
  "where_eq c v rows = filter (\<lambda>r. sql_eq (field r c) v) rows"

definition getCollectionCreatedEvents :: "db \<Rightarrow> table" where
  "getCollectionCreatedEvents d = t_collection_created d"

definition getListingCreatedEvents :: "db \<Rightarrow> table" where
  "getListingCreatedEvents d = t_listing_created d"

definition getListingDeletedEvents :: "db \<Rightarrow> table" where
  "getListingDeletedEvents d = t_listing_deleted d"

definition getCollections :: "bool option \<Rightarrow> db \<Rightarrow> table" where
  "getCollections featured d =
     select collection_columns (if featured = Some True then order_asc ''priority'' (t_collections d) else t_collections d)"

text \<open>\<open>collections[0]\<close>; \<open>None\<close> is \<open>undefined\<close>.\<close>

definition getCollection :: "string \<Rightarrow> db \<Rightarrow> obj option" where
  "getCollection collectionAddress d =
     (case select collection_columns (where_eq ''tokenAddress'' (Str collectionAddress) (t_collections d)) of
        [] \<Rightarrow> None | r # _ \<Rightarrow> Some r)"

definition joined :: "db \<Rightarrow> (obj \<times> obj) list" where
  "joined d = concat (map (\<lambda>c. map (\<lambda>i. (c, i))
     (filter (\<lambda>i. sql_eq (field c ''tokenAddress'') (field i ''tokenAddress'')) (t_items d))) (t_collections d))"

definition item_row :: "obj \<times> obj \<Rightarrow> obj" where
  "item_row p =
     [(''tokenAddress'', field (fst p) ''tokenAddress''), (''tokenId'', field (snd p) ''tokenId''),
      (''collectionName'', field (fst p) ''name''), (''paletteRaw'', field (fst p) ''palette''),
      (''imageBytes'', field (snd p) ''imageBytes''), (''metaGenerated'', field (snd p) ''metaGenerated'')]"

definition by_priority_desc :: "(obj \<times> obj) list \<Rightarrow> (obj \<times> obj) list" where
  "by_priority_desc = sort_by (\<lambda>a b. value_le (sort_value ''priority'' (fst b)) (sort_value ''priority'' (fst a)))"

definition getComposableItemsRows :: "db \<Rightarrow> table" where
  "getComposableItemsRows d = map item_row (by_priority_desc (joined d))"

definition getCountComposableItemCollections :: "db \<Rightarrow> int" where
  "getCountComposableItemCollections d = int (length (t_collections d))"

definition getCountComposableItems :: "db \<Rightarrow> int" where
  "getCountComposableItems d = int (length (t_items d))"

text \<open>\<open>sum(price * quantity)\<close>: rows with a \<open>NULL\<close> factor are passed over, and the sum of no row is
  \<open>NULL\<close>.\<close>

definition product_of :: "obj \<Rightarrow> int option" where
  "product_of r = (case (field r ''price'', field r ''quantity'') of (Num p, Num q) \<Rightarrow> Some (p * q) | _ \<Rightarrow> None)"

definition getSumMarketListingsFilled :: "db \<Rightarrow> js_value" where
  "getSumMarketListingsFilled d =
     (let products = List.map_filter product_of (t_listing_filled d)
      in if products = [] then Null else Num (sum_list products))"

definition getCollectionOwner :: "string \<Rightarrow> db \<Rightarrow> js_value" where
  "getCollectionOwner a d = (case getCollection a d of Some c \<Rightarrow> field c ''owner'' | None \<Rightarrow> Str '''')"

definition getCollectionName :: "string \<Rightarrow> db \<Rightarrow> js_value" where
  "getCollectionName a d = (case getCollection a d of Some c \<Rightarrow> field c ''name'' | None \<Rightarrow> Str '''')"

definition getCollectionSymbol :: "string \<Rightarrow> db \<Rightarrow> js_value" where
  "getCollectionSymbol a d = (case getCollection a d of Some c \<Rightarrow> field c ''symbol'' | None \<Rightarrow> Str '''')"

definition getCollectionItemCount :: "string \<Rightarrow> db \<Rightarrow> int option" where
  "getCollectionItemCount a d =
     (case getCollection a d of Some c \<Rightarrow> as_int (field c ''itemCount'') | None \<Rightarrow> Some 0)"

definition first_field :: "string \<Rightarrow> table \<Rightarrow> js_value" where
  "first_field c rows = (case rows of [] \<Rightarrow> Str '''' | r # _ \<Rightarrow> field r c)"

definition getCollectionPalette :: "string \<Rightarrow> db \<Rightarrow> js_value" where
  "getCollectionPalette a d = first_field ''palette'' (where_eq ''tokenAddress'' (Str a) (t_collections d))"

definition item_rows :: "string \<Rightarrow> string \<Rightarrow> db \<Rightarrow> table" where
  "item_rows a tokenId d = where_eq ''tokenId'' (Str tokenId) (where_eq ''tokenAddress'' (Str a) (t_items d))"

definition getCollectionItemImageBytes :: "string \<Rightarrow> string \<Rightarrow> db \<Rightarrow> js_value" where
  "getCollectionItemImageBytes a tokenId d = first_field ''imageBytes'' (item_rows a tokenId d)"

definition getCollectionItemMetaGenerated :: "string \<Rightarrow> string \<Rightarrow> db \<Rightarrow> js_value" where
  "getCollectionItemMetaGenerated a tokenId d = first_field ''metaGenerated'' (item_rows a tokenId d)"

section \<open>Searching\<close>

text \<open>The clauses the search appends to \<open>WHERE 1=1\<close>, with their parameters, and what they say of a
  joined row.\<close>

definition search_clauses ::
    "string option \<Rightarrow> string option \<Rightarrow> string option \<Rightarrow> string option \<Rightarrow> (string \<times> js_value) list" where
  "search_clauses collectionName categoryName creatorName itemSearch =
     (if truthy_string collectionName then [('' AND C.name = ?'', Str (the collectionName))] else [])
     @ (if truthy_string categoryName then [('' AND parsedCategoryName = ?'', Str (the categoryName))] else [])
     @ (if truthy_string creatorName then [('' AND parsedCreatorName = ?'', Str (the creatorName))] else [])
     @ (if truthy_string itemSearch
        then [('' AND parsedItemName LIKE ?'', Str (''%'' @ the itemSearch @ ''%''))] else [])"

definition sqlFilters :: "(string \<times> js_value) list \<Rightarrow> string" where
  "sqlFilters cs = ''WHERE 1=1'' @ concat (map fst cs)"

definition sqlParams :: "(string \<times> js_value) list \<Rightarrow> js_value list" where
  "sqlParams cs = map snd cs"

definition clause_holds :: "obj \<times> obj \<Rightarrow> string \<times> js_value \<Rightarrow> bool" where
  "clause_holds p cl =
     (if fst cl = '' AND C.name = ?'' then sql_eq (field (fst p) ''name'') (snd cl)
      else if fst cl = '' AND parsedCategoryName = ?'' then sql_eq (field (snd p) ''parsedCategoryName'') (snd cl)
      else if fst cl = '' AND parsedCreatorName = ?'' then sql_eq (field (snd p) ''parsedCreatorName'') (snd cl)
      else (case (field (snd p) ''parsedItemName'', snd cl) of (Str s, Str pat) \<Rightarrow> sql_like pat s | _ \<Rightarrow> False))"

definition search_matches ::
    "string option \<Rightarrow> string option \<Rightarrow> string option \<Rightarrow> string option \<Rightarrow> db \<Rightarrow> (obj \<times> obj) list" where
  "search_matches collectionName categoryName creatorName itemSearch d =
     filter (\<lambda>p. list_all (clause_holds p) (search_clauses collectionName categoryName creatorName itemSearch)) (joined d)"

definition getComposableItemsSearchRowsCount ::
    "string option \<Rightarrow> string option \<Rightarrow> string option \<Rightarrow> string option \<Rightarrow> db \<Rightarrow> int" where
  "getComposableItemsSearchRowsCount collectionName categoryName creatorName itemSearch d =
     int (length (search_matches collectionName categoryName creatorName itemSearch d))"

text \<open>\<open>LIMIT a, b\<close> skips \<open>a\<close> rows and returns at most \<open>b\<close>.\<close>

definition sql_limit :: "nat \<Rightarrow> nat \<Rightarrow> 'a list \<Rightarrow> 'a list" where
  "sql_limit offset row_count rows = take row_count (drop offset rows)"

definition getComposableItemsSearchRows ::
    "nat \<Rightarrow> nat \<Rightarrow> string option \<Rightarrow> string option \<Rightarrow> string option \<Rightarrow> string option \<Rightarrow> db \<Rightarrow> table" where
  "getComposableItemsSearchRows firstPageIndex lastPageIndex collectionName categoryName creatorName itemSearch d =
     map item_row (sql_limit firstPageIndex lastPageIndex
       (by_priority_desc (search_matches collectionName categoryName creatorName itemSearch d)))"

definition getComposableItemsSearchFilters :: "db \<Rightarrow> table" where
  "getComposableItemsSearchFilters d =
     remdups (map (\<lambda>(c, i). [(''tokenAddress'', field c ''tokenAddress''), (''collectionName'', field c ''name''),
        (''parsedCategoryName'', field i ''parsedCategoryName''), (''parsedCreatorName'', field i ''parsedCreatorName'')])
       (joined d))"

text \<open>The parsed parts of a row's metadata; text that does not parse, or has fewer than two
  attributes, throws.\<close>

definition parsed_meta :: "runtime \<Rightarrow> string \<Rightarrow> (js_value \<times> js_value \<times> js_value) option" where
  "parsed_meta rt meta =
     (case rt_parse_json rt (''{'' @ meta @ ''}'') of
        None \<Rightarrow> None
      | Some json \<Rightarrow> (case member json ''attributes'' of
            Arr (a # b # _) \<Rightarrow>
              (if a = Null \<or> b = Null then None
               else Some (member json ''name'', member a ''value'', member b ''value''))
          | _ \<Rightarrow> None))"

fun parse_rows :: "runtime \<Rightarrow> table \<Rightarrow> table \<Rightarrow> bool \<times> table" where
  "parse_rows rt [] items = (True, items)"
| "parse_rows rt (row # rows) items =
     (case parsed_meta rt (as_string (field row ''metaGenerated'')) of
        None \<Rightarrow> (False, items)
      | Some (itemName, categoryName, creatorName) \<Rightarrow>
          parse_rows rt rows
            (update_rows (\<lambda>r. sql_eq (field r ''id'') (field row ''id''))
               [(''parsedItemName'', itemName), (''parsedCategoryName'', categoryName), (''parsedCreatorName'', creatorName)]
               items))"

definition indexComposableItemsSearchFilters :: "runtime \<Rightarrow> db \<Rightarrow> bool \<times> db" where
  "indexComposableItemsSearchFilters rt d =
     (let rows = select [''id'', ''metaGenerated''] (filter (\<lambda>r. field r ''parsedItemName'' = Null
                   \<or> field r ''parsedCategoryName'' = Null \<or> field r ''parsedCreatorName'' = Null) (t_items d));
          (ok, items) = parse_rows rt rows (t_items d)
      in (ok, d\<lparr>t_items := items\<rparr>))"

section \<open>Collection and profile info\<close>

definition info_columns :: "string list" where
  "info_columns = [''description'', ''thumbnailImage'', ''bannerImage'']"

definition getCollectionInfo :: "string \<Rightarrow> db \<Rightarrow> obj option" where
  "getCollectionInfo a d =
     (case select (''tokenAddress'' # info_columns) (where_eq ''tokenAddress'' (Str a) (t_collections d)) of
        [] \<Rightarrow> None | r # _ \<Rightarrow> Some r)"

definition getCollectionInfoBatch :: "int \<Rightarrow> db \<Rightarrow> table" where
  "getCollectionInfoBatch limit d =
     (let rows = select (''tokenAddress'' # info_columns) (order_desc ''id'' (t_collections d))
      in if limit > 0 then take (nat limit) rows else rows)"

definition getProfileInfo :: "string \<Rightarrow> db \<Rightarrow> obj option" where
  "getProfileInfo w d =
     (case select (''id'' # info_columns) (where_eq ''walletAddress'' (Str w) (t_profiles d)) of
        [] \<Rightarrow> None | r # _ \<Rightarrow> Some r)"

definition info_values :: "string \<Rightarrow> js_value \<Rightarrow> js_value \<Rightarrow> (string \<times> js_value) list" where
  "info_values description thumbnailImage bannerImage =
     [(''description'', Str description), (''thumbnailImage'', thumbnailImage), (''bannerImage'', bannerImage)]"

definition updateCollectionInfo :: "string \<Rightarrow> string \<Rightarrow> js_value \<Rightarrow> js_value \<Rightarrow> db \<Rightarrow> db" where
  "updateCollectionInfo a description thumbnailImage bannerImage d =
     d\<lparr>t_collections := update_rows (\<lambda>r. sql_eq (field r ''tokenAddress'') (Str a))
          (info_values description thumbnailImage bannerImage) (t_collections d)\<rparr>"

definition insertProfileInfo :: "filler \<Rightarrow> string \<Rightarrow> string \<Rightarrow> js_value \<Rightarrow> js_value \<Rightarrow> db \<Rightarrow> db" where
  "insertProfileInfo fill w description thumbnailImage bannerImage d =
     d\<lparr>t_profiles := insert_row (fill ''profiles'')
          ((''walletAddress'', Str w) # info_values description thumbnailImage bannerImage) (t_profiles d)\<rparr>"

definition updateProfileInfo :: "string \<Rightarrow> string \<Rightarrow> js_value \<Rightarrow> js_value \<Rightarrow> db \<Rightarrow> db" where
  "updateProfileInfo w description thumbnailImage bannerImage d =
     d\<lparr>t_profiles := update_rows (\<lambda>r. sql_eq (field r ''walletAddress'') (Str w))
          (info_values description thumbnailImage bannerImage) (t_profiles d)\<rparr>"

section \<open>Indexing jobs\<close>

text \<open>The columns of an event, in the order of the statement.\<close>

definition event_columns :: "string list \<Rightarrow> obj \<Rightarrow> (string \<times> js_value) list" where
  "event_columns cols e = map (\<lambda>c. (c, field e c)) cols"

definition collection_created_columns :: "string list" where
  "collection_created_columns =
     [''blockNumber'', ''blockHash'', ''tokenAddress'', ''creator'', ''version'', ''name'', ''symbol'', ''nonce'']"

fun index_collections :: "filler \<Rightarrow> js_value list \<Rightarrow> obj list \<Rightarrow> db \<Rightarrow> db" where
  "index_collections fill known [] d = d"
| "index_collections fill known (e # es) d =
     index_collections fill known es
       (if field e ''tokenAddress'' \<notin> set known
        then d\<lparr>t_collection_created := insert_row (fill ''events_collection_created'')
                 (event_columns collection_created_columns e) (t_collection_created d),
               t_collections := insert_row (fill ''collections'')
                 [(''tokenAddress'', field e ''tokenAddress''), (''owner'', field e ''creator''),
                  (''name'', field e ''name''), (''symbol'', field e ''symbol'')] (t_collections d)\<rparr>
        else d)"

definition indexComposableItemCollections :: "filler \<Rightarrow> composables_config \<Rightarrow> rpc \<Rightarrow> db \<Rightarrow> db" where
  "indexComposableItemCollections fill cfg net d =
     index_collections fill (map (\<lambda>r. field r ''tokenAddress'') (t_collection_created d))
       (chain_collectionCreated cfg net) d"

text \<open>The item loop from \<open>i\<close> on; \<open>rows\<close> is what was read before it.\<close>

fun index_items :: "filler \<Rightarrow> rpc \<Rightarrow> string \<Rightarrow> table \<Rightarrow> int list \<Rightarrow> table \<Rightarrow> table" where
  "index_items fill net a rows [] items = items"
| "index_items fill net a rows (i # is) items =
     index_items fill net a rows is
       (if list_ex (\<lambda>r. field r ''tokenAddress'' = Str a \<and> field r ''tokenId'' = Num i) rows then items
        else (let dat = chain_imageBytes net a (int_to_string i);
                  meta = chain_metaGenerated net a (int_to_string i)
              in if js_truthy dat \<and> js_truthy meta
                 then insert_row (fill ''collection_items'')
                        [(''tokenAddress'', Str a), (''tokenId'', Num i), (''imageBytes'', dat), (''metaGenerated'', meta)] items
                 else items))"

text \<open>A count that is not a number compares as false.\<close>

definition indexComposableItems :: "filler \<Rightarrow> rpc \<Rightarrow> string \<Rightarrow> db \<Rightarrow> db option" where
  "indexComposableItems fill net a d =
     (case getCollectionItemCount a d of
        None \<Rightarrow> None
      | Some indexCount \<Rightarrow>
     (case chain_itemCount net a of
        None \<Rightarrow> Some d
      | Some contractCount \<Rightarrow>
          if indexCount < contractCount
          then (let rows = select [''tokenAddress'', ''tokenId''] (where_eq ''tokenAddress'' (Str a) (t_items d));
                    paletteRaw = chain_palette net a;
                    items = index_items fill net a rows [indexCount..contractCount - 1] (t_items d)
                in Some (d\<lparr>t_items := items,
                     t_collections := update_rows (\<lambda>r. sql_eq (field r ''tokenAddress'') (Str a))
                       [(''itemCount'', Num contractCount), (''palette'', paletteRaw)] (t_collections d)\<rparr>))
          else Some d))"

definition listing_created_columns :: "string list" where
  "listing_created_columns =
     [''blockNumber'', ''blockHash'', ''listingId'', ''seller'', ''tokenAddress'', ''tokenId'', ''price'', ''quantity'', ''maxPerAddress'']"

definition listing_deleted_columns :: "string list" where
  "listing_deleted_columns = [''blockNumber'', ''blockHash'', ''listingId'']"

definition listing_filled_columns :: "string list" where
  "listing_filled_columns =
     [''blockNumber'', ''blockHash'', ''transactionIndex'', ''listingId'', ''buyer'', ''tokenAddress'', ''tokenId'', ''seller'',
      ''price'', ''quantity'', ''sellerAmount'', ''feeAmount'']"

text \<open>One of the two loops: \<open>parseInt(event.listingId.toString())\<close> against the ids read before.\<close>

definition listing_known :: "js_value list \<Rightarrow> obj \<Rightarrow> bool" where
  "listing_known known e = (case as_int (field e ''listingId'') of Some n \<Rightarrow> Num n \<in> set known | None \<Rightarrow> False)"

fun index_listings :: "(table \<Rightarrow> obj) \<Rightarrow> string list \<Rightarrow> js_value list \<Rightarrow> obj list \<Rightarrow> table \<Rightarrow> table" where
  "index_listings fill cols known [] rows = rows"
| "index_listings fill cols known (e # es) rows =
     index_listings fill cols known es
       (if listing_known known e then rows else insert_row fill (event_columns cols e) rows)"

definition indexComposablesMarketListings :: "filler \<Rightarrow> composables_config \<Rightarrow> rpc \<Rightarrow> db \<Rightarrow> db" where
  "indexComposablesMarketListings fill cfg net d =
     (let listingsCreated = chain_listingCreated cfg net;
          listingsDeleted = chain_listingDeleted cfg net;
          created = index_listings (fill ''events_listing_created'') listing_created_columns
                      (map (\<lambda>r. field r ''listingId'') (t_listing_created d)) listingsCreated (t_listing_created d);
          deleted = index_listings (fill ''events_listing_deleted'') listing_deleted_columns
                      (map (\<lambda>r. field r ''listingId'') (t_listing_deleted d)) listingsDeleted (t_listing_deleted d)
      in d\<lparr>t_listing_created := created, t_listing_deleted := deleted\<rparr>)"

fun index_filled :: "(table \<Rightarrow> obj) \<Rightarrow> table \<Rightarrow> obj list \<Rightarrow> table \<Rightarrow> table" where
  "index_filled fill known [] rows = rows"
| "index_filled fill known (e # es) rows =
     index_filled fill known es
       (if list_ex (\<lambda>r. field r ''blockNumber'' = field e ''blockNumber''
             \<and> field r ''transactionIndex'' = field e ''transactionIndex'') known
        then rows else insert_row fill (event_columns listing_filled_columns e) rows)"

definition indexComposablesMarketListingsFilled :: "filler \<Rightarrow> composables_config \<Rightarrow> rpc \<Rightarrow> db \<Rightarrow> db" where
  "indexComposablesMarketListingsFilled fill cfg net d =
     (let rows = select [''blockNumber'', ''transactionIndex''] (t_listing_filled d)
      in d\<lparr>t_listing_filled := index_filled (fill ''events_listing_filled'') rows
             (chain_listingFilled cfg net None None) (t_listing_filled d)\<rparr>)"

end
