(* ===== verification/Composables_Wrapper.thy ===== *)
theory Composables_Wrapper imports Composables_Indexer Svg_Builder begin

text \<open>
  The facade the pages use, \<open>utils/composables/composablesWrapper.ts\<close>: it reads from the index when
  there is one (\<open>isIndexer\<close>) and from the chain otherwise, and keeps the balances of items and
  children; with the copies of the SDK the composer uses, \<open>nounsSDK.ts\<close> and \<open>nounsAssets.ts\<close>.
  A call on a missing value throws: \<open>None\<close>.  A bignumber.js value is an \<open>int\<close>.
\<close>

section \<open>Items\<close>

record composable_image =
  ci_filename :: string
  ci_data :: js_value
  ci_palette :: "string list"

record composable_item =
  it_collection :: js_value
  it_meta :: js_value
  it_image :: composable_image
  it_tokenAddress :: js_value
  it_tokenId :: int

record token_item =
  tk_address :: js_value
  tk_id :: int
  tk_balance :: "int option"

record market_listing =
  ml_listingId :: "int option"
  ml_seller :: js_value
  ml_tokenAddress :: js_value
  ml_tokenId :: "int option"
  ml_price :: "int option"
  ml_quantity :: "int option"
  ml_maxPerAddress :: "int option"

definition filterComposableItemMarketListings ::
    "market_listing list option \<Rightarrow> js_value \<Rightarrow> int \<Rightarrow> market_listing list" where
  "filterComposableItemMarketListings listings tokenAddress tokenId =
     (case listings of
        Some ls \<Rightarrow> filter (\<lambda>l. ml_tokenAddress l = tokenAddress \<and> ml_tokenId l = Some tokenId) ls
      | None \<Rightarrow> [])"

definition filterComposableItemMarketListing ::
    "market_listing list option \<Rightarrow> js_value \<Rightarrow> int \<Rightarrow> market_listing option" where
  "filterComposableItemMarketListing listings tokenAddress tokenId =
     (case listings of
        Some ls \<Rightarrow> find (\<lambda>l. ml_tokenAddress l = tokenAddress \<and> ml_tokenId l = Some tokenId) ls
      | None \<Rightarrow> None)"

definition filterComposableItem ::
    "composable_item list option \<Rightarrow> js_value \<Rightarrow> int \<Rightarrow> composable_item option" where
  "filterComposableItem composableItems tokenAddress tokenId =
     (case composableItems of
        Some is \<Rightarrow> find (\<lambda>i. it_tokenAddress i = tokenAddress \<and> it_tokenId i = tokenId) is
      | None \<Rightarrow> None)"

definition filterTokenItem :: "token_item list option \<Rightarrow> js_value \<Rightarrow> int \<Rightarrow> token_item option" where
  "filterTokenItem tokenItems tokenAddress tokenId =
     (case tokenItems of
        Some is \<Rightarrow> find (\<lambda>i. tk_address i = tokenAddress \<and> tk_id i = tokenId) is
      | None \<Rightarrow> None)"

definition filterComposableItemByAddress ::
    "composable_item list option \<Rightarrow> js_value \<Rightarrow> composable_item list option" where
  "filterComposableItemByAddress collectionItems tokenAddress =
     map_option (filter (\<lambda>i. it_tokenAddress i = tokenAddress)) collectionItems"

definition filterCollectionInfoByAddress :: "obj list option \<Rightarrow> js_value \<Rightarrow> obj option" where
  "filterCollectionInfoByAddress collectionInfos tokenAddress =
     (case collectionInfos of
        Some is \<Rightarrow> find (\<lambda>i. field i ''tokenAddress'' = tokenAddress) is
      | None \<Rightarrow> None)"

section \<open>Index or chain\<close>

record env =
  en_isIndexer :: bool
  en_cfg :: composables_config
  en_net :: rpc
  en_rt :: runtime
  en_fill :: filler

text \<open>The jobs: a flag for the result and the database after it.\<close>

definition wrap_indexComposableItemCollections :: "env \<Rightarrow> db \<Rightarrow> bool \<times> db" where
  "wrap_indexComposableItemCollections en d =
     (if en_isIndexer en then (True, indexComposableItemCollections (en_fill en) (en_cfg en) (en_net en) d) else (False, d))"

definition wrap_indexComposableItems :: "env \<Rightarrow> string \<Rightarrow> db \<Rightarrow> (bool \<times> db) option" where
  "wrap_indexComposableItems en a d =
     (if en_isIndexer en then map_option (Pair True) (indexComposableItems (en_fill en) (en_net en) a d) else Some (False, d))"

definition wrap_indexComposablesMarketListings :: "env \<Rightarrow> db \<Rightarrow> bool \<times> db" where
  "wrap_indexComposablesMarketListings en d =
     (if en_isIndexer en then (True, indexComposablesMarketListings (en_fill en) (en_cfg en) (en_net en) d) else (False, d))"

definition wrap_indexComposablesMarketListingsFilled :: "env \<Rightarrow> db \<Rightarrow> bool \<times> db" where
  "wrap_indexComposablesMarketListingsFilled en d =
     (if en_isIndexer en then (True, indexComposablesMarketListingsFilled (en_fill en) (en_cfg en) (en_net en) d) else (False, d))"

definition wrap_getCollectionInfo :: "env \<Rightarrow> string \<Rightarrow> db \<Rightarrow> obj option" where
  "wrap_getCollectionInfo en a d = (if en_isIndexer en then getCollectionInfo a d else None)"

definition wrap_getCollectionInfoBatch :: "env \<Rightarrow> int \<Rightarrow> db \<Rightarrow> table option" where
  "wrap_getCollectionInfoBatch en limit d = (if en_isIndexer en then Some (getCollectionInfoBatch limit d) else None)"

definition wrap_getCountComposableItemCollections :: "env \<Rightarrow> db \<Rightarrow> int" where
  "wrap_getCountComposableItemCollections en d = (if en_isIndexer en then getCountComposableItemCollections d else 0)"

definition wrap_getCountComposableItems :: "env \<Rightarrow> db \<Rightarrow> int" where
  "wrap_getCountComposableItems en d = (if en_isIndexer en then getCountComposableItems d else 0)"

text \<open>\<open>sumFilled.toString()\<close> throws on \<open>null\<close>.\<close>

definition wrap_getSumMarketListingsFilled :: "env \<Rightarrow> db \<Rightarrow> int option" where
  "wrap_getSumMarketListingsFilled en d =
     (if en_isIndexer en
      then (case getSumMarketListingsFilled d of Null \<Rightarrow> None | Undefined \<Rightarrow> None | v \<Rightarrow> as_int v)
      else Some 0)"

definition collection_obj :: "js_value \<Rightarrow> js_value \<Rightarrow> js_value \<Rightarrow> js_value \<Rightarrow> js_value \<Rightarrow> obj" where
  "collection_obj tokenAddress owner name symbol itemCount =
     [(''tokenAddress'', tokenAddress), (''owner'', owner), (''name'', name), (''symbol'', symbol), (''itemCount'', itemCount)]"

definition count_value :: "int option \<Rightarrow> js_value" where
  "count_value n = (case n of Some i \<Rightarrow> Num i | None \<Rightarrow> Undefined)"

definition getComposableItemCollections :: "env \<Rightarrow> bool \<Rightarrow> bool option \<Rightarrow> db \<Rightarrow> obj list" where
  "getComposableItemCollections en full featured d =
     (if en_isIndexer en then getCollections featured d
      else (let net = en_net en;
                collections = map (\<lambda>e. collection_obj (field e ''tokenAddress'') (field e ''creator'') (field e ''name'')
                                         (field e ''symbol'') (Num (-1))) (chain_collectionCreated (en_cfg en) net)
            in if full
               then map (\<lambda>c. let a = as_string (field c ''tokenAddress'')
                              in collection_obj (field c ''tokenAddress'') (chain_collectionOwner net a)
                                   (chain_collectionName net a) (chain_collectionSymbol net a)
                                   (count_value (chain_itemCount net a))) collections
               else collections))"

definition getComposableItemCollection :: "env \<Rightarrow> string \<Rightarrow> db \<Rightarrow> obj option" where
  "getComposableItemCollection en a d =
     (if en_isIndexer en then getCollection a d
      else (let net = en_net en
            in Some (collection_obj (Str a) (chain_collectionOwner net a) (chain_collectionName net a)
                 (chain_collectionSymbol net a) (count_value (chain_itemCount net a)))))"

section \<open>Preparing items\<close>

text \<open>\<open>s.match(/.{1,k}/g)\<close>, with no match as the empty list.\<close>

function match_chunks :: "nat \<Rightarrow> string \<Rightarrow> string list" where
  "match_chunks k [] = []"
| "match_chunks k (c # cs) =
     (if is_line_end c then match_chunks k cs
      else (let q = takeWhile (\<lambda>d. \<not> is_line_end d) (take (max 1 k) (c # cs))
            in q # match_chunks k (drop (length q) (c # cs))))"
  by pat_completeness auto
termination by (relation "measure (\<lambda>(k, s). length s)") (auto simp: Let_def max_def take_Cons')

definition prepareComposableItem ::
    "runtime \<Rightarrow> js_value \<Rightarrow> int \<Rightarrow> js_value \<Rightarrow> js_value \<Rightarrow> js_value \<Rightarrow> js_value \<Rightarrow> composable_item option" where
  "prepareComposableItem rt tokenAddress tokenId collectionName paletteRaw imageBytes metaGenerated =
     (case paletteRaw of
        Str s \<Rightarrow>
          (case match_chunks 6 (drop 2 s) of
             [] \<Rightarrow> None
           | palette \<Rightarrow>
          (case rt_parse_json rt (''{'' @ as_string metaGenerated @ ''}'') of
             Some (Obj json) \<Rightarrow>
               (case parsed_meta rt (as_string metaGenerated) of
                  None \<Rightarrow> None
                | Some (name, category, creator) \<Rightarrow>
                    Some \<lparr>it_collection = collectionName,
                          it_meta = Obj (AList.update ''creator'' creator (AList.update ''category'' category json)),
                          it_image = \<lparr>ci_filename = as_string creator @ ''-'' @ as_string category @ ''-'' @ as_string name,
                                      ci_data = imageBytes, ci_palette = palette\<rparr>,
                          it_tokenAddress = tokenAddress, it_tokenId = tokenId\<rparr>)
           | _ \<Rightarrow> None))
      | _ \<Rightarrow> None)"

text \<open>The items of index rows: rows without a palette are left out.\<close>

definition row_item :: "runtime \<Rightarrow> obj \<Rightarrow> composable_item option" where
  "row_item rt r =
     (case as_int (field r ''tokenId'') of
        None \<Rightarrow> None
      | Some n \<Rightarrow> prepareComposableItem rt (field r ''tokenAddress'') n (field r ''collectionName'') (field r ''paletteRaw'')
                    (field r ''imageBytes'') (field r ''metaGenerated''))"

definition rows_items :: "runtime \<Rightarrow> table \<Rightarrow> composable_item list option" where
  "rows_items rt rows = all_or_none (map (row_item rt) (filter (\<lambda>r. js_truthy (field r ''paletteRaw'')) rows))"

definition router_palette :: "env \<Rightarrow> string \<Rightarrow> db \<Rightarrow> js_value" where
  "router_palette en a d = (if en_isIndexer en then getCollectionPalette a d else chain_palette (en_net en) a)"

definition router_imageBytes :: "env \<Rightarrow> string \<Rightarrow> string \<Rightarrow> db \<Rightarrow> js_value" where
  "router_imageBytes en a i d =
     (if en_isIndexer en then getCollectionItemImageBytes a i d else chain_imageBytes (en_net en) a i)"

definition router_metaGenerated :: "env \<Rightarrow> string \<Rightarrow> string \<Rightarrow> db \<Rightarrow> js_value" where
  "router_metaGenerated en a i d =
     (if en_isIndexer en then getCollectionItemMetaGenerated a i d else chain_metaGenerated (en_net en) a i)"

definition getComposableItems :: "env \<Rightarrow> string \<Rightarrow> int \<Rightarrow> js_value \<Rightarrow> db \<Rightarrow> composable_item list option" where
  "getComposableItems en a itemCount collectionName d =
     (if itemCount = 0 then Some []
      else (let paletteRaw = router_palette en a d;
                with_data = filter (\<lambda>i. js_truthy (router_imageBytes en a (int_to_string i) d)
                                    \<and> js_truthy (router_metaGenerated en a (int_to_string i) d)) [0..itemCount - 1]
            in all_or_none (map (\<lambda>i. prepareComposableItem (en_rt en) (Str a) i collectionName paletteRaw
                  (router_imageBytes en a (int_to_string i) d) (router_metaGenerated en a (int_to_string i) d)) with_data)))"

definition getComposableItemsBatch :: "env \<Rightarrow> (string \<times> int \<times> js_value) list \<Rightarrow> db \<Rightarrow> composable_item list option" where
  "getComposableItemsBatch en collections d =
     (if en_isIndexer en then rows_items (en_rt en) (getComposableItemsRows d)
      else map_option concat (all_or_none
             (map (\<lambda>(a, itemCount, name). getComposableItems en a itemCount name d) collections)))"

definition getComposableItemsSearchCount ::
    "env \<Rightarrow> string option \<Rightarrow> string option \<Rightarrow> string option \<Rightarrow> string option \<Rightarrow> db \<Rightarrow> int" where
  "getComposableItemsSearchCount en collectionName categoryName creatorName itemSearch d =
     (if en_isIndexer en then getComposableItemsSearchRowsCount collectionName categoryName creatorName itemSearch d else 0)"

definition getComposableItemsSearch ::
    "env \<Rightarrow> nat \<Rightarrow> nat \<Rightarrow> string option \<Rightarrow> string option \<Rightarrow> string option \<Rightarrow> string option \<Rightarrow> db
      \<Rightarrow> composable_item list option" where
  "getComposableItemsSearch en firstPageIndex lastPageIndex collectionName categoryName creatorName itemSearch d =
     (if en_isIndexer en
      then rows_items (en_rt en) (getComposableItemsSearchRows firstPageIndex lastPageIndex collectionName categoryName
             creatorName itemSearch d)
      else Some [])"

section \<open>Balances\<close>

text \<open>The two loops over events in and out: \<open>same\<close> finds an entry.\<close>

definition credit :: "(token_item \<Rightarrow> bool) \<Rightarrow> token_item \<Rightarrow> int \<Rightarrow> token_item list \<Rightarrow> token_item list" where
  "credit same new amount items =
     (if list_ex same items
      then (let i = length (takeWhile (\<lambda>x. \<not> same x) items)
            in items[i := (items ! i)\<lparr>tk_balance := Some (the (tk_balance (items ! i)) + amount)\<rparr>])
      else items @ [new\<lparr>tk_balance := Some amount\<rparr>])"

text \<open>An outgoing event without an entry is only logged.\<close>

definition debit :: "(token_item \<Rightarrow> bool) \<Rightarrow> int \<Rightarrow> token_item list \<Rightarrow> token_item list" where
  "debit same amount items =
     (if list_ex same items
      then (let i = length (takeWhile (\<lambda>x. \<not> same x) items)
            in items[i := (items ! i)\<lparr>tk_balance := Some (the (tk_balance (items ! i)) - amount)\<rparr>])
      else items)"

definition positive :: "token_item \<Rightarrow> bool" where
  "positive t = (case tk_balance t of Some b \<Rightarrow> b > 0 | None \<Rightarrow> False)"

definition event_int :: "obj \<Rightarrow> string \<Rightarrow> int" where
  "event_int e k = (case as_int (field e k) of Some n \<Rightarrow> n | None \<Rightarrow> 0)"

definition getTokenHoldings :: "rpc \<Rightarrow> string \<Rightarrow> string \<Rightarrow> token_item list" where
  "getTokenHoldings net tokenAddress holder =
     (let transferIn = getTransferSingleEvents net tokenAddress None (Some holder);
          transferOut = getTransferSingleEvents net tokenAddress (Some holder) None;
          ins = fold (\<lambda>e. credit (\<lambda>h. tk_id h = event_int e ''id'')
                  \<lparr>tk_address = Str tokenAddress, tk_id = event_int e ''id'', tk_balance = None\<rparr>
                  (event_int e ''value'')) transferIn [];
          outs = fold (\<lambda>e. debit (\<lambda>h. tk_id h = event_int e ''id'') (event_int e ''value'')) transferOut ins
      in filter positive outs)"

definition getChildTokens :: "rpc \<Rightarrow> string \<Rightarrow> string \<Rightarrow> token_item list" where
  "getChildTokens net composerProxyAddress tokenId =
     (let received = getChildReceivedEvents net composerProxyAddress tokenId;
          transferred = getChildTransferredEvents net composerProxyAddress tokenId;
          same = (\<lambda>e c. tk_address c = field e ''childTokenAddress'' \<and> tk_id c = event_int e ''childTokenId'');
          ins = fold (\<lambda>e. credit (same e)
                  \<lparr>tk_address = field e ''childTokenAddress'', tk_id = event_int e ''childTokenId'', tk_balance = None\<rparr>
                  (event_int e ''amount'')) received [];
          outs = fold (\<lambda>e. debit (same e) (event_int e ''amount'')) transferred ins
      in filter positive outs)"

definition getComposedChildBatch :: "rpc \<Rightarrow> string \<Rightarrow> string \<Rightarrow> int \<Rightarrow> int \<Rightarrow> token_item list option" where
  "getComposedChildBatch net composerProxyAddress tokenId position1Start position1End =
     (case chain_composedChildBatch net composerProxyAddress tokenId position1Start position1End of
        Arr children \<Rightarrow>
          Some (map (\<lambda>c. \<lparr>tk_address = member c ''tokenAddress'',
                          tk_id = (case as_int (member c ''tokenId'') of Some n \<Rightarrow> n | None \<Rightarrow> 0),
                          tk_balance = None\<rparr>) children)
      | _ \<Rightarrow> None)"

section \<open>Market\<close>

definition listing_of :: "obj \<Rightarrow> int option \<Rightarrow> market_listing" where
  "listing_of e maxPerAddress =
     \<lparr>ml_listingId = as_int (field e ''listingId''), ml_seller = field e ''seller'',
      ml_tokenAddress = field e ''tokenAddress'', ml_tokenId = as_int (field e ''tokenId''),
      ml_price = as_int (field e ''price''), ml_quantity = as_int (field e ''quantity''),
      ml_maxPerAddress = maxPerAddress\<rparr>"

definition getComposablesMarketListings :: "env \<Rightarrow> db \<Rightarrow> market_listing list" where
  "getComposablesMarketListings en d =
     (let listingsCreated = (if en_isIndexer en then getListingCreatedEvents d else chain_listingCreated (en_cfg en) (en_net en));
          listingsDeleted = (if en_isIndexer en then getListingDeletedEvents d else chain_listingDeleted (en_cfg en) (en_net en));
          listingsFiltered = filter (\<lambda>l. \<not> list_ex (\<lambda>dl. as_string (field dl ''listingId'') = as_string (field l ''listingId''))
                                listingsDeleted) listingsCreated
      in map (\<lambda>e. listing_of e (as_int (field e ''maxPerAddress''))) listingsFiltered)"

definition getComposablesMarketListingsFilled :: "env \<Rightarrow> string option \<Rightarrow> string option \<Rightarrow> market_listing list" where
  "getComposablesMarketListingsFilled en buyer tokenAddress =
     map (\<lambda>e. listing_of e (Some 0)) (chain_listingFilled (en_cfg en) (en_net en) buyer tokenAddress)"

section \<open>Composed images\<close>

text \<open>\<open>buildSVG\<close> of \<open>nounsSDK.ts\<close>: a part may bring its own palette.\<close>

definition local_draw_part :: "string list \<Rightarrow> string \<times> string list option \<Rightarrow> svg_rect list option" where
  "local_draw_part paletteColors part =
     draw_part (case snd part of Some local \<Rightarrow> local | None \<Rightarrow> paletteColors) (fst part)"

fun local_draw_parts :: "string list \<Rightarrow> (string \<times> string list option) list \<Rightarrow> string \<Rightarrow> string option" where
  "local_draw_parts palette [] result = Some result"
| "local_draw_parts palette (part # parts) result =
     (case local_draw_part palette part of
        None \<Rightarrow> None
      | Some svgRects \<Rightarrow> local_draw_parts palette parts (result @ concat (map render_rect svgRects)))"

definition local_buildSVG :: "(string \<times> string list option) list \<Rightarrow> string list \<Rightarrow> string \<Rightarrow> string option" where
  "local_buildSVG parts paletteColors bgColor =
     (case local_draw_parts paletteColors parts (svg_open bgColor) of
        None \<Rightarrow> None
      | Some svgWithoutEndTag \<Rightarrow> Some (svgWithoutEndTag @ ''</svg>''))"

end
