(* ===== verification/Composables_Jobs.thy ===== *)
theory Composables_Jobs imports Composables_Wrapper begin

text \<open>
  What the indexing jobs of \<open>composablesIndexer.ts\<close> promise.  Four of them have one shape: read what is
  recorded, read the chain's events, insert those that are not recorded.  \<open>event_log\<close> states that
  shape once; the jobs are its interpretations, and the index of the market is shown to give the
  pages the listings the chain gives them.
\<close>

section \<open>The shape of a job\<close>

text \<open>A log that has only got new events.\<close>

definition grows :: "('e \<Rightarrow> 'k) \<Rightarrow> 'e list \<Rightarrow> 'e list \<Rightarrow> bool" where
  "grows key old log =
     (take (length old) log = old \<and> list_all (\<lambda>e. key e \<notin> key ` set old) (drop (length old) log))"

locale event_log =
  fixes job :: "'w \<Rightarrow> 'e list \<Rightarrow> 's \<Rightarrow> 's"
    and store :: "'e \<Rightarrow> 's \<Rightarrow> 's"
    and recorded :: "'w \<Rightarrow> 'e \<Rightarrow> bool"
    and seen :: "'s \<Rightarrow> 'w"
    and keys :: "'s \<Rightarrow> 'k list"
    and key :: "'e \<Rightarrow> 'k"
    and good :: "'e \<Rightarrow> bool"
  assumes job_Nil: "job w [] s = s"
    and job_Cons: "job w (e # es) s = job w es (if recorded w e then s else store e s)"
    and keys_store: "good e \<Longrightarrow> keys (store e s) = keys s @ [key e]"
    and recorded_seen: "good e \<Longrightarrow> recorded (seen s) e = (key e \<in> set (keys s))"
begin

lemma job_stores: "job w es s = fold store (filter (\<lambda>e. \<not> recorded w e) es) s"
  by (induction es arbitrary: s) (simp_all add: job_Nil job_Cons)

lemma keys_fold:
  assumes "list_all good es"
  shows "keys (fold store es s) = keys s @ map key es"
  using assms by (induction es arbitrary: s) (simp_all add: keys_store)

lemma new_events:
  assumes "list_all good es"
  shows "filter (\<lambda>e. \<not> recorded (seen s) e) es = filter (\<lambda>e. key e \<notin> set (keys s)) es"
  using assms by (intro filter_cong) (auto simp: list_all_iff recorded_seen)

lemma keys_run:
  assumes "list_all good es"
  shows "keys (job (seen s) es s) = keys s @ filter (\<lambda>k. k \<notin> set (keys s)) (map key es)"
proof -
  have "list_all good (filter (\<lambda>e. key e \<notin> set (keys s)) es)"
    using assms by (simp add: list_all_iff)
  then show ?thesis
    using assms by (simp add: job_stores new_events keys_fold filter_map comp_def)
qed

lemma run_again:
  assumes "list_all good es"
  shows "job (seen (job (seen s) es s)) es (job (seen s) es s) = job (seen s) es s"
proof -
  have "key e \<in> set (keys (job (seen s) es s))" if "e \<in> set es" for e
    using that by (auto simp: keys_run [OF assms])
  then have "filter (\<lambda>e. \<not> recorded (seen (job (seen s) es s)) e) es = []"
    using assms by (auto simp: new_events filter_empty_conv)
  then show ?thesis by (subst job_stores) simp
qed

lemma distinct_run:
  assumes "list_all good es" "distinct (keys s)" "distinct (map key es)"
  shows "distinct (keys (job (seen s) es s))"
proof -
  have "distinct (filter (\<lambda>k. k \<notin> set (keys s)) (map key es))"
    using assms(3) by (rule distinct_filter)
  then show ?thesis using assms(1,2) by (auto simp: keys_run)
qed

lemma grown:
  assumes "list_all good log" "keys s = map key old" "grows key old log"
  shows "job (seen s) log s = fold store (drop (length old) log) s"
proof -
  let ?new = "drop (length old) log"
  have log: "log = old @ ?new" using assms(3) by (metis append_take_drop_id grows_def)
  have "filter (\<lambda>e. key e \<notin> set (keys s)) old = []"
    using assms(2) by (auto simp: filter_empty_conv)
  moreover have "filter (\<lambda>e. key e \<notin> set (keys s)) ?new = ?new"
    using assms(2,3) by (auto simp: filter_id_conv grows_def list_all_iff)
  ultimately have "filter (\<lambda>e. key e \<notin> set (keys s)) log = ?new"
    using log by (metis append_Nil filter_append)
  then show ?thesis using assms(1) by (simp add: job_stores new_events)
qed

lemma keys_grown:
  assumes "list_all good log" "keys s = map key old" "grows key old log"
  shows "keys (job (seen s) log s) = map key log"
proof -
  have "list_all good (drop (length old) log)" using assms(1) by (auto simp: list_all_iff dest: in_set_dropD)
  then have "keys (job (seen s) log s) = map key (take (length old) log @ drop (length old) log)"
    using assms by (simp add: grown keys_fold grows_def del: append_take_drop_id)
  then show ?thesis by simp
qed

end

text \<open>A job whose rows show what its events show.\<close>

locale mirrored_log = event_log job store recorded seen keys key good
  for job :: "'w \<Rightarrow> 'e list \<Rightarrow> 's \<Rightarrow> 's"
    and store :: "'e \<Rightarrow> 's \<Rightarrow> 's"
    and recorded :: "'w \<Rightarrow> 'e \<Rightarrow> bool"
    and seen :: "'s \<Rightarrow> 'w"
    and keys :: "'s \<Rightarrow> 'k list"
    and key :: "'e \<Rightarrow> 'k"
    and good :: "'e \<Rightarrow> bool" +
  fixes view :: "'s \<Rightarrow> 'v list"
    and view_of :: "'e \<Rightarrow> 'v"
  assumes view_store: "good e \<Longrightarrow> view (store e s) = view s @ [view_of e]"
begin

definition mirrors :: "'s \<Rightarrow> 'e list \<Rightarrow> bool" where
  "mirrors s es = (keys s = map key es \<and> view s = map view_of es)"

lemma view_fold:
  assumes "list_all good es"
  shows "view (fold store es s) = view s @ map view_of es"
  using assms by (induction es arbitrary: s) (simp_all add: view_store)

lemma view_run:
  assumes "list_all good es"
  shows "view (job (seen s) es s) = view s @ map view_of (filter (\<lambda>e. key e \<notin> set (keys s)) es)"
proof -
  have "list_all good (filter (\<lambda>e. key e \<notin> set (keys s)) es)"
    using assms by (simp add: list_all_iff)
  then show ?thesis using assms by (simp add: job_stores new_events view_fold)
qed

lemma mirrors_grown:
  assumes "mirrors s old" "list_all good log" "grows key old log"
  shows "mirrors (job (seen s) log s) log"
proof -
  have k: "keys s = map key old" and v: "view s = map view_of old" using assms(1) by (simp_all add: mirrors_def)
  have "list_all good (drop (length old) log)" using assms(2) by (auto simp: list_all_iff dest: in_set_dropD)
  then have "view (job (seen s) log s) = map view_of (take (length old) log @ drop (length old) log)"
    using assms(3) by (simp add: grown [OF assms(2) k assms(3)] v view_fold grows_def del: append_take_drop_id)
  then show ?thesis by (simp add: mirrors_def keys_grown [OF assms(2) k assms(3)])
qed

lemma mirrors_runs:
  assumes "mirrors s old" "sorted_wrt (grows key) (old # logs)" "list_all (list_all good) logs"
  shows "mirrors (fold (\<lambda>log s. job (seen s) log s) logs s) (last (old # logs))"
  using assms
proof (induction logs arbitrary: s old)
  case (Cons log logs)
  have g: "grows key old log" "list_all good log" using Cons.prems by simp_all
  have "mirrors (job (seen s) log s) log" by (rule mirrors_grown [OF Cons.prems(1) g(2) g(1)])
  moreover have "sorted_wrt (grows key) (log # logs)" "list_all (list_all good) logs" using Cons.prems by simp_all
  ultimately show ?case using Cons.IH by simp
qed simp

end

section \<open>The jobs\<close>

lemma as_int_param [simp]: "as_int (sql_param v) = as_int v"
  by (cases v) (simp_all add: as_int_def sql_param_def)

lemma sql_param_Num: "sql_param (Num n) = Num n" "sql_param (BigNum n) = Num n" "sql_param (Str s) = Str s"
  by (simp_all add: sql_param_def)

lemma field_event_row:
  assumes "distinct cols" "c \<in> set cols"
  shows "field (spread b (map (\<lambda>(c, v). (c, sql_param v)) (event_columns cols e))) c = sql_param (field e c)"
  using assms by (intro field_insert_row) (auto simp: event_columns_def comp_def)

definition is_text :: "js_value \<Rightarrow> bool" where
  "is_text v = (case v of Str _ \<Rightarrow> True | _ \<Rightarrow> False)"

definition is_number :: "js_value \<Rightarrow> bool" where
  "is_number v = (case v of Num _ \<Rightarrow> True | _ \<Rightarrow> False)"

lemma is_text_iff: "is_text v = (\<exists>s. v = Str s)"
  by (cases v) (simp_all add: is_text_def)

lemma is_number_iff: "is_number v = (\<exists>n. v = Num n)"
  by (cases v) (simp_all add: is_number_def)

definition address_known :: "obj \<Rightarrow> bool" where
  "address_known e = is_text (field e ''tokenAddress'')"

definition store_collection :: "filler \<Rightarrow> obj \<Rightarrow> db \<Rightarrow> db" where
  "store_collection fill e d = index_collections fill [] [e] d"

definition created_addresses :: "db \<Rightarrow> js_value list" where
  "created_addresses d = map (\<lambda>r. field r ''tokenAddress'') (t_collection_created d)"

definition collection_addresses :: "db \<Rightarrow> js_value list" where
  "collection_addresses d = map (\<lambda>r. field r ''tokenAddress'') (t_collections d)"

abbreviation event_address :: "obj \<Rightarrow> js_value" where
  "event_address e \<equiv> field e ''tokenAddress''"

lemma store_collection_addresses:
  assumes "address_known e"
  shows "created_addresses (store_collection fill e d) = created_addresses d @ [event_address e]"
    and "collection_addresses (store_collection fill e d) = collection_addresses d @ [event_address e]"
proof -
  have "sql_param (event_address e) = event_address e"
    using assms by (auto simp: address_known_def is_text_iff sql_param_def)
  moreover have "field (spread b (map (\<lambda>(c, v). (c, sql_param v)) (event_columns collection_created_columns e))) ''tokenAddress''
      = sql_param (event_address e)" for b
    by (rule field_event_row) (simp_all add: collection_created_columns_def)
  ultimately show "created_addresses (store_collection fill e d) = created_addresses d @ [event_address e]"
    by (simp add: store_collection_def created_addresses_def insert_row_def)
  have "field (spread b (map (\<lambda>(c, v). (c, sql_param v))
        [(''tokenAddress'', field e ''tokenAddress''), (''owner'', field e ''creator''),
         (''name'', field e ''name''), (''symbol'', field e ''symbol'')])) ''tokenAddress'' = sql_param (event_address e)" for b
    by (rule field_insert_row) simp_all
  with \<open>sql_param (event_address e) = event_address e\<close>
  show "collection_addresses (store_collection fill e d) = collection_addresses d @ [event_address e]"
    by (simp add: store_collection_def collection_addresses_def insert_row_def)
qed

lemma store_collection_def':
  "index_collections fill w (e # es) d
     = index_collections fill w es (if event_address e \<in> set w then d else store_collection fill e d)"
  by (simp add: store_collection_def)

interpretation collections_log:
  mirrored_log "index_collections fill" "store_collection fill" "\<lambda>w e. event_address e \<in> set w"
    created_addresses created_addresses event_address address_known collection_addresses event_address
  for fill
proof (unfold_locales)
  fix w s show "index_collections fill w [] s = s" by simp
next
  fix w e es s
  show "index_collections fill w (e # es) s
      = index_collections fill w es (if event_address e \<in> set w then s else store_collection fill e s)"
    by (rule store_collection_def')
qed (simp_all add: store_collection_addresses)

text \<open>The market's logs.\<close>

definition listing_id :: "obj \<Rightarrow> js_value" where
  "listing_id e = (case as_int (field e ''listingId'') of Some n \<Rightarrow> Num n | None \<Rightarrow> Undefined)"

definition row_ids :: "table \<Rightarrow> js_value list" where
  "row_ids rows = map (\<lambda>r. field r ''listingId'') rows"

definition listing_known_id :: "obj \<Rightarrow> bool" where
  "listing_known_id e = (as_int (field e ''listingId'') \<noteq> None)"

definition listing_event :: "obj \<Rightarrow> bool" where
  "listing_event e = (listing_known_id e \<and> is_text (field e ''seller'') \<and> is_text (field e ''tokenAddress''))"

definition shown_listing :: "obj \<Rightarrow> string \<times> market_listing" where
  "shown_listing e = (as_string (field e ''listingId''), listing_of e (as_int (field e ''maxPerAddress'')))"

definition shown_id :: "obj \<Rightarrow> string" where
  "shown_id e = as_string (field e ''listingId'')"

lemma listing_id_param: "listing_known_id e \<Longrightarrow> sql_param (field e ''listingId'') = listing_id e"
  by (cases "field e ''listingId''") (simp_all add: listing_known_id_def listing_id_def as_int_def sql_param_def)

lemma shown_id_param:
  "listing_known_id e \<Longrightarrow> as_string (sql_param (field e ''listingId'')) = as_string (field e ''listingId'')"
  by (cases "field e ''listingId''") (simp_all add: listing_known_id_def as_string_def as_int_def sql_param_def)

lemma row_ids_store:
  assumes "distinct cols" "''listingId'' \<in> set cols" "listing_known_id e"
  shows "row_ids (insert_row fill (event_columns cols e) rows) = row_ids rows @ [listing_id e]"
  using assms by (simp add: row_ids_def insert_row_def field_event_row listing_id_param)

lemma listing_known_row_ids:
  "listing_known_id e \<Longrightarrow> listing_known (row_ids rows) e = (listing_id e \<in> set (row_ids rows))"
  by (auto simp: listing_known_def listing_id_def listing_known_id_def split: option.splits)

lemma shown_listing_store:
  assumes "listing_event e"
  shows "map shown_listing (insert_row fill (event_columns listing_created_columns e) rows)
     = map shown_listing rows @ [shown_listing e]"
proof -
  let ?r = "spread (fill rows) (map (\<lambda>(c, v). (c, sql_param v)) (event_columns listing_created_columns e))"
  have f: "field ?r c = sql_param (field e c)" if "c \<in> set listing_created_columns" for c
    by (rule field_event_row [OF _ that]) (simp add: listing_created_columns_def)
  have cols: "set [''listingId'', ''seller'', ''tokenAddress'', ''tokenId'', ''price'', ''quantity'', ''maxPerAddress'']
      \<subseteq> set listing_created_columns"
    by (simp add: listing_created_columns_def)
  have s: "sql_param (field e ''seller'') = field e ''seller''" "sql_param (field e ''tokenAddress'') = field e ''tokenAddress''"
    using assms by (auto simp: listing_event_def is_text_iff sql_param_def)
  have "shown_listing ?r = shown_listing e"
    using assms cols by (simp add: shown_listing_def listing_of_def f s shown_id_param listing_event_def)
  then show ?thesis by (simp add: insert_row_def)
qed

interpretation created_log:
  mirrored_log "index_listings fill listing_created_columns" "\<lambda>e. insert_row fill (event_columns listing_created_columns e)"
    listing_known row_ids row_ids listing_id listing_event "map shown_listing" shown_listing
  for fill
  by unfold_locales
    (simp_all add: row_ids_store listing_created_columns_def listing_known_row_ids listing_event_def
       shown_listing_store [unfolded listing_event_def listing_created_columns_def])

lemma shown_id_store:
  assumes "listing_known_id e"
  shows "map shown_id (insert_row fill (event_columns listing_deleted_columns e) rows) = map shown_id rows @ [shown_id e]"
  using assms
  by (simp add: shown_id_def insert_row_def field_event_row shown_id_param listing_deleted_columns_def)

interpretation deleted_log:
  mirrored_log "index_listings fill listing_deleted_columns" "\<lambda>e. insert_row fill (event_columns listing_deleted_columns e)"
    listing_known row_ids row_ids listing_id listing_known_id "map shown_id" shown_id
  for fill
  by unfold_locales
    (simp_all add: row_ids_store listing_deleted_columns_def listing_known_row_ids
       shown_id_store [unfolded listing_deleted_columns_def])

text \<open>The fills of the market.\<close>

definition fill_place :: "obj \<Rightarrow> js_value \<times> js_value" where
  "fill_place e = (field e ''blockNumber'', field e ''transactionIndex'')"

definition fill_event :: "obj \<Rightarrow> bool" where
  "fill_event e = (is_number (field e ''blockNumber'') \<and> is_number (field e ''transactionIndex''))"

definition fill_places :: "table \<Rightarrow> (js_value \<times> js_value) list" where
  "fill_places = map fill_place"

text \<open>\<open>price * quantity\<close> of a row or an event.\<close>

definition fill_total :: "obj \<Rightarrow> int option" where
  "fill_total e = (case (as_int (field e ''price''), as_int (field e ''quantity'')) of
     (Some p, Some q) \<Rightarrow> Some (p * q) | _ \<Rightarrow> None)"

lemma product_of_param:
  assumes "field r ''price'' = sql_param (field e ''price'')" "field r ''quantity'' = sql_param (field e ''quantity'')"
  shows "product_of r = fill_total e"
  using assms
  by (cases "field e ''price''"; cases "field e ''quantity''")
    (simp_all add: product_of_def fill_total_def as_int_def sql_param_def)

lemma fill_total_store:
  "map product_of (insert_row fill (event_columns listing_filled_columns e) rows) = map product_of rows @ [fill_total e]"
  by (simp add: insert_row_def)
    (intro product_of_param; simp add: field_event_row listing_filled_columns_def)

lemma fill_place_store:
  "fill_event e \<Longrightarrow> fill_places (insert_row fill (event_columns listing_filled_columns e) rows)
     = fill_places rows @ [fill_place e]"
  by (auto simp: fill_places_def fill_place_def fill_event_def is_number_iff insert_row_def field_event_row
      listing_filled_columns_def sql_param_Num)

interpretation filled_log:
  mirrored_log "index_filled fill" "\<lambda>e. insert_row fill (event_columns listing_filled_columns e)"
    "\<lambda>known e. list_ex (\<lambda>r. field r ''blockNumber'' = field e ''blockNumber''
             \<and> field r ''transactionIndex'' = field e ''transactionIndex'') known"
    "select [''blockNumber'', ''transactionIndex'']" fill_places fill_place fill_event
    "map product_of" fill_total
  for fill
proof (unfold_locales)
  fix e s
  show "list_ex (\<lambda>r. field r ''blockNumber'' = field e ''blockNumber''
             \<and> field r ''transactionIndex'' = field e ''transactionIndex'')
      (select [''blockNumber'', ''transactionIndex''] s) = (fill_place e \<in> set (fill_places s))"
    by (simp add: list_ex_iff select_def project_def fill_places_def fill_place_def image_iff) metis
qed (simp_all add: fill_place_store fill_total_store)

section \<open>What the jobs promise\<close>

text \<open>The collections job copies every collection the factory created, once and in order, into
  both tables, leaves what was recorded before as it is, and a second run on the same chain changes nothing.\<close>

theorem collections_job_complete:
  assumes "list_all address_known (chain_collectionCreated cfg net)"
  shows "let d' = indexComposableItemCollections fill cfg net d;
             added = filter (\<lambda>a. a \<notin> set (created_addresses d)) (map event_address (chain_collectionCreated cfg net))
         in created_addresses d' = created_addresses d @ added
            \<and> collection_addresses d' = collection_addresses d @ added
            \<and> indexComposableItemCollections fill cfg net d' = d'"
  using collections_log.keys_run [OF assms, of fill d] collections_log.view_run [OF assms, of fill d]
    collections_log.run_again [OF assms, of fill d]
  by (simp add: Let_def indexComposableItemCollections_def created_addresses_def filter_map comp_def)

text \<open>The market's listings, as the index shows them and as the chain does: a function of what
  \<open>created_log\<close> and \<open>deleted_log\<close> mirror.\<close>

definition active_listings :: "(string \<times> market_listing) list \<Rightarrow> string list \<Rightarrow> market_listing list" where
  "active_listings created deleted = map snd (filter (\<lambda>(i, l). i \<notin> set deleted) created)"

lemma listings_active:
  "map (\<lambda>e. listing_of e (as_int (field e ''maxPerAddress'')))
     (filter (\<lambda>l. \<not> list_ex (\<lambda>dl. as_string (field dl ''listingId'') = as_string (field l ''listingId'')) deleted) created)
   = active_listings (map shown_listing created) (map shown_id deleted)"
proof -
  have "(as_string (field l ''listingId'') \<notin> set (map shown_id deleted))
      = (\<not> list_ex (\<lambda>dl. as_string (field dl ''listingId'') = as_string (field l ''listingId'')) deleted)" for l
    by (simp add: shown_id_def list_ex_iff image_iff) metis
  then show ?thesis
    by (simp add: active_listings_def filter_map comp_def shown_listing_def)
qed

definition run_market_job :: "env \<Rightarrow> rpc \<Rightarrow> db \<Rightarrow> db" where
  "run_market_job en net d = snd (wrap_indexComposablesMarketListings (en\<lparr>en_net := net\<rparr>) d)"

lemma run_market_job_tables:
  assumes "en_isIndexer en"
  shows "t_listing_created (fold (run_market_job en) nets d)
      = fold (\<lambda>log s. index_listings (en_fill en ''events_listing_created'') listing_created_columns (row_ids s) log s)
          (map (chain_listingCreated (en_cfg en)) nets) (t_listing_created d)"
    and "t_listing_deleted (fold (run_market_job en) nets d)
      = fold (\<lambda>log s. index_listings (en_fill en ''events_listing_deleted'') listing_deleted_columns (row_ids s) log s)
          (map (chain_listingDeleted (en_cfg en)) nets) (t_listing_deleted d)"
  using assms
  by (induction nets arbitrary: d)
    (simp_all add: run_market_job_def wrap_indexComposablesMarketListings_def indexComposablesMarketListings_def
       Let_def row_ids_def)

lemma grows_Nil [simp]: "grows key [] log"
  by (simp add: grows_def list_all_iff)

text \<open>C20. The index of the market implements the chain: when the job has run on any number of ever
  longer logs, from empty tables, the listings the pages get with the index are those they get from the chain
  of the last run.\<close>

theorem market_index_matches_chain:
  assumes "en_isIndexer en" "nets \<noteq> []" "t_listing_created d = []" "t_listing_deleted d = []"
    and "sorted_wrt (grows listing_id) (map (chain_listingCreated (en_cfg en)) nets)"
    and "sorted_wrt (grows listing_id) (map (chain_listingDeleted (en_cfg en)) nets)"
    and "list_all (\<lambda>net. list_all listing_event (chain_listingCreated (en_cfg en) net)) nets"
    and "list_all (\<lambda>net. list_all listing_known_id (chain_listingDeleted (en_cfg en) net)) nets"
  shows "getComposablesMarketListings en (fold (run_market_job en) nets d)
       = getComposablesMarketListings (en\<lparr>en_isIndexer := False, en_net := last nets\<rparr>) d"
proof -
  let ?created = "map (chain_listingCreated (en_cfg en)) nets" and ?deleted = "map (chain_listingDeleted (en_cfg en)) nets"
  have "created_log.mirrors [] []" "deleted_log.mirrors [] []"
    by (simp_all add: created_log.mirrors_def deleted_log.mirrors_def row_ids_def)
  moreover have "list_all (list_all listing_event) ?created" "list_all (list_all listing_known_id) ?deleted"
    using assms(7,8) by (simp_all add: list_all_iff)
  ultimately have "created_log.mirrors (t_listing_created (fold (run_market_job en) nets d)) (last ([] # ?created))"
    and "deleted_log.mirrors (t_listing_deleted (fold (run_market_job en) nets d)) (last ([] # ?deleted))"
    unfolding run_market_job_tables [OF assms(1)] assms(3,4)
    using assms(5,6) by (intro created_log.mirrors_runs deleted_log.mirrors_runs; simp add: list_all_iff)+
  then have "map shown_listing (t_listing_created (fold (run_market_job en) nets d)) = map shown_listing (last ?created)"
    and "map shown_id (t_listing_deleted (fold (run_market_job en) nets d)) = map shown_id (last ?deleted)"
    using assms(2) by (simp_all add: created_log.mirrors_def deleted_log.mirrors_def)
  then show ?thesis
    using assms(1,2)
    by (simp add: getComposablesMarketListings_def Let_def listings_active getListingCreatedEvents_def
        getListingDeletedEvents_def last_map)
qed

definition run_fill_job :: "env \<Rightarrow> rpc \<Rightarrow> db \<Rightarrow> db" where
  "run_fill_job en net d = snd (wrap_indexComposablesMarketListingsFilled (en\<lparr>en_net := net\<rparr>) d)"

abbreviation market_fills :: "env \<Rightarrow> rpc \<Rightarrow> obj list" where
  "market_fills en net \<equiv> chain_listingFilled (en_cfg en) net None None"

lemma run_fill_job_table:
  assumes "en_isIndexer en"
  shows "t_listing_filled (fold (run_fill_job en) nets d)
      = fold (\<lambda>log s. index_filled (en_fill en ''events_listing_filled'') (select [''blockNumber'', ''transactionIndex''] s) log s)
          (map (market_fills en) nets) (t_listing_filled d)"
  using assms
  by (induction nets arbitrary: d)
    (simp_all add: run_fill_job_def wrap_indexComposablesMarketListingsFilled_def
       indexComposablesMarketListingsFilled_def Let_def)

lemma map_filter_of_map: "List.map_filter f xs = List.map_filter id (map f xs)"
  by (simp add: List.map_filter_def filter_map comp_def)

text \<open>The market's volume: when the job of the fills has run on any number of ever longer logs, from an
  empty table, the sum the facade returns is the sum of price times quantity over the fills of the last
  log; with no fill yet the facade throws instead of returning zero.\<close>

theorem filled_volume:
  assumes "en_isIndexer en" "nets \<noteq> []" "t_listing_filled d = []"
    and "sorted_wrt (grows fill_place) (map (market_fills en) nets)"
    and "list_all (\<lambda>net. list_all fill_event (market_fills en net)) nets"
  shows "wrap_getSumMarketListingsFilled en (fold (run_fill_job en) nets d)
       = (let totals = List.map_filter fill_total (market_fills en (last nets))
          in if totals = [] then None else Some (sum_list totals))"
proof -
  let ?d = "fold (run_fill_job en) nets d" and ?logs = "map (market_fills en) nets"
  have "filled_log.mirrors [] []" unfolding filled_log.mirrors_def by (simp add: fill_places_def)
  moreover have "list_all (list_all fill_event) ?logs" using assms(5) by (simp add: list_all_iff)
  ultimately have "filled_log.mirrors (t_listing_filled ?d) (last ([] # ?logs))"
    unfolding run_fill_job_table [OF assms(1)] assms(3)
    using assms(4) by (intro filled_log.mirrors_runs) (simp_all add: list_all_iff)
  then have "map product_of (t_listing_filled ?d) = map fill_total (market_fills en (last nets))"
    using assms(2) by (simp add: filled_log.mirrors_def last_map)
  then have "List.map_filter product_of (t_listing_filled ?d) = List.map_filter fill_total (market_fills en (last nets))"
    by (simp add: map_filter_of_map [of product_of] map_filter_of_map [of fill_total])
  then show ?thesis
    using assms(1) by (simp add: wrap_getSumMarketListingsFilled_def getSumMarketListingsFilled_def Let_def as_int_def)
qed

section \<open>The items of a collection\<close>

definition has_data :: "rpc \<Rightarrow> string \<Rightarrow> int \<Rightarrow> bool" where
  "has_data net a i =
     (js_truthy (chain_imageBytes net a (int_to_string i)) \<and> js_truthy (chain_metaGenerated net a (int_to_string i)))"

definition store_item :: "filler \<Rightarrow> rpc \<Rightarrow> string \<Rightarrow> int \<Rightarrow> table \<Rightarrow> table" where
  "store_item fill net a i items =
     (if has_data net a i
      then insert_row (fill ''collection_items'')
             [(''tokenAddress'', Str a), (''tokenId'', Num i), (''imageBytes'', chain_imageBytes net a (int_to_string i)),
              (''metaGenerated'', chain_metaGenerated net a (int_to_string i))] items
      else items)"

definition table_ids :: "string \<Rightarrow> table \<Rightarrow> js_value list" where
  "table_ids a rows = map (\<lambda>r. field r ''tokenId'') (filter (\<lambda>r. field r ''tokenAddress'' = Str a) rows)"

lemma table_ids_store_item:
  "table_ids a (store_item fill net a i items) = table_ids a items @ (if has_data net a i then [Num i] else [])"
proof -
  let ?vals = "[(''tokenAddress'', Str a), (''tokenId'', Num i), (''imageBytes'', chain_imageBytes net a (int_to_string i)),
              (''metaGenerated'', chain_metaGenerated net a (int_to_string i))]"
  have "field (spread b (map (\<lambda>(c, v). (c, sql_param v)) ?vals)) ''tokenAddress'' = sql_param (Str a)" for b
    by (rule field_insert_row) simp_all
  moreover have "field (spread b (map (\<lambda>(c, v). (c, sql_param v)) ?vals)) ''tokenId'' = sql_param (Num i)" for b
    by (rule field_insert_row) simp_all
  ultimately show ?thesis by (simp add: store_item_def table_ids_def insert_row_def sql_param_Num)
qed

lemma index_items_store:
  "index_items fill net a rows (i # is) items
     = index_items fill net a rows is
         (if list_ex (\<lambda>r. field r ''tokenAddress'' = Str a \<and> field r ''tokenId'' = Num i) rows then items
          else store_item fill net a i items)"
  by (simp add: Let_def store_item_def has_data_def)

text \<open>The loop over the new items is a job of the same shape.\<close>

interpretation items_log:
  event_log "index_items fill net a" "store_item fill net a"
    "\<lambda>rows i. list_ex (\<lambda>r. field r ''tokenAddress'' = Str a \<and> field r ''tokenId'' = Num i) rows"
    "\<lambda>items. select [''tokenAddress'', ''tokenId''] (where_eq ''tokenAddress'' (Str a) items)"
    "table_ids a" Num "has_data net a"
  for fill net a
proof (unfold_locales)
  fix i s
  have "sql_eq (Str a) (Str a)" by (simp add: sql_eq_def)
  then show "list_ex (\<lambda>r. field r ''tokenAddress'' = Str a \<and> field r ''tokenId'' = Num i)
      (select [''tokenAddress'', ''tokenId''] (where_eq ''tokenAddress'' (Str a) s)) = (Num i \<in> set (table_ids a s))"
    by (simp add: list_ex_iff select_def project_def where_eq_def table_ids_def image_iff) metis
qed (simp_all add: table_ids_store_item index_items_store del: index_items.simps(2))

definition item_ids :: "string \<Rightarrow> db \<Rightarrow> js_value list" where
  "item_ids a d = table_ids a (t_items d)"

lemma items_without_data:
  "index_items fill net a rows is items = index_items fill net a rows (filter (has_data net a) is) items"
  by (induction "is" arbitrary: items)
    (simp_all add: index_items_store store_item_def del: index_items.simps(2))

lemma table_ids_index_items:
  "table_ids a (index_items fill net a (select [''tokenAddress'', ''tokenId''] (where_eq ''tokenAddress'' (Str a) items)) is items)
   = table_ids a items @ map Num (filter (\<lambda>i. has_data net a i \<and> Num i \<notin> set (table_ids a items)) is)"
proof -
  have "list_all (has_data net a) (filter (has_data net a) is)" by (simp add: list_all_iff)
  from items_log.keys_run [OF this, of fill items] show ?thesis
    by (subst items_without_data) (simp add: filter_map comp_def conj_commute)
qed

text \<open>The count of a collection after its row was updated.\<close>

definition count_of :: "string \<Rightarrow> table \<Rightarrow> js_value option" where
  "count_of a rows = (case where_eq ''tokenAddress'' (Str a) rows of [] \<Rightarrow> None | r # _ \<Rightarrow> Some (field r ''itemCount''))"

lemma getCollectionItemCount_count_of:
  "getCollectionItemCount a d = (case count_of a (t_collections d) of Some v \<Rightarrow> as_int v | None \<Rightarrow> Some 0)"
  by (cases "where_eq ''tokenAddress'' (Str a) (t_collections d)")
    (simp_all add: getCollectionItemCount_def getCollection_def select_def project_def collection_columns_def count_of_def)

lemma where_eq_update:
  assumes "c \<notin> fst ` set vals"
  shows "where_eq c v (update_rows (\<lambda>r. sql_eq (field r c) v) vals rows)
       = map (\<lambda>r. spread r (map (\<lambda>(c, v). (c, sql_param v)) vals)) (where_eq c v rows)"
proof -
  have "c \<notin> fst ` set (map (\<lambda>(c, v). (c, sql_param v)) vals)" using assms by force
  then have "field (spread r (map (\<lambda>(c, v). (c, sql_param v)) vals)) c = field r c" for r
    by (rule field_spread)
  then show ?thesis by (induction rows) (simp_all add: where_eq_def update_rows_def)
qed

lemma count_of_update:
  "count_of a (update_rows (\<lambda>r. sql_eq (field r ''tokenAddress'') (Str a)) [(''itemCount'', Num m), (''palette'', p)] rows)
     = map_option (\<lambda>_. Num m) (count_of a rows)"
  by (cases "where_eq ''tokenAddress'' (Str a) rows") (simp_all add: count_of_def where_eq_update spread_def sql_param_Num)

lemma getCollection_count_of: "(getCollection a d = None) = (count_of a (t_collections d) = None)"
  by (cases "where_eq ''tokenAddress'' (Str a) (t_collections d)")
    (simp_all add: getCollection_def select_def count_of_def)

lemma items_job_run:
  assumes "getCollectionItemCount a d = Some n" "chain_itemCount net a = Some m" "n < m"
  obtains d' where "indexComposableItems fill net a d = Some d'"
    and "item_ids a d' = item_ids a d @ map Num (filter (\<lambda>i. has_data net a i \<and> Num i \<notin> set (item_ids a d)) [n..m - 1])"
    and "count_of a (t_collections d') = map_option (\<lambda>_. Num m) (count_of a (t_collections d))"
  using assms that by (simp add: indexComposableItems_def Let_def item_ids_def table_ids_index_items count_of_update)

text \<open>The items job brings a recorded collection up to the count of the contract: it adds exactly the
  new items that have image bytes and metadata, each once, stores the contract's count, and running it again does
  nothing.\<close>

theorem items_job_complete:
  assumes "getCollection a d \<noteq> None" "getCollectionItemCount a d = Some n" "chain_itemCount net a = Some m" "n < m"
  shows "case indexComposableItems fill net a d of
      None \<Rightarrow> False
    | Some d' \<Rightarrow>
        getCollectionItemCount a d' = Some m
        \<and> item_ids a d' = item_ids a d @ map Num (filter (\<lambda>i. has_data net a i \<and> Num i \<notin> set (item_ids a d)) [n..m - 1])
        \<and> indexComposableItems fill net a d' = Some d'"
proof -
  obtain d' where d': "indexComposableItems fill net a d = Some d'"
    "item_ids a d' = item_ids a d @ map Num (filter (\<lambda>i. has_data net a i \<and> Num i \<notin> set (item_ids a d)) [n..m - 1])"
    "count_of a (t_collections d') = map_option (\<lambda>_. Num m) (count_of a (t_collections d))"
    by (rule items_job_run [OF assms(2-4)])
  have "count_of a (t_collections d) \<noteq> None" using assms(1) by (simp add: getCollection_count_of)
  then have c: "getCollectionItemCount a d' = Some m"
    using d'(3) by (auto simp: getCollectionItemCount_count_of as_int_def)
  then have "indexComposableItems fill net a d' = Some d'"
    using assms(3) by (simp add: indexComposableItems_def)
  with c d' show ?thesis by simp
qed

definition run_items_job :: "filler \<Rightarrow> string \<Rightarrow> rpc \<Rightarrow> db \<Rightarrow> db" where
  "run_items_job fill a net d = (case indexComposableItems fill net a d of Some d' \<Rightarrow> d' | None \<Rightarrow> d)"

lemma run_items_job_step:
  assumes "getCollection a d \<noteq> None" "getCollectionItemCount a d = Some n"
  shows "getCollection a (run_items_job fill a net d) \<noteq> None
    \<and> (\<exists>n' \<ge> n. getCollectionItemCount a (run_items_job fill a net d) = Some n')
    \<and> (\<forall>i < n. (Num i \<in> set (item_ids a (run_items_job fill a net d))) = (Num i \<in> set (item_ids a d)))"
proof (cases "\<exists>m. chain_itemCount net a = Some m \<and> n < m")
  case True
  then obtain m where m: "chain_itemCount net a = Some m" "n < m" by blast
  have c: "count_of a (t_collections d) \<noteq> None" using assms(1) by (simp add: getCollection_count_of)
  obtain d' where d': "indexComposableItems fill net a d = Some d'"
    "item_ids a d' = item_ids a d @ map Num (filter (\<lambda>i. has_data net a i \<and> Num i \<notin> set (item_ids a d)) [n..m - 1])"
    "count_of a (t_collections d') = map_option (\<lambda>_. Num m) (count_of a (t_collections d))"
    by (rule items_job_run [OF assms(2) m])
  then have "run_items_job fill a net d = d'" by (simp add: run_items_job_def)
  with d' c m show ?thesis
    by (auto simp: getCollection_count_of getCollectionItemCount_count_of as_int_def)
next
  case False
  then have "indexComposableItems fill net a d = Some d"
    using assms(2) by (auto simp: indexComposableItems_def split: option.splits)
  then show ?thesis using assms by (simp add: run_items_job_def)
qed

text \<open>The items job never goes back: once the count of a recorded collection has passed a token, that
  token is in the index if and only if it is now, however often the job runs and whatever the chain answers
  later.  A token that had no data when it was passed is never indexed.\<close>

theorem passed_items_frozen:
  assumes "getCollection a d \<noteq> None" "getCollectionItemCount a d = Some n" "i < n"
  shows "(Num i \<in> set (item_ids a (fold (run_items_job fill a) nets d))) = (Num i \<in> set (item_ids a d))"
  using assms
proof (induction nets arbitrary: d n)
  case (Cons net nets)
  from run_items_job_step [OF Cons.prems(1,2), of fill net] obtain n'
    where "getCollection a (run_items_job fill a net d) \<noteq> None" "n \<le> n'"
      "getCollectionItemCount a (run_items_job fill a net d) = Some n'"
      "(Num i \<in> set (item_ids a (run_items_job fill a net d))) = (Num i \<in> set (item_ids a d))"
    using Cons.prems(3) by blast
  with Cons.IH [of "run_items_job fill a net d" n'] Cons.prems(3) show ?case by simp
qed simp

section \<open>A chain and a database to run the jobs on\<close>

definition demo_log :: "(int \<times> int \<times> obj) list \<Rightarrow> raw_event list" where
  "demo_log = map (\<lambda>(b, i, args). \<lparr>re_blockNumber = b, re_blockHash = ''0xb'', re_transactionIndex = i, re_args = args\<rparr>)"

definition demo_net :: "(string \<Rightarrow> (int \<times> int \<times> obj) list) \<Rightarrow> int \<Rightarrow> rpc" where
  "demo_net logs itemCount =
     \<lparr>rpc_events = (\<lambda>address name args. demo_log (logs name)),
      rpc_call = (\<lambda>address name args.
        if name = ''getImageCount'' then BigNum itemCount
        else if name = ''getImageBytes'' then (if args = [Str ''1''] then Str '''' else Str ''0x00'')
        else if name = ''generateMeta'' then Str ''meta''
        else Str ''0xff0000'')\<rparr>"

definition demo_created :: "string \<Rightarrow> int \<times> int \<times> obj" where
  "demo_created a = (1, 0, [(''tokenAddress'', Str a), (''creator'', Str ''c''), (''version'', BigNum 1),
     (''name'', Str ''n''), (''symbol'', Str ''s''), (''nonce'', BigNum 0)])"

definition demo_listing :: "int \<Rightarrow> int \<times> int \<times> obj" where
  "demo_listing i = (i, 0, [(''listingId'', BigNum i), (''seller'', Str ''s''), (''tokenAddress'', Str ''t''),
     (''tokenId'', BigNum i), (''price'', BigNum (10 * i)), (''quantity'', BigNum 2), (''maxPerAddress'', BigNum 1)])"

definition demo_env :: env where
  "demo_env = \<lparr>en_isIndexer = True,
     en_cfg = \<lparr>cfg_composableItemFactory = ''f'', cfg_composablesMarketProxy = ''m'', cfg_nounsToken = ''n''\<rparr>,
     en_net = demo_net (\<lambda>_. []) 0, en_rt = \<lparr>rt_parse_json = (\<lambda>_. None), rt_from_base64 = id\<rparr>,
     en_fill = (\<lambda>_ rows. [(''id'', Num (int (length rows)))])\<rparr>"

definition demo_db :: db where
  "demo_db = \<lparr>t_collection_created = [[(''tokenAddress'', Str ''A'')]],
     t_collections = [[(''tokenAddress'', Str ''A''), (''itemCount'', Num 1)]],
     t_items = [[(''tokenAddress'', Str ''A''), (''tokenId'', Num 0)]],
     t_listing_created = [], t_listing_deleted = [], t_listing_filled = [], t_profiles = []\<rparr>"

definition collections_net :: rpc where
  "collections_net = demo_net (\<lambda>_. [demo_created ''A'', demo_created ''B'']) 3"

definition market_net :: "int \<Rightarrow> int list \<Rightarrow> rpc" where
  "market_net n deleted = demo_net (\<lambda>name. if name = ''ListingDeleted'' then map demo_listing deleted
     else map demo_listing [1..n]) 0"

theorem collections_job_complete_witness:
  "list_all address_known (chain_collectionCreated (en_cfg demo_env) collections_net)
   \<and> (let d' = indexComposableItemCollections (en_fill demo_env) (en_cfg demo_env) collections_net demo_db;
             added = filter (\<lambda>a. a \<notin> set (created_addresses demo_db))
               (map event_address (chain_collectionCreated (en_cfg demo_env) collections_net))
         in created_addresses d' = created_addresses demo_db @ added
            \<and> collection_addresses d' = collection_addresses demo_db @ added
            \<and> indexComposableItemCollections (en_fill demo_env) (en_cfg demo_env) collections_net d' = d')"
proof
  show "list_all address_known (chain_collectionCreated (en_cfg demo_env) collections_net)" by code_simp
  then show "let d' = indexComposableItemCollections (en_fill demo_env) (en_cfg demo_env) collections_net demo_db;
             added = filter (\<lambda>a. a \<notin> set (created_addresses demo_db))
               (map event_address (chain_collectionCreated (en_cfg demo_env) collections_net))
         in created_addresses d' = created_addresses demo_db @ added
            \<and> collection_addresses d' = collection_addresses demo_db @ added
            \<and> indexComposableItemCollections (en_fill demo_env) (en_cfg demo_env) collections_net d' = d'"
    by (rule collections_job_complete)
qed

theorem market_index_matches_chain_witness:
  "getComposablesMarketListings demo_env (fold (run_market_job demo_env) [market_net 1 [], market_net 3 [2]] demo_db)
     = getComposablesMarketListings (demo_env\<lparr>en_isIndexer := False, en_net := market_net 3 [2]\<rparr>) demo_db
   \<and> map ml_listingId (getComposablesMarketListings (demo_env\<lparr>en_isIndexer := False, en_net := market_net 3 [2]\<rparr>) demo_db)
     = [Some 1, Some 3]"
proof
  have "getComposablesMarketListings demo_env (fold (run_market_job demo_env) [market_net 1 [], market_net 3 [2]] demo_db)
     = getComposablesMarketListings (demo_env\<lparr>en_isIndexer := False, en_net := last [market_net 1 [], market_net 3 [2]]\<rparr>) demo_db"
    by (rule market_index_matches_chain; code_simp)
  then show "getComposablesMarketListings demo_env (fold (run_market_job demo_env) [market_net 1 [], market_net 3 [2]] demo_db)
     = getComposablesMarketListings (demo_env\<lparr>en_isIndexer := False, en_net := market_net 3 [2]\<rparr>) demo_db" by simp
  show "map ml_listingId (getComposablesMarketListings (demo_env\<lparr>en_isIndexer := False, en_net := market_net 3 [2]\<rparr>) demo_db)
     = [Some 1, Some 3]" by code_simp
qed

theorem filled_volume_witness:
  "wrap_getSumMarketListingsFilled demo_env (fold (run_fill_job demo_env) [market_net 1 [], market_net 3 []] demo_db) = Some 120"
proof -
  have "wrap_getSumMarketListingsFilled demo_env (fold (run_fill_job demo_env) [market_net 1 [], market_net 3 []] demo_db)
      = (let totals = List.map_filter fill_total (market_fills demo_env (last [market_net 1 [], market_net 3 []]))
          in if totals = [] then None else Some (sum_list totals))"
    by (rule filled_volume; code_simp)
  also have "\<dots> = Some 120" by code_simp
  finally show ?thesis .
qed

theorem items_job_complete_witness:
  "getCollection ''A'' demo_db \<noteq> None \<and> getCollectionItemCount ''A'' demo_db = Some 1
   \<and> chain_itemCount collections_net ''A'' = Some 3
   \<and> (case indexComposableItems (en_fill demo_env) collections_net ''A'' demo_db of
      None \<Rightarrow> False
    | Some d' \<Rightarrow>
        getCollectionItemCount ''A'' d' = Some 3
        \<and> item_ids ''A'' d' = item_ids ''A'' demo_db
            @ map Num (filter (\<lambda>i. has_data collections_net ''A'' i \<and> Num i \<notin> set (item_ids ''A'' demo_db)) [1..3 - 1])
        \<and> indexComposableItems (en_fill demo_env) collections_net ''A'' d' = Some d')"
proof (intro conjI)
  show c: "getCollection ''A'' demo_db \<noteq> None" "getCollectionItemCount ''A'' demo_db = Some 1"
    "chain_itemCount collections_net ''A'' = Some 3" by code_simp+
  show "case indexComposableItems (en_fill demo_env) collections_net ''A'' demo_db of
      None \<Rightarrow> False
    | Some d' \<Rightarrow>
        getCollectionItemCount ''A'' d' = Some 3
        \<and> item_ids ''A'' d' = item_ids ''A'' demo_db
            @ map Num (filter (\<lambda>i. has_data collections_net ''A'' i \<and> Num i \<notin> set (item_ids ''A'' demo_db)) [1..3 - 1])
        \<and> indexComposableItems (en_fill demo_env) collections_net ''A'' d' = Some d'"
    using items_job_complete [OF c, of "en_fill demo_env"] by simp
qed

theorem passed_items_frozen_witness:
  "(Num 0 \<in> set (item_ids ''A'' (fold (run_items_job (en_fill demo_env) ''A'') [collections_net] demo_db)))
     = (Num 0 \<in> set (item_ids ''A'' demo_db))"
  by (rule passed_items_frozen [of _ _ 1]; code_simp)

end
