(* ===== verification/Composables_Pages.thy ===== *)
theory Composables_Pages imports Composables_Wrapper begin

text \<open>
  What the pages get from the facade \<open>composablesWrapper.ts\<close>: the balances of items and of composed
  children (both are the accounts of \<open>balance_sheet\<close>), the pages of a search, the files of uploaded traits, and the images of
  the composer, whose copy of the SVG builder agrees with the one of the SDK.
\<close>

section \<open>Balances\<close>

text \<open>Credits open an account when there is none, debits need one.\<close>

locale balance_sheet =
  fixes same :: "'e \<Rightarrow> token_item \<Rightarrow> bool"
    and new :: "'e \<Rightarrow> token_item"
    and key :: "'e \<Rightarrow> 'k"
    and key_of :: "token_item \<Rightarrow> 'k"
    and amount :: "'e \<Rightarrow> int"
  assumes same_key: "same e t = (key_of t = key e)"
    and key_new: "key_of (new e) = key e"
    and key_balance: "key_of (t\<lparr>tk_balance := b\<rparr>) = key_of t"
begin

definition entry :: "'k \<Rightarrow> token_item list \<Rightarrow> int" where
  "entry k items = (case find (\<lambda>t. key_of t = k) items of Some t \<Rightarrow> the (tk_balance t) | None \<Rightarrow> 0)"

definition open_sheet :: "token_item list \<Rightarrow> bool" where
  "open_sheet items = (distinct (map key_of items) \<and> list_all (\<lambda>t. tk_balance t \<noteq> None) items)"

definition flow :: "'k \<Rightarrow> 'e list \<Rightarrow> int" where
  "flow k es = sum_list (map amount (filter (\<lambda>e. key e = k) es))"

lemma first_same:
  assumes "list_ex (same e) items"
  obtains as t bs where "items = as @ t # bs" "key_of t = key e" "key e \<notin> key_of ` set as"
    "length (takeWhile (\<lambda>x. \<not> same e x) items) = length as"
proof -
  from assms obtain as t bs where "items = as @ t # bs" "same e t" "\<forall>x \<in> set as. \<not> same e x"
    by (metis list_ex_iff split_list_first_prop)
  then show ?thesis
    by (intro that [of as t bs]) (auto simp: same_key takeWhile_append takeWhile_eq_all_conv)
qed

lemma entry_append:
  "entry k (as @ bs) = (if k \<in> key_of ` set as then entry k as else entry k bs)"
  by (induction as) (auto simp: entry_def)

lemma entry_Cons: "entry k (t # bs) = (if key_of t = k then the (tk_balance t) else entry k bs)"
  by (simp add: entry_def)

lemma entry_missing: "k \<notin> key_of ` set items \<Longrightarrow> entry k items = 0"
  by (induction items) (auto simp: entry_def)

lemma replace_entry:
  assumes "open_sheet (as @ t # bs)"
  shows "open_sheet (as @ t\<lparr>tk_balance := Some b\<rparr> # bs)"
    and "key_of ` set (as @ t\<lparr>tk_balance := Some b\<rparr> # bs) = key_of ` set (as @ t # bs)"
    and "entry k (as @ t\<lparr>tk_balance := Some b\<rparr> # bs) = (if k = key_of t then b else entry k (as @ t # bs))"
  using assms by (auto simp: open_sheet_def key_balance entry_append entry_Cons)

lemma credit_step:
  assumes "open_sheet items"
  shows "open_sheet (credit (same e) (new e) n items)
    \<and> key_of ` set (credit (same e) (new e) n items) = insert (key e) (key_of ` set items)
    \<and> entry k (credit (same e) (new e) n items) = entry k items + (if k = key e then n else 0)"
proof (cases "list_ex (same e) items")
  case True
  obtain as t bs where i: "items = as @ t # bs" "key_of t = key e" "key e \<notin> key_of ` set as"
    "length (takeWhile (\<lambda>x. \<not> same e x) items) = length as"
    by (rule first_same [OF True])
  have c: "credit (same e) (new e) n items = as @ t\<lparr>tk_balance := Some (the (tk_balance t) + n)\<rparr> # bs"
    using True i by (simp add: credit_def Let_def)
  have "entry (key e) items = the (tk_balance t)" using i by (auto simp: entry_append entry_Cons)
  moreover have "key e \<in> key_of ` set items" using i(1,2) by auto
  ultimately show ?thesis
    using replace_entry [of as t bs, folded i(1), OF assms] i(2) unfolding c by (simp add: insert_absorb)
next
  case False
  then have k: "key e \<notin> key_of ` set items" by (auto simp: list_ex_iff same_key)
  then have "entry (key e) items = 0" by (rule entry_missing)
  with False k assms show ?thesis
    by (auto simp: credit_def open_sheet_def key_balance key_new entry_append entry_Cons entry_missing)
qed

lemma debit_step:
  assumes "open_sheet items" "key e \<in> key_of ` set items"
  shows "open_sheet (debit (same e) n items)
    \<and> key_of ` set (debit (same e) n items) = key_of ` set items
    \<and> entry k (debit (same e) n items) = entry k items - (if k = key e then n else 0)"
proof -
  have True: "list_ex (same e) items" using assms(2) by (auto simp: list_ex_iff same_key)
  obtain as t bs where i: "items = as @ t # bs" "key_of t = key e" "key e \<notin> key_of ` set as"
    "length (takeWhile (\<lambda>x. \<not> same e x) items) = length as"
    by (rule first_same [OF True])
  have c: "debit (same e) n items = as @ t\<lparr>tk_balance := Some (the (tk_balance t) - n)\<rparr> # bs"
    using True i by (simp add: debit_def Let_def)
  have "entry (key e) items = the (tk_balance t)" using i by (auto simp: entry_append entry_Cons)
  then show ?thesis
    using replace_entry [of as t bs, folded i(1), OF assms(1)] i(2) unfolding c by simp
qed

lemma debit_missing:
  assumes "key e \<notin> key_of ` set items"
  shows "debit (same e) n items = items"
  using assms by (simp add: debit_def list_ex_iff same_key image_iff) metis

definition credits :: "'e list \<Rightarrow> token_item list \<Rightarrow> token_item list" where
  "credits = fold (\<lambda>e. credit (same e) (new e) (amount e))"

definition debits :: "'e list \<Rightarrow> token_item list \<Rightarrow> token_item list" where
  "debits = fold (\<lambda>e. debit (same e) (amount e))"

lemma credits_sheet:
  assumes "open_sheet items"
  shows "open_sheet (credits es items) \<and> key_of ` set (credits es items) = key_of ` set items \<union> key ` set es
    \<and> entry k (credits es items) = entry k items + flow k es"
  using assms
proof (induction es arbitrary: items)
  case (Cons e es)
  with Cons.IH [of "credit (same e) (new e) (amount e) items"] credit_step [OF Cons.prems, of e "amount e" k]
  show ?case by (auto simp: credits_def flow_def)
qed (simp add: credits_def flow_def)

lemma debits_sheet:
  assumes "open_sheet items"
  shows "open_sheet (debits es items) \<and> key_of ` set (debits es items) = key_of ` set items
    \<and> (k \<in> key_of ` set items \<longrightarrow> entry k (debits es items) = entry k items - flow k es)"
  using assms
proof (induction es arbitrary: items)
  case (Cons e es)
  show ?case
  proof (cases "key e \<in> key_of ` set items")
    case True
    with Cons.IH [of "debit (same e) (amount e) items"] debit_step [OF Cons.prems True, of "amount e" k]
    show ?thesis by (auto simp: debits_def flow_def)
  next
    case False
    with Cons.IH [OF Cons.prems] debit_missing [OF False, of "amount e"]
    show ?thesis by (auto simp: debits_def flow_def)
  qed
qed (simp add: debits_def flow_def)

lemma entry_of:
  assumes "open_sheet items" "t \<in> set items"
  shows "tk_balance t = Some (entry (key_of t) items)"
  using assms
proof (induction items)
  case (Cons u items)
  then show ?case by (cases "t = u") (auto simp: open_sheet_def entry_Cons image_iff)
qed simp

text \<open>What is left after credits and debits.\<close>

lemma left_over:
  shows "distinct (map key_of (filter positive (debits outs (credits ins []))))"
    and "(\<exists>t. t \<in> set (filter positive (debits outs (credits ins []))) \<and> key_of t = k \<and> tk_balance t = Some b)
      = (k \<in> key ` set ins \<and> b = flow k ins - flow k outs \<and> b > 0)"
proof -
  let ?in = "credits ins []" let ?out = "debits outs ?in"
  have "open_sheet []" by (simp add: open_sheet_def)
  note i = credits_sheet [OF this, of ins k]
  then have "open_sheet ?in" by simp
  note o = debits_sheet [OF this, of outs k]
  from o show "distinct (map key_of (filter positive ?out))" by (simp add: open_sheet_def distinct_map_filter)
  have e: "entry k ?out = flow k ins - flow k outs" if "k \<in> key ` set ins"
    using i o that by (simp add: entry_def)
  have b: "tk_balance t = Some (entry (key_of t) ?out)" if "t \<in> set ?out" for t
    using entry_of [OF _ that] o by simp
  have "(\<exists>t. t \<in> set ?out \<and> key_of t = k) = (k \<in> key ` set ins)"
    using i o by (simp add: image_iff set_eq_iff) metis
  then show "(\<exists>t. t \<in> set (filter positive ?out) \<and> key_of t = k \<and> tk_balance t = Some b)
      = (k \<in> key ` set ins \<and> b = flow k ins - flow k outs \<and> b > 0)"
    using e b by (auto simp: positive_def)
qed

lemmas remaining = left_over [unfolded debits_def credits_def flow_def]

end

text \<open>The items a wallet holds, by token id.\<close>

interpretation holdings:
  balance_sheet "\<lambda>e h. tk_id h = event_int e ''id''"
    "\<lambda>e. \<lparr>tk_address = Str a, tk_id = event_int e ''id'', tk_balance = None\<rparr>"
    "\<lambda>e. event_int e ''id''" tk_id "\<lambda>e. event_int e ''value''"
  for a
  by unfold_locales simp_all

text \<open>The children of a composed token, by contract and token id.\<close>

definition child_key :: "obj \<Rightarrow> js_value \<times> int" where
  "child_key e = (field e ''childTokenAddress'', event_int e ''childTokenId'')"

definition item_key :: "token_item \<Rightarrow> js_value \<times> int" where
  "item_key t = (tk_address t, tk_id t)"

interpretation children:
  balance_sheet "\<lambda>e c. tk_address c = field e ''childTokenAddress'' \<and> tk_id c = event_int e ''childTokenId''"
    "\<lambda>e. \<lparr>tk_address = field e ''childTokenAddress'', tk_id = event_int e ''childTokenId'', tk_balance = None\<rparr>"
    child_key item_key "\<lambda>e. event_int e ''amount''"
  by unfold_locales (simp_all add: child_key_def item_key_def)

definition transferred :: "int \<Rightarrow> obj list \<Rightarrow> int" where
  "transferred i es = sum_list (map (\<lambda>e. event_int e ''value'') (filter (\<lambda>e. event_int e ''id'' = i) es))"

definition composed :: "js_value \<times> int \<Rightarrow> obj list \<Rightarrow> int" where
  "composed k es = sum_list (map (\<lambda>e. event_int e ''amount'') (filter (\<lambda>e. child_key e = k) es))"

lemma balance_change_all:
  assumes "list_all P items" "\<And>t b. P (t\<lparr>tk_balance := b\<rparr>) = P t"
  shows "list_all P (debit same n items)" and "P new \<Longrightarrow> list_all P (credit same new n items)"
proof -
  have "list_all P (items[i := (items ! i)\<lparr>tk_balance := b\<rparr>])" for i b
    using assms
    by (cases "i < length items") (auto simp: list_all_iff list_update_beyond dest!: set_update_subset_insert [THEN subsetD])
  then show "list_all P (debit same n items)" and "P new \<Longrightarrow> list_all P (credit same new n items)"
    using assms by (simp_all add: debit_def credit_def Let_def)
qed

lemma list_all_filter: "list_all P xs \<Longrightarrow> list_all P (filter Q xs)"
  by (simp add: list_all_iff)

lemma credits_all:
  assumes "list_all P items" "\<And>t b. P (t\<lparr>tk_balance := b\<rparr>) = P t" "\<And>e. P (new e)"
  shows "list_all P (fold (\<lambda>e. credit (same e) (new e) (amount e)) es items)"
  using assms(1) by (induction es arbitrary: items) (simp_all add: balance_change_all assms(2,3))

lemma debits_all:
  assumes "list_all P items" "\<And>t b. P (t\<lparr>tk_balance := b\<rparr>) = P t"
  shows "list_all P (fold (\<lambda>e. debit (same e) (amount e)) es items)"
  using assms(1) by (induction es arbitrary: items) (simp_all add: balance_change_all assms(2))

text \<open>The holdings of a wallet: one entry per token id, of the given contract, with what single transfers
  brought in minus what they took out, and only where that is positive.\<close>

theorem holdings_balance:
  "distinct (map tk_id (getTokenHoldings net a holder))
   \<and> list_all (\<lambda>t. tk_address t = Str a) (getTokenHoldings net a holder)
   \<and> (\<exists>t. t \<in> set (getTokenHoldings net a holder) \<and> tk_id t = i \<and> tk_balance t = Some b)
     = (i \<in> (\<lambda>e. event_int e ''id'') ` set (getTransferSingleEvents net a None (Some holder))
        \<and> b = transferred i (getTransferSingleEvents net a None (Some holder))
            - transferred i (getTransferSingleEvents net a (Some holder) None)
        \<and> b > 0)"
proof -
  have "list_all (\<lambda>t. tk_address t = Str a) (getTokenHoldings net a holder)"
    unfolding getTokenHoldings_def Let_def by (intro list_all_filter debits_all credits_all) simp_all
  then show ?thesis
    using holdings.remaining by (simp add: getTokenHoldings_def transferred_def)
qed

lemma child_token_iff:
  "(\<lparr>tk_address = address, tk_id = i, tk_balance = Some b\<rparr> \<in> set (getChildTokens net proxy tokenId))
     = ((address, i) \<in> child_key ` set (getChildReceivedEvents net proxy tokenId)
        \<and> b = composed (address, i) (getChildReceivedEvents net proxy tokenId)
            - composed (address, i) (getChildTransferredEvents net proxy tokenId)
        \<and> b > 0)"
  "distinct (map item_key (getChildTokens net proxy tokenId))"
proof -
  note r = children.remaining [where outs = "getChildTransferredEvents net proxy tokenId"
      and ins = "getChildReceivedEvents net proxy tokenId"]
  have m: "(\<lparr>tk_address = address, tk_id = i, tk_balance = Some b\<rparr> \<in> set ts)
      = (\<exists>t. t \<in> set ts \<and> item_key t = (address, i) \<and> tk_balance t = Some b)" for ts
    by (auto simp: item_key_def) (metis (full_types) old.unit.exhaust token_item.surjective)
  show "(\<lparr>tk_address = address, tk_id = i, tk_balance = Some b\<rparr> \<in> set (getChildTokens net proxy tokenId))
     = ((address, i) \<in> child_key ` set (getChildReceivedEvents net proxy tokenId)
        \<and> b = composed (address, i) (getChildReceivedEvents net proxy tokenId)
            - composed (address, i) (getChildTransferredEvents net proxy tokenId)
        \<and> b > 0)"
    unfolding getChildTokens_def composed_def Let_def by (simp only: m r(2))
  show "distinct (map item_key (getChildTokens net proxy tokenId))"
    unfolding getChildTokens_def Let_def by (rule r(1))
qed

text \<open>The children of a composed token: one entry per contract and token id, with what was received minus
  what was transferred on, and only where that is positive.\<close>

theorem children_balance:
  "distinct (map item_key (getChildTokens net composer tokenId))
   \<and> (\<lparr>tk_address = address, tk_id = i, tk_balance = Some b\<rparr> \<in> set (getChildTokens net composer tokenId))
     = ((address, i) \<in> child_key ` set (getChildReceivedEvents net composer tokenId)
        \<and> b = composed (address, i) (getChildReceivedEvents net composer tokenId)
            - composed (address, i) (getChildTransferredEvents net composer tokenId)
        \<and> b > 0)"
  using child_token_iff by blast

section \<open>Pages of a search\<close>

lemma length_by_priority_desc [simp]: "length (by_priority_desc ps) = length ps"
  by (simp add: by_priority_desc_def)

text \<open>The composer's and the market's pages: page \<open>k\<close> (from zero, of size \<open>n\<close>) asks for
  \<open>LIMIT k * n, k * n + n\<close>.  Its first \<open>n\<close> rows are those of the page, cut out of the ordered matches, whose
  number is the count shown; but it goes on with the first \<open>k * n\<close> rows of the next page.\<close>

theorem search_pages_overlap:
  "let matches = map item_row (by_priority_desc (search_matches collectionName categoryName creatorName itemSearch d));
       page = (\<lambda>k. getComposableItemsSearchRows (k * n) (k * n + n) collectionName categoryName creatorName itemSearch d)
   in take n (page k) = take n (drop (k * n) matches)
      \<and> int (length matches) = getComposableItemsSearchRowsCount collectionName categoryName creatorName itemSearch d
      \<and> drop n (page k) = take (k * n) (page (Suc k))"
  by (simp add: Let_def getComposableItemsSearchRows_def getComposableItemsSearchRowsCount_def sql_limit_def
      take_map drop_map drop_take min_def add.commute)

section \<open>Files of traits\<close>

text \<open>A PNG file as the decoder delivers it, and the trait a page keeps of it until it is uploaded.\<close>

record png =
  png_width :: int
  png_height :: int
  png_bytes :: "int \<Rightarrow> nat"

definition png_image :: "png \<Rightarrow> image" where
  "png_image f = new_image (png_width f) (png_height f)
     (\<lambda>x y. let idx = (png_width f * y + x) * 4
            in \<lparr>c_r = png_bytes f idx, c_g = png_bytes f (idx + 1), c_b = png_bytes f (idx + 2), c_a = png_bytes f (idx + 3)\<rparr>)"

text \<open>\<open>s.replace(t, '')\<close> removes the first occurrence.\<close>

fun remove_first :: "string \<Rightarrow> string \<Rightarrow> string" where
  "remove_first t [] = []"
| "remove_first t (c # cs) = (if t \<noteq> [] \<and> take (length t) (c # cs) = t then drop (length t) (c # cs) else c # remove_first t cs)"

record pending_trait =
  pt_type :: string
  pt_data :: string
  pt_palette :: "string list"
  pt_filename :: string

section \<open>Palettes and images\<close>

lemma match_chunks_block:
  assumes "length c = 6" "list_all (\<lambda>d. \<not> is_line_end d) c"
  shows "match_chunks 6 (c @ s) = c # match_chunks 6 s"
proof -
  obtain d ds where c: "c = d # ds" using assms(1) by (cases c) auto
  then have "takeWhile (\<lambda>d. \<not> is_line_end d) ds = ds"
    using assms(2) by (simp add: takeWhile_eq_all_conv list_all_iff)
  then have "length (takeWhile (\<lambda>d. \<not> is_line_end d) ds) = 5" using c assms(1) by (simp only:) simp
  with c assms show ?thesis by (simp add: Let_def list_all_iff)
qed

lemma match_chunks_concat:
  assumes "list_all (\<lambda>c. length c = 6 \<and> list_all (\<lambda>d. \<not> is_line_end d) c) cs"
  shows "match_chunks 6 (concat cs) = cs"
  using assms by (induction cs) (simp_all add: match_chunks_block)

text \<open>Preparing an item: a palette of six-digit colours written one after the other behind \<open>0x\<close> is
  read back as these colours, and the part's bytes are passed on.\<close>

theorem prepared_palette:
  assumes "list_all (\<lambda>c. length c = 6 \<and> list_all (\<lambda>d. \<not> is_line_end d) c) colours"
    and "prepareComposableItem rt a i n (Str (''0x'' @ concat colours)) bytes meta = Some item"
  shows "ci_palette (it_image item) = colours \<and> ci_data (it_image item) = bytes"
proof -
  have "match_chunks 6 (concat colours) = colours" by (rule match_chunks_concat [OF assms(1)])
  with assms(2) show ?thesis
    by (auto simp: prepareComposableItem_def split: list.splits option.splits js_value.splits)
qed

lemma local_draw_parts_same:
  assumes "list_all (\<lambda>p. (case snd p of Some own \<Rightarrow> own | None \<Rightarrow> palette) = common) parts"
  shows "local_draw_parts palette parts acc = draw_parts common (map fst parts) acc"
  using assms
  by (induction parts arbitrary: acc) (simp_all add: local_draw_part_def split: option.splits)

text \<open>The composer's copy of \<open>buildSVG\<close> agrees with the SDK's: where every part is painted with one
  palette, its own or the shared one, both return the same image, or both fail to return.\<close>

theorem composer_svg_matches_sdk:
  assumes "list_all (\<lambda>p. (case snd p of Some own \<Rightarrow> own | None \<Rightarrow> paletteColors) = common) parts"
  shows "local_buildSVG parts paletteColors bgColor = buildSVG (map fst parts) common bgColor"
  using local_draw_parts_same [OF assms] by (simp add: local_buildSVG_def buildSVG_def)

definition demo_rt :: runtime where
  "demo_rt = \<lparr>rt_parse_json = (\<lambda>_. Some (Obj [(''name'', Str ''hat''),
     (''attributes'', Arr [Obj [(''value'', Str ''head'')], Obj [(''value'', Str ''me'')]])])), rt_from_base64 = id\<rparr>"

theorem prepared_palette_witness:
  "prepareComposableItem demo_rt (Str ''a'') 1 Null (Str (''0x'' @ concat [''ff0000'', ''00ff00''])) (Str ''0x00'') (Str '''')
     \<noteq> None
   \<and> ci_palette (it_image (the (prepareComposableItem demo_rt (Str ''a'') 1 Null
        (Str (''0x'' @ concat [''ff0000'', ''00ff00''])) (Str ''0x00'') (Str '''')))) = [''ff0000'', ''00ff00'']
   \<and> ci_data (it_image (the (prepareComposableItem demo_rt (Str ''a'') 1 Null
        (Str (''0x'' @ concat [''ff0000'', ''00ff00''])) (Str ''0x00'') (Str '''')))) = Str ''0x00''"
proof -
  let ?r = "prepareComposableItem demo_rt (Str ''a'') 1 Null (Str (''0x'' @ concat [''ff0000'', ''00ff00''])) (Str ''0x00'') (Str '''')"
  have r: "?r \<noteq> None" by code_simp
  then have s: "?r = Some (the ?r)" by simp
  have "ci_palette (it_image (the ?r)) = [''ff0000'', ''00ff00''] \<and> ci_data (it_image (the ?r)) = Str ''0x00''"
    by (rule prepared_palette [OF _ s]) code_simp
  with r show ?thesis by simp
qed

theorem composer_svg_matches_sdk_witness:
  "local_buildSVG [(''0x0000010100020101'', None), (''0x0000010100020101'', Some [''aa'', ''bb''])] [''aa'', ''bb''] ''ff''
     = buildSVG (map fst [(''0x0000010100020101'', None), (''0x0000010100020101'', Some [''aa'', ''bb''])]) [''aa'', ''bb''] ''ff''"
  by (rule composer_svg_matches_sdk) code_simp

end
