(* ===== verification/Graph_Store.thy ===== *)
theory Graph_Store imports Nouns_Prelude "HOL-Library.Signed_Division" begin

text \<open>
  The entities of the subgraph (\<open>packages/nouns-subgraph/schema.graphql\<close>), the store the
  handlers load and save, and the helpers of \<open>packages/nouns-subgraph/src/utils\<close>.

  A loaded entity is a copy of the stored one: changing it changes nothing until it is saved, and
  two loads of one id are two copies.  The handlers are written over these copies in the order of
  the code, so that a save of an old copy overwrites what was saved in between.  Big integers are
  \<open>int\<close>; an address, a transaction hash or an id is the string the handler makes of it
  (\<open>toHexString\<close>); a handler that traps returns \<open>Inl\<close>, and its changes are dropped.
\<close>

section \<open>Entities\<close>

datatype trap = UnsetField | NullCast | DivisionByZero | I32Overflow

type_synonym 'a outcome = "trap + 'a"

record account =
  a_id :: string
  a_delegate :: "string option"
  tokenBalanceRaw :: int
  tokenBalance :: int
  totalTokensHeldRaw :: int
  totalTokensHeld :: int
  a_nouns :: "string list"

record delegate =
  dl_id :: string
  delegatedVotesRaw :: int
  delegatedVotes :: int
  tokenHoldersRepresentedAmount :: int
  nounsRepresented :: "string list"

record governance =
  gv_proposals :: int
  totalTokenHolders :: int
  currentTokenHolders :: int
  currentDelegates :: int
  totalDelegates :: int
  gv_delegatedVotesRaw :: int
  gv_delegatedVotes :: int
  proposalsQueued :: int

record seed_entity =
  sd_background :: int
  sd_body :: int
  sd_accessory :: int
  sd_head :: int
  sd_glasses :: int

record noun_entity =
  n_seed :: "string option"
  n_owner :: "string option"

record transfer_event_entity =
  te_blockNumber :: int
  te_blockTimestamp :: int
  te_noun :: string
  te_previousHolder :: string
  te_newHolder :: string

record delegation_event_entity =
  de_blockNumber :: int
  de_blockTimestamp :: int
  de_noun :: string
  de_previousDelegate :: string
  de_newDelegate :: string

record auction_entity =
  au_noun :: string
  au_amount :: int
  au_startTime :: int
  au_endTime :: int
  au_bidder :: "string option"
  au_settled :: bool

record bid_entity =
  bd_bidder :: "string option"
  bd_amount :: int
  bd_noun :: string
  bd_txIndex :: int
  bd_blockNumber :: int
  bd_blockTimestamp :: int
  bd_auction :: string

datatype proposal_status = PENDING | ACTIVE | CANCELLED | VETOED | QUEUED | EXECUTED

text \<open>A field of a proposal or a vote that has not been set is \<open>None\<close>; reading a required one
  then traps.\<close>

record proposal =
  p_id :: string
  p_proposer :: "string option"
  p_targets :: "string list option"
  p_values :: "int list option"
  p_signatures :: "string list option"
  p_calldatas :: "string list option"
  p_createdTimestamp :: "int option"
  p_createdBlock :: "int option"
  p_createdTransactionHash :: "string option"
  p_startBlock :: "int option"
  p_endBlock :: "int option"
  p_proposalThreshold :: "int option"
  p_quorumVotes :: "int option"
  p_forVotes :: "int option"
  p_againstVotes :: "int option"
  p_abstainVotes :: "int option"
  p_description :: "string option"
  p_status :: "proposal_status option"
  p_executionETA :: "int option"
  p_totalSupply :: "int option"
  p_minQuorumVotesBPS :: "int option"
  p_maxQuorumVotesBPS :: "int option"
  p_quorumCoefficient :: "int option"

record vote_entity =
  v_support :: "bool option"
  v_supportDetailed :: "int option"
  v_votesRaw :: "int option"
  v_votes :: "int option"
  v_reason :: "string option"
  v_voter :: "string option"
  v_nouns :: "string list option"
  v_proposal :: "string option"
  v_blockNumber :: "int option"

record quorum_params =
  q_minQuorumVotesBPS :: int
  q_maxQuorumVotesBPS :: int
  q_quorumCoefficient :: int
  q_dynamicQuorumStartBlock :: "int option"

record store =
  accounts :: "string \<rightharpoonup> account"
  delegates :: "string \<rightharpoonup> delegate"
  the_governance :: "governance option"
  seeds :: "string \<rightharpoonup> seed_entity"
  nouns :: "string \<rightharpoonup> noun_entity"
  transferEvents :: "string \<rightharpoonup> transfer_event_entity"
  delegationEvents :: "string \<rightharpoonup> delegation_event_entity"
  auctions :: "string \<rightharpoonup> auction_entity"
  bids :: "string \<rightharpoonup> bid_entity"
  proposals :: "string \<rightharpoonup> proposal"
  votes :: "string \<rightharpoonup> vote_entity"
  the_quorum_params :: "quorum_params option"
  log_errors :: "(string \<times> string list) list"

definition empty_store :: store where
  "empty_store =
     \<lparr>accounts = Map.empty, delegates = Map.empty, the_governance = None, seeds = Map.empty,
      nouns = Map.empty, transferEvents = Map.empty, delegationEvents = Map.empty,
      auctions = Map.empty, bids = Map.empty, proposals = Map.empty, votes = Map.empty,
      the_quorum_params = None, log_errors = []\<rparr>"

section \<open>Loading and saving\<close>

definition save_account :: "account \<Rightarrow> store \<Rightarrow> store" where
  "save_account a s = s\<lparr>accounts := (accounts s)(a_id a \<mapsto> a)\<rparr>"

definition save_delegate :: "delegate \<Rightarrow> store \<Rightarrow> store" where
  "save_delegate d s = s\<lparr>delegates := (delegates s)(dl_id d \<mapsto> d)\<rparr>"

definition save_governance :: "governance \<Rightarrow> store \<Rightarrow> store" where
  "save_governance g s = s\<lparr>the_governance := Some g\<rparr>"

definition save_proposal :: "proposal \<Rightarrow> store \<Rightarrow> store" where
  "save_proposal p s = s\<lparr>proposals := (proposals s)(p_id p \<mapsto> p)\<rparr>"

definition save_quorum_params :: "quorum_params \<Rightarrow> store \<Rightarrow> store" where
  "save_quorum_params q s = s\<lparr>the_quorum_params := Some q\<rparr>"

definition log_error :: "string \<Rightarrow> string list \<Rightarrow> store \<Rightarrow> store" where
  "log_error msg args s = s\<lparr>log_errors := log_errors s @ [(msg, args)]\<rparr>"

text \<open>The contract of a table of the store: a saved entity is loaded back, others stay.\<close>

locale entity_table =
  fixes load :: "'s \<Rightarrow> string \<Rightarrow> 'e option"
    and save :: "'e \<Rightarrow> 's \<Rightarrow> 's"
    and key :: "'e \<Rightarrow> string"
  assumes load_saved: "load (save e s) (key e) = Some e"
    and load_other: "k \<noteq> key e \<Longrightarrow> load (save e s) k = load s k"
begin

lemma load_save: "load (save e s) k = (if k = key e then Some e else load s k)"
  by (simp add: load_saved load_other)

lemma last_save_wins: "key e = key e' \<Longrightarrow> load (save e' (save e s)) k = load (save e' s) k"
  by (simp add: load_save)

lemma save_independent:
  "key e \<noteq> key e' \<Longrightarrow> load (save e (save e' s)) k = load (save e' (save e s)) k"
  by (simp add: load_save)

text \<open>A copy loaded before another save of its id, and saved after it, undoes that save.\<close>

lemma stale_save:
  assumes "load s k = Some e" "key e = k"
  shows "load (save e (save e' s)) k = load s k"
  using assms by (simp add: load_save)

end

interpretation account_table: entity_table accounts save_account a_id
  by unfold_locales (auto simp: save_account_def)

interpretation delegate_table: entity_table delegates save_delegate dl_id
  by unfold_locales (auto simp: save_delegate_def)

interpretation proposal_table: entity_table proposals save_proposal p_id
  by unfold_locales (auto simp: save_proposal_def)

lemma save_account_frame [simp]:
  "delegates (save_account a s) = delegates s" "the_governance (save_account a s) = the_governance s"
  "nouns (save_account a s) = nouns s" "proposals (save_account a s) = proposals s"
  "votes (save_account a s) = votes s" "the_quorum_params (save_account a s) = the_quorum_params s"
  "auctions (save_account a s) = auctions s" "bids (save_account a s) = bids s"
  by (simp_all add: save_account_def)

lemma save_delegate_frame [simp]:
  "accounts (save_delegate d s) = accounts s" "the_governance (save_delegate d s) = the_governance s"
  "nouns (save_delegate d s) = nouns s" "proposals (save_delegate d s) = proposals s"
  "votes (save_delegate d s) = votes s" "the_quorum_params (save_delegate d s) = the_quorum_params s"
  by (simp_all add: save_delegate_def)

lemma save_governance_frame [simp]:
  "accounts (save_governance g s) = accounts s" "delegates (save_governance g s) = delegates s"
  "nouns (save_governance g s) = nouns s" "proposals (save_governance g s) = proposals s"
  "votes (save_governance g s) = votes s" "the_quorum_params (save_governance g s) = the_quorum_params s"
  "the_governance (save_governance g s) = Some g"
  by (simp_all add: save_governance_def)

lemma save_proposal_frame [simp]:
  "accounts (save_proposal p s) = accounts s" "delegates (save_proposal p s) = delegates s"
  "nouns (save_proposal p s) = nouns s" "the_governance (save_proposal p s) = the_governance s"
  "votes (save_proposal p s) = votes s" "the_quorum_params (save_proposal p s) = the_quorum_params s"
  by (simp_all add: save_proposal_def)

lemma save_quorum_params_frame [simp]:
  "accounts (save_quorum_params q s) = accounts s" "delegates (save_quorum_params q s) = delegates s"
  "nouns (save_quorum_params q s) = nouns s" "the_governance (save_quorum_params q s) = the_governance s"
  "votes (save_quorum_params q s) = votes s" "proposals (save_quorum_params q s) = proposals s"
  "the_quorum_params (save_quorum_params q s) = Some q"
  by (simp_all add: save_quorum_params_def)

lemma log_error_frame [simp]:
  "accounts (log_error m as s) = accounts s" "delegates (log_error m as s) = delegates s"
  "nouns (log_error m as s) = nouns s" "the_governance (log_error m as s) = the_governance s"
  "votes (log_error m as s) = votes s" "proposals (log_error m as s) = proposals s"
  "the_quorum_params (log_error m as s) = the_quorum_params s" "auctions (log_error m as s) = auctions s"
  "bids (log_error m as s) = bids s"
  by (simp_all add: log_error_def)

section \<open>Helpers\<close>

definition ZERO_ADDRESS :: string where
  "ZERO_ADDRESS = ''0x0000000000000000000000000000000000000000''"

definition new_account :: "string \<Rightarrow> account" where
  "new_account k = \<lparr>a_id = k, a_delegate = None, tokenBalanceRaw = 0, tokenBalance = 0,
     totalTokensHeldRaw = 0, totalTokensHeld = 0, a_nouns = []\<rparr>"

definition getOrCreateAccount :: "string \<Rightarrow> bool \<Rightarrow> bool \<Rightarrow> store \<Rightarrow> (account \<times> store) outcome" where
  "getOrCreateAccount k createIfNotFound do_save s =
     (case accounts s k of
        Some a \<Rightarrow> Inr (a, s)
      | None \<Rightarrow>
          if createIfNotFound
          then (let a = new_account k in Inr (a, if do_save then save_account a s else s))
          else Inl NullCast)"

definition new_governance :: governance where
  "new_governance = \<lparr>gv_proposals = 0, totalTokenHolders = 0, currentTokenHolders = 0,
     currentDelegates = 0, totalDelegates = 0, gv_delegatedVotesRaw = 0, gv_delegatedVotes = 0,
     proposalsQueued = 0\<rparr>"

definition getGovernanceEntity :: "store \<Rightarrow> governance" where
  "getGovernanceEntity s = (case the_governance s of Some g \<Rightarrow> g | None \<Rightarrow> new_governance)"

definition new_delegate :: "string \<Rightarrow> delegate" where
  "new_delegate k = \<lparr>dl_id = k, delegatedVotesRaw = 0, delegatedVotes = 0,
     tokenHoldersRepresentedAmount = 0, nounsRepresented = []\<rparr>"

definition getOrCreateDelegateWithNullOption ::
    "string \<Rightarrow> bool \<Rightarrow> bool \<Rightarrow> store \<Rightarrow> delegate option \<times> store" where
  "getOrCreateDelegateWithNullOption k createIfNotFound do_save s =
     (case delegates s k of
        Some d \<Rightarrow> (Some d, s)
      | None \<Rightarrow>
          if createIfNotFound
          then (let d = new_delegate k;
                    s1 = (if k \<noteq> ZERO_ADDRESS
                          then (let g = getGovernanceEntity s
                                in save_governance (g\<lparr>totalDelegates := totalDelegates g + 1\<rparr>) s)
                          else s);
                    s2 = (if do_save then save_delegate d s1 else s1)
                in (Some d, s2))
          else (None, s))"

definition getOrCreateDelegate :: "string \<Rightarrow> store \<Rightarrow> (delegate \<times> store) outcome" where
  "getOrCreateDelegate k s =
     (case getOrCreateDelegateWithNullOption k True True s of
        (Some d, s') \<Rightarrow> Inr (d, s') | (None, s') \<Rightarrow> Inl NullCast)"

definition new_vote :: vote_entity where
  "new_vote = \<lparr>v_support = None, v_supportDetailed = None, v_votesRaw = None, v_votes = None,
     v_reason = None, v_voter = None, v_nouns = None, v_proposal = None, v_blockNumber = None\<rparr>"

definition getOrCreateVote :: "string \<Rightarrow> bool \<Rightarrow> bool \<Rightarrow> store \<Rightarrow> (vote_entity \<times> store) outcome" where
  "getOrCreateVote k createIfNotFound do_save s =
     (case votes s k of
        Some v \<Rightarrow> Inr (v, s)
      | None \<Rightarrow>
          if createIfNotFound
          then Inr (new_vote, if do_save then s\<lparr>votes := (votes s)(k \<mapsto> new_vote)\<rparr> else s)
          else Inl NullCast)"

text \<open>\<open>fresh\<close> is the constructor of the generated entity class.\<close>

definition getOrCreateProposal ::
    "(string \<Rightarrow> proposal) \<Rightarrow> string \<Rightarrow> bool \<Rightarrow> bool \<Rightarrow> store \<Rightarrow> (proposal \<times> store) outcome" where
  "getOrCreateProposal fresh k createIfNotFound do_save s =
     (case proposals s k of
        Some p \<Rightarrow> Inr (p, s)
      | None \<Rightarrow>
          if createIfNotFound
          then (let p = fresh k;
                    g = getGovernanceEntity s;
                    s1 = save_governance (g\<lparr>gv_proposals := gv_proposals g + 1\<rparr>) s
                in Inr (p, if do_save then save_proposal p s1 else s1))
          else Inl NullCast)"

definition getOrCreateDynamicQuorumParams :: "int option \<Rightarrow> store \<Rightarrow> quorum_params \<times> store" where
  "getOrCreateDynamicQuorumParams block s =
     (let (params, s1) =
        (case the_quorum_params s of
           Some q \<Rightarrow> (q, s)
         | None \<Rightarrow>
             (let q = \<lparr>q_minQuorumVotesBPS = 0, q_maxQuorumVotesBPS = 0, q_quorumCoefficient = 0,
                       q_dynamicQuorumStartBlock = block\<rparr>
              in (q, save_quorum_params q s)))
      in if q_dynamicQuorumStartBlock params = None \<and> block \<noteq> None
         then (let q = params\<lparr>q_dynamicQuorumStartBlock := block\<rparr> in (q, save_quorum_params q s1))
         else (params, s1))"

section \<open>The dynamic quorum\<close>

definition big_div :: "int \<Rightarrow> int \<Rightarrow> int outcome" where
  "big_div a b = (if b = 0 then Inl DivisionByZero else Inr (a sdiv b))"

definition to_i32 :: "int \<Rightarrow> int outcome" where
  "to_i32 n = (if - 2147483648 \<le> n \<and> n \<le> 2147483647 then Inr n else Inl I32Overflow)"

definition dynamicQuorumVotes :: "int \<Rightarrow> int \<Rightarrow> int \<Rightarrow> int \<Rightarrow> int \<Rightarrow> int outcome" where
  "dynamicQuorumVotes againstVotes totalSupply minQuorumVotesBPS maxQuorumVotesBPS quorumCoefficient =
     (case big_div (againstVotes * 10000) totalSupply of
        Inl e \<Rightarrow> Inl e
      | Inr againstVotesBPS \<Rightarrow>
     (case big_div (quorumCoefficient * againstVotesBPS) 1000000 of
        Inl e \<Rightarrow> Inl e
      | Inr quorumAdjustmentBPS \<Rightarrow>
     (case to_i32 (quorumAdjustmentBPS + minQuorumVotesBPS) of
        Inl e \<Rightarrow> Inl e
      | Inr adjusted \<Rightarrow>
          (let quorumBPS = min maxQuorumVotesBPS adjusted
           in big_div (totalSupply * quorumBPS) 10000))))"

end
