(* ===== verification/Graph_Token.thy ===== *)
theory Graph_Token imports Graph_Store begin

text \<open>
  The handlers of the token's events, \<open>packages/nouns-subgraph/src/nouns-erc-721.ts\<close>, over the
  store of \<open>Graph_Store\<close>, and what they make of the history of the token: an abstract ledger
  (who owns which noun) that the stored accounts and nouns implement.
\<close>

section \<open>Events\<close>

record evt =
  e_hash :: string
  e_txIndex :: int
  e_block :: int
  e_timestamp :: int

record noun_created = evt +
  nc_tokenId :: int
  nc_background :: int
  nc_body :: int
  nc_accessory :: int
  nc_head :: int
  nc_glasses :: int

record delegate_changed = evt +
  dc_delegator :: string
  dc_fromDelegate :: string
  dc_toDelegate :: string

record delegate_votes_changed = evt +
  dv_delegate :: string
  dv_previousBalance :: int
  dv_newBalance :: int

record transfer = evt +
  t_from :: string
  t_to :: string
  t_tokenId :: int

text \<open>A string or null used as a condition.\<close>

definition truthy :: "string option \<Rightarrow> bool" where
  "truthy v = (v \<noteq> None \<and> v \<noteq> Some '''')"

section \<open>Handlers\<close>

definition handleNounCreated :: "noun_created \<Rightarrow> store \<Rightarrow> store" where
  "handleNounCreated e s =
     (let nounId = int_to_string (nc_tokenId e);
          sd = \<lparr>sd_background = nc_background e, sd_body = nc_body e, sd_accessory = nc_accessory e,
                 sd_head = nc_head e, sd_glasses = nc_glasses e\<rparr>;
          s1 = s\<lparr>seeds := (seeds s)(nounId \<mapsto> sd)\<rparr>
      in case nouns s1 nounId of
           None \<Rightarrow> log_error ''[handleNounCreated] Noun #{} not found. Hash: {}'' [nounId, e_hash e] s1
         | Some noun \<Rightarrow> s1\<lparr>nouns := (nouns s1)(nounId \<mapsto> noun\<lparr>n_seed := Some nounId\<rparr>)\<rparr>)"

fun log_delegations :: "delegate_changed \<Rightarrow> string list \<Rightarrow> string \<Rightarrow> string \<Rightarrow> store \<Rightarrow> store" where
  "log_delegations e [] previous new s = s"
| "log_delegations e (n # ns) previous new s =
     log_delegations e ns previous new
       (s\<lparr>delegationEvents := (delegationEvents s)(e_hash e @ ''_'' @ n \<mapsto>
            \<lparr>de_blockNumber = e_block e, de_blockTimestamp = e_timestamp e, de_noun = n,
             de_previousDelegate = previous, de_newDelegate = new\<rparr>)\<rparr>)"

definition handleDelegateChanged :: "delegate_changed \<Rightarrow> store \<Rightarrow> store outcome" where
  "handleDelegateChanged e s =
     (case getOrCreateAccount (dc_delegator e) True True s of Inl err \<Rightarrow> Inl err
      | Inr (tokenHolder, s1) \<Rightarrow>
     (case getOrCreateDelegate (dc_fromDelegate e) s1 of Inl err \<Rightarrow> Inl err
      | Inr (previousDelegate, s2) \<Rightarrow>
     (case getOrCreateDelegate (dc_toDelegate e) s2 of Inl err \<Rightarrow> Inl err
      | Inr (newDelegate, s3) \<Rightarrow>
        (let accountNouns = a_nouns tokenHolder;
             tokenHolder' = tokenHolder\<lparr>a_delegate := Some (dl_id newDelegate)\<rparr>;
             s4 = save_account tokenHolder' s3;
             previousDelegate' = previousDelegate\<lparr>
               tokenHoldersRepresentedAmount := tokenHoldersRepresentedAmount previousDelegate - 1,
               nounsRepresented := filter (\<lambda>n. n \<notin> set accountNouns) (nounsRepresented previousDelegate)\<rparr>;
             newDelegate' = newDelegate\<lparr>
               tokenHoldersRepresentedAmount := tokenHoldersRepresentedAmount newDelegate + 1,
               nounsRepresented := nounsRepresented newDelegate @ accountNouns\<rparr>;
             s5 = save_delegate newDelegate' (save_delegate previousDelegate' s4);
             holder = a_id tokenHolder';
             previous = (if dl_id previousDelegate' \<noteq> '''' then dl_id previousDelegate' else holder);
             new = (if dl_id newDelegate' \<noteq> '''' then dl_id newDelegate' else holder)
         in Inr (log_delegations e accountNouns previous new s5)))))"

definition handleDelegateVotesChanged :: "delegate_votes_changed \<Rightarrow> store \<Rightarrow> store outcome" where
  "handleDelegateVotesChanged e s =
     (let g = getGovernanceEntity s
      in case getOrCreateDelegate (dv_delegate e) s of Inl err \<Rightarrow> Inl err
      | Inr (d, s1) \<Rightarrow>
        (let votesDifference = dv_newBalance e - dv_previousBalance e;
             s2 = save_delegate (d\<lparr>delegatedVotesRaw := dv_newBalance e, delegatedVotes := dv_newBalance e\<rparr>) s1;
             g1 = (if dv_previousBalance e = 0 \<and> dv_newBalance e > 0
                   then g\<lparr>currentDelegates := currentDelegates g + 1\<rparr> else g);
             g2 = (if dv_newBalance e = 0 then g1\<lparr>currentDelegates := currentDelegates g1 - 1\<rparr> else g1);
             g3 = g2\<lparr>gv_delegatedVotesRaw := gv_delegatedVotesRaw g2 + votesDifference\<rparr>;
             g4 = g3\<lparr>gv_delegatedVotes := gv_delegatedVotesRaw g3\<rparr>
         in Inr (save_governance g4 s2)))"

text \<open>\<open>handleTransfer\<close> from the \<open>fromHolder\<close> comment to the end of its \<open>if\<close>: the sender's side.
  The result is the sender's copy, the governance copy and the store.\<close>

definition transfer_from_holder ::
    "transfer \<Rightarrow> account \<Rightarrow> governance \<Rightarrow> store \<Rightarrow> (account \<times> governance \<times> store) outcome" where
  "transfer_from_holder e fromHolder g s =
     (let transferredNounId = int_to_string (t_tokenId e)
      in if t_from e = ZERO_ADDRESS
         then (let g1 = g\<lparr>totalTokenHolders := totalTokenHolders g + 1\<rparr>
               in Inr (fromHolder, g1, save_governance g1 s))
         else
           (let previousBalance = tokenBalanceRaw fromHolder;
                f1 = fromHolder\<lparr>tokenBalanceRaw := previousBalance - 1, tokenBalance := previousBalance - 1,
                       a_nouns := filter (\<lambda>n. n \<noteq> transferredNounId) (a_nouns fromHolder)\<rparr>
            in case (case a_delegate f1 of
                       None \<Rightarrow> Inr s
                     | Some k \<Rightarrow>
                         (case getOrCreateDelegate k s of Inl err \<Rightarrow> Inl err
                          | Inr (d, s1) \<Rightarrow>
                              Inr (save_delegate (d\<lparr>nounsRepresented :=
                                     filter (\<lambda>n. n \<noteq> transferredNounId) (nounsRepresented d)\<rparr>) s1)))
               of Inl err \<Rightarrow> Inl err
               | Inr s2 \<Rightarrow>
                   (let s3 = (if tokenBalanceRaw f1 < 0
                              then log_error ''Negative balance on holder {} with balance {}''
                                     [a_id f1, int_to_string (tokenBalanceRaw f1)] s2
                              else s2);
                        (f2, g1, s4) =
                          (if tokenBalanceRaw f1 = 0 \<and> previousBalance > 0
                           then (let g1 = g\<lparr>currentTokenHolders := currentTokenHolders g - 1\<rparr>
                                 in (f1\<lparr>a_delegate := None\<rparr>, g1, save_governance g1 s3))
                           else if tokenBalanceRaw f1 > 0 \<and> previousBalance = 0
                           then (let g1 = g\<lparr>currentTokenHolders := currentTokenHolders g + 1\<rparr>
                                 in (f1, g1, save_governance g1 s3))
                           else (f1, g, s3))
                    in Inr (f2, g1, save_account f2 s4))))"

text \<open>The rest of \<open>handleTransfer\<close>: the receiver's side.\<close>

definition transfer_to_holder ::
    "transfer \<Rightarrow> account \<Rightarrow> account \<Rightarrow> governance \<Rightarrow> store \<Rightarrow> store outcome" where
  "transfer_to_holder e fromHolder toHolder g s =
     (let transferredNounId = int_to_string (t_tokenId e);
          (g1, s1) = (if t_to e = ZERO_ADDRESS
                      then (let g1 = g\<lparr>totalTokenHolders := totalTokenHolders g - 1\<rparr>
                            in (g1, save_governance g1 s))
                      else (g, s));
          delegateOf = (\<lambda>a. if truthy (a_delegate a) then the (a_delegate a) else a_id a);
          s2 = s1\<lparr>delegationEvents := (delegationEvents s1)(e_hash e @ ''_'' @ transferredNounId \<mapsto>
                 \<lparr>de_blockNumber = e_block e, de_blockTimestamp = e_timestamp e, de_noun = transferredNounId,
                  de_previousDelegate = delegateOf fromHolder, de_newDelegate = delegateOf toHolder\<rparr>)\<rparr>
      in case getOrCreateDelegate (delegateOf toHolder) s2 of Inl err \<Rightarrow> Inl err
      | Inr (toHolderDelegate, s3) \<Rightarrow>
        (let s4 = save_delegate (toHolderDelegate\<lparr>nounsRepresented :=
                    nounsRepresented toHolderDelegate @ [transferredNounId]\<rparr>) s3;
             previousBalance = tokenBalanceRaw toHolder;
             to1 = toHolder\<lparr>tokenBalanceRaw := previousBalance + 1, tokenBalance := previousBalance + 1,
                     totalTokensHeldRaw := totalTokensHeldRaw toHolder + 1,
                     totalTokensHeld := totalTokensHeldRaw toHolder + 1,
                     a_nouns := a_nouns toHolder @ [transferredNounId]\<rparr>;
             (to2, s5) =
               (if tokenBalanceRaw to1 = 0 \<and> previousBalance > 0
                then (to1, save_governance (g1\<lparr>currentTokenHolders := currentTokenHolders g1 - 1\<rparr>) s4)
                else if tokenBalanceRaw to1 > 0 \<and> previousBalance = 0
                then (to1\<lparr>a_delegate := Some (a_id to1)\<rparr>,
                      save_governance (g1\<lparr>currentTokenHolders := currentTokenHolders g1 + 1\<rparr>) s4)
                else (to1, s4));
             noun = (case nouns s5 transferredNounId of
                       Some n \<Rightarrow> n | None \<Rightarrow> \<lparr>n_seed = None, n_owner = None\<rparr>);
             s6 = s5\<lparr>nouns := (nouns s5)(transferredNounId \<mapsto> noun\<lparr>n_owner := Some (a_id to2)\<rparr>)\<rparr>
         in Inr (save_account to2 s6)))"

definition handleTransfer :: "transfer \<Rightarrow> store \<Rightarrow> store outcome" where
  "handleTransfer e s =
     (case getOrCreateAccount (t_from e) True True s of Inl err \<Rightarrow> Inl err
      | Inr (fromHolder, s1) \<Rightarrow>
     (case getOrCreateAccount (t_to e) True True s1 of Inl err \<Rightarrow> Inl err
      | Inr (toHolder, s2) \<Rightarrow>
        (let g = getGovernanceEntity s2;
             transferredNounId = int_to_string (t_tokenId e);
             s3 = s2\<lparr>transferEvents := (transferEvents s2)(e_hash e @ ''_'' @ transferredNounId \<mapsto>
                    \<lparr>te_blockNumber = e_block e, te_blockTimestamp = e_timestamp e,
                     te_noun = transferredNounId, te_previousHolder = a_id fromHolder,
                     te_newHolder = a_id toHolder\<rparr>)\<rparr>
         in case transfer_from_holder e fromHolder g s3 of Inl err \<Rightarrow> Inl err
            | Inr (fromHolder', g', s4) \<Rightarrow> transfer_to_holder e fromHolder' toHolder g' s4)))"

section \<open>What the handlers do to each table\<close>

definition acc :: "store \<Rightarrow> string \<Rightarrow> account" where
  "acc s k = (case accounts s k of Some a \<Rightarrow> a | None \<Rightarrow> new_account k)"

lemma getOrCreateAccount_default:
  "getOrCreateAccount k True True s
     = Inr (acc s k, if accounts s k = None then save_account (new_account k) s else s)"
  by (auto simp: getOrCreateAccount_def acc_def Let_def split: option.split)

definition same_counts :: "governance \<Rightarrow> governance \<Rightarrow> bool" where
  "same_counts g h \<longleftrightarrow> currentTokenHolders g = currentTokenHolders h \<and> totalTokenHolders g = totalTokenHolders h"

lemma same_counts_refl [simp]: "same_counts g g"
  by (simp add: same_counts_def)

lemma same_counts_trans: "same_counts g h \<Longrightarrow> same_counts h i \<Longrightarrow> same_counts g i"
  by (simp add: same_counts_def)

lemma getGovernance_saved [simp]: "getGovernanceEntity (save_governance g s) = g"
  by (simp add: getGovernanceEntity_def)

lemma getGovernance_frame [simp]:
  "getGovernanceEntity (save_account a s) = getGovernanceEntity s"
  "getGovernanceEntity (save_delegate d s) = getGovernanceEntity s"
  "getGovernanceEntity (log_error m as s) = getGovernanceEntity s"
  "getGovernanceEntity (s\<lparr>transferEvents := x1\<rparr>) = getGovernanceEntity s"
  "getGovernanceEntity (s\<lparr>delegationEvents := x2\<rparr>) = getGovernanceEntity s"
  "getGovernanceEntity (s\<lparr>nouns := x3\<rparr>) = getGovernanceEntity s"
  "getGovernanceEntity (s\<lparr>nouns := x3, accounts := x4\<rparr>) = getGovernanceEntity s"
  "getGovernanceEntity (s\<lparr>accounts := x5\<rparr>) = getGovernanceEntity s"
  by (simp_all add: getGovernanceEntity_def)

lemma getOrCreateDelegate_frame:
  obtains d s' where "getOrCreateDelegate k s = Inr (d, s')" "accounts s' = accounts s" "nouns s' = nouns s"
    "same_counts (getGovernanceEntity s') (getGovernanceEntity s)"
    "delegates s' = (delegates s)(k \<mapsto> d)" "d = (case delegates s k of Some d \<Rightarrow> d | None \<Rightarrow> new_delegate k)"
proof -
  have "\<exists>d s'. getOrCreateDelegate k s = Inr (d, s')"
    by (auto simp: getOrCreateDelegate_def getOrCreateDelegateWithNullOption_def Let_def split: option.split)
  then obtain d s' where r: "getOrCreateDelegate k s = Inr (d, s')" by blast
  show ?thesis
    by (rule that [OF r], insert r)
       (auto simp: getOrCreateDelegate_def getOrCreateDelegateWithNullOption_def Let_def fun_upd_idem
         same_counts_def save_delegate_def save_governance_def getGovernanceEntity_def new_delegate_def
         split: option.splits if_splits)
qed

definition sent_account :: "transfer \<Rightarrow> account \<Rightarrow> account" where
  "sent_account e f =
     (if t_from e = ZERO_ADDRESS then f
      else f\<lparr>tokenBalanceRaw := tokenBalanceRaw f - 1, tokenBalance := tokenBalanceRaw f - 1,
             a_nouns := filter (\<lambda>n. n \<noteq> int_to_string (t_tokenId e)) (a_nouns f),
             a_delegate := (if tokenBalanceRaw f = 1 then None else a_delegate f)\<rparr>)"

definition received_account :: "transfer \<Rightarrow> account \<Rightarrow> account" where
  "received_account e a =
     a\<lparr>tokenBalanceRaw := tokenBalanceRaw a + 1, tokenBalance := tokenBalanceRaw a + 1,
       totalTokensHeldRaw := totalTokensHeldRaw a + 1, totalTokensHeld := totalTokensHeldRaw a + 1,
       a_nouns := a_nouns a @ [int_to_string (t_tokenId e)],
       a_delegate := (if tokenBalanceRaw a = 0 then Some (a_id a) else a_delegate a)\<rparr>"

lemma sent_account_id [simp]: "a_id (sent_account e f) = a_id f"
  by (simp add: sent_account_def)

lemma received_account_id [simp]: "a_id (received_account e a) = a_id a"
  by (simp add: received_account_def)

lemma transfer_from_holder_spec:
  assumes "same_counts (getGovernanceEntity s) g"
  obtains g' s' where "transfer_from_holder e f g s = Inr (sent_account e f, g', s')"
    "nouns s' = nouns s"
    "accounts s' = (if t_from e = ZERO_ADDRESS then accounts s else (accounts s)(a_id f \<mapsto> sent_account e f))"
    "same_counts (getGovernanceEntity s') g'"
    "t_from e = ZERO_ADDRESS \<Longrightarrow> currentTokenHolders g' = currentTokenHolders g
       \<and> totalTokenHolders g' = totalTokenHolders g + 1"
    "t_from e \<noteq> ZERO_ADDRESS \<Longrightarrow> 0 < tokenBalanceRaw f \<Longrightarrow> totalTokenHolders g' = totalTokenHolders g
       \<and> currentTokenHolders g' = currentTokenHolders g - (if tokenBalanceRaw f = 1 then 1 else 0)"
proof (cases "t_from e = ZERO_ADDRESS")
  case True
  have r: "transfer_from_holder e f g s = Inr (sent_account e f, g\<lparr>totalTokenHolders := totalTokenHolders g + 1\<rparr>,
      save_governance (g\<lparr>totalTokenHolders := totalTokenHolders g + 1\<rparr>) s)"
    using True by (simp add: transfer_from_holder_def sent_account_def Let_def)
  show ?thesis using True by (intro that [OF r]) auto
next
  case False
  define n where "n = int_to_string (t_tokenId e)"
  define s2 where "s2 = (case a_delegate f of None \<Rightarrow> s
    | Some k \<Rightarrow> (case getOrCreateDelegate k s of Inl err \<Rightarrow> s
        | Inr (d, s1) \<Rightarrow> save_delegate (d\<lparr>nounsRepresented := filter (\<lambda>m. m \<noteq> n) (nounsRepresented d)\<rparr>) s1))"
  have s2: "(case a_delegate f of None \<Rightarrow> Inr s
     | Some k \<Rightarrow> (case getOrCreateDelegate k s of Inl err \<Rightarrow> Inl err
          | Inr (d, s1) \<Rightarrow> Inr (save_delegate (d\<lparr>nounsRepresented := filter (\<lambda>m. m \<noteq> n) (nounsRepresented d)\<rparr>) s1)))
     = Inr s2 \<and> accounts s2 = accounts s \<and> nouns s2 = nouns s
       \<and> same_counts (getGovernanceEntity s2) (getGovernanceEntity s)"
  proof (cases "a_delegate f")
    case (Some k)
    obtain d s1 where "getOrCreateDelegate k s = Inr (d, s1)" "accounts s1 = accounts s" "nouns s1 = nouns s"
      "same_counts (getGovernanceEntity s1) (getGovernanceEntity s)"
      by (rule getOrCreateDelegate_frame [of k s]) blast
    with Some show ?thesis by (simp add: s2_def)
  qed (simp add: s2_def)
  with assms have agree: "same_counts (getGovernanceEntity s2) g" by (blast intro: same_counts_trans)
  have "\<exists>f' g' s'. transfer_from_holder e f g s = Inr (f', g', s')"
    using False s2 by (simp add: transfer_from_holder_def Let_def n_def [symmetric])
  then obtain f' g' s' where r: "transfer_from_holder e f g s = Inr (f', g', s')" by blast
  then have f': "f' = sent_account e f"
    using False s2
    by (auto simp: transfer_from_holder_def sent_account_def Let_def n_def [symmetric] split: if_splits)
  show ?thesis
    by (rule that [OF r [unfolded f']], insert r False s2 agree)
       (auto simp: transfer_from_holder_def sent_account_def Let_def n_def [symmetric]
        save_account_def getGovernanceEntity_def save_governance_def log_error_def same_counts_def
        split: if_splits)
qed

lemma transfer_to_holder_spec:
  assumes "same_counts (getGovernanceEntity s) g" "0 \<le> tokenBalanceRaw a"
  obtains s' where "transfer_to_holder e f a g s = Inr s'"
    "nouns s' = (nouns s)(int_to_string (t_tokenId e) \<mapsto>
       (case nouns s (int_to_string (t_tokenId e)) of Some n \<Rightarrow> n | None \<Rightarrow> \<lparr>n_seed = None, n_owner = None\<rparr>)
         \<lparr>n_owner := Some (a_id a)\<rparr>)"
    "accounts s' = (accounts s)(a_id a \<mapsto> received_account e a)"
    "totalTokenHolders (getGovernanceEntity s') = totalTokenHolders g - (if t_to e = ZERO_ADDRESS then 1 else 0)"
    "currentTokenHolders (getGovernanceEntity s')
       = currentTokenHolders g + (if tokenBalanceRaw a = 0 then 1 else 0)"
proof -
  define n where "n = int_to_string (t_tokenId e)"
  define gs where "gs = (if t_to e = ZERO_ADDRESS
    then (let g1 = g\<lparr>totalTokenHolders := totalTokenHolders g - 1\<rparr> in (g1, save_governance g1 s)) else (g, s))"
  define s2 where "s2 = (snd gs)\<lparr>delegationEvents := (delegationEvents (snd gs))(e_hash e @ ''_'' @ n \<mapsto>
     \<lparr>de_blockNumber = e_block e, de_blockTimestamp = e_timestamp e, de_noun = n,
      de_previousDelegate = (if truthy (a_delegate f) then the (a_delegate f) else a_id f),
      de_newDelegate = (if truthy (a_delegate a) then the (a_delegate a) else a_id a)\<rparr>)\<rparr>"
  have gs: "accounts s2 = accounts s" "nouns s2 = nouns s" "same_counts (getGovernanceEntity s2) (fst gs)"
    "currentTokenHolders (fst gs) = currentTokenHolders g"
    "totalTokenHolders (fst gs) = totalTokenHolders g - (if t_to e = ZERO_ADDRESS then 1 else 0)"
    using assms(1) by (auto simp: s2_def gs_def Let_def)
  obtain d s3 where d: "getOrCreateDelegate (if truthy (a_delegate a) then the (a_delegate a) else a_id a) s2 = Inr (d, s3)"
    "accounts s3 = accounts s2" "nouns s3 = nouns s2"
    "same_counts (getGovernanceEntity s3) (getGovernanceEntity s2)"
    by (rule getOrCreateDelegate_frame) blast
  have agree: "same_counts (getGovernanceEntity s3) (fst gs)"
    using d(4) gs(3) by (rule same_counts_trans)
  have "\<exists>s'. transfer_to_holder e f a g s = Inr s'"
    using d(1) by (simp add: transfer_to_holder_def Let_def case_prod_unfold s2_def gs_def n_def)
  then obtain s' where r: "transfer_to_holder e f a g s = Inr s'" by blast
  let ?s4 = "save_delegate (d\<lparr>nounsRepresented := nounsRepresented d @ [n]\<rparr>) s3"
  let ?s5 = "if tokenBalanceRaw a = 0
    then save_governance ((fst gs)\<lparr>currentTokenHolders := currentTokenHolders (fst gs) + 1\<rparr>) ?s4 else ?s4"
  have s': "s' = save_account (received_account e a) (?s5\<lparr>nouns := (nouns ?s5)(n \<mapsto>
      (case nouns ?s5 n of Some n \<Rightarrow> n | None \<Rightarrow> \<lparr>n_seed = None, n_owner = None\<rparr>)\<lparr>n_owner := Some (a_id a)\<rparr>)\<rparr>)"
    using r d(1) assms(2)
    by (auto simp: transfer_to_holder_def Let_def case_prod_unfold s2_def gs_def n_def received_account_def
        split: if_splits)
  show ?thesis
    by (rule that [OF r], unfold s' n_def [symmetric], insert d gs agree)
       (auto simp: save_account_def same_counts_def)
qed

text \<open>The whole handler, for senders that hold a noun.\<close>

lemma handleTransfer_spec:
  assumes ids: "\<And>k. a_id (acc s k) = k"
    and bal: "0 \<le> tokenBalanceRaw (acc s (t_to e))"
      "t_from e \<noteq> ZERO_ADDRESS \<Longrightarrow> 0 < tokenBalanceRaw (acc s (t_from e))"
  obtains s' where "handleTransfer e s = Inr s'"
    "accounts s' = (accounts s)(t_from e \<mapsto> sent_account e (acc s (t_from e)),
                                t_to e \<mapsto> received_account e (acc s (t_to e)))"
    "nouns s' = (nouns s)(int_to_string (t_tokenId e) \<mapsto>
       (case nouns s (int_to_string (t_tokenId e)) of Some n \<Rightarrow> n | None \<Rightarrow> \<lparr>n_seed = None, n_owner = None\<rparr>)
         \<lparr>n_owner := Some (t_to e)\<rparr>)"
    "totalTokenHolders (getGovernanceEntity s') = totalTokenHolders (getGovernanceEntity s)
       + (if t_from e = ZERO_ADDRESS then 1 else 0) - (if t_to e = ZERO_ADDRESS then 1 else 0)"
    "currentTokenHolders (getGovernanceEntity s') = currentTokenHolders (getGovernanceEntity s)
       - (if t_from e \<noteq> ZERO_ADDRESS \<and> tokenBalanceRaw (acc s (t_from e)) = 1 then 1 else 0)
       + (if tokenBalanceRaw (acc s (t_to e)) = 0 then 1 else 0)"
proof -
  let ?f = "acc s (t_from e)" and ?t = "acc s (t_to e)"
  define s1 where "s1 = (if accounts s (t_from e) = None then save_account (new_account (t_from e)) s else s)"
  define s2 where "s2 = (if accounts s1 (t_to e) = None then save_account (new_account (t_to e)) s1 else s1)"
  have s1: "acc s1 k = acc s k" "accounts s1 = (accounts s)(t_from e \<mapsto> ?f)" for k
    by (auto simp: s1_def acc_def save_account_def new_account_def fun_upd_idem split: option.split)
  have s2: "accounts s2 = (accounts s)(t_from e \<mapsto> ?f, t_to e \<mapsto> ?t)"
    "nouns s2 = nouns s" "getGovernanceEntity s2 = getGovernanceEntity s"
    using s1 by (auto simp: s2_def s1_def acc_def save_account_def new_account_def fun_upd_idem
        getGovernanceEntity_def split: option.split)
  define s3 where "s3 = s2\<lparr>transferEvents := (transferEvents s2)(e_hash e @ ''_'' @ int_to_string (t_tokenId e) \<mapsto>
      \<lparr>te_blockNumber = e_block e, te_blockTimestamp = e_timestamp e, te_noun = int_to_string (t_tokenId e),
       te_previousHolder = a_id ?f, te_newHolder = a_id ?t\<rparr>)\<rparr>"
  let ?g = "getGovernanceEntity s2"
  have "same_counts (getGovernanceEntity s3) ?g" by (simp add: s3_def)
  then obtain g' s4 where f: "transfer_from_holder e ?f ?g s3 = Inr (sent_account e ?f, g', s4)"
    "nouns s4 = nouns s3"
    "accounts s4 = (if t_from e = ZERO_ADDRESS then accounts s3 else (accounts s3)(a_id ?f \<mapsto> sent_account e ?f))"
    "same_counts (getGovernanceEntity s4) g'"
    "t_from e = ZERO_ADDRESS \<Longrightarrow> currentTokenHolders g' = currentTokenHolders ?g
       \<and> totalTokenHolders g' = totalTokenHolders ?g + 1"
    "t_from e \<noteq> ZERO_ADDRESS \<Longrightarrow> 0 < tokenBalanceRaw ?f \<Longrightarrow> totalTokenHolders g' = totalTokenHolders ?g
       \<and> currentTokenHolders g' = currentTokenHolders ?g - (if tokenBalanceRaw ?f = 1 then 1 else 0)"
    using transfer_from_holder_spec [of s3 ?g e ?f] by metis
  obtain s' where t: "transfer_to_holder e (sent_account e ?f) ?t g' s4 = Inr s'"
    "nouns s' = (nouns s4)(int_to_string (t_tokenId e) \<mapsto>
       (case nouns s4 (int_to_string (t_tokenId e)) of Some n \<Rightarrow> n | None \<Rightarrow> \<lparr>n_seed = None, n_owner = None\<rparr>)
         \<lparr>n_owner := Some (a_id ?t)\<rparr>)"
    "accounts s' = (accounts s4)(a_id ?t \<mapsto> received_account e ?t)"
    "totalTokenHolders (getGovernanceEntity s') = totalTokenHolders g' - (if t_to e = ZERO_ADDRESS then 1 else 0)"
    "currentTokenHolders (getGovernanceEntity s') = currentTokenHolders g' + (if tokenBalanceRaw ?t = 0 then 1 else 0)"
    using transfer_to_holder_spec [OF f(4) bal(1)] by metis
  have ab: "getOrCreateAccount (t_from e) True True s = Inr (?f, s1)"
    "getOrCreateAccount (t_to e) True True s1 = Inr (?t, s2)"
    using s1(1) [of "t_to e"] by (simp_all add: getOrCreateAccount_default s1_def [symmetric] s2_def)
  have r: "handleTransfer e s = Inr s'"
    using f(1) t(1) ab by (simp add: handleTransfer_def s3_def Let_def)
  show ?thesis
  proof (rule that [OF r])
    have s3: "accounts s3 = accounts s2" "nouns s3 = nouns s2" by (simp_all add: s3_def)
    have zero: "t_from e = ZERO_ADDRESS \<Longrightarrow> sent_account e ?f = ?f" by (simp add: sent_account_def)
    show "accounts s' = (accounts s)(t_from e \<mapsto> sent_account e ?f, t_to e \<mapsto> received_account e ?t)"
      using t(3) f(3) s3(1) s2(1) zero by (auto simp: ids)
    show "nouns s' = (nouns s)(int_to_string (t_tokenId e) \<mapsto>
       (case nouns s (int_to_string (t_tokenId e)) of Some n \<Rightarrow> n | None \<Rightarrow> \<lparr>n_seed = None, n_owner = None\<rparr>)
         \<lparr>n_owner := Some (t_to e)\<rparr>)"
      using t(2) f(2) s3(2) s2(2) by (simp add: ids)
  qed (use t(4,5) f(5,6) bal(2) s2(3) in \<open>cases "t_from e = ZERO_ADDRESS"; simp\<close>)+
qed

section \<open>The ledger the store implements\<close>

type_synonym ledger = "string \<rightharpoonup> string"

datatype token_event =
    NounCreatedEvt noun_created
  | DelegateChangedEvt delegate_changed
  | DelegateVotesChangedEvt delegate_votes_changed
  | TransferEvt transfer

definition token_handler :: "token_event \<Rightarrow> store \<Rightarrow> store outcome" where
  "token_handler ev s =
     (case ev of
        NounCreatedEvt e \<Rightarrow> Inr (handleNounCreated e s)
      | DelegateChangedEvt e \<Rightarrow> handleDelegateChanged e s
      | DelegateVotesChangedEvt e \<Rightarrow> handleDelegateVotesChanged e s
      | TransferEvt e \<Rightarrow> handleTransfer e s)"

definition ledger_step :: "token_event \<Rightarrow> ledger \<times> store \<Rightarrow> ledger \<times> store" where
  "ledger_step ev st =
     ((case ev of TransferEvt e \<Rightarrow> (fst st)(int_to_string (t_tokenId e) \<mapsto> t_to e) | _ \<Rightarrow> fst st),
      (case token_handler ev (snd st) of Inr s' \<Rightarrow> s' | Inl err \<Rightarrow> snd st))"

text \<open>The token contract: a mint makes a new noun, any other transfer is by the owner.  A transfer
  to oneself, which the contract allows, is excluded here and treated on its own below.\<close>

definition ledger_ok :: "ledger \<times> store \<Rightarrow> token_event \<Rightarrow> bool" where
  "ledger_ok st ev =
     (case ev of
        TransferEvt e \<Rightarrow>
          t_from e \<noteq> t_to e \<and>
          fst st (int_to_string (t_tokenId e)) = (if t_from e = ZERO_ADDRESS then None else Some (t_from e))
      | _ \<Rightarrow> True)"

definition owned :: "ledger \<Rightarrow> string \<Rightarrow> string set" where
  "owned L k = {n. L n = Some k}"

definition holds :: "ledger \<Rightarrow> store \<Rightarrow> string \<Rightarrow> bool" where
  "holds L s k \<longleftrightarrow> a_id (acc s k) = k \<and> distinct (a_nouns (acc s k)) \<and> set (a_nouns (acc s k)) = owned L k
     \<and> tokenBalanceRaw (acc s k) = int (length (a_nouns (acc s k)))
     \<and> tokenBalance (acc s k) = tokenBalanceRaw (acc s k)"

definition owner_of :: "store \<Rightarrow> string \<Rightarrow> string option" where
  "owner_of s n = (case nouns s n of None \<Rightarrow> None | Some e \<Rightarrow> n_owner e)"

definition ledger_inv :: "ledger \<times> store \<Rightarrow> bool" where
  "ledger_inv st \<longleftrightarrow> finite (dom (fst st)) \<and> (\<forall>k. holds (fst st) (snd st) k)
     \<and> owner_of (snd st) = fst st
     \<and> currentTokenHolders (getGovernanceEntity (snd st)) = int (card (ran (fst st)))
     \<and> totalTokenHolders (getGovernanceEntity (snd st)) = int (card (dom (fst st) - owned (fst st) ZERO_ADDRESS))"

definition same_view :: "store \<Rightarrow> store \<Rightarrow> bool" where
  "same_view s s' \<longleftrightarrow> same_counts (getGovernanceEntity s') (getGovernanceEntity s) \<and> owner_of s' = owner_of s
     \<and> (\<forall>k. a_id (acc s' k) = a_id (acc s k) \<and> a_nouns (acc s' k) = a_nouns (acc s k)
          \<and> tokenBalanceRaw (acc s' k) = tokenBalanceRaw (acc s k) \<and> tokenBalance (acc s' k) = tokenBalance (acc s k))"

lemma same_view_inv: "same_view s s' \<Longrightarrow> ledger_inv (L, s) \<Longrightarrow> ledger_inv (L, s')"
  by (simp add: same_view_def ledger_inv_def holds_def same_counts_def)

lemma same_view_votes: "handleDelegateVotesChanged e s = Inr s' \<Longrightarrow> same_view s s'"
proof -
  assume h: "handleDelegateVotesChanged e s = Inr s'"
  obtain d s1 where "getOrCreateDelegate (dv_delegate e) s = Inr (d, s1)" "accounts s1 = accounts s" "nouns s1 = nouns s"
    by (rule getOrCreateDelegate_frame) blast
  with h show ?thesis
    by (auto simp: handleDelegateVotesChanged_def Let_def same_view_def same_counts_def owner_of_def acc_def)
qed

lemma log_delegations_frame [simp]:
  "accounts (log_delegations e ns p n s) = accounts s" "nouns (log_delegations e ns p n s) = nouns s"
  "the_governance (log_delegations e ns p n s) = the_governance s"
  "delegates (log_delegations e ns p n s) = delegates s"
  by (induction e ns p n s rule: log_delegations.induct) simp_all

lemma getGovernance_log_delegations [simp]:
  "getGovernanceEntity (log_delegations e ns p n s) = getGovernanceEntity s"
  by (simp add: getGovernanceEntity_def)

text \<open>The delegation handler, as what it does to accounts and delegates.\<close>

lemma handleDelegateChanged_spec:
  assumes "a_id (acc s (dc_delegator e)) = dc_delegator e"
  obtains s' where "handleDelegateChanged e s = Inr s'"
    "accounts s' = (accounts s)(dc_delegator e \<mapsto>
       (acc s (dc_delegator e))\<lparr>a_delegate := Some (dl_id (case delegates s (dc_toDelegate e) of
          Some d \<Rightarrow> d | None \<Rightarrow> new_delegate (dc_toDelegate e)))\<rparr>)"
    "nouns s' = nouns s" "same_counts (getGovernanceEntity s') (getGovernanceEntity s)"
proof -
  let ?a = "acc s (dc_delegator e)"
  define s1 where "s1 = (if accounts s (dc_delegator e) = None then save_account (new_account (dc_delegator e)) s else s)"
  have s1: "accounts s1 = (accounts s)(dc_delegator e \<mapsto> ?a)" "nouns s1 = nouns s" "delegates s1 = delegates s"
    "getGovernanceEntity s1 = getGovernanceEntity s"
    by (auto simp: s1_def acc_def save_account_def new_account_def fun_upd_idem getGovernanceEntity_def split: option.split)
  obtain p s2 where p: "getOrCreateDelegate (dc_fromDelegate e) s1 = Inr (p, s2)" "accounts s2 = accounts s1"
    "nouns s2 = nouns s1" "same_counts (getGovernanceEntity s2) (getGovernanceEntity s1)"
    "delegates s2 = (delegates s1)(dc_fromDelegate e \<mapsto> p)"
    "p = (case delegates s1 (dc_fromDelegate e) of Some d \<Rightarrow> d | None \<Rightarrow> new_delegate (dc_fromDelegate e))"
    by (rule getOrCreateDelegate_frame)
  obtain d s3 where d: "getOrCreateDelegate (dc_toDelegate e) s2 = Inr (d, s3)" "accounts s3 = accounts s2"
    "nouns s3 = nouns s2" "same_counts (getGovernanceEntity s3) (getGovernanceEntity s2)"
    "d = (case delegates s2 (dc_toDelegate e) of Some d \<Rightarrow> d | None \<Rightarrow> new_delegate (dc_toDelegate e))"
    by (rule getOrCreateDelegate_frame)
  have dd: "d = (case delegates s (dc_toDelegate e) of Some d \<Rightarrow> d | None \<Rightarrow> new_delegate (dc_toDelegate e))"
    using p(5,6) d(5) s1(3) by (auto split: option.split)
  have ga: "getOrCreateAccount (dc_delegator e) True True s = Inr (?a, s1)"
    by (simp add: getOrCreateAccount_default s1_def)
  then have "\<exists>s'. handleDelegateChanged e s = Inr s'"
    using p(1) d(1) by (simp add: handleDelegateChanged_def Let_def)
  then obtain s' where r: "handleDelegateChanged e s = Inr s'" by blast
  have gov: "same_counts (getGovernanceEntity s3) (getGovernanceEntity s)"
    using p(4) d(4) s1(4) by (metis same_counts_trans)
  show ?thesis
    by (rule that [OF r], insert r ga p(1,2,3) d(1,2,3) dd s1 gov assms)
       (auto simp: handleDelegateChanged_def Let_def save_account_def simp del: fun_upd_apply)
qed

lemma same_view_delegate:
  assumes "\<And>k. a_id (acc s k) = k" "handleDelegateChanged e s = Inr s'"
  shows "same_view s s'"
proof -
  obtain s'' where "handleDelegateChanged e s = Inr s''"
    "accounts s'' = (accounts s)(dc_delegator e \<mapsto>
       (acc s (dc_delegator e))\<lparr>a_delegate := Some (dl_id (case delegates s (dc_toDelegate e) of
          Some d \<Rightarrow> d | None \<Rightarrow> new_delegate (dc_toDelegate e)))\<rparr>)"
    "nouns s'' = nouns s" "same_counts (getGovernanceEntity s'') (getGovernanceEntity s)"
    using assms(1) by (rule handleDelegateChanged_spec)
  with assms(2) show ?thesis
    by (auto simp: same_view_def owner_of_def acc_def)
qed

lemma same_view_created: "same_view s (handleNounCreated e s)"
  by (auto simp: same_view_def handleNounCreated_def Let_def owner_of_def acc_def same_counts_def
      getGovernanceEntity_def log_error_def split: option.split)

text \<open>The counts of a ledger after one transfer.\<close>

lemma ran_transfer:
  assumes "L n = (if from = z then None else Some from)" "from \<noteq> k"
  shows "ran (L(n \<mapsto> k)) = insert k (ran L - (if from \<noteq> z \<and> owned L from = {n} then {from} else {}))"
proof (rule set_eqI)
  fix a
  have "a \<in> ran (L(n \<mapsto> k)) \<longleftrightarrow> a = k \<or> owned L a - {n} \<noteq> {}"
    by (auto simp: ran_def owned_def)
  moreover have "owned L a - {n} \<noteq> {} \<longleftrightarrow> owned L a \<noteq> {} \<and> owned L a \<noteq> {n}"
    by blast
  moreover have "a \<in> ran L \<longleftrightarrow> owned L a \<noteq> {}"
    by (auto simp: ran_def owned_def)
  moreover have "owned L a = {n} \<longleftrightarrow> a = from \<and> from \<noteq> z \<and> owned L from = {n}"
  proof
    assume "owned L a = {n}"
    then have "L n = Some a" unfolding owned_def by blast
    with assms(1) \<open>owned L a = {n}\<close> show "a = from \<and> from \<noteq> z \<and> owned L from = {n}"
      by (simp split: if_splits)
  qed simp
  ultimately show "a \<in> ran (L(n \<mapsto> k))
      \<longleftrightarrow> a \<in> insert k (ran L - (if from \<noteq> z \<and> owned L from = {n} then {from} else {}))"
    by (simp split: if_split)
qed

lemma card_ran_transfer:
  assumes fin: "finite (dom L)" and L: "L n = (if from = z then None else Some from)" "from \<noteq> k"
  shows "int (card (ran (L(n \<mapsto> k)))) = int (card (ran L))
     - (if from \<noteq> z \<and> owned L from = {n} then 1 else 0) + (if owned L k = {} then 1 else 0)"
proof -
  let ?R = "ran L - (if from \<noteq> z \<and> owned L from = {n} then {from} else {})"
  have fr: "finite (ran L)" using fin by (rule finite_ran)
  have "int (card ?R) = int (card (ran L)) - (if from \<noteq> z \<and> owned L from = {n} then 1 else 0)"
  proof (cases "from \<noteq> z \<and> owned L from = {n}")
    case True
    then have "from \<in> ran L" by (auto simp: owned_def ran_def)
    with int_card_remove [OF fr this] True show ?thesis by (simp only: if_True simp_thms)
  qed auto
  moreover have "k \<in> ?R \<longleftrightarrow> owned L k \<noteq> {}"
    using L(2) by (auto simp: owned_def ran_def)
  ultimately show ?thesis
    unfolding ran_transfer [of L n "from" z k, OF L] using fr by (auto simp: card_insert_if)
qed

lemma card_supply_transfer:
  assumes fin: "finite (dom L)" and L: "L n = (if from = z then None else Some from)" "from \<noteq> k"
  shows "int (card (dom (L(n \<mapsto> k)) - owned (L(n \<mapsto> k)) z)) = int (card (dom L - owned L z))
     + (if from = z then 1 else 0) - (if k = z then 1 else 0)"
proof -
  let ?S = "dom L - owned L z"
  have fs: "finite ?S" using fin by simp
  have eq: "dom (L(n \<mapsto> k)) - owned (L(n \<mapsto> k)) z = (if k = z then ?S - {n} else insert n ?S)"
    by (auto simp: owned_def split: if_splits)
  have "n \<in> ?S \<longleftrightarrow> from \<noteq> z" using L(1) by (auto simp: owned_def split: if_splits)
  moreover have "int (card (?S - {n})) = int (card ?S) - 1" if "n \<in> ?S"
    using fs that by (rule int_card_remove)
  ultimately show ?thesis
    unfolding eq using fs L(2) by (auto simp: card_insert_if)
qed

lemma acc_update:
  "accounts s' = (accounts s)(a \<mapsto> x, b \<mapsto> y) \<Longrightarrow> acc s' k = (if k = b then y else if k = a then x else acc s k)"
  by (simp add: acc_def)

lemma length_filter_one:
  "distinct xs \<Longrightarrow> n \<in> set xs \<Longrightarrow> int (length (filter (\<lambda>m. m \<noteq> n) xs)) = int (length xs) - 1"
proof (induction xs)
  case (Cons x xs)
  have "filter (\<lambda>m. m \<noteq> n) xs = xs" if "n \<notin> set xs" using that by (induction xs) auto
  with Cons show ?case by auto
qed simp

lemma holds_sent:
  assumes "holds L s from" "L n = Some from" "from = t_from e" "from \<noteq> ZERO_ADDRESS" "from \<noteq> k"
    "n = int_to_string (t_tokenId e)" "acc s' from = sent_account e (acc s from)"
  shows "holds (L(n \<mapsto> k)) s' from"
  using assms length_filter_one [of "a_nouns (acc s from)" n]
  by (auto simp: holds_def sent_account_def owned_def)

lemma holds_received:
  assumes "holds L s k" "L n \<noteq> Some k" "n = int_to_string (t_tokenId e)"
    "acc s' k = received_account e (acc s k)"
  shows "holds (L(n \<mapsto> k)) s' k"
  using assms by (auto simp: holds_def received_account_def owned_def)

lemma holds_other:
  "holds L s a \<Longrightarrow> acc s' a = acc s a \<Longrightarrow> a \<noteq> k \<Longrightarrow> L n \<noteq> Some a \<Longrightarrow> holds (L(n \<mapsto> k)) s' a"
  by (auto simp: holds_def owned_def)

lemma holds_card: "holds L s k \<Longrightarrow> tokenBalanceRaw (acc s k) = int (card (owned L k))"
  by (metis distinct_card holds_def)

lemma ledger_inv_transfer:
  assumes inv: "ledger_inv (L, s)" and ok: "ledger_ok (L, s) (TransferEvt e)"
  shows "\<exists>s'. handleTransfer e s = Inr s' \<and> ledger_inv (L(int_to_string (t_tokenId e) \<mapsto> t_to e), s')"
proof -
  let ?n = "int_to_string (t_tokenId e)" and ?from = "t_from e" and ?k = "t_to e"
  have h: "holds L s a" for a using inv by (simp add: ledger_inv_def)
  have fin: "finite (dom L)" using inv by (simp add: ledger_inv_def)
  have Ln: "L ?n = (if ?from = ZERO_ADDRESS then None else Some ?from)" and ne: "?from \<noteq> ?k"
    using ok by (auto simp: ledger_ok_def)
  have fo: "finite (owned L a)" for a
    using h [of a] by (metis List.finite_set holds_def)
  have pos: "0 < tokenBalanceRaw (acc s ?from)" if "?from \<noteq> ZERO_ADDRESS"
  proof -
    have "?n \<in> owned L ?from" using that Ln by (simp add: owned_def)
    with fo show ?thesis by (auto simp: holds_card [OF h] card_gt_0_iff)
  qed
  have "a_id (acc s a) = a" for a using h by (simp add: holds_def)
  moreover have "0 \<le> tokenBalanceRaw (acc s ?k)" by (simp add: holds_card [OF h])
  ultimately obtain s' where s': "handleTransfer e s = Inr s'"
    "accounts s' = (accounts s)(?from \<mapsto> sent_account e (acc s ?from), ?k \<mapsto> received_account e (acc s ?k))"
    "nouns s' = (nouns s)(?n \<mapsto> (case nouns s ?n of Some n \<Rightarrow> n | None \<Rightarrow> \<lparr>n_seed = None, n_owner = None\<rparr>)
         \<lparr>n_owner := Some ?k\<rparr>)"
    "totalTokenHolders (getGovernanceEntity s') = totalTokenHolders (getGovernanceEntity s)
       + (if ?from = ZERO_ADDRESS then 1 else 0) - (if ?k = ZERO_ADDRESS then 1 else 0)"
    "currentTokenHolders (getGovernanceEntity s') = currentTokenHolders (getGovernanceEntity s)
       - (if ?from \<noteq> ZERO_ADDRESS \<and> tokenBalanceRaw (acc s ?from) = 1 then 1 else 0)
       + (if tokenBalanceRaw (acc s ?k) = 0 then 1 else 0)"
    using pos by (rule handleTransfer_spec)
  note a' = acc_update [OF s'(2)]
  have "holds (L(?n \<mapsto> ?k)) s' a" for a
  proof (cases "a = ?k")
    case True
    have "L ?n \<noteq> Some ?k" using Ln ne by simp
    with True h [of ?k] a' [of ?k] show ?thesis by (auto intro: holds_received)
  next
    case False
    show ?thesis
    proof (cases "a = ?from \<and> ?from \<noteq> ZERO_ADDRESS")
      case True
      with h [of ?from] Ln ne a' [of ?from] show ?thesis by (auto intro!: holds_sent)
    next
      case False
      with \<open>a \<noteq> ?k\<close> h [of a] Ln a' [of a] show ?thesis
        by (intro holds_other [of L s a s']) (auto simp: sent_account_def split: if_splits)
    qed
  qed
  moreover have "owner_of s' = L(?n \<mapsto> ?k)"
    using inv s'(3) by (auto simp: ledger_inv_def owner_of_def fun_eq_iff)
  moreover have "owned L ?from = {?n} \<longleftrightarrow> tokenBalanceRaw (acc s ?from) = 1" if "?from \<noteq> ZERO_ADDRESS"
  proof -
    have "?n \<in> owned L ?from" using that Ln by (simp add: owned_def)
    then show ?thesis
      by (simp add: holds_card [OF h] card_1_singleton_iff del: One_nat_def) (metis One_nat_def card_1_singleton_iff singletonD of_nat_eq_1_iff)
  qed
  moreover have "owned L ?k = {} \<longleftrightarrow> tokenBalanceRaw (acc s ?k) = 0"
    using fo by (simp add: holds_card [OF h])
  ultimately have "ledger_inv (L(?n \<mapsto> ?k), s')"
    using inv fin s'(4,5) card_ran_transfer [OF fin Ln ne] card_supply_transfer [OF fin Ln ne]
    by (auto simp: ledger_inv_def)
  with s'(1) show ?thesis by blast
qed

lemma ledger_step_inv:
  assumes "ledger_inv st" "ledger_ok st ev"
  shows "ledger_inv (ledger_step ev st)"
proof -
  obtain L s where st: "st = (L, s)" by (cases st)
  have ids: "a_id (acc s k) = k" for k using assms(1) by (simp add: st ledger_inv_def holds_def)
  show ?thesis
  proof (cases ev)
    case (TransferEvt e)
    with ledger_inv_transfer [of L s e] assms st show ?thesis
      by (auto simp: ledger_step_def token_handler_def)
  next
    case (NounCreatedEvt e)
    with assms st same_view_inv [OF same_view_created] show ?thesis
      by (simp add: ledger_step_def token_handler_def)
  next
    case (DelegateChangedEvt e)
    with assms st same_view_inv [OF same_view_delegate [OF ids]] show ?thesis
      by (cases "handleDelegateChanged e s") (auto simp: ledger_step_def token_handler_def)
  next
    case (DelegateVotesChangedEvt e)
    with assms st same_view_inv [OF same_view_votes] show ?thesis
      by (cases "handleDelegateVotesChanged e s") (auto simp: ledger_step_def token_handler_def)
  qed
qed

interpretation token: event_driven ledger_step ledger_ok ledger_inv
  by unfold_locales (rule ledger_step_inv)

lemma ledger_inv_empty: "ledger_inv (Map.empty, empty_store)"
  by (auto simp: ledger_inv_def empty_store_def holds_def acc_def new_account_def owned_def owner_of_def
      getGovernanceEntity_def new_governance_def)

section \<open>Delegated votes\<close>

text \<open>The votes part of the store: the votes of each delegate and the totals of the governance entity.\<close>

definition del :: "store \<Rightarrow> string \<Rightarrow> delegate" where
  "del s k = (case delegates s k of Some d \<Rightarrow> d | None \<Rightarrow> new_delegate k)"

definition gov_votes :: "governance \<Rightarrow> int \<times> int \<times> int" where
  "gov_votes g = (gv_delegatedVotesRaw g, gv_delegatedVotes g, currentDelegates g)"

definition same_votes :: "store \<Rightarrow> store \<Rightarrow> bool" where
  "same_votes s s' \<longleftrightarrow> gov_votes (getGovernanceEntity s') = gov_votes (getGovernanceEntity s)
     \<and> (\<forall>k. dl_id (del s' k) = dl_id (del s k) \<and> delegatedVotesRaw (del s' k) = delegatedVotesRaw (del s k)
            \<and> delegatedVotes (del s' k) = delegatedVotes (del s k))"

lemma same_votes_refl [simp]: "same_votes s s"
  by (simp add: same_votes_def)

lemma same_votes_trans: "same_votes s s' \<Longrightarrow> same_votes s' s'' \<Longrightarrow> same_votes s s''"
  by (simp add: same_votes_def)

lemma same_votes_frame:
  "delegates s' = delegates s \<Longrightarrow> the_governance s' = the_governance s \<Longrightarrow> same_votes s s'"
  by (simp add: same_votes_def del_def getGovernanceEntity_def)

lemma same_votes_governance:
  "gov_votes g = gov_votes (getGovernanceEntity s) \<Longrightarrow> same_votes s (save_governance g s)"
  by (simp add: same_votes_def del_def)

lemma same_votes_delegate:
  "dl_id d = k \<Longrightarrow> dl_id d = dl_id (del s k) \<Longrightarrow> delegatedVotesRaw d = delegatedVotesRaw (del s k) \<Longrightarrow>
     delegatedVotes d = delegatedVotes (del s k) \<Longrightarrow> same_votes s (save_delegate d s)"
  by (auto simp: same_votes_def del_def save_delegate_def getGovernanceEntity_def)

lemma getOrCreateDelegate_votes:
  assumes "\<And>k. dl_id (del s k) = k"
  obtains s' where "getOrCreateDelegate k s = Inr (del s k, s')" "same_votes s s'" "delegates s' = (delegates s)(k \<mapsto> del s k)"
    "\<And>j. del s' j = del s j"
proof -
  obtain d s' where r: "getOrCreateDelegate k s = Inr (d, s')" "delegates s' = (delegates s)(k \<mapsto> d)"
    "d = (case delegates s k of Some d \<Rightarrow> d | None \<Rightarrow> new_delegate k)"
    by (rule getOrCreateDelegate_frame [of k s]) blast
  have d: "d = del s k" using r(3) by (simp add: del_def)
  have "gov_votes (getGovernanceEntity s') = gov_votes (getGovernanceEntity s)"
    using r(1) by (auto simp: getOrCreateDelegate_def getOrCreateDelegateWithNullOption_def Let_def gov_votes_def
        split: option.splits if_splits)
  moreover have "del s' j = del s j" for j using r(2) d by (auto simp: del_def)
  ultimately show ?thesis using r d by (intro that [of s']) (auto simp: same_votes_def)
qed

lemma save_delegate_nouns_votes:
  assumes "dl_id (del s k) = k"
  shows "same_votes s (save_delegate ((del s k)\<lparr>nounsRepresented := ns\<rparr>) s)"
  using assms by (intro same_votes_delegate [of _ k]) auto

lemma transfer_from_holder_votes:
  assumes ids: "\<And>k. dl_id (del s k) = k" and g: "gov_votes g = gov_votes (getGovernanceEntity s)"
    and r: "transfer_from_holder e f g s = Inr (f', g', s')"
  shows "same_votes s s' \<and> gov_votes g' = gov_votes (getGovernanceEntity s')"
proof (cases "t_from e = ZERO_ADDRESS")
  case True
  with r g show ?thesis
    by (auto simp: transfer_from_holder_def Let_def gov_votes_def intro!: same_votes_governance)
next
  case False
  define n where "n = int_to_string (t_tokenId e)"
  obtain s2 where s2: "(case a_delegate f of None \<Rightarrow> Inr s
     | Some k \<Rightarrow> (case getOrCreateDelegate k s of Inl err \<Rightarrow> Inl err
          | Inr (d, s1) \<Rightarrow> Inr (save_delegate (d\<lparr>nounsRepresented := filter (\<lambda>m. m \<noteq> n) (nounsRepresented d)\<rparr>) s1)))
     = Inr s2" "same_votes s s2"
  proof (cases "a_delegate f")
    case (Some k)
    obtain s1 where s1: "getOrCreateDelegate k s = Inr (del s k, s1)" "same_votes s s1" "\<And>j. del s1 j = del s j"
      using ids by (rule getOrCreateDelegate_votes [of s k]) blast
    with ids save_delegate_nouns_votes [of s1 k] have
      "same_votes s (save_delegate ((del s k)\<lparr>nounsRepresented := filter (\<lambda>m. m \<noteq> n) (nounsRepresented (del s k))\<rparr>) s1)"
      by (metis same_votes_trans)
    with Some s1 that show ?thesis by simp
  qed (use that in simp)
  have gv: "gov_votes (getGovernanceEntity s2) = gov_votes (getGovernanceEntity s)"
    using s2(2) by (simp add: same_votes_def)
  have "same_votes s2 s' \<and> gov_votes g' = gov_votes (getGovernanceEntity s')"
    using r False s2(1) g gv
    by (auto simp: transfer_from_holder_def Let_def n_def [symmetric] same_votes_def del_def gov_votes_def
        split: if_splits)
  with s2(2) show ?thesis by (blast intro: same_votes_trans)
qed

lemma transfer_to_holder_votes:
  assumes ids: "\<And>k. dl_id (del s k) = k" and g: "gov_votes g = gov_votes (getGovernanceEntity s)"
    and r: "transfer_to_holder e f a g s = Inr s'"
  shows "same_votes s s'"
proof -
  define n where "n = int_to_string (t_tokenId e)"
  define gs where "gs = (if t_to e = ZERO_ADDRESS
    then (let g1 = g\<lparr>totalTokenHolders := totalTokenHolders g - 1\<rparr> in (g1, save_governance g1 s)) else (g, s))"
  define k where "k = (if truthy (a_delegate a) then the (a_delegate a) else a_id a)"
  define s2 where "s2 = (snd gs)\<lparr>delegationEvents := (delegationEvents (snd gs))(e_hash e @ ''_'' @ n \<mapsto>
     \<lparr>de_blockNumber = e_block e, de_blockTimestamp = e_timestamp e, de_noun = n,
      de_previousDelegate = (if truthy (a_delegate f) then the (a_delegate f) else a_id f),
      de_newDelegate = k\<rparr>)\<rparr>"
  have s2: "same_votes s s2" "gov_votes (fst gs) = gov_votes (getGovernanceEntity s)"
    using g by (auto simp: s2_def gs_def Let_def same_votes_def del_def gov_votes_def)
  have ids2: "dl_id (del s2 k) = k" for k using ids s2(1) by (simp add: same_votes_def)
  obtain s3 where s3: "getOrCreateDelegate k s2 = Inr (del s2 k, s3)" "same_votes s2 s3" "\<And>j. del s3 j = del s2 j"
    using ids2 by (rule getOrCreateDelegate_votes [of s2 k]) blast
  let ?s4 = "save_delegate ((del s2 k)\<lparr>nounsRepresented := nounsRepresented (del s2 k) @ [n]\<rparr>) s3"
  have s4: "same_votes s ?s4"
    using ids2 s2(1) s3(2,3) save_delegate_nouns_votes [of s3 k] by (metis same_votes_trans)
  then have "gov_votes (fst gs) = gov_votes (getGovernanceEntity ?s4)"
    using s2(2) by (simp add: same_votes_def)
  then have "same_votes ?s4 s'"
    using r s3(1)
    by (auto simp: transfer_to_holder_def Let_def case_prod_unfold s2_def gs_def n_def k_def
        same_votes_def del_def gov_votes_def split: if_splits)
  with s4 show ?thesis by (rule same_votes_trans)
qed

lemma handleTransfer_votes:
  assumes ids: "\<And>k. dl_id (del s k) = k" and r: "handleTransfer e s = Inr s'"
  shows "same_votes s s'"
proof -
  have acct: "same_votes s x" if "getOrCreateAccount k True True s = Inr (a, x)" for k a x s
    using that by (auto simp: getOrCreateAccount_default intro: same_votes_frame split: if_splits)
  obtain f s1 where f: "getOrCreateAccount (t_from e) True True s = Inr (f, s1)"
    by (simp add: getOrCreateAccount_default)
  obtain a s2 where a: "getOrCreateAccount (t_to e) True True s1 = Inr (a, s2)"
    by (simp add: getOrCreateAccount_default)
  have s2: "same_votes s s2" using acct [OF f] acct [OF a] by (rule same_votes_trans)
  define s3 where "s3 = s2\<lparr>transferEvents := (transferEvents s2)(e_hash e @ ''_'' @ int_to_string (t_tokenId e) \<mapsto>
      \<lparr>te_blockNumber = e_block e, te_blockTimestamp = e_timestamp e, te_noun = int_to_string (t_tokenId e),
       te_previousHolder = a_id f, te_newHolder = a_id a\<rparr>)\<rparr>"
  have s3: "same_votes s s3" using s2 by (rule same_votes_trans) (auto simp: s3_def intro: same_votes_frame)
  have ids3: "dl_id (del s3 k) = k" for k using ids s3 by (simp add: same_votes_def)
  have g: "getGovernanceEntity s2 = getGovernanceEntity s3" by (simp add: s3_def)
  obtain f' g' s4 where s4: "transfer_from_holder e f (getGovernanceEntity s2) s3 = Inr (f', g', s4)"
    "transfer_to_holder e f' a g' s4 = Inr s'"
    using r f a by (auto simp: handleTransfer_def Let_def s3_def split: sum.splits)
  have one: "same_votes s3 s4" "gov_votes g' = gov_votes (getGovernanceEntity s4)"
    using transfer_from_holder_votes [OF ids3 _ s4(1)] g by auto
  then have "dl_id (del s4 k) = k" for k using ids3 by (simp add: same_votes_def)
  from transfer_to_holder_votes [OF this one(2) s4(2)] one(1) s3 show ?thesis
    by (blast intro: same_votes_trans)
qed

lemma handleDelegateChanged_tables:
  assumes ids: "\<And>k. dl_id (del s k) = k"
  obtains s' where "handleDelegateChanged e s = Inr s'"
    "\<And>k. del s' k =
      (if k = dc_toDelegate e
       then (del s k)\<lparr>tokenHoldersRepresentedAmount := tokenHoldersRepresentedAmount (del s k) + 1,
                       nounsRepresented := nounsRepresented (del s k) @ a_nouns (acc s (dc_delegator e))\<rparr>
       else if k = dc_fromDelegate e
       then (del s k)\<lparr>tokenHoldersRepresentedAmount := tokenHoldersRepresentedAmount (del s k) - 1,
                       nounsRepresented := filter (\<lambda>n. n \<notin> set (a_nouns (acc s (dc_delegator e)))) (nounsRepresented (del s k))\<rparr>
       else del s k)"
    "same_votes s s'"
proof -
  let ?a = "acc s (dc_delegator e)"
  obtain s1 where s1: "getOrCreateAccount (dc_delegator e) True True s = Inr (?a, s1)" "delegates s1 = delegates s"
    "the_governance s1 = the_governance s"
    by (simp add: getOrCreateAccount_default)
  have del1: "del s1 k = del s k" for k using s1(2) by (simp add: del_def)
  obtain s2 where s2: "getOrCreateDelegate (dc_fromDelegate e) s1 = Inr (del s1 (dc_fromDelegate e), s2)"
    "same_votes s1 s2" "\<And>j. del s2 j = del s1 j"
    using ids del1 getOrCreateDelegate_votes [of s1 "dc_fromDelegate e"] by metis
  obtain s3 where s3: "getOrCreateDelegate (dc_toDelegate e) s2 = Inr (del s2 (dc_toDelegate e), s3)"
    "same_votes s2 s3" "\<And>j. del s3 j = del s2 j"
    using ids del1 s2(3) getOrCreateDelegate_votes [of s2 "dc_toDelegate e"] by metis
  let ?p = "(del s (dc_fromDelegate e))\<lparr>tokenHoldersRepresentedAmount := tokenHoldersRepresentedAmount (del s (dc_fromDelegate e)) - 1,
      nounsRepresented := filter (\<lambda>n. n \<notin> set (a_nouns ?a)) (nounsRepresented (del s (dc_fromDelegate e)))\<rparr>"
  let ?d = "(del s (dc_toDelegate e))\<lparr>tokenHoldersRepresentedAmount := tokenHoldersRepresentedAmount (del s (dc_toDelegate e)) + 1,
      nounsRepresented := nounsRepresented (del s (dc_toDelegate e)) @ a_nouns ?a\<rparr>"
  have "\<exists>s'. handleDelegateChanged e s = Inr s'"
    using s1(1) s2(1) s3(1) by (simp add: handleDelegateChanged_def Let_def)
  then obtain s' where r: "handleDelegateChanged e s = Inr s'" by blast
  define s4 where "s4 = save_account (?a\<lparr>a_delegate := Some (dl_id (del s (dc_toDelegate e)))\<rparr>) s3"
  have s': "delegates s' = delegates (save_delegate ?d (save_delegate ?p s4))"
    "the_governance s' = the_governance s4"
    using r s1(1) s2(1,3) s3(1,3) del1 unfolding s4_def
    by (auto simp: handleDelegateChanged_def Let_def)
  have d4: "delegates s4 = delegates s3" "the_governance s4 = the_governance s3" by (simp_all add: s4_def)
  have del: "del s' k = (if k = dc_toDelegate e then ?d else if k = dc_fromDelegate e then ?p else del s k)" for k
    using s'(1) d4 s3(3) s2(3) del1 ids by (auto simp: del_def save_delegate_def)
  have "same_votes s s'"
  proof -
    have "same_votes s s3"
      using same_votes_frame [OF s1(2,3)] s2(2) s3(2) by (blast intro: same_votes_trans)
    then have "gov_votes (getGovernanceEntity s') = gov_votes (getGovernanceEntity s)"
      using s'(2) d4 by (simp add: same_votes_def getGovernanceEntity_def)
    then show ?thesis unfolding same_votes_def del by auto
  qed
  with r del show ?thesis by (intro that [of s']) auto
qed

section \<open>Properties of the votes\<close>

type_synonym vote_ledger = "string \<Rightarrow> int"

definition votes_step :: "token_event \<Rightarrow> vote_ledger \<times> store \<Rightarrow> vote_ledger \<times> store" where
  "votes_step ev st =
     ((case ev of DelegateVotesChangedEvt e \<Rightarrow> (fst st)(dv_delegate e := dv_newBalance e) | _ \<Rightarrow> fst st),
      (case token_handler ev (snd st) of Inr s' \<Rightarrow> s' | Inl err \<Rightarrow> snd st))"

text \<open>The contract reports the balance it had, and only changes.\<close>

definition votes_ok :: "vote_ledger \<times> store \<Rightarrow> token_event \<Rightarrow> bool" where
  "votes_ok st ev =
     (case ev of
        DelegateVotesChangedEvt e \<Rightarrow> dv_previousBalance e = fst st (dv_delegate e) \<and> 0 \<le> dv_newBalance e
          \<and> dv_newBalance e \<noteq> dv_previousBalance e
      | _ \<Rightarrow> True)"

definition votes_inv :: "vote_ledger \<times> store \<Rightarrow> bool" where
  "votes_inv st \<longleftrightarrow> finite {k. fst st k \<noteq> 0} \<and> (\<forall>k. 0 \<le> fst st k)
     \<and> (\<forall>k. dl_id (del (snd st) k) = k \<and> delegatedVotesRaw (del (snd st) k) = fst st k
            \<and> delegatedVotes (del (snd st) k) = fst st k)
     \<and> gov_votes (getGovernanceEntity (snd st))
         = ((\<Sum>k \<in> {k. fst st k \<noteq> 0}. fst st k), (\<Sum>k \<in> {k. fst st k \<noteq> 0}. fst st k), int (card {k. fst st k \<noteq> 0}))"

lemma sum_votes_upd:
  fixes V :: "string \<Rightarrow> int"
  assumes fin: "finite {k. V k \<noteq> 0}" and ne: "v \<noteq> V j"
  shows "(\<Sum>k \<in> {k. (V(j := v)) k \<noteq> 0}. (V(j := v)) k) = (\<Sum>k \<in> {k. V k \<noteq> 0}. V k) + (v - V j)"
    "int (card {k. (V(j := v)) k \<noteq> 0})
       = int (card {k. V k \<noteq> 0}) + (if V j = 0 then 1 else 0) - (if v = 0 then 1 else 0)"
proof -
  let ?S = "{k. V k \<noteq> 0}"
  have rest: "(\<Sum>k \<in> ?S - {j}. (V(j := v)) k) = (\<Sum>k \<in> ?S - {j}. V k)"
    by (rule sum.cong) auto
  have S': "{k. (V(j := v)) k \<noteq> 0} = (if v = 0 then ?S - {j} else insert j (?S - {j}))" by auto
  have old: "(\<Sum>k \<in> ?S. V k) = V j + (\<Sum>k \<in> ?S - {j}. V k)"
    using fin by (cases "V j = 0") (auto simp: sum.remove)
  have "(\<Sum>k \<in> {k. (V(j := v)) k \<noteq> 0}. (V(j := v)) k) = v + (\<Sum>k \<in> ?S - {j}. V k)"
  proof (cases "v = 0")
    case False
    have "(\<Sum>k \<in> insert j (?S - {j}). (V(j := v)) k) = (V(j := v)) j + (\<Sum>k \<in> ?S - {j}. (V(j := v)) k)"
      by (rule sum.insert) (use fin in auto)
    with False rest show ?thesis unfolding S' by simp
  next
    case True
    have "(\<Sum>k \<in> {k. (V(j := v)) k \<noteq> 0}. (V(j := v)) k) = (\<Sum>k \<in> ?S - {j}. (V(j := v)) k)"
      by (rule sum.cong) (use True in auto)
    with rest True show ?thesis by linarith
  qed
  with old show "(\<Sum>k \<in> {k. (V(j := v)) k \<noteq> 0}. (V(j := v)) k) = (\<Sum>k \<in> ?S. V k) + (v - V j)"
    by simp
  have "int (card (?S - {j})) = int (card ?S) - (if V j = 0 then 0 else 1)"
    using int_card_remove [OF fin, of j] by (cases "V j = 0") auto
  moreover have "int (card (insert j (?S - {j}))) = int (card (?S - {j})) + 1"
    using fin by (subst card_insert_disjoint) auto
  ultimately show "int (card {k. (V(j := v)) k \<noteq> 0})
       = int (card ?S) + (if V j = 0 then 1 else 0) - (if v = 0 then 1 else 0)"
    unfolding S' using ne by (auto simp del: insert_Diff_single)
qed

lemma votes_inv_same:
  "same_votes s s' \<Longrightarrow> votes_inv (V, s) \<Longrightarrow> votes_inv (V, s')"
  by (simp add: votes_inv_def same_votes_def)

lemma votes_inv_changed:
  assumes inv: "votes_inv (V, s)" and ok: "votes_ok (V, s) (DelegateVotesChangedEvt e)"
  shows "\<exists>s'. handleDelegateVotesChanged e s = Inr s' \<and> votes_inv (V(dv_delegate e := dv_newBalance e), s')"
proof -
  let ?j = "dv_delegate e" and ?v = "dv_newBalance e"
  have ids: "dl_id (del s k) = k" for k using inv by (simp add: votes_inv_def)
  have o: "dv_previousBalance e = V ?j" "0 \<le> ?v" "?v \<noteq> V ?j" using ok by (auto simp: votes_ok_def)
  have fin: "finite {k. V k \<noteq> 0}" and nn: "\<And>k. 0 \<le> V k" using inv by (auto simp: votes_inv_def)
  obtain s1 where s1: "getOrCreateDelegate ?j s = Inr (del s ?j, s1)" "same_votes s s1" "\<And>k. del s1 k = del s k"
    using ids by (rule getOrCreateDelegate_votes [of s ?j]) blast
  then obtain s' where r: "handleDelegateVotesChanged e s = Inr s'"
    by (simp add: handleDelegateVotesChanged_def Let_def)
  have del: "del s' k = (if k = ?j then (del s k)\<lparr>delegatedVotesRaw := ?v, delegatedVotes := ?v\<rparr> else del s k)" for k
    using r s1(1) s1(3) [of k] ids [of ?j]
    by (auto simp: handleDelegateVotesChanged_def Let_def del_def save_delegate_def)
  let ?g = "getGovernanceEntity s"
  have g': "gov_votes (getGovernanceEntity s') = (gv_delegatedVotesRaw ?g + (?v - V ?j), gv_delegatedVotesRaw ?g + (?v - V ?j),
      currentDelegates ?g + (if V ?j = 0 then 1 else 0) - (if ?v = 0 then 1 else 0))"
    using r s1(1) o by (auto simp: handleDelegateVotesChanged_def Let_def gov_votes_def)
  have g: "gv_delegatedVotesRaw ?g = (\<Sum>k \<in> {k. V k \<noteq> 0}. V k)" "currentDelegates ?g = int (card {k. V k \<noteq> 0})"
    using inv by (auto simp: votes_inv_def gov_votes_def)
  have "finite {k. (V(?j := ?v)) k \<noteq> 0}"
    by (rule finite_subset [of _ "insert ?j {k. V k \<noteq> 0}"]) (use fin in auto)
  with inv r g' g o nn del sum_votes_upd [OF fin o(3)] show ?thesis
    by (simp add: votes_inv_def del: fun_upd_apply) (simp add: fun_upd_def)
qed

lemma votes_step_inv:
  assumes inv: "votes_inv st" and ok: "votes_ok st ev"
  shows "votes_inv (votes_step ev st)"
proof -
  obtain V s where st: "st = (V, s)" by (cases st)
  have ids: "dl_id (del s k) = k" for k using inv by (simp add: st votes_inv_def)
  show ?thesis
  proof (cases ev)
    case (NounCreatedEvt e)
    have "same_votes s (handleNounCreated e s)"
      by (rule same_votes_frame) (simp_all add: handleNounCreated_def Let_def split: option.split)
    with NounCreatedEvt inv st show ?thesis
      by (simp add: votes_step_def token_handler_def votes_inv_same)
  next
    case (DelegateChangedEvt e)
    obtain s' where "handleDelegateChanged e s = Inr s'" "same_votes s s'"
      using ids by (rule handleDelegateChanged_tables [of s e]) blast
    with DelegateChangedEvt inv st show ?thesis
      by (simp add: votes_step_def token_handler_def votes_inv_same)
  next
    case (DelegateVotesChangedEvt e)
    with votes_inv_changed [of V s e] inv ok st show ?thesis
      by (auto simp: votes_step_def token_handler_def)
  next
    case (TransferEvt e)
    with handleTransfer_votes [OF ids] inv st show ?thesis
      by (cases "handleTransfer e s") (auto simp: votes_step_def token_handler_def intro: votes_inv_same)
  qed
qed

interpretation ballot: event_driven votes_step votes_ok votes_inv
  by unfold_locales (rule votes_step_inv)

lemma votes_inv_empty: "votes_inv (\<lambda>_. 0, empty_store)"
  by (simp add: votes_inv_def empty_store_def del_def new_delegate_def getGovernanceEntity_def new_governance_def gov_votes_def)

section \<open>Properties\<close>

definition demo_transfer :: "string \<Rightarrow> string \<Rightarrow> int \<Rightarrow> transfer" where
  "demo_transfer a b n = \<lparr>e_hash = ''0xcc'', e_txIndex = 0, e_block = 1, e_timestamp = 1,
     t_from = a, t_to = b, t_tokenId = n\<rparr>"

definition demo_delegation :: "string \<Rightarrow> string \<Rightarrow> string \<Rightarrow> delegate_changed" where
  "demo_delegation a b c = \<lparr>e_hash = ''0xdd'', e_txIndex = 0, e_block = 1, e_timestamp = 1,
     dc_delegator = a, dc_fromDelegate = b, dc_toDelegate = c\<rparr>"

definition demo_votes :: "string \<Rightarrow> int \<Rightarrow> int \<Rightarrow> delegate_votes_changed" where
  "demo_votes a p n = \<lparr>e_hash = ''0xee'', e_txIndex = 0, e_block = 1, e_timestamp = 1,
     dv_delegate = a, dv_previousBalance = p, dv_newBalance = n\<rparr>"

definition demo_history :: "token_event list" where
  "demo_history =
     [DelegateVotesChangedEvt (demo_votes ''0xa'' 0 1), TransferEvt (demo_transfer ZERO_ADDRESS ''0xa'' 1),
      DelegateChangedEvt (demo_delegation ''0xa'' ''0xa'' ''0xb''),
      TransferEvt (demo_transfer ''0xa'' ''0xb'' 1)]"

lemma demo_history_ok: "admissible ledger_ok ledger_step demo_history (Map.empty, empty_store)"
  unfolding demo_history_def
  by (simp add: ledger_ok_def ledger_step_def demo_transfer_def ZERO_ADDRESS_def)

lemma demo_history_votes_ok: "admissible votes_ok votes_step demo_history (\<lambda>_. 0, empty_store)"
  unfolding demo_history_def
  by (simp add: votes_ok_def votes_step_def demo_votes_def)



text \<open>C10. The delegated votes of every delegate are those the contract reported last, their sum is
  the \<open>delegatedVotes\<close> of the governance entity, and \<open>currentDelegates\<close> counts the delegates with
  votes; the handlers of the other events do not disturb this.\<close>

theorem delegated_votes_totals:
  assumes "admissible votes_ok votes_step evs (\<lambda>_. 0, empty_store)"
    and "fold votes_step evs (\<lambda>_. 0, empty_store) = (V, s)"
  shows "(\<forall>k. delegatedVotes (del s k) = V k)
    \<and> gv_delegatedVotes (getGovernanceEntity s) = (\<Sum>k \<in> {k. V k \<noteq> 0}. V k)
    \<and> currentDelegates (getGovernanceEntity s) = int (card {k. V k \<noteq> 0})"
  using ballot.run_inv [OF votes_inv_empty assms(1)] assms(2)
  by (simp add: votes_inv_def gov_votes_def)

theorem delegated_votes_totals_witness:
  "gv_delegatedVotes (getGovernanceEntity (snd (fold votes_step demo_history (\<lambda>_. 0, empty_store))))
     = (\<Sum>k \<in> {k. fst (fold votes_step demo_history (\<lambda>_. 0, empty_store)) k \<noteq> 0}.
          fst (fold votes_step demo_history (\<lambda>_. 0, empty_store)) k)"
  using delegated_votes_totals [OF demo_history_votes_ok, of
      "fst (fold votes_step demo_history (\<lambda>_. 0, empty_store))"
      "snd (fold votes_step demo_history (\<lambda>_. 0, empty_store))"] by simp

text \<open>A transfer from an owner to itself raises its stored balance by one and lists the noun a
  second time: the copy of the receiver was loaded before the sender's side was saved.\<close>

theorem self_transfer_inflates:
  assumes "ledger_inv (L, s)" "k \<noteq> ZERO_ADDRESS" "t_from e = k" "t_to e = k"
    and "L (int_to_string (t_tokenId e)) = Some k"
  shows "\<exists>s'. handleTransfer e s = Inr s'
    \<and> tokenBalance (acc s' k) = tokenBalance (acc s k) + 1
    \<and> a_nouns (acc s' k) = a_nouns (acc s k) @ [int_to_string (t_tokenId e)]
    \<and> int_to_string (t_tokenId e) \<in> set (a_nouns (acc s k))"
proof -
  have h: "holds L s j" for j using assms(1) by (simp add: ledger_inv_def)
  then have n: "int_to_string (t_tokenId e) \<in> set (a_nouns (acc s k))"
    using assms(5) by (simp add: holds_def owned_def)
  then have "0 < tokenBalanceRaw (acc s k)" using h [of k] by (auto simp: holds_def)
  moreover have "a_id (acc s j) = j" for j using h by (simp add: holds_def)
  ultimately obtain s' where s': "handleTransfer e s = Inr s'"
    "accounts s' = (accounts s)(t_from e \<mapsto> sent_account e (acc s (t_from e)),
                                t_to e \<mapsto> received_account e (acc s (t_to e)))"
    using handleTransfer_spec [of s e] assms(3,4) by (metis order_less_imp_le)
  then have "acc s' k = received_account e (acc s k)" using assms by (simp add: acc_def)
  with s'(1) n h [of k] show ?thesis by (simp add: received_account_def holds_def)
qed

lemma demo_minted:
  "ledger_inv (fold ledger_step [TransferEvt (demo_transfer ZERO_ADDRESS ''0xa'' 1)] (Map.empty, empty_store))"
  by (rule token.run_inv [OF ledger_inv_empty])
     (simp add: ledger_ok_def demo_transfer_def ZERO_ADDRESS_def)

theorem self_transfer_inflates_witness:
  "\<exists>s'. handleTransfer (demo_transfer ''0xa'' ''0xa'' 1)
      (snd (fold ledger_step [TransferEvt (demo_transfer ZERO_ADDRESS ''0xa'' 1)] (Map.empty, empty_store))) = Inr s'
    \<and> tokenBalance (acc s' ''0xa'') = tokenBalance (acc
        (snd (fold ledger_step [TransferEvt (demo_transfer ZERO_ADDRESS ''0xa'' 1)] (Map.empty, empty_store))) ''0xa'') + 1"
  using self_transfer_inflates [of "fst (fold ledger_step [TransferEvt (demo_transfer ZERO_ADDRESS ''0xa'' 1)] (Map.empty, empty_store))"
      "snd (fold ledger_step [TransferEvt (demo_transfer ZERO_ADDRESS ''0xa'' 1)] (Map.empty, empty_store))"
      "''0xa''" "demo_transfer ''0xa'' ''0xa'' 1"] demo_minted
  by (auto simp: demo_transfer_def ZERO_ADDRESS_def ledger_step_def)

text \<open>An account that has delegated and sends its last noun away loses its stored delegate; when
  it receives a noun again the store says it delegates to itself, while the token keeps the
  delegation it was given.\<close>

theorem delegation_forgotten:
  assumes "ledger_inv (L, s)" "a \<noteq> b" "a \<noteq> ZERO_ADDRESS" "b \<noteq> ZERO_ADDRESS"
    and "t_from e1 = a" "t_to e1 = b" "owned L a = {int_to_string (t_tokenId e1)}"
    and "t_from e2 = b" "t_to e2 = a" "t_tokenId e2 = t_tokenId e1"
  shows "\<exists>s1 s2. handleTransfer e1 s = Inr s1 \<and> handleTransfer e2 s1 = Inr s2
    \<and> a_delegate (acc s1 a) = None \<and> a_delegate (acc s2 a) = Some a"
proof -
  let ?n = "int_to_string (t_tokenId e1)" let ?L1 = "L(?n \<mapsto> b)"
  have Ln: "L ?n = Some a" using assms(7) by (auto simp: owned_def)
  have h: "holds L s j" for j using assms(1) by (simp add: ledger_inv_def)
  have one: "tokenBalanceRaw (acc s a) = 1" using holds_card [OF h, of a] assms(7) by simp
  have "ledger_ok (L, s) (TransferEvt e1)" using assms Ln by (simp add: ledger_ok_def)
  from ledger_inv_transfer [OF assms(1) this] obtain s1 where
    s1: "handleTransfer e1 s = Inr s1" "ledger_inv (?L1, s1)" using assms(6) by auto
  have "0 \<le> tokenBalanceRaw (acc s (t_to e1))" by (simp add: holds_card [OF h])
  with h one assms(5) obtain x1 where "handleTransfer e1 s = Inr x1"
    "accounts x1 = (accounts s)(t_from e1 \<mapsto> sent_account e1 (acc s (t_from e1)),
                                t_to e1 \<mapsto> received_account e1 (acc s (t_to e1)))"
    using handleTransfer_spec [of s e1] by (metis holds_def zero_less_one)
  with s1(1) have a1: "acc s1 a = sent_account e1 (acc s a)" using assms by (simp add: acc_def)
  have h1: "holds ?L1 s1 j" for j using s1(2) by (simp add: ledger_inv_def)
  have "?n \<in> owned ?L1 b" by (simp add: owned_def)
  moreover have "finite (owned ?L1 b)" using h1 [of b] by (metis List.finite_set holds_def)
  ultimately have "0 < tokenBalanceRaw (acc s1 b)"
    by (auto simp: holds_card [OF h1] card_gt_0_iff)
  moreover have "owned ?L1 a = {}" using assms(2,7) by (auto simp: owned_def)
  then have zero: "tokenBalanceRaw (acc s1 a) = 0" using holds_card [OF h1, of a] by simp
  ultimately obtain s2 where s2: "handleTransfer e2 s1 = Inr s2"
    "accounts s2 = (accounts s1)(t_from e2 \<mapsto> sent_account e2 (acc s1 (t_from e2)),
                                t_to e2 \<mapsto> received_account e2 (acc s1 (t_to e2)))"
    using handleTransfer_spec [of s1 e2] h1 assms(8,9) by (metis holds_def order_refl)
  then have "acc s2 a = received_account e2 (acc s1 a)" using assms by (simp add: acc_def)
  with s1(1) s2(1) a1 zero one assms h1 [of a] show ?thesis
    by (auto simp: received_account_def sent_account_def holds_def)
qed

theorem delegation_forgotten_witness:
  "\<exists>s1 s2. handleTransfer (demo_transfer ''0xa'' ''0xb'' 1)
      (snd (fold ledger_step [TransferEvt (demo_transfer ZERO_ADDRESS ''0xa'' 1)] (Map.empty, empty_store))) = Inr s1
    \<and> handleTransfer (demo_transfer ''0xb'' ''0xa'' 1) s1 = Inr s2
    \<and> a_delegate (acc s1 ''0xa'') = None \<and> a_delegate (acc s2 ''0xa'') = Some ''0xa''"
  by (rule delegation_forgotten [of "fst (fold ledger_step [TransferEvt (demo_transfer ZERO_ADDRESS ''0xa'' 1)] (Map.empty, empty_store))"
        _ _ "''0xb''"])
     (use demo_minted in \<open>auto simp: demo_transfer_def ZERO_ADDRESS_def ledger_step_def owned_def split: if_splits\<close>)


text \<open>A change of delegate moves the holder's nouns from the old delegate's list to the new
  one's, and one represented holder with them; all other delegates stay as they are.\<close>

theorem delegation_moves_nouns:
  assumes "ledger_inv (L, s)" "votes_inv (V, s)" "dc_fromDelegate e \<noteq> dc_toDelegate e"
  shows "\<exists>s'. handleDelegateChanged e s = Inr s'
    \<and> a_delegate (acc s' (dc_delegator e)) = Some (dc_toDelegate e)
    \<and> nounsRepresented (del s' (dc_fromDelegate e))
        = filter (\<lambda>n. L n \<noteq> Some (dc_delegator e)) (nounsRepresented (del s (dc_fromDelegate e)))
    \<and> nounsRepresented (del s' (dc_toDelegate e))
        = nounsRepresented (del s (dc_toDelegate e)) @ a_nouns (acc s (dc_delegator e))
    \<and> tokenHoldersRepresentedAmount (del s' (dc_fromDelegate e)) = tokenHoldersRepresentedAmount (del s (dc_fromDelegate e)) - 1
    \<and> tokenHoldersRepresentedAmount (del s' (dc_toDelegate e)) = tokenHoldersRepresentedAmount (del s (dc_toDelegate e)) + 1
    \<and> (\<forall>k. del s' k \<noteq> del s k \<longrightarrow> k = dc_fromDelegate e \<or> k = dc_toDelegate e)"
proof -
  have h: "a_id (acc s (dc_delegator e)) = dc_delegator e"
    "set (a_nouns (acc s (dc_delegator e))) = {n. L n = Some (dc_delegator e)}"
    using assms(1) by (auto simp: ledger_inv_def holds_def owned_def)
  have ids: "dl_id (del s k) = k" for k using assms(2) by (simp add: votes_inv_def)
  obtain s' where s': "handleDelegateChanged e s = Inr s'"
    "accounts s' = (accounts s)(dc_delegator e \<mapsto> (acc s (dc_delegator e))\<lparr>a_delegate := Some (dl_id (del s (dc_toDelegate e)))\<rparr>)"
    using handleDelegateChanged_spec [OF h(1)] unfolding del_def by metis
  have a: "a_delegate (acc s' (dc_delegator e)) = Some (dc_toDelegate e)"
    using s'(2) ids by (simp add: acc_def)
  obtain s'' where s'': "handleDelegateChanged e s = Inr s''"
    "\<And>k. del s'' k =
      (if k = dc_toDelegate e
       then (del s k)\<lparr>tokenHoldersRepresentedAmount := tokenHoldersRepresentedAmount (del s k) + 1,
                       nounsRepresented := nounsRepresented (del s k) @ a_nouns (acc s (dc_delegator e))\<rparr>
       else if k = dc_fromDelegate e
       then (del s k)\<lparr>tokenHoldersRepresentedAmount := tokenHoldersRepresentedAmount (del s k) - 1,
                       nounsRepresented := filter (\<lambda>n. n \<notin> set (a_nouns (acc s (dc_delegator e)))) (nounsRepresented (del s k))\<rparr>
       else del s k)"
    using ids by (rule handleDelegateChanged_tables [of s e]) blast
  have "s'' = s'" using s'(1) s''(1) by simp
  with s'(1) s''(2) a assms(3) h(2) show ?thesis by auto
qed

theorem delegation_moves_nouns_witness:
  "\<exists>s'. handleDelegateChanged (demo_delegation ''0xa'' ''0xa'' ''0xb'')
      (snd (fold ledger_step [TransferEvt (demo_transfer ZERO_ADDRESS ''0xa'' 1)] (Map.empty, empty_store))) = Inr s'
    \<and> a_delegate (acc s' ''0xa'') = Some ''0xb''"
proof -
  let ?ev = "TransferEvt (demo_transfer ZERO_ADDRESS ''0xa'' 1)"
  have "votes_inv (fold votes_step [?ev] (\<lambda>_. 0, empty_store))"
    by (rule ballot.run_inv [OF votes_inv_empty]) (simp add: votes_ok_def)
  moreover have "snd (fold votes_step [?ev] (\<lambda>_. 0, empty_store)) = snd (fold ledger_step [?ev] (Map.empty, empty_store))"
    by (simp add: votes_step_def ledger_step_def split: sum.split)
  ultimately have v: "votes_inv (\<lambda>_. 0, snd (fold ledger_step [?ev] (Map.empty, empty_store)))"
    by (simp add: votes_step_def)
  have l: "ledger_inv (fst (fold ledger_step [?ev] (Map.empty, empty_store)), snd (fold ledger_step [?ev] (Map.empty, empty_store)))"
    using demo_minted by simp
  from delegation_moves_nouns [OF l v, of "demo_delegation ''0xa'' ''0xa'' ''0xb''"] show ?thesis
    by (auto simp: demo_delegation_def)
qed

text \<open>Delegating again to the delegate one already has, which the token allows and reports,
  counts the holder once more and lists its nouns twice: both copies are of one entity, and the
  second save drops what was taken from the first.\<close>

theorem redelegation_duplicates:
  assumes "votes_inv (V, s)" "dc_fromDelegate e = d" "dc_toDelegate e = d"
  shows "\<exists>s'. handleDelegateChanged e s = Inr s'
    \<and> tokenHoldersRepresentedAmount (del s' d) = tokenHoldersRepresentedAmount (del s d) + 1
    \<and> nounsRepresented (del s' d) = nounsRepresented (del s d) @ a_nouns (acc s (dc_delegator e))"
proof -
  have ids: "dl_id (del s k) = k" for k using assms(1) by (simp add: votes_inv_def)
  obtain s' where "handleDelegateChanged e s = Inr s'" "del s' d =
      (if d = dc_toDelegate e
       then (del s d)\<lparr>tokenHoldersRepresentedAmount := tokenHoldersRepresentedAmount (del s d) + 1,
                       nounsRepresented := nounsRepresented (del s d) @ a_nouns (acc s (dc_delegator e))\<rparr>
       else if d = dc_fromDelegate e
       then (del s d)\<lparr>tokenHoldersRepresentedAmount := tokenHoldersRepresentedAmount (del s d) - 1,
                       nounsRepresented := filter (\<lambda>n. n \<notin> set (a_nouns (acc s (dc_delegator e)))) (nounsRepresented (del s d))\<rparr>
       else del s d)"
    using ids by (rule handleDelegateChanged_tables [of s e]) blast
  with assms(3) show ?thesis by simp
qed

theorem redelegation_duplicates_witness:
  "\<exists>s'. handleDelegateChanged (demo_delegation ''0xa'' ''0xb'' ''0xb'') empty_store = Inr s'
    \<and> tokenHoldersRepresentedAmount (del s' ''0xb'') = tokenHoldersRepresentedAmount (del empty_store ''0xb'') + 1
    \<and> nounsRepresented (del s' ''0xb'') = nounsRepresented (del empty_store ''0xb'') @ a_nouns (acc empty_store ''0xa'')"
  using redelegation_duplicates [OF votes_inv_empty, of "demo_delegation ''0xa'' ''0xb'' ''0xb''" "''0xb''"]
  by (simp add: demo_delegation_def)

text \<open>\<open>handleDelegateVotesChanged\<close> creates the entity of a new delegate without counting it in
  \<open>totalDelegates\<close>: \<open>getOrCreateDelegate\<close> counts it in the stored governance entity, and the
  handler then saves the copy it loaded before.\<close>

theorem new_delegate_not_counted:
  assumes "delegates s (dv_delegate e) = None" "dv_delegate e \<noteq> ZERO_ADDRESS"
  shows "\<exists>s'. handleDelegateVotesChanged e s = Inr s' \<and> delegates s' (dv_delegate e) \<noteq> None
    \<and> totalDelegates (getGovernanceEntity s') = totalDelegates (getGovernanceEntity s)
    \<and> (\<exists>d s1. getOrCreateDelegate (dv_delegate e) s = Inr (d, s1)
         \<and> totalDelegates (getGovernanceEntity s1) = totalDelegates (getGovernanceEntity s) + 1)"
  using assms
  by (auto simp: handleDelegateVotesChanged_def getOrCreateDelegate_def getOrCreateDelegateWithNullOption_def
      Let_def save_delegate_def new_delegate_def getGovernanceEntity_def save_governance_def)

theorem new_delegate_not_counted_witness:
  "\<exists>s'. handleDelegateVotesChanged (demo_votes ''0xa'' 0 1) empty_store = Inr s' \<and> delegates s' ''0xa'' \<noteq> None
    \<and> totalDelegates (getGovernanceEntity s') = totalDelegates (getGovernanceEntity empty_store)"
  using new_delegate_not_counted [of empty_store "demo_votes ''0xa'' 0 1"]
  by (auto simp: demo_votes_def empty_store_def ZERO_ADDRESS_def)

end
