(* ===== verification/Graph_Dao.thy ===== *)
theory Graph_Dao imports Graph_Token begin

text \<open>
  The handlers of the DAO's and the auction house's events:
  \<open>packages/nouns-subgraph/src/nouns-dao.ts\<close> and \<open>nouns-auction-house.ts\<close>.  \<open>fresh\<close> is the
  constructor of the generated class \<open>Proposal\<close>: what a proposal holds before the code sets it.
\<close>

section \<open>Events\<close>

record proposal_created = evt +
  pc_id :: int
  pc_proposer :: string
  pc_targets :: "string list"
  pc_values :: "int list"
  pc_signatures :: "string list"
  pc_calldatas :: "string list"
  pc_startBlock :: int
  pc_endBlock :: int
  pc_proposalThreshold :: int
  pc_quorumVotes :: int
  pc_description :: string

record vote_cast = evt +
  vc_voter :: string
  vc_proposalId :: int
  vc_support :: int
  vc_votes :: int
  vc_reason :: string

record auction_created = evt +
  ac_nounId :: int
  ac_startTime :: int
  ac_endTime :: int

record auction_bid = evt +
  ab_nounId :: int
  ab_sender :: string
  ab_value :: int

section \<open>Proposals\<close>

text \<open>\<open>s.split('\\n').join('\<newline>')\<close> on the two characters backslash and n.\<close>

fun unescape_newlines :: "string \<Rightarrow> string" where
  "unescape_newlines (a # b # s) =
     (if a = CHR 0x5C \<and> b = CHR ''n'' then CHR 0x0A # unescape_newlines s
      else a # unescape_newlines (b # s))"
| "unescape_newlines s = s"

definition handleProposalCreatedWithRequirements ::
    "(string \<Rightarrow> proposal) \<Rightarrow> proposal_created \<Rightarrow> store \<Rightarrow> store outcome" where
  "handleProposalCreatedWithRequirements fresh e s =
     (case getOrCreateProposal fresh (int_to_string (pc_id e)) True False s of Inl err \<Rightarrow> Inl err
      | Inr (p, s1) \<Rightarrow>
     (let (proposer0, s2) = getOrCreateDelegateWithNullOption (pc_proposer e) False True s1;
          s3 = (if proposer0 = None
                then log_error ''Delegate {} not found on ProposalCreated. tx_hash: {}'' [pc_proposer e, e_hash e] s2
                else s2)
      in case getOrCreateDelegate (pc_proposer e) s3 of Inl err \<Rightarrow> Inl err
      | Inr (proposer, s4) \<Rightarrow>
        (let g = getGovernanceEntity s4;
             (q, s5) = getOrCreateDynamicQuorumParams None s4;
             p' = p\<lparr>p_proposer := Some (dl_id proposer),
                    p_targets := Some (pc_targets e), p_values := Some (pc_values e),
                    p_signatures := Some (pc_signatures e), p_calldatas := Some (pc_calldatas e),
                    p_createdTimestamp := Some (e_timestamp e), p_createdBlock := Some (e_block e),
                    p_createdTransactionHash := Some (e_hash e),
                    p_startBlock := Some (pc_startBlock e), p_endBlock := Some (pc_endBlock e),
                    p_proposalThreshold := Some (pc_proposalThreshold e),
                    p_quorumVotes := Some (pc_quorumVotes e),
                    p_forVotes := Some 0, p_againstVotes := Some 0, p_abstainVotes := Some 0,
                    p_description := Some (unescape_newlines (pc_description e)),
                    p_status := Some (if e_block e \<ge> pc_startBlock e then ACTIVE else PENDING),
                    p_totalSupply := Some (totalTokenHolders g),
                    p_minQuorumVotesBPS := Some (q_minQuorumVotesBPS q),
                    p_maxQuorumVotesBPS := Some (q_maxQuorumVotesBPS q),
                    p_quorumCoefficient := Some (q_quorumCoefficient q)\<rparr>
         in Inr (save_proposal p' s5))))"

definition handleProposalCanceled :: "(string \<Rightarrow> proposal) \<Rightarrow> int \<Rightarrow> store \<Rightarrow> store outcome" where
  "handleProposalCanceled fresh i s =
     (case getOrCreateProposal fresh (int_to_string i) True False s of Inl err \<Rightarrow> Inl err
      | Inr (p, s1) \<Rightarrow> Inr (save_proposal (p\<lparr>p_status := Some CANCELLED\<rparr>) s1))"

definition handleProposalVetoed :: "(string \<Rightarrow> proposal) \<Rightarrow> int \<Rightarrow> store \<Rightarrow> store outcome" where
  "handleProposalVetoed fresh i s =
     (case getOrCreateProposal fresh (int_to_string i) True False s of Inl err \<Rightarrow> Inl err
      | Inr (p, s1) \<Rightarrow> Inr (save_proposal (p\<lparr>p_status := Some VETOED\<rparr>) s1))"

definition handleProposalQueued :: "(string \<Rightarrow> proposal) \<Rightarrow> int \<Rightarrow> int \<Rightarrow> store \<Rightarrow> store outcome" where
  "handleProposalQueued fresh i eta s =
     (let g = getGovernanceEntity s
      in case getOrCreateProposal fresh (int_to_string i) True False s of Inl err \<Rightarrow> Inl err
      | Inr (p, s1) \<Rightarrow>
          (let s2 = save_proposal (p\<lparr>p_status := Some QUEUED, p_executionETA := Some eta\<rparr>) s1
           in Inr (save_governance (g\<lparr>proposalsQueued := proposalsQueued g + 1\<rparr>) s2)))"

definition handleProposalExecuted :: "(string \<Rightarrow> proposal) \<Rightarrow> int \<Rightarrow> store \<Rightarrow> store outcome" where
  "handleProposalExecuted fresh i s =
     (let g = getGovernanceEntity s
      in case getOrCreateProposal fresh (int_to_string i) True False s of Inl err \<Rightarrow> Inl err
      | Inr (p, s1) \<Rightarrow>
          (let s2 = save_proposal (p\<lparr>p_status := Some EXECUTED, p_executionETA := None\<rparr>) s1
           in Inr (save_governance (g\<lparr>proposalsQueued := proposalsQueued g - 1\<rparr>) s2)))"

section \<open>Votes\<close>

text \<open>Reading a required field.\<close>

definition read_field :: "'a option \<Rightarrow> 'a outcome" where
  "read_field f = (case f of None \<Rightarrow> Inl UnsetField | Some x \<Rightarrow> Inr x)"

definition count_vote :: "vote_cast \<Rightarrow> proposal \<Rightarrow> proposal outcome" where
  "count_vote e p =
     (if vc_support e = 0
      then (case read_field (p_againstVotes p) of Inl err \<Rightarrow> Inl err
            | Inr n \<Rightarrow> Inr (p\<lparr>p_againstVotes := Some (n + vc_votes e)\<rparr>))
      else if vc_support e = 1
      then (case read_field (p_forVotes p) of Inl err \<Rightarrow> Inl err
            | Inr n \<Rightarrow> Inr (p\<lparr>p_forVotes := Some (n + vc_votes e)\<rparr>))
      else if vc_support e = 2
      then (case read_field (p_abstainVotes p) of Inl err \<Rightarrow> Inl err
            | Inr n \<Rightarrow> Inr (p\<lparr>p_abstainVotes := Some (n + vc_votes e)\<rparr>))
      else Inr p)"

definition update_quorum :: "quorum_params \<Rightarrow> proposal \<Rightarrow> proposal outcome" where
  "update_quorum q p =
     (case q_dynamicQuorumStartBlock q of
        None \<Rightarrow> Inr p
      | Some start \<Rightarrow>
     (case read_field (p_createdBlock p) of Inl err \<Rightarrow> Inl err
      | Inr created \<Rightarrow>
          if start < created
          then (case (read_field (p_againstVotes p), read_field (p_totalSupply p), read_field (p_minQuorumVotesBPS p),
                      read_field (p_maxQuorumVotesBPS p), read_field (p_quorumCoefficient p)) of
                  (Inr against, Inr tot, Inr lo, Inr hi, Inr coeff) \<Rightarrow>
                    (case dynamicQuorumVotes against tot lo hi coeff of Inl err \<Rightarrow> Inl err
                     | Inr quorum \<Rightarrow> Inr (p\<lparr>p_quorumVotes := Some quorum\<rparr>))
                | _ \<Rightarrow> Inl UnsetField)
          else Inr p))"

definition handleVoteCast :: "(string \<Rightarrow> proposal) \<Rightarrow> vote_cast \<Rightarrow> store \<Rightarrow> store outcome" where
  "handleVoteCast fresh e s =
     (let voteId = vc_voter e @ ''-'' @ int_to_string (vc_proposalId e)
      in case getOrCreateProposal fresh (int_to_string (vc_proposalId e)) True False s of Inl err \<Rightarrow> Inl err
      | Inr (p, s1) \<Rightarrow>
     (case getOrCreateVote voteId True False s1 of Inl err \<Rightarrow> Inl err
      | Inr (v, s2) \<Rightarrow>
     (let (voter0, s3) = getOrCreateDelegateWithNullOption (vc_voter e) False True s2;
          s4 = (if voter0 = None
                then log_error ''Delegate {} not found on VoteCast. tx_hash: {}'' [vc_voter e, e_hash e] s3
                else s3)
      in case getOrCreateDelegate (vc_voter e) s4 of Inl err \<Rightarrow> Inl err
      | Inr (voter, s5) \<Rightarrow>
     (let v1 = v\<lparr>v_proposal := Some (p_id p), v_voter := Some (dl_id voter),
                 v_votesRaw := Some (vc_votes e), v_votes := Some (vc_votes e),
                 v_support := Some (vc_support e = 1), v_supportDetailed := Some (vc_support e),
                 v_nouns := Some (nounsRepresented voter), v_blockNumber := Some (e_block e)\<rparr>;
          v2 = (if vc_reason e \<noteq> '''' then v1\<lparr>v_reason := Some (vc_reason e)\<rparr> else v1);
          s6 = s5\<lparr>votes := (votes s5)(voteId \<mapsto> v2)\<rparr>
      in case count_vote e p of Inl err \<Rightarrow> Inl err
      | Inr p1 \<Rightarrow>
     (let (q, s7) = getOrCreateDynamicQuorumParams None s6
      in case update_quorum q p1 of Inl err \<Rightarrow> Inl err
      | Inr p2 \<Rightarrow>
     (case read_field (p_status p2) of Inl err \<Rightarrow> Inl err
      | Inr status \<Rightarrow>
          (let p3 = (if status = PENDING then p2\<lparr>p_status := Some ACTIVE\<rparr> else p2)
           in Inr (save_proposal p3 s7))))))))"

section \<open>Quorum parameters\<close>

definition handleMinQuorumVotesBPSSet :: "int \<Rightarrow> int \<Rightarrow> store \<Rightarrow> store" where
  "handleMinQuorumVotesBPSSet block newMin s =
     (let (q, s1) = getOrCreateDynamicQuorumParams (Some block) s
      in save_quorum_params (q\<lparr>q_minQuorumVotesBPS := newMin\<rparr>) s1)"

definition handleMaxQuorumVotesBPSSet :: "int \<Rightarrow> int \<Rightarrow> store \<Rightarrow> store" where
  "handleMaxQuorumVotesBPSSet block newMax s =
     (let (q, s1) = getOrCreateDynamicQuorumParams (Some block) s
      in save_quorum_params (q\<lparr>q_maxQuorumVotesBPS := newMax\<rparr>) s1)"

definition handleQuorumCoefficientSet :: "int \<Rightarrow> int \<Rightarrow> store \<Rightarrow> store" where
  "handleQuorumCoefficientSet block newCoefficient s =
     (let (q, s1) = getOrCreateDynamicQuorumParams (Some block) s
      in save_quorum_params (q\<lparr>q_quorumCoefficient := newCoefficient\<rparr>) s1)"

section \<open>Auctions\<close>

definition handleAuctionCreated :: "auction_created \<Rightarrow> store \<Rightarrow> store" where
  "handleAuctionCreated e s =
     (let nounId = int_to_string (ac_nounId e)
      in case nouns s nounId of
           None \<Rightarrow> log_error ''[handleAuctionCreated] Noun #{} not found. Hash: {}'' [nounId, e_hash e] s
         | Some noun \<Rightarrow>
             s\<lparr>auctions := (auctions s)(nounId \<mapsto>
                 \<lparr>au_noun = nounId, au_amount = 0, au_startTime = ac_startTime e, au_endTime = ac_endTime e,
                  au_bidder = None, au_settled = False\<rparr>)\<rparr>)"

definition handleAuctionBid :: "auction_bid \<Rightarrow> store \<Rightarrow> store outcome" where
  "handleAuctionBid e s =
     (let nounId = int_to_string (ab_nounId e)
      in case getOrCreateAccount (ab_sender e) True True s of Inl err \<Rightarrow> Inl err
      | Inr (bidder, s1) \<Rightarrow>
          (case auctions s1 nounId of
             None \<Rightarrow> Inr (log_error ''[handleAuctionBid] Auction not found for Noun #{}. Hash: {}'' [nounId, e_hash e] s1)
           | Some au \<Rightarrow>
               (let au' = au\<lparr>au_amount := ab_value e, au_bidder := Some (a_id bidder)\<rparr>;
                    s2 = s1\<lparr>auctions := (auctions s1)(nounId \<mapsto> au')\<rparr>
                in Inr (s2\<lparr>bids := (bids s2)(e_hash e \<mapsto>
                     \<lparr>bd_bidder = Some (a_id bidder), bd_amount = au_amount au', bd_noun = au_noun au',
                      bd_txIndex = e_txIndex e, bd_blockNumber = e_block e, bd_blockTimestamp = e_timestamp e,
                      bd_auction = nounId\<rparr>)\<rparr>))))"

definition handleAuctionExtended :: "string \<Rightarrow> int \<Rightarrow> int \<Rightarrow> store \<Rightarrow> store" where
  "handleAuctionExtended hash noun endTime s =
     (let nounId = int_to_string noun
      in case auctions s nounId of
           None \<Rightarrow> log_error ''[handleAuctionExtended] Auction not found for Noun #{}. Hash: {}'' [nounId, hash] s
         | Some au \<Rightarrow> s\<lparr>auctions := (auctions s)(nounId \<mapsto> au\<lparr>au_endTime := endTime\<rparr>)\<rparr>)"

definition handleAuctionSettled :: "string \<Rightarrow> int \<Rightarrow> store \<Rightarrow> store" where
  "handleAuctionSettled hash noun s =
     (let nounId = int_to_string noun
      in case auctions s nounId of
           None \<Rightarrow> log_error ''[handleAuctionSettled] Auction not found for Noun #{}. Hash: {}'' [nounId, hash] s
         | Some au \<Rightarrow> s\<lparr>auctions := (auctions s)(nounId \<mapsto> au\<lparr>au_settled := True\<rparr>)\<rparr>)"

section \<open>The dynamic quorum\<close>

lemma sdiv_nonneg: "0 \<le> (a::int) \<Longrightarrow> 0 < b \<Longrightarrow> a sdiv b = a div b"
  by (simp add: signed_divide_int_def sgn_if)

definition quorum_bps :: "int \<Rightarrow> int \<Rightarrow> int \<Rightarrow> int \<Rightarrow> int \<Rightarrow> int" where
  "quorum_bps against tot lo hi coeff = min hi (coeff * (against * 10000 div tot) div 1000000 + lo)"

text \<open>The parameters the DAO contract can hold: 16-bit quorum bounds, a 32-bit coefficient.\<close>

definition quorum_range :: "int \<Rightarrow> int \<Rightarrow> int \<Rightarrow> bool" where
  "quorum_range lo hi coeff \<longleftrightarrow> 0 \<le> lo \<and> lo < 65536 \<and> 0 \<le> hi \<and> hi < 65536 \<and> 0 \<le> coeff \<and> coeff < 4294967296"

lemma quorum_adjustment_bound:
  fixes tot against coeff :: int
  assumes "0 < tot" "0 \<le> against" "against \<le> tot" "0 \<le> coeff" "coeff < 4294967296"
  shows "0 \<le> coeff * (against * 10000 div tot) div 1000000"
    "coeff * (against * 10000 div tot) div 1000000 \<le> 42949672"
proof -
  let ?b = "against * 10000 div tot"
  have "?b \<le> tot * 10000 div tot" using assms(1-3) by (intro zdiv_mono1) auto
  with assms(1-3) have b: "0 \<le> ?b" "?b \<le> 10000" by (simp_all add: pos_imp_zdiv_nonneg_iff)
  have "0 \<le> coeff * ?b" using assms(4) b(1) by (rule mult_nonneg_nonneg)
  then show "0 \<le> coeff * ?b div 1000000" by (simp only: pos_imp_zdiv_nonneg_iff zero_less_numeral)
  have "coeff * ?b \<le> 4294967295 * 10000" using b assms(4,5) by (intro mult_mono) auto
  then have "coeff * ?b div 1000000 \<le> 42949672950000 div 1000000" by (intro zdiv_mono1) auto
  then show "coeff * ?b div 1000000 \<le> 42949672" by simp
qed

lemma dynamicQuorumVotes_eq:
  assumes "0 < tot" "0 \<le> against" "against \<le> tot" "quorum_range lo hi coeff"
  shows "dynamicQuorumVotes against tot lo hi coeff = Inr (tot * quorum_bps against tot lo hi coeff div 10000)"
    "0 \<le> quorum_bps against tot lo hi coeff" "min lo hi \<le> quorum_bps against tot lo hi coeff"
    "quorum_bps against tot lo hi coeff \<le> hi"
proof -
  have r: "0 \<le> lo" "lo < 65536" "0 \<le> hi" "0 \<le> coeff" "coeff < 4294967296"
    using assms(4) by (auto simp: quorum_range_def)
  note adj = quorum_adjustment_bound [OF assms(1-3) r(4,5)]
  have b: "0 \<le> against * 10000 div tot" using assms by (simp add: pos_imp_zdiv_nonneg_iff)
  show q: "0 \<le> quorum_bps against tot lo hi coeff" "min lo hi \<le> quorum_bps against tot lo hi coeff"
    "quorum_bps against tot lo hi coeff \<le> hi"
    using adj r by (auto simp: quorum_bps_def)
  have "big_div (against * 10000) tot = Inr (against * 10000 div tot)"
    using assms by (simp add: big_div_def sdiv_nonneg)
  moreover have "big_div (coeff * (against * 10000 div tot)) 1000000
      = Inr (coeff * (against * 10000 div tot) div 1000000)"
    using r b by (simp add: big_div_def sdiv_nonneg)
  moreover have "to_i32 (coeff * (against * 10000 div tot) div 1000000 + lo)
      = Inr (coeff * (against * 10000 div tot) div 1000000 + lo)"
    using adj r by (simp add: to_i32_def)
  moreover have "big_div (tot * quorum_bps against tot lo hi coeff) 10000
      = Inr (tot * quorum_bps against tot lo hi coeff div 10000)"
    using q assms(1) by (simp add: big_div_def sdiv_nonneg)
  ultimately show "dynamicQuorumVotes against tot lo hi coeff = Inr (tot * quorum_bps against tot lo hi coeff div 10000)"
    by (simp add: dynamicQuorumVotes_def Let_def quorum_bps_def)
qed

lemma quorum_bps_mono:
  assumes "0 < tot" "against \<le> against'" "0 \<le> coeff"
  shows "quorum_bps against tot lo hi coeff \<le> quorum_bps against' tot lo hi coeff"
proof -
  have "against * 10000 div tot \<le> against' * 10000 div tot"
    using assms by (intro zdiv_mono1) auto
  from mult_left_mono [OF this assms(3)]
  have "coeff * (against * 10000 div tot) div 1000000 \<le> coeff * (against' * 10000 div tot) div 1000000"
    by (rule zdiv_mono1) simp
  then show ?thesis by (simp add: quorum_bps_def min_def)
qed

section \<open>Tallies\<close>

text \<open>The DAO as a driver of events.  The ledger keeps, for each proposal, the votes cast against,
  for and abstaining.\<close>

datatype dao_event =
    CreatedEvt proposal_created
  | CanceledEvt int
  | VetoedEvt int
  | QueuedEvt int int
  | ExecutedEvt int
  | VoteEvt vote_cast
  | MinQuorumEvt int int
  | MaxQuorumEvt int int
  | CoefficientEvt int int

definition dao_handler :: "(string \<Rightarrow> proposal) \<Rightarrow> dao_event \<Rightarrow> store \<Rightarrow> store outcome" where
  "dao_handler fresh ev s =
     (case ev of
        CreatedEvt e \<Rightarrow> handleProposalCreatedWithRequirements fresh e s
      | CanceledEvt i \<Rightarrow> handleProposalCanceled fresh i s
      | VetoedEvt i \<Rightarrow> handleProposalVetoed fresh i s
      | QueuedEvt i eta \<Rightarrow> handleProposalQueued fresh i eta s
      | ExecutedEvt i \<Rightarrow> handleProposalExecuted fresh i s
      | VoteEvt e \<Rightarrow> handleVoteCast fresh e s
      | MinQuorumEvt b v \<Rightarrow> Inr (handleMinQuorumVotesBPSSet b v s)
      | MaxQuorumEvt b v \<Rightarrow> Inr (handleMaxQuorumVotesBPSSet b v s)
      | CoefficientEvt b v \<Rightarrow> Inr (handleQuorumCoefficientSet b v s))"

type_synonym tallies = "string \<rightharpoonup> int \<times> int \<times> int"

definition tally :: "vote_cast \<Rightarrow> int \<times> int \<times> int \<Rightarrow> int \<times> int \<times> int" where
  "tally e t = (fst t + (if vc_support e = 0 then vc_votes e else 0),
                fst (snd t) + (if vc_support e = 1 then vc_votes e else 0),
                snd (snd t) + (if vc_support e = 2 then vc_votes e else 0))"

definition tally_step :: "dao_event \<Rightarrow> tallies \<Rightarrow> tallies" where
  "tally_step ev T =
     (case ev of
        CreatedEvt e \<Rightarrow> T(int_to_string (pc_id e) \<mapsto> (0, 0, 0))
      | VoteEvt e \<Rightarrow> (case T (int_to_string (vc_proposalId e)) of
            None \<Rightarrow> T | Some t \<Rightarrow> T(int_to_string (vc_proposalId e) \<mapsto> tally e t))
      | _ \<Rightarrow> T)"

type_synonym dao_state = "tallies \<times> store"

definition dao_step :: "(string \<Rightarrow> proposal) \<Rightarrow> dao_event \<Rightarrow> dao_state \<Rightarrow> dao_state" where
  "dao_step fresh ev st =
     (tally_step ev (fst st), (case dao_handler fresh ev (snd st) of Inr s' \<Rightarrow> s' | Inl err \<Rightarrow> snd st))"

definition total_votes :: "int \<times> int \<times> int \<Rightarrow> int" where
  "total_votes t = fst t + fst (snd t) + snd (snd t)"

text \<open>What the contract emits: new ids, votes on known proposals that the supply covers, parameters
  in their types' range, and a proposal only when there are tokens.  The generated constructor sets
  the id it is given.\<close>

definition dao_ok :: "(string \<Rightarrow> proposal) \<Rightarrow> dao_state \<Rightarrow> dao_event \<Rightarrow> bool" where
  "dao_ok fresh st ev =
     (case ev of
        CreatedEvt e \<Rightarrow> p_id (fresh (int_to_string (pc_id e))) = int_to_string (pc_id e)
          \<and> fst st (int_to_string (pc_id e)) = None \<and> 0 < totalTokenHolders (getGovernanceEntity (snd st))
      | CanceledEvt i \<Rightarrow> fst st (int_to_string i) \<noteq> None
      | VetoedEvt i \<Rightarrow> fst st (int_to_string i) \<noteq> None
      | QueuedEvt i eta \<Rightarrow> fst st (int_to_string i) \<noteq> None
      | ExecutedEvt i \<Rightarrow> fst st (int_to_string i) \<noteq> None
      | VoteEvt e \<Rightarrow> 0 \<le> vc_votes e \<and>
          (case (fst st (int_to_string (vc_proposalId e)), proposals (snd st) (int_to_string (vc_proposalId e))) of
             (Some t, Some p) \<Rightarrow> total_votes t + vc_votes e \<le> the (p_totalSupply p)
           | _ \<Rightarrow> False)
      | MinQuorumEvt b v \<Rightarrow> 0 \<le> v \<and> v < 65536
      | MaxQuorumEvt b v \<Rightarrow> 0 \<le> v \<and> v < 65536
      | CoefficientEvt b v \<Rightarrow> 0 \<le> v \<and> v < 4294967296)"

text \<open>A stored proposal with its tallies.\<close>

definition proposal_inv :: "string \<Rightarrow> int \<times> int \<times> int \<Rightarrow> proposal \<Rightarrow> bool" where
  "proposal_inv k t p \<longleftrightarrow> p_id p = k
     \<and> p_againstVotes p = Some (fst t) \<and> p_forVotes p = Some (fst (snd t)) \<and> p_abstainVotes p = Some (snd (snd t))
     \<and> 0 \<le> fst t \<and> 0 \<le> fst (snd t) \<and> 0 \<le> snd (snd t)
     \<and> p_createdBlock p \<noteq> None \<and> p_status p \<noteq> None
     \<and> (\<exists>tot lo hi coeff. p_totalSupply p = Some tot \<and> 0 < tot \<and> total_votes t \<le> tot
          \<and> p_minQuorumVotesBPS p = Some lo \<and> p_maxQuorumVotesBPS p = Some hi \<and> p_quorumCoefficient p = Some coeff
          \<and> quorum_range lo hi coeff)"

definition params_inv :: "quorum_params option \<Rightarrow> bool" where
  "params_inv q \<longleftrightarrow> (case q of None \<Rightarrow> True
     | Some q \<Rightarrow> quorum_range (q_minQuorumVotesBPS q) (q_maxQuorumVotesBPS q) (q_quorumCoefficient q))"

definition dao_inv :: "dao_state \<Rightarrow> bool" where
  "dao_inv st \<longleftrightarrow> params_inv (the_quorum_params (snd st))
     \<and> (\<forall>k. case (fst st k, proposals (snd st) k) of
              (None, None) \<Rightarrow> True | (Some t, Some p) \<Rightarrow> proposal_inv k t p | _ \<Rightarrow> False)"

lemma dao_invD:
  "dao_inv (T, s) \<Longrightarrow> T k = Some t \<Longrightarrow> \<exists>p. proposals s k = Some p \<and> proposal_inv k t p"
  "dao_inv (T, s) \<Longrightarrow> T k = None \<Longrightarrow> proposals s k = None"
  unfolding dao_inv_def by (cases t; auto dest!: spec [of _ k] split: option.splits)
    (auto dest!: spec [of _ k] simp: dao_inv_def split: option.splits)

lemma dao_invI:
  assumes "dao_inv (T, s)" "params_inv (the_quorum_params s')"
    and "proposals s' = (proposals s)(k \<mapsto> p)" "T' = T(k \<mapsto> t)" "proposal_inv k t p"
  shows "dao_inv (T', s')"
  using assms by (simp add: dao_inv_def)

lemma getOrCreateDelegate_dao:
  obtains d s' where "getOrCreateDelegate k s = Inr (d, s')" "proposals s' = proposals s"
    "the_quorum_params s' = the_quorum_params s" "votes s' = votes s"
    "totalTokenHolders (getGovernanceEntity s') = totalTokenHolders (getGovernanceEntity s)"
proof -
  obtain d s' where r: "getOrCreateDelegate k s = Inr (d, s')"
    by (rule getOrCreateDelegate_frame [of k s])
  show ?thesis
    by (rule that [OF r], insert r)
       (auto simp: getOrCreateDelegate_def getOrCreateDelegateWithNullOption_def Let_def split: option.splits if_splits)
qed

lemma getOrCreateDynamicQuorumParams_dao:
  assumes "params_inv (the_quorum_params s)"
  obtains q s' where "getOrCreateDynamicQuorumParams b s = (q, s')" "proposals s' = proposals s"
    "the_quorum_params s' = Some q"
    "quorum_range (q_minQuorumVotesBPS q) (q_maxQuorumVotesBPS q) (q_quorumCoefficient q)"
proof -
  obtain q s' where r: "getOrCreateDynamicQuorumParams b s = (q, s')" by (cases "getOrCreateDynamicQuorumParams b s")
  show ?thesis
    by (rule that [OF r], insert r assms)
       (auto simp: getOrCreateDynamicQuorumParams_def Let_def params_inv_def quorum_range_def split: option.splits if_splits)
qed

lemma getOrCreateProposal_known:
  "proposals s k = Some p \<Longrightarrow> getOrCreateProposal fresh k True False s = Inr (p, s)"
  by (simp add: getOrCreateProposal_def)

lemma created_dao_inv:
  assumes inv: "dao_inv (T, s)" and ok: "dao_ok fresh (T, s) (CreatedEvt e)"
  shows "\<exists>s'. handleProposalCreatedWithRequirements fresh e s = Inr s'
    \<and> dao_inv (T(int_to_string (pc_id e) \<mapsto> (0, 0, 0)), s')"
proof -
  let ?k = "int_to_string (pc_id e)"
  have none: "proposals s ?k = None" and pos: "0 < totalTokenHolders (getGovernanceEntity s)"
    and fresh: "p_id (fresh ?k) = ?k"
    using ok dao_invD(2) [OF inv] by (auto simp: dao_ok_def)
  obtain s1 where s1: "getOrCreateProposal fresh ?k True False s = Inr (fresh ?k, s1)" "proposals s1 = proposals s"
    "the_quorum_params s1 = the_quorum_params s"
    "totalTokenHolders (getGovernanceEntity s1) = totalTokenHolders (getGovernanceEntity s)"
    using none by (simp add: getOrCreateProposal_def Let_def)
  obtain d0 where d0: "getOrCreateDelegateWithNullOption (pc_proposer e) False True s1 = (d0, s1)"
    by (cases "delegates s1 (pc_proposer e)") (auto simp: getOrCreateDelegateWithNullOption_def)
  let ?s3 = "if d0 = None then log_error ''Delegate {} not found on ProposalCreated. tx_hash: {}'' [pc_proposer e, e_hash e] s1 else s1"
  obtain d s4 where s4: "getOrCreateDelegate (pc_proposer e) ?s3 = Inr (d, s4)" "proposals s4 = proposals ?s3"
    "the_quorum_params s4 = the_quorum_params ?s3"
    "totalTokenHolders (getGovernanceEntity s4) = totalTokenHolders (getGovernanceEntity ?s3)"
    by (rule getOrCreateDelegate_dao [of "pc_proposer e" ?s3])
  have s4': "proposals s4 = proposals s" "the_quorum_params s4 = the_quorum_params s"
    "totalTokenHolders (getGovernanceEntity s4) = totalTokenHolders (getGovernanceEntity s)"
    using s4(2-4) s1 by auto
  have "params_inv (the_quorum_params s4)" using inv s4' by (simp add: dao_inv_def)
  then obtain q s5 where s5: "getOrCreateDynamicQuorumParams None s4 = (q, s5)" "proposals s5 = proposals s4"
    "the_quorum_params s5 = Some q"
    "quorum_range (q_minQuorumVotesBPS q) (q_maxQuorumVotesBPS q) (q_quorumCoefficient q)"
    by (rule getOrCreateDynamicQuorumParams_dao)
  have "\<exists>s'. handleProposalCreatedWithRequirements fresh e s = Inr s'"
    using s1(1) d0 s4(1) s5(1) by (simp add: handleProposalCreatedWithRequirements_def Let_def)
  then obtain s' where r: "handleProposalCreatedWithRequirements fresh e s = Inr s'" by blast
  have "\<exists>p. save_proposal p s5 = s' \<and> proposal_inv ?k (0, 0, 0) p"
    using r s1(1) d0 s4(1) s5(1,4) s4'(3) pos
    by (simp add: handleProposalCreatedWithRequirements_def Let_def)
       (rule exI, rule conjI, assumption, simp add: proposal_inv_def total_votes_def fresh)
  then obtain p where p: "s' = save_proposal p s5" "proposal_inv ?k (0, 0, 0) p" by blast
  have id: "p_id p = ?k" using p(2) by (simp add: proposal_inv_def)
  have "dao_inv (T(?k \<mapsto> (0, 0, 0)), s')"
    by (rule dao_invI [OF inv, of s' ?k p _ "(0, 0, 0)"])
       (use p s5 s4' id in \<open>auto simp: params_inv_def save_proposal_def\<close>)
  with r show ?thesis by blast
qed

lemma status_dao_inv:
  assumes "dao_inv (T, s)" "T k = Some t" "proposals s k = Some p" "p' = p\<lparr>p_status := Some st, p_executionETA := eta\<rparr>"
    and "proposals s' = (proposals s)(k \<mapsto> p')" "the_quorum_params s' = the_quorum_params s"
  shows "dao_inv (T, s')"
proof -
  have "proposal_inv k t p" using dao_invD(1) [OF assms(1,2)] assms(3) by simp
  then have "proposal_inv k t p'" by (simp add: assms(4) proposal_inv_def)
  then show ?thesis
    using assms by (intro dao_invI [of T s s' k p' T t]) (auto simp: dao_inv_def)
qed

text \<open>A vote does not trap, and adds up.\<close>

lemma count_vote_inv:
  assumes "proposal_inv k t p" "0 \<le> vc_votes e" "total_votes t + vc_votes e \<le> the (p_totalSupply p)"
  shows "\<exists>p'. count_vote e p = Inr p' \<and> proposal_inv k (tally e t) p'"
  using assms
  by (auto simp: proposal_inv_def count_vote_def read_field_def tally_def total_votes_def)

lemma update_quorum_inv:
  assumes inv: "proposal_inv k t p"
  shows "\<exists>p'. update_quorum q p = Inr p' \<and> proposal_inv k t p'
    \<and> p' = p\<lparr>p_quorumVotes := p_quorumVotes p'\<rparr>"
proof -
  obtain tot lo hi coeff c where p: "p_totalSupply p = Some tot" "0 < tot" "total_votes t \<le> tot"
    "p_minQuorumVotesBPS p = Some lo" "p_maxQuorumVotesBPS p = Some hi" "p_quorumCoefficient p = Some coeff"
    "quorum_range lo hi coeff" "p_createdBlock p = Some c" "p_againstVotes p = Some (fst t)"
    "0 \<le> fst t" "0 \<le> fst (snd t)" "0 \<le> snd (snd t)"
    using inv by (auto simp: proposal_inv_def)
  have "fst t \<le> tot" using p by (simp add: total_votes_def)
  from dynamicQuorumVotes_eq(1) [OF p(2,10) this p(7)] p inv show ?thesis
    by (auto simp: update_quorum_def read_field_def proposal_inv_def split: option.split)
qed

lemma vote_dao_inv:
  assumes inv: "dao_inv (T, s)" and ok: "dao_ok fresh (T, s) (VoteEvt e)"
  shows "\<exists>s'. handleVoteCast fresh e s = Inr s' \<and> dao_inv (tally_step (VoteEvt e) T, s')"
proof -
  let ?k = "int_to_string (vc_proposalId e)" and ?vid = "vc_voter e @ ''-'' @ int_to_string (vc_proposalId e)"
  obtain t p where t: "T ?k = Some t" "proposals s ?k = Some p" "0 \<le> vc_votes e"
    "total_votes t + vc_votes e \<le> the (p_totalSupply p)"
    using ok by (auto simp: dao_ok_def split: option.splits)
  have p: "proposal_inv ?k t p" using dao_invD(1) [OF inv t(1)] t(2) by simp
  obtain p1 where p1: "count_vote e p = Inr p1" "proposal_inv ?k (tally e t) p1"
    using count_vote_inv [OF p t(3,4)] by blast
  obtain v where v: "getOrCreateVote ?vid True False s = Inr (v, s)"
    by (cases "votes s ?vid") (auto simp: getOrCreateVote_def)
  obtain d0 where d0: "getOrCreateDelegateWithNullOption (vc_voter e) False True s = (d0, s)"
    by (cases "delegates s (vc_voter e)") (auto simp: getOrCreateDelegateWithNullOption_def)
  let ?s4 = "if d0 = None then log_error ''Delegate {} not found on VoteCast. tx_hash: {}'' [vc_voter e, e_hash e] s else s"
  obtain d s5 where s5: "getOrCreateDelegate (vc_voter e) ?s4 = Inr (d, s5)" "proposals s5 = proposals ?s4"
    "the_quorum_params s5 = the_quorum_params ?s4"
    by (rule getOrCreateDelegate_dao [of "vc_voter e" ?s4])
  define v1 where "v1 = v\<lparr>v_proposal := Some (p_id p), v_voter := Some (dl_id d),
                 v_votesRaw := Some (vc_votes e), v_votes := Some (vc_votes e),
                 v_support := Some (vc_support e = 1), v_supportDetailed := Some (vc_support e),
                 v_nouns := Some (nounsRepresented d), v_blockNumber := Some (e_block e)\<rparr>"
  define s6 where "s6 = s5\<lparr>votes := (votes s5)(?vid \<mapsto> (if vc_reason e \<noteq> '''' then v1\<lparr>v_reason := Some (vc_reason e)\<rparr> else v1))\<rparr>"
  have s6: "proposals s6 = proposals s" "the_quorum_params s6 = the_quorum_params s"
    using s5 by (auto simp: s6_def)
  have "params_inv (the_quorum_params s6)" using inv s6 by (simp add: dao_inv_def)
  then obtain q s7 where s7: "getOrCreateDynamicQuorumParams None s6 = (q, s7)" "proposals s7 = proposals s6"
    "the_quorum_params s7 = Some q"
    "quorum_range (q_minQuorumVotesBPS q) (q_maxQuorumVotesBPS q) (q_quorumCoefficient q)"
    by (rule getOrCreateDynamicQuorumParams_dao)
  obtain p2 where p2: "update_quorum q p1 = Inr p2" "proposal_inv ?k (tally e t) p2"
    using update_quorum_inv [OF p1(2)] by blast
  then obtain status where st: "p_status p2 = Some status" by (auto simp: proposal_inv_def)
  let ?p3 = "if status = PENDING then p2\<lparr>p_status := Some ACTIVE\<rparr> else p2"
  have p3: "proposal_inv ?k (tally e t) ?p3" using p2(2) by (simp add: proposal_inv_def)
  have r: "handleVoteCast fresh e s = Inr (save_proposal ?p3 s7)"
    using getOrCreateProposal_known [OF t(2)] v d0 s5(1) p1(1) s7(1) [unfolded s6_def v1_def] p2(1) st
    by (simp add: handleVoteCast_def Let_def read_field_def)
  moreover have "dao_inv (T(?k \<mapsto> tally e t), save_proposal ?p3 s7)"
    by (rule dao_invI [OF inv _ _ _ p3])
       (use s7 s6 p3 in \<open>auto simp: params_inv_def save_proposal_def proposal_inv_def\<close>)
  ultimately show ?thesis using t(1) by (auto simp: tally_step_def)
qed

lemma params_dao_inv:
  assumes "dao_inv (T, s)" "proposals s' = proposals s" "params_inv (the_quorum_params s')"
  shows "dao_inv (T, s')"
  using assms by (simp add: dao_inv_def)

lemma dao_step_inv:
  assumes inv: "dao_inv st" and ok: "dao_ok fresh st ev"
  shows "dao_inv (dao_step fresh ev st) \<and> (\<exists>s'. dao_handler fresh ev (snd st) = Inr s')"
proof -
  obtain T s where st: "st = (T, s)" by (cases st)
  have known: "\<exists>t p. T k = Some t \<and> proposals s k = Some p \<and> p_id p = k" if "T k \<noteq> None" for k
    using that dao_invD(1) [of T s k] inv st by (auto simp: proposal_inv_def)
  have pars: "params_inv (the_quorum_params s)" using inv st by (simp add: dao_inv_def)
  show ?thesis
  proof (cases ev)
    case (CreatedEvt e)
    with created_dao_inv [OF inv [unfolded st], of fresh e] ok st show ?thesis
      by (auto simp: dao_step_def dao_handler_def tally_step_def)
  next
    case (VoteEvt e)
    have "\<exists>s'. handleVoteCast fresh e s = Inr s' \<and> dao_inv (tally_step (VoteEvt e) T, s')"
      by (rule vote_dao_inv) (use inv ok st VoteEvt in simp_all)
    with VoteEvt st show ?thesis by (auto simp: dao_step_def dao_handler_def)
  next
    case (CanceledEvt i)
    with ok st have "T (int_to_string i) \<noteq> None" by (simp add: dao_ok_def)
    from known [OF this] obtain t p where "T (int_to_string i) = Some t" "proposals s (int_to_string i) = Some p"
      "p_id p = int_to_string i" by blast
    with CanceledEvt st inv show ?thesis
      by (auto simp: dao_step_def dao_handler_def tally_step_def handleProposalCanceled_def getOrCreateProposal_known
          save_proposal_def intro!: status_dao_inv [of T s "int_to_string i" t p _ "p_executionETA p" CANCELLED])
  next
    case (VetoedEvt i)
    with ok st have "T (int_to_string i) \<noteq> None" by (simp add: dao_ok_def)
    from known [OF this] obtain t p where "T (int_to_string i) = Some t" "proposals s (int_to_string i) = Some p"
      "p_id p = int_to_string i" by blast
    with VetoedEvt st inv show ?thesis
      by (auto simp: dao_step_def dao_handler_def tally_step_def handleProposalVetoed_def getOrCreateProposal_known
          save_proposal_def intro!: status_dao_inv [of T s "int_to_string i" t p _ "p_executionETA p" VETOED])
  next
    case (QueuedEvt i eta)
    with ok st have "T (int_to_string i) \<noteq> None" by (simp add: dao_ok_def)
    from known [OF this] obtain t p where "T (int_to_string i) = Some t" "proposals s (int_to_string i) = Some p"
      "p_id p = int_to_string i" by blast
    with QueuedEvt st inv show ?thesis
      by (auto simp: dao_step_def dao_handler_def tally_step_def handleProposalQueued_def getOrCreateProposal_known Let_def
          save_proposal_def save_governance_def intro!: status_dao_inv [of T s "int_to_string i" t p _ "Some eta" QUEUED])
  next
    case (ExecutedEvt i)
    with ok st have "T (int_to_string i) \<noteq> None" by (simp add: dao_ok_def)
    from known [OF this] obtain t p where "T (int_to_string i) = Some t" "proposals s (int_to_string i) = Some p"
      "p_id p = int_to_string i" by blast
    with ExecutedEvt st inv show ?thesis
      by (auto simp: dao_step_def dao_handler_def tally_step_def handleProposalExecuted_def getOrCreateProposal_known Let_def
          save_proposal_def save_governance_def intro!: status_dao_inv [of T s "int_to_string i" t p _ None EXECUTED])
  next
    case (MinQuorumEvt b v)
    obtain q s' where "getOrCreateDynamicQuorumParams (Some b) s = (q, s')" "proposals s' = proposals s"
      "the_quorum_params s' = Some q"
      "quorum_range (q_minQuorumVotesBPS q) (q_maxQuorumVotesBPS q) (q_quorumCoefficient q)"
      using pars by (rule getOrCreateDynamicQuorumParams_dao)
    with MinQuorumEvt st inv ok show ?thesis
      by (auto simp: dao_step_def dao_handler_def tally_step_def handleMinQuorumVotesBPSSet_def dao_ok_def
          params_inv_def quorum_range_def intro!: params_dao_inv [of T s])
  next
    case (MaxQuorumEvt b v)
    obtain q s' where "getOrCreateDynamicQuorumParams (Some b) s = (q, s')" "proposals s' = proposals s"
      "the_quorum_params s' = Some q"
      "quorum_range (q_minQuorumVotesBPS q) (q_maxQuorumVotesBPS q) (q_quorumCoefficient q)"
      using pars by (rule getOrCreateDynamicQuorumParams_dao)
    with MaxQuorumEvt st inv ok show ?thesis
      by (auto simp: dao_step_def dao_handler_def tally_step_def handleMaxQuorumVotesBPSSet_def dao_ok_def
          params_inv_def quorum_range_def intro!: params_dao_inv [of T s])
  next
    case (CoefficientEvt b v)
    obtain q s' where "getOrCreateDynamicQuorumParams (Some b) s = (q, s')" "proposals s' = proposals s"
      "the_quorum_params s' = Some q"
      "quorum_range (q_minQuorumVotesBPS q) (q_maxQuorumVotesBPS q) (q_quorumCoefficient q)"
      using pars by (rule getOrCreateDynamicQuorumParams_dao)
    with CoefficientEvt st inv ok show ?thesis
      by (auto simp: dao_step_def dao_handler_def tally_step_def handleQuorumCoefficientSet_def dao_ok_def
          params_inv_def quorum_range_def intro!: params_dao_inv [of T s])
  qed
qed

interpretation dao: event_driven "dao_step fresh" "dao_ok fresh" dao_inv for fresh
  by unfold_locales (blast dest: dao_step_inv)

lemma dao_inv_empty: "the_quorum_params s = None \<Longrightarrow> proposals s = Map.empty \<Longrightarrow> dao_inv (Map.empty, s)"
  by (simp add: dao_inv_def params_inv_def)

section \<open>Properties\<close>

definition demo_evt :: "vote_cast" where
  "demo_evt = \<lparr>e_hash = ''0xaa'', e_txIndex = 0, e_block = 9, e_timestamp = 9,
     vc_voter = ''0xa'', vc_proposalId = 1, vc_support = 0, vc_votes = 2, vc_reason = ''''\<rparr>"

definition demo_created :: proposal_created where
  "demo_created = \<lparr>e_hash = ''0xab'', e_txIndex = 0, e_block = 8, e_timestamp = 8, pc_id = 1,
     pc_proposer = ''0xa'', pc_targets = [''0xf''], pc_values = [0], pc_signatures = [''f()''], pc_calldatas = [''0x''],
     pc_startBlock = 9, pc_endBlock = 20, pc_proposalThreshold = 1, pc_quorumVotes = 1, pc_description = ''d''\<rparr>"

definition blank_proposal :: "string \<Rightarrow> proposal" where
  "blank_proposal k = \<lparr>p_id = k, p_proposer = None, p_targets = None, p_values = None, p_signatures = None,
     p_calldatas = None, p_createdTimestamp = None, p_createdBlock = None, p_createdTransactionHash = None,
     p_startBlock = None, p_endBlock = None, p_proposalThreshold = None, p_quorumVotes = None, p_forVotes = None,
     p_againstVotes = None, p_abstainVotes = None, p_description = None, p_status = None, p_executionETA = None,
     p_totalSupply = None, p_minQuorumVotesBPS = None, p_maxQuorumVotesBPS = None, p_quorumCoefficient = None\<rparr>"

definition demo_start :: store where
  "demo_start = empty_store\<lparr>the_governance := Some (new_governance\<lparr>totalTokenHolders := 10\<rparr>)\<rparr>"

definition demo_dao :: "dao_event list" where
  "demo_dao = [MinQuorumEvt 5 1000, MaxQuorumEvt 6 4000, CoefficientEvt 7 1000000, CreatedEvt demo_created, VoteEvt demo_evt]"

lemma demo_dao_ok: "admissible (dao_ok blank_proposal) (dao_step blank_proposal) demo_dao (Map.empty, demo_start)"
  by code_simp

text \<open>C15. Over every history the DAO contract can emit, no handler traps, and the votes for, against
  and abstaining stored with each proposal are the sums of the votes cast on it.\<close>

theorem proposal_tallies:
  assumes "the_quorum_params s0 = None" "proposals s0 = Map.empty"
    and "admissible (dao_ok fresh) (dao_step fresh) evs (Map.empty, s0)"
    and "fold (dao_step fresh) evs (Map.empty, s0) = (T, s)"
  shows "(\<forall>k. map_option (\<lambda>p. (p_againstVotes p, p_forVotes p, p_abstainVotes p)) (proposals s k)
              = map_option (\<lambda>t. (Some (fst t), Some (fst (snd t)), Some (snd (snd t)))) (T k))
    \<and> (\<forall>ev. dao_ok fresh (T, s) ev \<longrightarrow> (\<exists>s'. dao_handler fresh ev s = Inr s'))"
proof -
  have inv: "dao_inv (T, s)"
    using dao.run_inv [OF dao_inv_empty [OF assms(1,2)] assms(3)] assms(4) by simp
  have "map_option (\<lambda>p. (p_againstVotes p, p_forVotes p, p_abstainVotes p)) (proposals s k)
              = map_option (\<lambda>t. (Some (fst t), Some (fst (snd t)), Some (snd (snd t)))) (T k)" for k
    using dao_invD [OF inv, of k] by (cases "T k") (auto simp: proposal_inv_def)
  with dao_step_inv [OF inv] show ?thesis by fastforce
qed

theorem proposal_tallies_witness:
  "map_option (\<lambda>p. (p_againstVotes p, p_forVotes p, p_abstainVotes p))
      (proposals (snd (fold (dao_step blank_proposal) demo_dao (Map.empty, demo_start))) ''1'')
    = map_option (\<lambda>t. (Some (fst t), Some (fst (snd t)), Some (snd (snd t))))
        (fst (fold (dao_step blank_proposal) demo_dao (Map.empty, demo_start)) ''1'')"
  using proposal_tallies [OF _ _ demo_dao_ok, of
      "fst (fold (dao_step blank_proposal) demo_dao (Map.empty, demo_start))"
      "snd (fold (dao_step blank_proposal) demo_dao (Map.empty, demo_start))"]
  by (simp add: demo_start_def empty_store_def)

text \<open>C16. For any supply and any parameters the contract can hold, the dynamic quorum is computed
  without a trap, lies between the minimum and the maximum share of the supply, and does not fall
  when more votes are cast against.\<close>

theorem quorum_bounds:
  assumes "0 < tot" "0 \<le> against" "against \<le> against'" "against' \<le> tot" "quorum_range lo hi coeff" "lo \<le> hi"
  shows "\<exists>q q'. dynamicQuorumVotes against tot lo hi coeff = Inr q
    \<and> dynamicQuorumVotes against' tot lo hi coeff = Inr q'
    \<and> tot * lo div 10000 \<le> q \<and> q \<le> q' \<and> q' \<le> tot * hi div 10000"
proof -
  let ?b = "quorum_bps against tot lo hi coeff" and ?b' = "quorum_bps against' tot lo hi coeff"
  have r: "0 \<le> coeff" using assms(5) by (simp add: quorum_range_def)
  have a: "against \<le> tot" "0 \<le> against'" using assms by auto
  note e = dynamicQuorumVotes_eq [OF assms(1,2) a(1) assms(5)] and e' = dynamicQuorumVotes_eq [OF assms(1) a(2) assms(4,5)]
  have "lo \<le> ?b" using e(3) assms(6) by simp
  moreover have "?b \<le> ?b'" using assms(1,3) r by (rule quorum_bps_mono)
  moreover have "?b' \<le> hi" by (rule e'(4))
  ultimately have "tot * lo \<le> tot * ?b" "tot * ?b \<le> tot * ?b'" "tot * ?b' \<le> tot * hi"
    using assms(1) by (auto intro: mult_left_mono)
  then have "tot * lo div 10000 \<le> tot * ?b div 10000" "tot * ?b div 10000 \<le> tot * ?b' div 10000"
    "tot * ?b' div 10000 \<le> tot * hi div 10000" by (auto intro: zdiv_mono1)
  with e(1) e'(1) show ?thesis by blast
qed

theorem quorum_bounds_witness:
  "\<exists>q q'. dynamicQuorumVotes 3 200 1000 4000 1000000 = Inr q
    \<and> dynamicQuorumVotes 30 200 1000 4000 1000000 = Inr q'
    \<and> 200 * 1000 div 10000 \<le> q \<and> q \<le> q' \<and> q' \<le> 200 * 4000 div (10000 :: int)"
  by (rule quorum_bounds) (simp_all add: quorum_range_def)

text \<open>Canceling or vetoing a queued proposal leaves \<open>proposalsQueued\<close> as it was, although one
  proposal fewer is queued; only execution counts it down.\<close>

theorem canceled_proposal_stays_counted:
  assumes "proposals s (int_to_string i) = Some p" "p_id p = int_to_string i" "p_status p = Some QUEUED"
  shows "\<exists>s1 s2. handleProposalCanceled fresh i s = Inr s1 \<and> handleProposalVetoed fresh i s = Inr s2
    \<and> map_option p_status (proposals s1 (int_to_string i)) = Some (Some CANCELLED)
    \<and> map_option p_status (proposals s2 (int_to_string i)) = Some (Some VETOED)
    \<and> proposalsQueued (getGovernanceEntity s1) = proposalsQueued (getGovernanceEntity s)
    \<and> proposalsQueued (getGovernanceEntity s2) = proposalsQueued (getGovernanceEntity s)
    \<and> (\<forall>s3. handleProposalExecuted fresh i s = Inr s3
          \<longrightarrow> proposalsQueued (getGovernanceEntity s3) = proposalsQueued (getGovernanceEntity s) - 1)"
  using assms
  by (auto simp: handleProposalCanceled_def handleProposalVetoed_def handleProposalExecuted_def
      getOrCreateProposal_known save_proposal_def Let_def getGovernanceEntity_def save_governance_def)

theorem canceled_proposal_stays_counted_witness:
  "\<exists>s1 s2. handleProposalCanceled blank_proposal 1
        (empty_store\<lparr>proposals := [''1'' \<mapsto> (blank_proposal ''1'')\<lparr>p_status := Some QUEUED\<rparr>]\<rparr>) = Inr s1
    \<and> handleProposalVetoed blank_proposal 1
        (empty_store\<lparr>proposals := [''1'' \<mapsto> (blank_proposal ''1'')\<lparr>p_status := Some QUEUED\<rparr>]\<rparr>) = Inr s2
    \<and> proposalsQueued (getGovernanceEntity s1) = 0"
proof -
  have n: "int_to_string 1 = ''1''" by code_simp
  show ?thesis
    using canceled_proposal_stays_counted [of
        "empty_store\<lparr>proposals := [''1'' \<mapsto> (blank_proposal ''1'')\<lparr>p_status := Some QUEUED\<rparr>]\<rparr>" 1
        "(blank_proposal ''1'')\<lparr>p_status := Some QUEUED\<rparr>" blank_proposal]
    by (auto simp: n blank_proposal_def empty_store_def getGovernanceEntity_def new_governance_def)
qed

text \<open>The auction of a noun holds the last bid and its bidder, but the entity of a bid is named
  by its transaction: of two bids of one transaction only the later one is kept.\<close>

theorem bids_of_one_transaction:
  assumes "auctions s (int_to_string (ab_nounId e1)) = Some au"
    and "e_hash e2 = e_hash e1" "ab_nounId e2 = ab_nounId e1"
  shows "\<exists>s1 s2. handleAuctionBid e1 s = Inr s1 \<and> handleAuctionBid e2 s1 = Inr s2
    \<and> map_option au_amount (auctions s2 (int_to_string (ab_nounId e1))) = Some (ab_value e2)
    \<and> bids s1 = (bids s)(e_hash e1 \<mapsto> the (bids s1 (e_hash e1)))
    \<and> bids s2 = (bids s)(e_hash e1 \<mapsto> the (bids s2 (e_hash e1)))
    \<and> map_option bd_amount (bids s2 (e_hash e1)) = Some (ab_value e2)"
  using assms by (auto simp: handleAuctionBid_def getOrCreateAccount_default Let_def)

theorem bids_of_one_transaction_witness:
  "\<exists>s1 s2. handleAuctionBid
      \<lparr>e_hash = ''0x1'', e_txIndex = 0, e_block = 1, e_timestamp = 1, ab_nounId = 1, ab_sender = ''0xa'', ab_value = 5\<rparr>
      (empty_store\<lparr>auctions := [int_to_string 1 \<mapsto> \<lparr>au_noun = ''1'', au_amount = 0, au_startTime = 0, au_endTime = 1,
        au_bidder = None, au_settled = False\<rparr>]\<rparr>) = Inr s1
    \<and> handleAuctionBid
      \<lparr>e_hash = ''0x1'', e_txIndex = 0, e_block = 1, e_timestamp = 1, ab_nounId = 1, ab_sender = ''0xb'', ab_value = 6\<rparr> s1 = Inr s2
    \<and> map_option bd_amount (bids s2 ''0x1'') = Some 6"
  using bids_of_one_transaction [of
      "empty_store\<lparr>auctions := [int_to_string 1 \<mapsto> \<lparr>au_noun = ''1'', au_amount = 0, au_startTime = 0, au_endTime = 1,
        au_bidder = None, au_settled = False\<rparr>]\<rparr>"
      "\<lparr>e_hash = ''0x1'', e_txIndex = 0, e_block = 1, e_timestamp = 1, ab_nounId = 1, ab_sender = ''0xa'', ab_value = 5\<rparr>" _
      "\<lparr>e_hash = ''0x1'', e_txIndex = 0, e_block = 1, e_timestamp = 1, ab_nounId = 1, ab_sender = ''0xb'', ab_value = 6\<rparr>"]
  by auto

end
