(* ===== verification/Web_Dao.thy ===== *)
theory Web_Dao imports Js_Objects begin

text \<open>
  The web application's view of the DAO, \<open>wrappers/nounsDao.ts\<close>: titles and descriptions of
  proposals, their transactions, and the state shown for a proposal of the subgraph, which is compared
  with the state of the contract, \<open>NounsDAOLogicV2.state\<close>.  What the contract and the subgraph return
  are arguments (\<open>contract_call\<close>, the entity); \<open>defaultAbiCoder.decode\<close> and \<open>formatEther\<close> are parameters.
  The decimal strings of the subgraph are the integers they denote.
\<close>

section \<open>Data\<close>

datatype proposal_state =
    UNDETERMINED | PENDING | ACTIVE | CANCELLED | DEFEATED | SUCCEEDED | QUEUED | EXPIRED | EXECUTED | VETOED

text \<open>\<open>ProposalState[name]\<close>.\<close>

definition state_of_name :: "string \<Rightarrow> proposal_state option" where
  "state_of_name name = map_of
     [(''UNDETERMINED'', UNDETERMINED), (''PENDING'', PENDING), (''ACTIVE'', ACTIVE), (''CANCELLED'', CANCELLED),
      (''DEFEATED'', DEFEATED), (''SUCCEEDED'', SUCCEEDED), (''QUEUED'', QUEUED), (''EXPIRED'', EXPIRED),
      (''EXECUTED'', EXECUTED), (''VETOED'', VETOED)] name"

record proposal_details =
  td_targets :: "string list"
  td_values :: "int list"
  td_signatures :: "string list"
  td_calldatas :: "string list"

record proposal_detail =
  pd_target :: string
  pd_value :: "string option"
  pd_functionSig :: string
  pd_callData :: string

record proposal_entity =
  pe_id :: string
  pe_description :: "string option"
  pe_status :: string
  pe_forVotes :: int
  pe_againstVotes :: int
  pe_abstainVotes :: int
  pe_createdBlock :: int
  pe_createdTransactionHash :: string
  pe_startBlock :: int
  pe_endBlock :: int
  pe_executionETA :: "int option"
  pe_proposer :: string
  pe_proposalThreshold :: int
  pe_quorumVotes :: int
  pe_details :: proposal_details

text \<open>A shown proposal; a number that can be \<open>NaN\<close> is an option, \<open>eta\<close> is in seconds.\<close>

record shown_proposal =
  sp_id :: "string option"
  sp_title :: string
  sp_description :: string
  sp_status :: "proposal_state option"
  sp_forCount :: int
  sp_againstCount :: int
  sp_abstainCount :: int
  sp_createdBlock :: "int option"
  sp_startBlock :: "int option"
  sp_endBlock :: "int option"
  sp_eta :: "int option"
  sp_proposer :: "string option"
  sp_proposalThreshold :: int
  sp_quorumVotes :: int
  sp_details :: "proposal_detail list option"
  sp_transactionHash :: "string option"

record proposal_data =
  dt_data :: "shown_proposal list"
  dt_error :: bool
  dt_loading :: bool

section \<open>Titles\<close>

text \<open>\<open>/^\s*#{1,6}\s+([^\n]+)/\<close>: the captured group.  The white space behind the hashes is taken as far as a
  character that is not a line feed can still follow.\<close>

definition extractHashTitle :: "string \<Rightarrow> string option" where
  "extractHashTitle body =
     (let s = dropWhile is_space body;
          k = length (takeWhile (\<lambda>c. c = CHR ''#'') s);
          r = drop k s;
          w = length (takeWhile is_space r)
      in if 1 \<le> k \<and> k \<le> 6
         then map_option (\<lambda>j. line_of (drop j r))
                (find (\<lambda>j. j < length r \<and> r ! j \<noteq> newline) (rev [1..<Suc w]))
         else None)"

text \<open>\<open>/^\s*([^\n]+)\n(={3,25}|-{3,25})/\<close>.\<close>

definition underlined :: "string \<Rightarrow> bool" where
  "underlined s =
     (let l = line_of s; r = drop (length l) s
      in l \<noteq> [] \<and> r \<noteq> [] \<and> (take 3 (tl r) = ''==='' \<or> take 3 (tl r) = ''---''))"

definition extractEqualTitle :: "string \<Rightarrow> string option" where
  "extractEqualTitle body =
     map_option (\<lambda>j. line_of (drop j body))
       (find (\<lambda>j. underlined (drop j body)) (rev [0..<Suc (length (takeWhile is_space body))]))"

definition extractTitle :: "string option \<Rightarrow> string option" where
  "extractTitle body =
     (case body of
        None \<Rightarrow> None
      | Some b \<Rightarrow>
          if b = '''' then None
          else (case extractHashTitle b of Some t \<Rightarrow> Some t | None \<Rightarrow> extractEqualTitle b))"

text \<open>\<open>text.replace(/cc/g, '')\<close>.\<close>

fun remove_pairs :: "char \<Rightarrow> string \<Rightarrow> string" where
  "remove_pairs c (x # y # s) = (if x = c \<and> y = c then remove_pairs c s else x # remove_pairs c (y # s))"
| "remove_pairs c s = s"

definition removeBold :: "string option \<Rightarrow> string option" where
  "removeBold t = map_option (remove_pairs (CHR ''*'')) t"

definition removeItalics :: "string option \<Rightarrow> string option" where
  "removeItalics t = map_option (remove_pairs (CHR ''_'')) t"

definition removeMarkdownStyle :: "string option \<Rightarrow> string option" where
  "removeMarkdownStyle t = removeBold (removeItalics t)"

definition shown_title :: "string option \<Rightarrow> string" where
  "shown_title description =
     (case removeMarkdownStyle (extractTitle description) of Some t \<Rightarrow> t | None \<Rightarrow> ''Untitled'')"

text \<open>\<open>replace(/\\n/g, '\n')\<close>: a backslash and an n become a line feed.\<close>

fun unescape_lines :: "string \<Rightarrow> string" where
  "unescape_lines (x # y # s) =
     (if x = CHR 0x5C \<and> y = CHR ''n'' then newline # unescape_lines s else x # unescape_lines (y # s))"
| "unescape_lines s = s"

definition is_quote :: "char \<Rightarrow> bool" where
  "is_quote c = (c = CHR 0x27 \<or> c = CHR 0x22)"

definition strip_quotes :: "string \<Rightarrow> string" where
  "strip_quotes s =
     (let t = (if s \<noteq> [] \<and> is_quote (hd s) then tl s else s)
      in if t \<noteq> [] \<and> is_quote (last t) then butlast t else t)"

section \<open>Transactions\<close>

definition before_paren :: "string \<Rightarrow> string" where
  "before_paren s = takeWhile (\<lambda>c. c \<noteq> CHR ''('') s"

text \<open>\<open>s.split('(')\<close>: its first two parts, the second \<open>undefined\<close> without a parenthesis.\<close>

definition split_paren :: "string \<Rightarrow> string \<times> string option" where
  "split_paren s =
     (let name = before_paren s; r = drop (length name) s
      in (name, if r = [] then None else Some (before_paren (tl r))))"

fun split_commas :: "string \<Rightarrow> string list" where
  "split_commas [] = [[]]"
| "split_commas (c # s) =
     (if c = CHR '','' then [] # split_commas s
      else (case split_commas s of [] \<Rightarrow> [[c]] | w # ws \<Rightarrow> (c # w) # ws))"

definition join_commas :: "string list \<Rightarrow> string" where
  "join_commas ss = (case ss of [] \<Rightarrow> '''' | s # rest \<Rightarrow> s @ concat (map (\<lambda>t. '','' @ t) rest))"

record coder =
  abi_decode :: "string list \<Rightarrow> string \<Rightarrow> string list option"
  formatEther :: "int \<Rightarrow> string"

definition nth_or_none :: "nat \<Rightarrow> 'a list \<Rightarrow> 'a option" where
  "nth_or_none i xs = (if i < length xs then Some (xs ! i) else None)"

text \<open>One transaction; a missing signature or a call that does not decode throws.\<close>

definition format_transaction :: "coder \<Rightarrow> proposal_details \<Rightarrow> nat \<Rightarrow> string \<Rightarrow> proposal_detail option" where
  "format_transaction co details i target =
     (case nth_or_none i (td_signatures details) of
        None \<Rightarrow> None
      | Some signature \<Rightarrow>
          (let value = (case nth_or_none i (td_values details) of Some v \<Rightarrow> v | None \<Rightarrow> 0);
               (name, types) = split_paren (take (length signature - 1) signature)
           in if name = '''' \<or> types = None \<or> types = Some ''''
              then Some \<lparr>pd_target = target, pd_value = None,
                         pd_functionSig = (if name = '''' then ''transfer'' else name),
                         pd_callData = (if truthy_string types then the types else formatEther co value @ '' ETH'')\<rparr>
              else (case nth_or_none i (td_calldatas details) of
                      None \<Rightarrow> None
                    | Some calldata \<Rightarrow>
                        map_option (\<lambda>decoded.
                            \<lparr>pd_target = target,
                             pd_value = Some (if value > 0 then ''{ value: '' @ formatEther co value @ '' ETH }'' else ''''),
                             pd_functionSig = name, pd_callData = join_commas decoded\<rparr>)
                          (abi_decode co (split_commas (the types)) calldata))))"

fun format_all :: "coder \<Rightarrow> proposal_details \<Rightarrow> nat \<Rightarrow> string list \<Rightarrow> proposal_detail list option" where
  "format_all co details i [] = Some []"
| "format_all co details i (t # ts) =
     (case format_transaction co details i t of
        None \<Rightarrow> None
      | Some d \<Rightarrow> map_option (\<lambda>ds. d # ds) (format_all co details (Suc i) ts))"

definition formatProposalTransactionDetails :: "coder \<Rightarrow> proposal_details \<Rightarrow> proposal_detail list option" where
  "formatProposalTransactionDetails co details = format_all co details 0 (td_targets details)"

section \<open>States\<close>

definition GRACE_PERIOD :: int where "GRACE_PERIOD = 14 * 60 * 60 * 24"

definition block_known :: "int option \<Rightarrow> bool" where
  "block_known b = (b \<noteq> None \<and> b \<noteq> Some 0)"

text \<open>The timestamp in seconds.\<close>

definition getProposalState :: "int option \<Rightarrow> int option \<Rightarrow> proposal_entity \<Rightarrow> proposal_state option" where
  "getProposalState blockNumber blockTimestamp proposal =
     (let status = state_of_name (pe_status proposal)
      in if status = Some PENDING
         then (if \<not> block_known blockNumber then Some UNDETERMINED
               else if the blockNumber \<le> pe_startBlock proposal then Some PENDING
               else Some ACTIVE)
         else if status = Some ACTIVE
         then (if \<not> block_known blockNumber then Some UNDETERMINED
               else if the blockNumber > pe_endBlock proposal
                    \<and> (pe_forVotes proposal \<le> pe_againstVotes proposal
                       \<or> pe_forVotes proposal < pe_quorumVotes proposal) then Some DEFEATED
               else if the blockNumber > pe_endBlock proposal \<and> pe_executionETA proposal = None then Some SUCCEEDED
               else status)
         else if status = Some QUEUED
         then (case (blockTimestamp, pe_executionETA proposal) of
                 (Some now, Some eta) \<Rightarrow> if now \<ge> eta + GRACE_PERIOD then Some EXPIRED else status
               | _ \<Rightarrow> Some UNDETERMINED)
         else status)"

text \<open>The contract: what \<open>state\<close> reads of a stored proposal; \<open>cp_quorum\<close> is \<open>quorumVotes(id)\<close>.\<close>

record contract_proposal =
  cp_startBlock :: int
  cp_endBlock :: int
  cp_forVotes :: int
  cp_againstVotes :: int
  cp_quorum :: int
  cp_eta :: int
  cp_canceled :: bool
  cp_vetoed :: bool
  cp_executed :: bool

definition contract_state :: "int \<Rightarrow> int \<Rightarrow> contract_proposal \<Rightarrow> proposal_state" where
  "contract_state block now p =
     (if cp_vetoed p then VETOED
      else if cp_canceled p then CANCELLED
      else if block \<le> cp_startBlock p then PENDING
      else if block \<le> cp_endBlock p then ACTIVE
      else if cp_forVotes p \<le> cp_againstVotes p \<or> cp_forVotes p < cp_quorum p then DEFEATED
      else if cp_eta p = 0 then SUCCEEDED
      else if cp_executed p then EXECUTED
      else if now \<ge> cp_eta p + GRACE_PERIOD then EXPIRED
      else QUEUED)"

section \<open>Hooks over contract calls\<close>

text \<open>\<open>useContractCall\<close>: address, method and arguments to the results, \<open>None\<close> while there are none.
  \<open>toNumber\<close> is the number itself (it throws beyond \<open>2 ^ 53\<close>, which no result here reaches).\<close>

type_synonym contract_call = "string \<Rightarrow> string \<Rightarrow> js_value list \<Rightarrow> js_value list option"

definition first_result :: "js_value list option \<Rightarrow> js_value" where
  "first_result r = (case r of Some (v # _) \<Rightarrow> v | _ \<Rightarrow> Undefined)"

definition useCurrentQuorum :: "contract_call \<Rightarrow> string \<Rightarrow> int \<Rightarrow> bool \<Rightarrow> int option" where
  "useCurrentQuorum call nounsDao proposalId skip =
     (if skip then None else as_int (first_result (call nounsDao ''quorumVotes'' [Num proposalId])))"

definition useDynamicQuorumProps :: "contract_call \<Rightarrow> string \<Rightarrow> int \<Rightarrow> js_value" where
  "useDynamicQuorumProps call nounsDao block = first_result (call nounsDao ''getDynamicQuorumParamsAt'' [Num block])"

definition receipt_args :: "string option \<Rightarrow> string option \<Rightarrow> js_value list" where
  "receipt_args proposalId account =
     [case proposalId of Some i \<Rightarrow> Str i | None \<Rightarrow> Undefined, case account of Some a \<Rightarrow> Str a | None \<Rightarrow> Undefined]"

definition useHasVotedOnProposal ::
    "contract_call \<Rightarrow> string \<Rightarrow> string option \<Rightarrow> string option \<Rightarrow> bool" where
  "useHasVotedOnProposal call dao account proposalId =
     (case member (first_result (call dao ''getReceipt'' (receipt_args proposalId account))) ''hasVoted'' of
        Bool b \<Rightarrow> b | _ \<Rightarrow> False)"

definition useProposalVote :: "contract_call \<Rightarrow> string \<Rightarrow> string option \<Rightarrow> string option \<Rightarrow> string" where
  "useProposalVote call dao account proposalId =
     (let voteStatus = member (first_result (call dao ''getReceipt'' (receipt_args proposalId account))) ''support''
      in if voteStatus = Num 0 then ''Against'' else if voteStatus = Num 1 then ''For''
         else if voteStatus = Num 2 then ''Abstain'' else '''')"

definition useProposalCount :: "contract_call \<Rightarrow> string \<Rightarrow> int option" where
  "useProposalCount call dao = as_int (first_result (call dao ''proposalCount'' []))"

definition useProposalThreshold :: "contract_call \<Rightarrow> string \<Rightarrow> int option" where
  "useProposalThreshold call dao = as_int (first_result (call dao ''proposalThreshold'' []))"

definition useVotingDelay :: "contract_call \<Rightarrow> string \<Rightarrow> int option" where
  "useVotingDelay call nounsDao = as_int (first_result (call nounsDao ''votingDelay'' []))"

definition countToIndices :: "int option \<Rightarrow> int list list" where
  "countToIndices count = (case count of Some n \<Rightarrow> map (\<lambda>i. [i + 1]) [0..n - 1] | None \<Rightarrow> [])"

section \<open>All proposals\<close>

definition parse_entity :: "coder \<Rightarrow> int option \<Rightarrow> int option \<Rightarrow> proposal_entity \<Rightarrow> shown_proposal option" where
  "parse_entity co blockNumber timestamp p =
     (let description = map_option (\<lambda>d. strip_quotes (unescape_lines d)) (pe_description p)
      in map_option (\<lambda>details.
          \<lparr>sp_id = Some (pe_id p), sp_title = shown_title description,
           sp_description = (case description of Some d \<Rightarrow> d | None \<Rightarrow> ''No description.''),
           sp_status = getProposalState blockNumber (Some (case timestamp of Some t \<Rightarrow> t | None \<Rightarrow> 0)) p,
           sp_forCount = pe_forVotes p, sp_againstCount = pe_againstVotes p, sp_abstainCount = pe_abstainVotes p,
           sp_createdBlock = Some (pe_createdBlock p), sp_startBlock = Some (pe_startBlock p),
           sp_endBlock = Some (pe_endBlock p), sp_eta = pe_executionETA p, sp_proposer = Some (pe_proposer p),
           sp_proposalThreshold = pe_proposalThreshold p, sp_quorumVotes = pe_quorumVotes p,
           sp_details = Some details, sp_transactionHash = Some (pe_createdTransactionHash p)\<rparr>)
        (formatProposalTransactionDetails co (pe_details p)))"

text \<open>A list of results, \<open>None\<close> when one of them throws.\<close>

fun results :: "'a option list \<Rightarrow> 'a list option" where
  "results [] = Some []"
| "results (x # xs) = (case x of None \<Rightarrow> None | Some v \<Rightarrow> map_option (\<lambda>vs. v # vs) (results xs))"

definition useAllProposalsViaSubgraph ::
    "coder \<Rightarrow> int option \<Rightarrow> int option \<Rightarrow> bool \<Rightarrow> bool \<Rightarrow> proposal_entity list option \<Rightarrow> proposal_data option" where
  "useAllProposalsViaSubgraph co blockNumber timestamp loading err entities =
     (case entities of
        None \<Rightarrow> Some \<lparr>dt_data = [], dt_error = err, dt_loading = loading\<rparr>
      | Some es \<Rightarrow> map_option (\<lambda>ps. \<lparr>dt_data = ps, dt_error = err, dt_loading = loading\<rparr>)
                     (results (map (parse_entity co blockNumber timestamp) es)))"

text \<open>The chain: a proposal as \<open>proposals(id)\<close> returns it and a formatted log of its creation.\<close>

record call_result =
  cr_id :: int
  cr_forVotes :: int
  cr_againstVotes :: int
  cr_abstainVotes :: int
  cr_startBlock :: int
  cr_endBlock :: int
  cr_eta :: int
  cr_proposer :: string
  cr_proposalThreshold :: int
  cr_quorumVotes :: int

record created_log =
  cl_description :: string
  cl_transactionHash :: string
  cl_details :: "proposal_detail list"

definition useFormattedProposalCreatedLogs ::
    "coder \<Rightarrow> (string \<times> string \<times> proposal_details) list option \<Rightarrow> created_log list option option" where
  "useFormattedProposalCreatedLogs co logs =
     (case logs of
        None \<Rightarrow> Some None
      | Some ls \<Rightarrow> map_option Some (results (map (\<lambda>(description, hash, details).
          map_option (\<lambda>ds. \<lparr>cl_description = description, cl_transactionHash = hash, cl_details = ds\<rparr>)
            (formatProposalTransactionDetails co details)) ls)))"

definition parse_result ::
    "int option \<Rightarrow> call_result option \<Rightarrow> proposal_state option \<Rightarrow> created_log option \<Rightarrow> shown_proposal" where
  "parse_result votingDelay proposal state lg =
     (let description = map_option (\<lambda>l. unescape_lines (cl_description l)) lg;
          count = (\<lambda>f. case proposal of Some p \<Rightarrow> f p | None \<Rightarrow> 0)
      in \<lparr>sp_id = map_option (\<lambda>p. int_to_string (cr_id p)) proposal, sp_title = shown_title description,
          sp_description = (case description of Some d \<Rightarrow> d | None \<Rightarrow> ''No description.''),
          sp_status = Some (case state of Some s \<Rightarrow> s | None \<Rightarrow> UNDETERMINED),
          sp_forCount = count cr_forVotes, sp_againstCount = count cr_againstVotes,
          sp_abstainCount = count cr_abstainVotes,
          sp_createdBlock = map_option (\<lambda>p. cr_startBlock p - (case votingDelay of Some d \<Rightarrow> d | None \<Rightarrow> 0)) proposal,
          sp_startBlock = map_option cr_startBlock proposal, sp_endBlock = map_option cr_endBlock proposal,
          sp_eta = map_option cr_eta proposal, sp_proposer = map_option cr_proposer proposal,
          sp_proposalThreshold = count cr_proposalThreshold, sp_quorumVotes = count cr_quorumVotes,
          sp_details = map_option cl_details lg, sp_transactionHash = map_option cl_transactionHash lg\<rparr>)"

definition useAllProposalsViaChain ::
    "int option \<Rightarrow> call_result option list \<Rightarrow> proposal_state option list \<Rightarrow> created_log list option \<Rightarrow> proposal_data" where
  "useAllProposalsViaChain votingDelay proposals states formattedLogs =
     (let logs = (case formattedLogs of Some ls \<Rightarrow> ls | None \<Rightarrow> [])
      in if proposals \<noteq> [] \<and> logs = [] then \<lparr>dt_data = [], dt_error = False, dt_loading = True\<rparr>
         else \<lparr>dt_data = map (\<lambda>i. parse_result votingDelay (proposals ! i)
                  (case nth_or_none i states of Some s \<Rightarrow> s | None \<Rightarrow> None) (nth_or_none i logs)) [0..<length proposals],
               dt_error = False, dt_loading = False\<rparr>)"

definition useAllProposals :: "proposal_data \<Rightarrow> proposal_data \<Rightarrow> proposal_data" where
  "useAllProposals subgraph onchain = (if dt_error subgraph then onchain else subgraph)"

definition useProposal :: "proposal_data \<Rightarrow> string \<Rightarrow> shown_proposal option" where
  "useProposal d i = find (\<lambda>p. sp_id p = Some i) (dt_data d)"

lemma state_of_name [simp]:
  "state_of_name ''PENDING'' = Some PENDING" "state_of_name ''ACTIVE'' = Some ACTIVE"
  "state_of_name ''QUEUED'' = Some QUEUED" "state_of_name ''EXECUTED'' = Some EXECUTED"
  "state_of_name ''VETOED'' = Some VETOED" "state_of_name ''CANCELLED'' = Some CANCELLED"
  by (simp_all add: state_of_name_def)

end
