(* ===== verification/Dao_Lifecycle.thy ===== *)
theory Dao_Lifecycle imports Graph_Dao Web_Dao begin

text \<open>
  The life of one proposal through three parts of the system: the contract \<open>NounsDAOLogicV2\<close>, whose
  events the handlers of the subgraph store, and the site, which shows the state it computes from the
  stored entity.  \<open>lifecycle\<close> is the transition system of the three; its invariant gives what the site
  shows in every reachable state.
\<close>

section \<open>The contract's operations on a proposal\<close>

definition new_proposal :: "int \<Rightarrow> int \<Rightarrow> int \<Rightarrow> contract_proposal" where
  "new_proposal startBlock endBlock quorum =
     \<lparr>cp_startBlock = startBlock, cp_endBlock = endBlock, cp_forVotes = 0, cp_againstVotes = 0, cp_quorum = quorum,
      cp_eta = 0, cp_canceled = False, cp_vetoed = False, cp_executed = False\<rparr>"

text \<open>\<open>castVoteInternal\<close> and \<open>queue\<close>, \<open>execute\<close>, \<open>cancel\<close>, \<open>veto\<close>: \<open>None\<close> where they revert on the state of the
  proposal.  The quorum after a vote is given.\<close>

definition contract_vote :: "int \<Rightarrow> int \<Rightarrow> int \<Rightarrow> int \<Rightarrow> int \<Rightarrow> contract_proposal \<Rightarrow> contract_proposal option" where
  "contract_vote block now support weight quorum c =
     (if contract_state block now c = proposal_state.ACTIVE \<and> support \<le> 2
      then Some (if support = 0 then c\<lparr>cp_againstVotes := cp_againstVotes c + weight, cp_quorum := quorum\<rparr>
                 else if support = 1 then c\<lparr>cp_forVotes := cp_forVotes c + weight, cp_quorum := quorum\<rparr>
                 else c\<lparr>cp_quorum := quorum\<rparr>)
      else None)"

definition contract_queue :: "int \<Rightarrow> int \<Rightarrow> int \<Rightarrow> contract_proposal \<Rightarrow> contract_proposal option" where
  "contract_queue block now delay c =
     (if contract_state block now c = proposal_state.SUCCEEDED then Some (c\<lparr>cp_eta := now + delay\<rparr>) else None)"

definition contract_execute :: "int \<Rightarrow> int \<Rightarrow> contract_proposal \<Rightarrow> contract_proposal option" where
  "contract_execute block now c =
     (if contract_state block now c = proposal_state.QUEUED then Some (c\<lparr>cp_executed := True\<rparr>) else None)"

definition contract_cancel :: "int \<Rightarrow> int \<Rightarrow> contract_proposal \<Rightarrow> contract_proposal option" where
  "contract_cancel block now c =
     (if contract_state block now c = proposal_state.EXECUTED then None else Some (c\<lparr>cp_canceled := True\<rparr>))"

definition contract_veto :: "int \<Rightarrow> int \<Rightarrow> contract_proposal \<Rightarrow> contract_proposal option" where
  "contract_veto block now c =
     (if contract_state block now c = proposal_state.EXECUTED then None else Some (c\<lparr>cp_vetoed := True\<rparr>))"

section \<open>Contract and store together\<close>

text \<open>The entity the site queries, from the stored row (the fields are required by the schema).\<close>

definition status_name :: "proposal_status \<Rightarrow> string" where
  "status_name st =
     (case st of proposal_status.PENDING \<Rightarrow> ''PENDING'' | proposal_status.ACTIVE \<Rightarrow> ''ACTIVE''
      | proposal_status.CANCELLED \<Rightarrow> ''CANCELLED'' | proposal_status.VETOED \<Rightarrow> ''VETOED''
      | proposal_status.QUEUED \<Rightarrow> ''QUEUED'' | proposal_status.EXECUTED \<Rightarrow> ''EXECUTED'')"

definition proposal_response :: "proposal \<Rightarrow> proposal_entity" where
  "proposal_response p =
     \<lparr>pe_id = p_id p, pe_description = p_description p, pe_status = status_name (the (p_status p)),
      pe_forVotes = the (p_forVotes p), pe_againstVotes = the (p_againstVotes p),
      pe_abstainVotes = the (p_abstainVotes p), pe_createdBlock = the (p_createdBlock p),
      pe_createdTransactionHash = the (p_createdTransactionHash p), pe_startBlock = the (p_startBlock p),
      pe_endBlock = the (p_endBlock p), pe_executionETA = p_executionETA p, pe_proposer = the (p_proposer p),
      pe_proposalThreshold = the (p_proposalThreshold p), pe_quorumVotes = the (p_quorumVotes p),
      pe_details = \<lparr>td_targets = the (p_targets p), td_values = the (p_values p), td_signatures = the (p_signatures p),
                    td_calldatas = the (p_calldatas p)\<rparr>\<rparr>"

text \<open>The runs: block and time move on; each operation of the contract is followed by the handler of its event;
  handlers of other events leave the row alone.  The quorum of the contract after a vote is the one the handler
  stores.\<close>

inductive lifecycle :: "(string \<Rightarrow> proposal) \<Rightarrow> int \<Rightarrow> int \<Rightarrow> int \<Rightarrow> contract_proposal \<Rightarrow> store \<Rightarrow> bool"
  for fresh :: "string \<Rightarrow> proposal" and i :: int where
  created: "lifecycle fresh i (e_block e) now (new_proposal (pc_startBlock e) (pc_endBlock e) (pc_quorumVotes e)) s'"
    if "handleProposalCreatedWithRequirements fresh e s = Inr s'" "pc_id e = i" "proposals s (int_to_string i) = None"
      "p_id (fresh (int_to_string i)) = int_to_string i" "p_executionETA (fresh (int_to_string i)) = None"
      "0 < e_block e" "0 < now" "e_block e < pc_startBlock e" "pc_startBlock e \<le> pc_endBlock e"
| later: "lifecycle fresh i block' now' c s"
    if "lifecycle fresh i block now c s" "block \<le> block'" "now \<le> now'"
| other: "lifecycle fresh i block now c s'"
    if "lifecycle fresh i block now c s" "proposals s' (int_to_string i) = proposals s (int_to_string i)"
| vote: "lifecycle fresh i block now c' s'"
    if "lifecycle fresh i block now c s" "contract_vote block now (vc_support e) (vc_votes e) quorum c = Some c'"
      "handleVoteCast fresh e s = Inr s'" "vc_proposalId e = i" "0 \<le> vc_support e"
      "map_option p_quorumVotes (proposals s' (int_to_string i)) = Some (Some quorum)"
| queued: "lifecycle fresh i block now c' s'"
    if "lifecycle fresh i block now c s" "contract_queue block now delay c = Some c'" "0 \<le> delay"
      "handleProposalQueued fresh i (cp_eta c') s = Inr s'"
| executed: "lifecycle fresh i block now c' s'"
    if "lifecycle fresh i block now c s" "contract_execute block now c = Some c'"
      "handleProposalExecuted fresh i s = Inr s'"
| canceled: "lifecycle fresh i block now c' s'"
    if "lifecycle fresh i block now c s" "contract_cancel block now c = Some c'"
      "handleProposalCanceled fresh i s = Inr s'"
| vetoed: "lifecycle fresh i block now c' s'"
    if "lifecycle fresh i block now c s" "contract_veto block now c = Some c'"
      "handleProposalVetoed fresh i s = Inr s'"

inductive_cases lifecycleE: "lifecycle fresh i block now c s"

section \<open>What the handlers do to the row\<close>

lemma created_row:
  assumes "handleProposalCreatedWithRequirements fresh e s = Inr s'" "proposals s (int_to_string (pc_id e)) = None"
    and "p_id (fresh (int_to_string (pc_id e))) = int_to_string (pc_id e)"
  obtains p where "proposals s' (int_to_string (pc_id e)) = Some p"
    "p_id p = int_to_string (pc_id e)" "p_startBlock p = Some (pc_startBlock e)" "p_endBlock p = Some (pc_endBlock e)"
    "p_forVotes p = Some 0" "p_againstVotes p = Some 0" "p_quorumVotes p = Some (pc_quorumVotes e)"
    "p_status p = Some (if e_block e \<ge> pc_startBlock e then proposal_status.ACTIVE else proposal_status.PENDING)"
    "p_executionETA p = p_executionETA (fresh (int_to_string (pc_id e)))"
  using assms
  by (auto simp: handleProposalCreatedWithRequirements_def getOrCreateProposal_def Let_def save_proposal_def
      split: sum.splits prod.splits)

lemma status_row:
  assumes "proposals s (int_to_string i) = Some p" "p_id p = int_to_string i"
  shows "handleProposalCanceled fresh i s = Inr s' \<Longrightarrow>
      proposals s' (int_to_string i) = Some (p\<lparr>p_status := Some proposal_status.CANCELLED\<rparr>)"
    and "handleProposalVetoed fresh i s = Inr s' \<Longrightarrow>
      proposals s' (int_to_string i) = Some (p\<lparr>p_status := Some proposal_status.VETOED\<rparr>)"
    and "handleProposalQueued fresh i eta s = Inr s' \<Longrightarrow>
      proposals s' (int_to_string i) = Some (p\<lparr>p_status := Some proposal_status.QUEUED, p_executionETA := Some eta\<rparr>)"
    and "handleProposalExecuted fresh i s = Inr s' \<Longrightarrow>
      proposals s' (int_to_string i) = Some (p\<lparr>p_status := Some proposal_status.EXECUTED, p_executionETA := None\<rparr>)"
  using assms
  by (auto simp: handleProposalCanceled_def handleProposalVetoed_def handleProposalQueued_def handleProposalExecuted_def
      getOrCreateProposal_known Let_def save_proposal_def save_governance_def)

lemma count_vote_row:
  assumes "count_vote e p = Inr p1" "p_forVotes p = Some f" "p_againstVotes p = Some a"
  shows "p_id p1 = p_id p \<and> p_status p1 = p_status p \<and> p_startBlock p1 = p_startBlock p \<and> p_endBlock p1 = p_endBlock p
    \<and> p_executionETA p1 = p_executionETA p
    \<and> p_forVotes p1 = Some (if vc_support e = 1 then f + vc_votes e else f)
    \<and> p_againstVotes p1 = Some (if vc_support e = 0 then a + vc_votes e else a)"
  using assms by (auto simp: count_vote_def read_field_def split: if_splits option.splits)

lemma update_quorum_row:
  assumes "update_quorum q p = Inr p1"
  shows "\<exists>v. p1 = p\<lparr>p_quorumVotes := v\<rparr>"
proof -
  have "p1 = p \<or> (\<exists>v. p1 = p\<lparr>p_quorumVotes := Some v\<rparr>)"
    using assms by (auto simp: update_quorum_def split: option.splits sum.splits if_splits)
  moreover have "p = p\<lparr>p_quorumVotes := p_quorumVotes p\<rparr>" by simp
  ultimately show ?thesis by metis
qed

lemma vote_row:
  assumes "handleVoteCast fresh e s = Inr s'" "proposals s (int_to_string (vc_proposalId e)) = Some p"
    and "p_id p = int_to_string (vc_proposalId e)" "p_forVotes p = Some f" "p_againstVotes p = Some a"
  obtains p' where "proposals s' (int_to_string (vc_proposalId e)) = Some p'"
    "p_id p' = p_id p" "p_startBlock p' = p_startBlock p" "p_endBlock p' = p_endBlock p"
    "p_executionETA p' = p_executionETA p"
    "p_forVotes p' = Some (if vc_support e = 1 then f + vc_votes e else f)"
    "p_againstVotes p' = Some (if vc_support e = 0 then a + vc_votes e else a)"
    "p_status p' = (if p_status p = Some proposal_status.PENDING then Some proposal_status.ACTIVE else p_status p)"
proof -
  from assms(1,2) obtain p1 p2 q st s7 where r: "count_vote e p = Inr p1" "update_quorum q p1 = Inr p2"
    "p_status p2 = Some st"
    "s' = save_proposal (if st = proposal_status.PENDING then p2\<lparr>p_status := Some proposal_status.ACTIVE\<rparr> else p2) s7"
    by (auto simp: handleVoteCast_def getOrCreateProposal_known Let_def read_field_def
        split: sum.splits prod.splits option.splits)
  obtain v where "p2 = p1\<lparr>p_quorumVotes := v\<rparr>" using update_quorum_row [OF r(2)] by blast
  with count_vote_row [OF r(1) assms(4,5)] r(3) assms(3) show ?thesis
    by (intro that [of "if st = proposal_status.PENDING then p2\<lparr>p_status := Some proposal_status.ACTIVE\<rparr> else p2"])
      (auto simp: r(4) save_proposal_def)
qed

section \<open>The invariant\<close>

definition has_passed :: "int \<Rightarrow> contract_proposal \<Rightarrow> bool" where
  "has_passed block c \<longleftrightarrow>
     cp_startBlock c < block \<and> cp_endBlock c < block \<and> cp_againstVotes c < cp_forVotes c \<and> cp_quorum c \<le> cp_forVotes c"

definition untouched :: "contract_proposal \<Rightarrow> bool" where
  "untouched c \<longleftrightarrow> \<not> cp_vetoed c \<and> \<not> cp_canceled c"

text \<open>What each stored status says about the contract.\<close>

definition status_agrees :: "int \<Rightarrow> contract_proposal \<Rightarrow> int option \<Rightarrow> proposal_status \<Rightarrow> bool" where
  "status_agrees block c eta st =
     (case st of
        proposal_status.VETOED \<Rightarrow> cp_vetoed c
      | proposal_status.CANCELLED \<Rightarrow> cp_canceled c
      | proposal_status.EXECUTED \<Rightarrow> untouched c \<and> cp_executed c \<and> cp_eta c \<noteq> 0 \<and> has_passed block c
      | proposal_status.QUEUED \<Rightarrow>
          untouched c \<and> \<not> cp_executed c \<and> cp_eta c \<noteq> 0 \<and> eta = Some (cp_eta c) \<and> has_passed block c
      | proposal_status.ACTIVE \<Rightarrow>
          untouched c \<and> \<not> cp_executed c \<and> cp_eta c = 0 \<and> eta = None \<and> cp_startBlock c < block
      | proposal_status.PENDING \<Rightarrow>
          untouched c \<and> \<not> cp_executed c \<and> cp_eta c = 0 \<and> eta = None \<and> cp_forVotes c = 0 \<and> cp_againstVotes c = 0)"

definition row_agrees :: "int \<Rightarrow> contract_proposal \<Rightarrow> proposal \<Rightarrow> bool" where
  "row_agrees block c p \<longleftrightarrow>
     p_startBlock p = Some (cp_startBlock c) \<and> p_endBlock p = Some (cp_endBlock c)
     \<and> p_forVotes p = Some (cp_forVotes c) \<and> p_againstVotes p = Some (cp_againstVotes c)
     \<and> p_quorumVotes p = Some (cp_quorum c)
     \<and> (case p_status p of Some st \<Rightarrow> status_agrees block c (p_executionETA p) st | None \<Rightarrow> False)"

definition system_inv :: "int \<Rightarrow> int \<Rightarrow> int \<Rightarrow> contract_proposal \<Rightarrow> store \<Rightarrow> bool" where
  "system_inv i block now c s \<longleftrightarrow>
     0 < block \<and> 0 < now \<and> cp_startBlock c \<le> cp_endBlock c
     \<and> (\<exists>p. proposals s (int_to_string i) = Some p \<and> p_id p = int_to_string i \<and> row_agrees block c p)"

lemmas agree_defs = row_agrees_def status_agrees_def has_passed_def untouched_def

lemma system_invE:
  assumes "system_inv i block now c s"
  obtains p where "proposals s (int_to_string i) = Some p" "p_id p = int_to_string i" "row_agrees block c p"
    "0 < block" "0 < now" "cp_startBlock c \<le> cp_endBlock c"
  using assms by (auto simp: system_inv_def)

lemma row_agrees_later: "row_agrees block c p \<Longrightarrow> block \<le> block' \<Longrightarrow> row_agrees block' c p"
  by (auto simp: agree_defs split: option.splits proposal_status.splits)

lemma contract_state_cases:
  "contract_state block now c = proposal_state.ACTIVE \<longleftrightarrow>
     untouched c \<and> cp_startBlock c < block \<and> block \<le> cp_endBlock c"
  "contract_state block now c = proposal_state.SUCCEEDED \<longleftrightarrow> untouched c \<and> has_passed block c \<and> cp_eta c = 0"
  "contract_state block now c = proposal_state.QUEUED \<longleftrightarrow>
     untouched c \<and> has_passed block c \<and> cp_eta c \<noteq> 0 \<and> \<not> cp_executed c \<and> now < cp_eta c + GRACE_PERIOD"
  by (auto simp: contract_state_def untouched_def has_passed_def)

text \<open>In an open state nothing has happened to the proposal yet but votes.\<close>

lemma open_status:
  assumes "row_agrees block c p" "untouched c" "block \<le> cp_endBlock c \<or> cp_eta c = 0" "cp_startBlock c < block"
  shows "(p_status p = Some proposal_status.PENDING \<or> p_status p = Some proposal_status.ACTIVE)
    \<and> \<not> cp_executed c \<and> cp_eta c = 0 \<and> p_executionETA p = None \<or> cp_vetoed c \<or> cp_canceled c"
  using assms by (auto simp: agree_defs split: option.splits proposal_status.splits)

lemma lifecycle_inv: "lifecycle fresh i block now c s \<Longrightarrow> system_inv i block now c s"
proof (induction rule: lifecycle.induct)
  case (created e s s' now)
  obtain p where "proposals s' (int_to_string i) = Some p" "p_id p = int_to_string i"
    "p_startBlock p = Some (pc_startBlock e)" "p_endBlock p = Some (pc_endBlock e)"
    "p_forVotes p = Some 0" "p_againstVotes p = Some 0" "p_quorumVotes p = Some (pc_quorumVotes e)"
    "p_status p = Some (if e_block e \<ge> pc_startBlock e then proposal_status.ACTIVE else proposal_status.PENDING)"
    "p_executionETA p = p_executionETA (fresh (int_to_string i))"
    using created_row [OF created(1), unfolded created(2), OF created(3,4)] by blast
  with created(5-9) show ?case
    by (simp add: system_inv_def row_agrees_def status_agrees_def untouched_def new_proposal_def)
next
  case (later block now c s block' now')
  then show ?case by (auto simp: system_inv_def dest: row_agrees_later)
next
  case (other block now c s s')
  then show ?case by (auto simp: system_inv_def)
next
  case (vote block now c s e quorum c' s')
  obtain p where p: "proposals s (int_to_string i) = Some p" "p_id p = int_to_string i" "row_agrees block c p"
    "0 < block" "0 < now" "cp_startBlock c \<le> cp_endBlock c" by (rule system_invE [OF vote.IH])
  have st: "untouched c" "cp_startBlock c < block" "block \<le> cp_endBlock c" "vc_support e \<le> 2"
    using vote(2) by (auto simp: contract_vote_def contract_state_cases split: if_splits)
  obtain p' where p': "proposals s' (int_to_string i) = Some p'" "p_id p' = p_id p" "p_startBlock p' = p_startBlock p"
    "p_endBlock p' = p_endBlock p" "p_executionETA p' = p_executionETA p"
    "p_forVotes p' = Some (if vc_support e = 1 then cp_forVotes c + vc_votes e else cp_forVotes c)"
    "p_againstVotes p' = Some (if vc_support e = 0 then cp_againstVotes c + vc_votes e else cp_againstVotes c)"
    "p_status p' = (if p_status p = Some proposal_status.PENDING then Some proposal_status.ACTIVE else p_status p)"
    using vote_row [OF vote(3), unfolded vote(4), OF p(1,2)] p(3) by (auto simp: row_agrees_def)
  have "p_quorumVotes p' = Some quorum" using vote(6) p'(1) by simp
  moreover have "p_status p' = Some proposal_status.ACTIVE" "\<not> cp_executed c" "cp_eta c = 0" "p_executionETA p = None"
    using open_status [OF p(3) st(1) _ st(2)] st(1,3) p'(8) by (auto simp: untouched_def)
  ultimately show ?case
    using vote(2) p p' st by (auto simp: system_inv_def row_agrees_def status_agrees_def untouched_def contract_vote_def
        split: if_splits)
next
  case (queued block now c s delay c' s')
  obtain p where p: "proposals s (int_to_string i) = Some p" "p_id p = int_to_string i" "row_agrees block c p"
    "0 < block" "0 < now" "cp_startBlock c \<le> cp_endBlock c" by (rule system_invE [OF queued.IH])
  have st: "untouched c" "has_passed block c" "cp_eta c = 0" "c' = c\<lparr>cp_eta := now + delay\<rparr>"
    using queued(2) by (auto simp: contract_queue_def contract_state_cases split: if_splits)
  have "\<not> cp_executed c" using open_status [OF p(3) st(1)] st by (auto simp: has_passed_def untouched_def)
  with status_row(3) [OF p(1,2) queued(4)] p st queued(3) show ?case
    by (auto simp: system_inv_def row_agrees_def status_agrees_def untouched_def has_passed_def)
next
  case (executed block now c s c' s')
  obtain p where p: "proposals s (int_to_string i) = Some p" "p_id p = int_to_string i" "row_agrees block c p"
    "0 < block" "0 < now" "cp_startBlock c \<le> cp_endBlock c" by (rule system_invE [OF executed.IH])
  have st: "untouched c" "has_passed block c" "cp_eta c \<noteq> 0" "c' = c\<lparr>cp_executed := True\<rparr>"
    using executed(2) by (auto simp: contract_execute_def contract_state_cases split: if_splits)
  with status_row(4) [OF p(1,2) executed(3)] p show ?case
    by (auto simp: system_inv_def row_agrees_def status_agrees_def untouched_def has_passed_def)
next
  case (canceled block now c s c' s')
  obtain p where p: "proposals s (int_to_string i) = Some p" "p_id p = int_to_string i" "row_agrees block c p"
    "0 < block" "0 < now" "cp_startBlock c \<le> cp_endBlock c" by (rule system_invE [OF canceled.IH])
  have "c' = c\<lparr>cp_canceled := True\<rparr>" using canceled(2) by (auto simp: contract_cancel_def split: if_splits)
  with status_row(1) [OF p(1,2) canceled(3)] p show ?case
    by (auto simp: system_inv_def row_agrees_def status_agrees_def)
next
  case (vetoed block now c s c' s')
  obtain p where p: "proposals s (int_to_string i) = Some p" "p_id p = int_to_string i" "row_agrees block c p"
    "0 < block" "0 < now" "cp_startBlock c \<le> cp_endBlock c" by (rule system_invE [OF vetoed.IH])
  have "c' = c\<lparr>cp_vetoed := True\<rparr>" using vetoed(2) by (auto simp: contract_veto_def split: if_splits)
  with status_row(2) [OF p(1,2) vetoed(3)] p show ?case
    by (auto simp: system_inv_def row_agrees_def status_agrees_def)
qed

section \<open>What the site shows\<close>

definition shown_state :: "int \<Rightarrow> int \<Rightarrow> proposal \<Rightarrow> proposal_state option" where
  "shown_state block now p = getProposalState (Some block) (Some now) (proposal_response p)"

lemma shown_row:
  assumes "row_agrees block c p" "0 < block" "cp_startBlock c \<le> cp_endBlock c"
  shows "shown_state block now p = Some (contract_state block now c)
    \<or> p_status p = Some proposal_status.PENDING \<and> cp_endBlock c < block
       \<and> shown_state block now p = Some proposal_state.ACTIVE \<and> contract_state block now c = proposal_state.DEFEATED
    \<or> p_status p = Some proposal_status.CANCELLED \<and> cp_vetoed c
       \<and> shown_state block now p = Some proposal_state.CANCELLED \<and> contract_state block now c = proposal_state.VETOED"
proof (cases "p_status p")
  case None
  with assms(1) show ?thesis by (simp add: row_agrees_def)
next
  case (Some st)
  note defs = agree_defs shown_state_def proposal_response_def getProposalState_def Let_def block_known_def
    contract_state_def status_name_def
  show ?thesis
    using Some assms by (cases st) (auto simp: defs)
qed


section \<open>A run\<close>

definition demo_proposed :: store where
  "demo_proposed = projr (handleProposalCreatedWithRequirements blank_proposal demo_created demo_start)"

lemma demo_lifecycle: "lifecycle blank_proposal 1 21 100 (new_proposal 9 20 1) demo_proposed"
proof (rule lifecycle.later)
  have "\<not> isl (handleProposalCreatedWithRequirements blank_proposal demo_created demo_start)" by code_simp
  then have "handleProposalCreatedWithRequirements blank_proposal demo_created demo_start = Inr demo_proposed"
    by (simp add: demo_proposed_def)
  moreover have "proposals demo_start (int_to_string 1) = None" by (simp add: demo_start_def empty_store_def)
  ultimately have "lifecycle blank_proposal 1 (e_block demo_created) 8
      (new_proposal (pc_startBlock demo_created) (pc_endBlock demo_created) (pc_quorumVotes demo_created)) demo_proposed"
    by (intro lifecycle.created [where s = demo_start]) (simp_all add: demo_created_def blank_proposal_def)
  then show "lifecycle blank_proposal 1 8 8 (new_proposal 9 20 1) demo_proposed"
    by (simp add: demo_created_def)
qed simp_all


end
