(* ===== verification/Noun_Seed.thy ===== *)
theory Noun_Seed imports Js_Objects "HOL-Library.Word" begin

text \<open>
  Seeds of Nouns: \<open>nouns-assets/src/utils.ts\<close> (and its copy in the web application,
  \<open>utils/composables/nounsAssets.ts\<close>), which repeats the pseudo-random choice of the contract
  \<open>NounsSeeder.sol\<close> on hexadecimal strings, and the cache of seeds of \<open>wrappers/nounToken.ts\<close>.  The hash
  \<open>keccak256\<close> and the image data are parameters.
\<close>

section \<open>Seeds and their images\<close>

record noun_seed =
  ns_background :: nat
  ns_body :: nat
  ns_accessory :: nat
  ns_head :: nat
  ns_glasses :: nat

record encoded_part =
  ep_filename :: string
  ep_data :: string

record part_catalog =
  id_bgcolors :: "string list"
  id_bodies :: "encoded_part list"
  id_accessories :: "encoded_part list"
  id_heads :: "encoded_part list"
  id_glasses :: "encoded_part list"

text \<open>The image data of an extension.\<close>

record image_set =
  is_catalog :: part_catalog
  is_palette :: "string list"

text \<open>\<open>xs[i]\<close>; \<open>None\<close> is \<open>undefined\<close>.\<close>

definition at :: "'a list \<Rightarrow> nat \<Rightarrow> 'a option" where
  "at xs i = (if i < length xs then Some (xs ! i) else None)"

definition getNounData :: "part_catalog \<Rightarrow> noun_seed \<Rightarrow> encoded_part option list \<times> string option" where
  "getNounData images seed =
     ([at (id_bodies images) (ns_body seed), at (id_accessories images) (ns_accessory seed),
       at (id_heads images) (ns_head seed), at (id_glasses images) (ns_glasses seed)],
      at (id_bgcolors images) (ns_background seed))"

text \<open>\<open>Math.floor(Math.random() * n)\<close>; a random number is a fraction below one.\<close>

definition random_index :: "nat \<times> nat \<Rightarrow> nat \<Rightarrow> nat" where
  "random_index r n = fst r * n div snd r"

definition getRandomNounSeed :: "(nat \<Rightarrow> nat \<times> nat) \<Rightarrow> part_catalog \<Rightarrow> noun_seed" where
  "getRandomNounSeed random images =
     \<lparr>ns_background = random_index (random 0) (length (id_bgcolors images)),
      ns_body = random_index (random 1) (length (id_bodies images)),
      ns_accessory = random_index (random 2) (length (id_accessories images)),
      ns_head = random_index (random 3) (length (id_heads images)),
      ns_glasses = random_index (random 4) (length (id_glasses images))\<rparr>"

section \<open>Seeds from a hash\<close>

text \<open>\<open>toHexString\<close> of ethers: an even number of digits; \<open>BigNumber.from\<close> of a string: \<open>None\<close> where it
  throws.\<close>

definition toHexString :: "nat \<Rightarrow> string" where
  "toHexString n = (let h = to_radix 16 n in ''0x'' @ (if odd (length h) then CHR ''0'' # h else h))"

definition is_hex :: "char \<Rightarrow> bool" where
  "is_hex c = (hex_val c \<noteq> None)"

definition from_hex :: "string \<Rightarrow> nat option" where
  "from_hex s =
     (if take 2 s = ''0x'' \<and> drop 2 s \<noteq> [] \<and> list_all is_hex (drop 2 s)
      then Some (undigits 16 (map (the \<circ> hex_val) (drop 2 s))) else None)"

text \<open>\<open>substring\<close> with a negative start begins at zero; a fraction is cut off.\<close>

definition shiftRightAndCast :: "nat \<Rightarrow> nat \<Rightarrow> nat \<Rightarrow> string" where
  "shiftRightAndCast value shiftAmount uintSize =
     (let shifted = toHexString (drop_bit shiftAmount value)
      in ''0x'' @ drop (length shifted - (uintSize + 3) div 4) shifted)"

definition getPseudorandomPart :: "nat \<Rightarrow> nat \<Rightarrow> nat \<Rightarrow> nat \<Rightarrow> nat option" where
  "getPseudorandomPart pseudorandomness partCount shiftAmount uintSize =
     (case from_hex (shiftRightAndCast pseudorandomness shiftAmount uintSize) of
        None \<Rightarrow> None
      | Some v \<Rightarrow> if partCount = 0 then None else Some (v mod partCount))"

definition getNounSeedFromBlockHash :: "(string \<Rightarrow> int \<Rightarrow> 256 word) \<Rightarrow> part_catalog \<Rightarrow> int \<Rightarrow> string \<Rightarrow> noun_seed option" where
  "getNounSeedFromBlockHash keccak images nounId blockHash =
     (let pseudorandomness = unat (keccak blockHash nounId)
      in case getPseudorandomPart pseudorandomness (length (id_bgcolors images)) 0 48 of None \<Rightarrow> None | Some background \<Rightarrow>
         case getPseudorandomPart pseudorandomness (length (id_bodies images)) 48 48 of None \<Rightarrow> None | Some body \<Rightarrow>
         case getPseudorandomPart pseudorandomness (length (id_accessories images)) 96 48 of None \<Rightarrow> None | Some accessory \<Rightarrow>
         case getPseudorandomPart pseudorandomness (length (id_heads images)) 144 48 of None \<Rightarrow> None | Some head \<Rightarrow>
         case getPseudorandomPart pseudorandomness (length (id_glasses images)) 192 48 of None \<Rightarrow> None | Some glasses \<Rightarrow>
           Some \<lparr>ns_background = background, ns_body = body, ns_accessory = accessory, ns_head = head, ns_glasses = glasses\<rparr>)"

text \<open>The contract: a cast to \<open>uint48\<close> of the shifted hash, modulo the number of parts.\<close>

definition seeder_part :: "256 word \<Rightarrow> nat \<Rightarrow> nat \<Rightarrow> nat" where
  "seeder_part p shift count = unat (ucast (drop_bit shift p) :: 48 word) mod count"

definition generateSeed :: "(string \<Rightarrow> int \<Rightarrow> 256 word) \<Rightarrow> part_catalog \<Rightarrow> int \<Rightarrow> string \<Rightarrow> noun_seed option" where
  "generateSeed keccak images nounId blockHash =
     (let p = keccak blockHash nounId
      in if id_bgcolors images = [] \<or> id_bodies images = [] \<or> id_accessories images = [] \<or> id_heads images = []
           \<or> id_glasses images = [] then None
         else Some \<lparr>ns_background = seeder_part p 0 (length (id_bgcolors images)),
              ns_body = seeder_part p 48 (length (id_bodies images)),
              ns_accessory = seeder_part p 96 (length (id_accessories images)),
              ns_head = seeder_part p 144 (length (id_heads images)),
              ns_glasses = seeder_part p 192 (length (id_glasses images))\<rparr>)"

section \<open>The cache of seeds\<close>

text \<open>\<open>localStorage\<close> under the seed key: the object its JSON text encodes, \<open>None\<close> without an entry.\<close>

type_synonym seed_cache = "obj js_map"

definition expectedKeys :: "string list" where
  "expectedKeys = [''background'', ''body'', ''accessory'', ''head'', ''glasses'']"

definition isSeedValid :: "obj option \<Rightarrow> bool" where
  "isSeedValid seed =
     (let s = (case seed of Some o1 \<Rightarrow> o1 | None \<Rightarrow> [])
      in list_all (\<lambda>k. k \<in> set (map fst s)) expectedKeys \<and> list_ex (\<lambda>v. v \<noteq> Num 0) (map snd s))"

text \<open>\<open>Number\<close> of the decimal strings of the subgraph: the entity holds the numbers already.\<close>

definition seedArrayToObject :: "obj list \<Rightarrow> seed_cache" where
  "seedArrayToObject seeds =
     fold (\<lambda>seed acc. AList.update (as_string (field seed ''id'')) (map (\<lambda>k. (k, field seed k)) expectedKeys) acc) seeds []"

text \<open>What the hook returns, and the cache after its effect.\<close>

definition useNounSeeds :: "obj list option \<Rightarrow> seed_cache option \<Rightarrow> seed_cache option \<times> seed_cache option" where
  "useNounSeeds data cache =
     (case cache of
        Some cachedSeeds \<Rightarrow> (Some cachedSeeds, cache)
      | None \<Rightarrow> (case data of
            Some (s # seeds) \<Rightarrow> (None, Some (seedArrayToObject (s # seeds)))
          | _ \<Rightarrow> (None, None)))"

definition useNounSeed ::
    "(int \<Rightarrow> obj option) \<Rightarrow> obj list option \<Rightarrow> int \<Rightarrow> seed_cache option \<Rightarrow> obj option \<times> seed_cache option" where
  "useNounSeed call data nounId cache =
     (let (seeds, after_effect) = useNounSeeds data cache;
          seed = (case seeds of Some m \<Rightarrow> map_of m (int_to_string nounId) | None \<Rightarrow> None)
      in case (if seed = None then call nounId else None) of
           Some response \<Rightarrow>
             (Some response,
              (case cache of
                 Some m \<Rightarrow>
                   if isSeedValid (Some response)
                   then Some (AList.update (int_to_string nounId)
                          (map (\<lambda>k. (k, field response k)) [''accessory'', ''background'', ''body'', ''glasses'', ''head'']) m)
                   else cache
               | None \<Rightarrow> after_effect))
         | None \<Rightarrow> (seed, after_effect))"

section \<open>The two choices agree\<close>

lemma length_digits_16: "length (digits 16 n) \<le> k \<longleftrightarrow> n < 16 ^ k" if "0 < k"
proof
  assume "n < 16 ^ k"
  with that show "length (digits 16 n) \<le> k" by (intro length_digits_le) simp_all
next
  have "undigits 16 ds < 16 ^ length ds" if "\<forall>d \<in> set ds. d < 16" for ds
    using that
  proof (induction ds rule: rev_induct)
    case (snoc d ds)
    then have "undigits 16 ds + 1 \<le> 16 ^ length ds" "d < 16" by auto
    then have "undigits 16 ds * 16 + d < 16 ^ length ds * 16" by linarith
    then show ?case by simp
  qed simp
  moreover have "\<forall>d \<in> set (digits 16 n). d < 16" by (auto dest: digits_bound [rotated])
  ultimately have "n < 16 ^ length (digits 16 n)" using undigits_digits [of 16 n] by metis
  also assume "length (digits 16 n) \<le> k"
  then have "(16::nat) ^ length (digits 16 n) \<le> 16 ^ k" by simp
  finally show "n < 16 ^ k" .
qed

lemma undigits_append: "undigits b (xs @ ys) = undigits b xs * b ^ length ys + undigits b ys"
proof (induction ys rule: rev_induct)
  case (snoc y ys)
  have "undigits b (xs @ ys @ [y]) = undigits b ((xs @ ys) @ [y])" by simp
  then show ?case using snoc by (simp only: undigits_snoc) (simp add: algebra_simps)
qed simp

lemma undigits_bound: "\<forall>d \<in> set ds. d < b \<Longrightarrow> undigits b ds < b ^ length ds"
proof (induction ds rule: rev_induct)
  case (snoc d ds)
  then have "undigits b ds + 1 \<le> b ^ length ds" "d < b" by auto
  then have "(undigits b ds + 1) * b \<le> b ^ length ds * b" by (intro mult_le_mono1)
  then have "undigits b ds * b + d < b ^ length ds * b" using \<open>d < b\<close> by simp
  then show ?case by (simp add: mult.commute)
qed simp

lemma undigits_last:
  assumes "\<forall>d \<in> set ds. d < b" "k \<le> length ds"
  shows "undigits b (drop (length ds - k) ds) = undigits b ds mod b ^ k"
proof -
  let ?l = "drop (length ds - k) ds"
  have "undigits b ?l < b ^ k"
    using undigits_bound [of ?l b] assms by (auto dest: in_set_dropD)
  moreover have "undigits b ds = undigits b (take (length ds - k) ds) * b ^ k + undigits b ?l"
    using undigits_append [of b "take (length ds - k) ds" ?l] assms(2) by simp
  ultimately show ?thesis by simp
qed

text \<open>The digits of \<open>toHexString\<close>.\<close>

definition even_digits :: "nat \<Rightarrow> nat list" where
  "even_digits n = (let ds = digits 16 n in if odd (length ds) then 0 # ds else ds)"

lemma even_digits_facts:
  shows "even (length (even_digits n))" "\<forall>d \<in> set (even_digits n). d < 16" "undigits 16 (even_digits n) = n"
  by (auto simp: even_digits_def Let_def dest: digits_bound [rotated])

lemma toHexString_digits: "toHexString n = ''0x'' @ map hex_digit (even_digits n)"
proof -
  have "hex_digit 0 = CHR ''0''" by code_simp
  then show ?thesis by (simp add: toHexString_def to_radix_def even_digits_def Let_def)
qed

lemma length_even_digits: "length (even_digits n) \<ge> 12 \<longleftrightarrow> 2 ^ 40 \<le> n"
proof -
  have "length (even_digits n) \<ge> 12 \<longleftrightarrow> \<not> length (digits 16 n) \<le> 10"
    by (auto simp: even_digits_def Let_def elim!: oddE)
  also have "\<dots> \<longleftrightarrow> 2 ^ 40 \<le> n" using length_digits_16 [of 10 n] by auto
  finally show ?thesis .
qed

lemma from_hex_digits:
  assumes "\<forall>d \<in> set ds. d < 16" "ds \<noteq> []"
  shows "from_hex (''0x'' @ map hex_digit ds) = Some (undigits 16 ds)"
proof -
  have "map ((the \<circ> hex_val) \<circ> hex_digit) ds = ds" using assms(1) by (intro map_idI) simp
  then show ?thesis using assms by (simp add: from_hex_def is_hex_def list_all_iff)
qed

lemma from_hex_shifted:
  "from_hex (shiftRightAndCast v k 48) = (if 2 ^ 40 \<le> v div 2 ^ k then Some (v div 2 ^ k mod 2 ^ 48) else None)"
proof -
  let ?ds = "even_digits (v div 2 ^ k)"
  note f = even_digits_facts [of "v div 2 ^ k"]
  have s: "shiftRightAndCast v k 48 = ''0x'' @ drop (length ?ds - 10) (''0x'' @ map hex_digit ?ds)"
    by (simp add: shiftRightAndCast_def Let_def toHexString_digits drop_bit_nat_def)
  show ?thesis
  proof (cases "2 ^ 40 \<le> v div 2 ^ k")
    case True
    then have l: "12 \<le> length ?ds" using length_even_digits by blast
    then have "length ?ds - 10 = Suc (Suc (length ?ds - 12))" by simp
    then have "shiftRightAndCast v k 48 = ''0x'' @ map hex_digit (drop (length ?ds - 12) ?ds)"
      unfolding s by (simp add: drop_map)
    moreover have "drop (length ?ds - 12) ?ds \<noteq> []" using l by (auto simp: numeral_eq_Suc)
    moreover have "\<forall>d \<in> set (drop (length ?ds - 12) ?ds). d < 16" using f(2) by (auto dest: in_set_dropD)
    ultimately have "from_hex (shiftRightAndCast v k 48) = Some (undigits 16 (drop (length ?ds - 12) ?ds))"
      using from_hex_digits by presburger
    also have "undigits 16 (drop (length ?ds - 12) ?ds) = v div 2 ^ k mod 16 ^ 12"
      using undigits_last [OF f(2) l] f(3) by simp
    finally show ?thesis using True by simp
  next
    case False
    then have "length ?ds < 12" using length_even_digits by (meson not_le)
    then have "length ?ds \<le> 10" using f(1) by presburger
    then have "shiftRightAndCast v k 48 = ''0x0x'' @ map hex_digit ?ds" unfolding s by simp
    moreover have "\<not> is_hex (CHR ''x'')" by code_simp
    ultimately show ?thesis using False by (simp add: from_hex_def)
  qed
qed

lemma seeder_part_nat: "seeder_part p k n = unat p div 2 ^ k mod 2 ^ 48 mod n"
proof -
  have "unat p mod 2 ^ 256 = unat p" for p :: "256 word"
    using unsigned_less [of p, where ?'a = nat] by simp
  then show ?thesis
    by (simp add: seeder_part_def unsigned_ucast_eq unsigned_drop_bit_eq drop_bit_nat_def take_bit_nat_def)
qed

text \<open>C28. The seed computed from a block hash is the seed the contract generates, part by part, whenever the
  hash is at least \<open>2 ^ 232\<close>.  For a smaller hash the shifted value has at most ten digits, the cast keeps its
  \<open>0x\<close>, and the function throws, while the contract still generates a seed.\<close>

theorem seed_matches_seeder:
  "getNounSeedFromBlockHash keccak images nounId blockHash
     = (if 2 ^ 232 \<le> unat (keccak blockHash nounId) then generateSeed keccak images nounId blockHash else None)"
proof -
  let ?p = "unat (keccak blockHash nounId)"
  have part: "getPseudorandomPart ?p n k 48
      = (if 2 ^ (40 + k) \<le> ?p \<and> n \<noteq> 0 then Some (seeder_part (keccak blockHash nounId) k n) else None)" for n k
    by (simp add: getPseudorandomPart_def from_hex_shifted seeder_part_nat power_add less_eq_div_iff_mult_less_eq)
  show ?thesis
    unfolding getNounSeedFromBlockHash_def generateSeed_def Let_def part by auto
qed

end
