(* ===== verification/Bots.thy ===== *)
theory Bots imports Js_Objects begin

text \<open>
  The notification bots, \<open>packages/nouns-bots\<close>: the cache in redis (\<open>cache.ts\<close>), the texts
  (\<open>utils.ts\<close>, \<open>utils/proposals.ts\<close>), the Twitter and Discord handlers (\<open>handlers/*.ts\<close>) and the ticks that
  compare what the subgraph returns with the cache (\<open>index.ts\<close>).  Services are a parameter.  A tick is the
  sequence of its steps; a handler that rejects ends it, and the cache keeps what was written before.
  Non-ASCII text is its UTF-8 bytes.
\<close>

section \<open>Data\<close>

record bid =
  bi_id :: string
  bi_amount :: int
  bi_bidder :: string

record auction_bids =
  ub_id :: int
  ub_endTime :: int
  ub_bids :: "bid list"

record vote =
  vo_id :: string
  vo_voter :: string
  vo_votes :: int
  vo_supportDetailed :: int
  vo_reason :: "string option"

record bot_proposal =
  bp_id :: int
  bp_proposer :: string
  bp_description :: string
  bp_status :: string
  bp_quorumVotes :: int
  bp_proposalThreshold :: int
  bp_startBlock :: int
  bp_endBlock :: int
  bp_executionETA :: int
  bp_votes :: "vote list"

text \<open>The response: its decimal strings, those of its votes too, are the integers they denote, and
  \<open>executionETA\<close> can be \<open>null\<close>, which \<open>Number\<close> makes zero.\<close>

record raw_proposal =
  rp_id :: int
  rp_proposer :: string
  rp_description :: string
  rp_status :: string
  rp_quorumVotes :: int
  rp_proposalThreshold :: int
  rp_startBlock :: int
  rp_endBlock :: int
  rp_executionETA :: "int option"
  rp_votes :: "vote list"

definition parseProposal :: "raw_proposal \<Rightarrow> bot_proposal" where
  "parseProposal p =
     \<lparr>bp_id = rp_id p, bp_proposer = rp_proposer p, bp_description = rp_description p, bp_status = rp_status p,
      bp_quorumVotes = rp_quorumVotes p, bp_proposalThreshold = rp_proposalThreshold p,
      bp_startBlock = rp_startBlock p, bp_endBlock = rp_endBlock p,
      bp_executionETA = (case rp_executionETA p of Some eta \<Rightarrow> eta | None \<Rightarrow> 0), bp_votes = rp_votes p\<rparr>"

definition parseProposalSubgraphResponse :: "raw_proposal list \<Rightarrow> bot_proposal list" where
  "parseProposalSubgraphResponse ps = map parseProposal ps"

definition extractNewVotes :: "bot_proposal \<Rightarrow> bot_proposal \<Rightarrow> vote list" where
  "extractNewVotes before after_tick =
     filter (\<lambda>v. vo_id v \<notin> set (map vo_id (bp_votes before)) \<and> vo_votes v > 0) (bp_votes after_tick)"

definition extractProposalTitle :: "bot_proposal \<Rightarrow> string" where
  "extractProposalTitle p =
     (let l = line_of (bp_description p)
      in if take 1 l = ''#'' then dropWhile is_space (drop 1 l) else l)"

definition SECONDS_IN_DAY :: int where "SECONDS_IN_DAY = 60 * 60 * 24"

definition isAtRiskOfExpiry :: "int \<Rightarrow> bot_proposal \<Rightarrow> bool" where
  "isAtRiskOfExpiry now p =
     (if bp_status p \<noteq> ''QUEUED'' then False
      else (let secondsUntilExpiry = bp_executionETA p + SECONDS_IN_DAY * 14 - now
            in secondsUntilExpiry > 0 \<and> secondsUntilExpiry \<le> SECONDS_IN_DAY * 2))"

section \<open>Services and texts\<close>

text \<open>\<open>sv_rejects\<close> says which notification's handlers reject; \<open>sv_png\<close> is the picture of a Noun, \<open>sv_tweet_id\<close> the
  id of the \<open>n\<close>-th tweet, \<open>sv_ens\<close> the reverse lookup.\<close>

datatype notice =
    NewAuction int
  | NewBid int bid
  | EndingSoon int
  | NewProposal bot_proposal
  | UpdatedStatus bot_proposal
  | GovernanceVote bot_proposal vote
  | AtRisk bot_proposal

record services =
  sv_now :: int
  sv_rejects :: "notice \<Rightarrow> bool"
  sv_png :: "string \<Rightarrow> string option"
  sv_tweet_id :: "nat \<Rightarrow> string"
  sv_ens :: "string \<Rightarrow> string option"
  sv_formatEther :: "int \<Rightarrow> string"
  sv_lower :: "string \<Rightarrow> string"
  sv_twitter :: bool
  sv_discord :: "string list"

definition shortAddress :: "string \<Rightarrow> string" where
  "shortAddress a = take 4 a @ ''...'' @ drop (length a - 4) a"

definition voteDirectionToText :: "int \<Rightarrow> string" where
  "voteDirectionToText d =
     (if d = 1 then ''for'' else if d = 0 then ''against'' else if d = 2 then ''to abstain on'' else ''undefined'')"

definition resolveEnsOrFormatAddress :: "services \<Rightarrow> string \<Rightarrow> string" where
  "resolveEnsOrFormatAddress sv a = (if truthy_string (sv_ens sv a) then the (sv_ens sv a) else shortAddress a)"

definition star_sign :: string where "star_sign = [CHR 0xEF, CHR 0xBC, CHR 0x8A]"
definition ether_sign :: string where "ether_sign = [CHR 0xCE, CHR 0x9E]"

definition formatAuctionStartedTweetText :: "int \<Rightarrow> string" where
  "formatAuctionStartedTweetText auctionId =
     star_sign @ ''Bleep Bloop Blop'' @ star_sign @ [newline] @ ''        '' @ [newline]
     @ '' An auction has started for Noun #'' @ int_to_string auctionId @ [newline] @ '' Learn more at https://nouns.wtf''"

definition formatBidMessageText :: "services \<Rightarrow> int \<Rightarrow> bid \<Rightarrow> string" where
  "formatBidMessageText sv i b =
     ''Noun '' @ int_to_string i @ '' has received a bid of '' @ ether_sign @ sv_formatEther sv (bi_amount b)
     @ '' from '' @ resolveEnsOrFormatAddress sv (bi_bidder b)"

definition getAuctionEndingSoonTweetText :: string where
  "getAuctionEndingSoonTweetText = ''This auction is ending soon! Bid now at https://nouns.wtf''"

definition formatNewGovernanceProposalText :: "bot_proposal \<Rightarrow> string" where
  "formatNewGovernanceProposalText p =
     ''A new NounsDAO proposal (#'' @ int_to_string (bp_id p) @ '') has been created: '' @ extractProposalTitle p"

definition formatUpdatedGovernanceProposalStatusText :: "services \<Rightarrow> bot_proposal \<Rightarrow> string" where
  "formatUpdatedGovernanceProposalStatusText sv p =
     ''Nouns DAO proposal #'' @ int_to_string (bp_id p) @ '' ('' @ extractProposalTitle p
     @ '') has changed to status: '' @ sv_lower sv (bp_status p)"

definition formatProposalAtRiskOfExpiryText :: "bot_proposal \<Rightarrow> string" where
  "formatProposalAtRiskOfExpiryText p =
     ''Nouns DAO proposal #'' @ int_to_string (bp_id p) @ '' ('' @ extractProposalTitle p
     @ '') expires in less than two days. Please execute it immediately!''"

definition formatNewGovernanceVoteText :: "services \<Rightarrow> bot_proposal \<Rightarrow> vote \<Rightarrow> string" where
  "formatNewGovernanceVoteText sv p v =
     resolveEnsOrFormatAddress sv (vo_voter v) @ '' has voted '' @ voteDirectionToText (vo_supportDetailed v)
     @ '' Proposal #'' @ int_to_string (bp_id p) @ '' ('' @ extractProposalTitle p @ '')''
     @ (if truthy_string (vo_reason v) then [newline, newline] @ ''Reason: '' @ the (vo_reason v) else '''')"

definition buildCounterName :: "string \<Rightarrow> string" where
  "buildCounterName counterName = ''bots_'' @ counterName"

section \<open>The cache\<close>

text \<open>A value of redis; the JSON text of a proposal is the proposal it encodes.\<close>

datatype redis_value = RNumber int | RText string | RProposal bot_proposal

type_synonym redis = "string \<rightharpoonup> redis_value"

definition getAuctionCacheKey :: string where "getAuctionCacheKey = ''NOUNS_AUCTION_CACHE''"
definition getBidCacheKey :: string where "getBidCacheKey = ''NOUNS_BID_CACHE''"
definition getReplyTweetIdKey :: string where "getReplyTweetIdKey = ''NOUNS_REPLY_TWEET_ID''"
definition getAuctionEndingSoonCacheKey :: string where
  "getAuctionEndingSoonCacheKey = ''NOUNS_AUCTION_ENDING_SOON_CACHE''"
definition getProposalCacheKeyPrefix :: string where "getProposalCacheKeyPrefix = ''NOUNS_PROPOSAL_''"
definition getProposalExpiryWarningSentCacheKeyPrefix :: string where
  "getProposalExpiryWarningSentCacheKeyPrefix = ''NOUNS_PROPOSAL_EXPIRY_WARNING_SENT_''"

definition read_number :: "string \<Rightarrow> redis \<Rightarrow> int" where
  "read_number k r = (case r k of Some (RNumber n) \<Rightarrow> n | _ \<Rightarrow> 0)"

definition updateAuctionCache :: "int \<Rightarrow> redis \<Rightarrow> redis" where
  "updateAuctionCache i r = r(getAuctionCacheKey \<mapsto> RNumber i)"

definition getBidCache :: "redis \<Rightarrow> string" where
  "getBidCache r = (case r getBidCacheKey of Some (RText s) \<Rightarrow> s | _ \<Rightarrow> '''')"

definition updateBidCache :: "string \<Rightarrow> redis \<Rightarrow> redis" where
  "updateBidCache i r = r(getBidCacheKey \<mapsto> RText i)"

definition getAuctionReplyTweetId :: "redis \<Rightarrow> string option" where
  "getAuctionReplyTweetId r = (case r getReplyTweetIdKey of Some (RText s) \<Rightarrow> Some s | _ \<Rightarrow> None)"

definition updateAuctionReplyTweetId :: "string \<Rightarrow> redis \<Rightarrow> redis" where
  "updateAuctionReplyTweetId i r = r(getReplyTweetIdKey \<mapsto> RText i)"

definition getAuctionEndingSoonCache :: "redis \<Rightarrow> int" where
  "getAuctionEndingSoonCache r = read_number getAuctionEndingSoonCacheKey r"

definition updateAuctionEndingSoonCache :: "int \<Rightarrow> redis \<Rightarrow> redis" where
  "updateAuctionEndingSoonCache i r = r(getAuctionEndingSoonCacheKey \<mapsto> RNumber i)"

definition getAuctionCache :: "redis \<Rightarrow> int" where
  "getAuctionCache r = read_number getAuctionCacheKey r"

definition proposalCacheKey :: "int \<Rightarrow> string" where
  "proposalCacheKey i = getProposalCacheKeyPrefix @ int_to_string i"

definition proposalExpiryWarningSentCacheKey :: "int \<Rightarrow> string" where
  "proposalExpiryWarningSentCacheKey i = getProposalExpiryWarningSentCacheKeyPrefix @ int_to_string i"

definition updateProposalCache :: "bot_proposal \<Rightarrow> redis \<Rightarrow> redis" where
  "updateProposalCache p r = r(proposalCacheKey (bp_id p) \<mapsto> RProposal p)"

definition getProposalCache :: "int \<Rightarrow> redis \<Rightarrow> bot_proposal option" where
  "getProposalCache i r = (case r (proposalCacheKey i) of Some (RProposal p) \<Rightarrow> Some p | _ \<Rightarrow> None)"

definition setProposalExpiryWarningSent :: "int \<Rightarrow> redis \<Rightarrow> redis" where
  "setProposalExpiryWarningSent i r = r(proposalExpiryWarningSentCacheKey i \<mapsto> RNumber 1)"

definition hasWarnedOfExpiry :: "int \<Rightarrow> redis \<Rightarrow> bool" where
  "hasWarnedOfExpiry i r = (r (proposalExpiryWarningSentCacheKey i) \<noteq> None)"

section \<open>Handlers\<close>

text \<open>What is posted: a tweet with a picture, a reply to a tweet, or a message to a Discord channel with title, link,
  text and the number and picture of a Noun.\<close>

datatype post =
    Tweet string string
  | Reply string string
  | Message string string string string "(int \<times> string) option"

record bots =
  bt_redis :: redis
  bt_notices :: "notice list"
  bt_posts :: "post list"
  bt_tweets :: nat
  bt_counters :: "string list"

text \<open>A tweet and its id, kept for the next reply.\<close>

definition post_tweet :: "services \<Rightarrow> post \<Rightarrow> bots \<Rightarrow> bots" where
  "post_tweet sv p b =
     b\<lparr>bt_posts := bt_posts b @ [p], bt_tweets := Suc (bt_tweets b),
       bt_redis := updateAuctionReplyTweetId (sv_tweet_id sv (bt_tweets b)) (bt_redis b)\<rparr>"

definition twitter_reply :: "services \<Rightarrow> string \<Rightarrow> bots \<Rightarrow> bots" where
  "twitter_reply sv txt b =
     (let tweetReplyId = getAuctionReplyTweetId (bt_redis b)
      in if truthy_string tweetReplyId then post_tweet sv (Reply txt (the tweetReplyId)) b else b)"

definition twitter_handleNewAuction :: "services \<Rightarrow> int \<Rightarrow> bots \<Rightarrow> bots" where
  "twitter_handleNewAuction sv auctionId b =
     (case sv_png sv (int_to_string auctionId) of
        Some png \<Rightarrow> post_tweet sv (Tweet (formatAuctionStartedTweetText auctionId) png) b
      | None \<Rightarrow> b)"

definition twitter_handleNewBid :: "services \<Rightarrow> int \<Rightarrow> bid \<Rightarrow> bots \<Rightarrow> bots" where
  "twitter_handleNewBid sv auctionId bid b = twitter_reply sv (formatBidMessageText sv auctionId bid) b"

definition twitter_handleAuctionEndingSoon :: "services \<Rightarrow> int \<Rightarrow> bots \<Rightarrow> bots" where
  "twitter_handleAuctionEndingSoon sv auctionId b = twitter_reply sv getAuctionEndingSoonTweetText b"

definition twitter_handler :: "services \<Rightarrow> notice \<Rightarrow> bots \<Rightarrow> bots" where
  "twitter_handler sv n b =
     (case n of NewAuction i \<Rightarrow> twitter_handleNewAuction sv i b | NewBid i bid \<Rightarrow> twitter_handleNewBid sv i bid b
      | EndingSoon i \<Rightarrow> twitter_handleAuctionEndingSoon sv i b | _ \<Rightarrow> b)"

definition send_all :: "services \<Rightarrow> (string \<Rightarrow> post) \<Rightarrow> bots \<Rightarrow> bots" where
  "send_all sv message b = b\<lparr>bt_posts := bt_posts b @ map message (sv_discord sv)\<rparr>"

definition proposal_url :: "bot_proposal \<Rightarrow> string" where
  "proposal_url p = ''https://nouns.wtf/vote/'' @ int_to_string (bp_id p)"

definition discord_handleNewAuction :: "services \<Rightarrow> int \<Rightarrow> bots \<Rightarrow> bots" where
  "discord_handleNewAuction sv auctionId b =
     (case sv_png sv (int_to_string auctionId) of
        Some png \<Rightarrow> send_all sv (\<lambda>c. Message ''New Auction Discovered'' ''https://nouns.wtf''
             (''An auction has started for Noun #'' @ int_to_string auctionId) c (Some (auctionId, png))) b
      | None \<Rightarrow> b)"

definition discord_handleNewBid :: "services \<Rightarrow> int \<Rightarrow> bid \<Rightarrow> bots \<Rightarrow> bots" where
  "discord_handleNewBid sv auctionId bid b =
     send_all sv (\<lambda>c. Message ''New Bid Placed'' ''https://nouns.wtf'' (formatBidMessageText sv auctionId bid) c None) b"

definition discord_handleNewProposal :: "services \<Rightarrow> bot_proposal \<Rightarrow> bots \<Rightarrow> bots" where
  "discord_handleNewProposal sv p b =
     send_all sv (\<lambda>c. Message ''New Governance Proposal'' (proposal_url p) (formatNewGovernanceProposalText p) c None) b"

definition discord_handleUpdatedProposalStatus :: "services \<Rightarrow> bot_proposal \<Rightarrow> bots \<Rightarrow> bots" where
  "discord_handleUpdatedProposalStatus sv p b =
     send_all sv (\<lambda>c. Message ''Proposal Status Update'' (proposal_url p)
       (formatUpdatedGovernanceProposalStatusText sv p) c None) b"

definition discord_handleProposalAtRiskOfExpiry :: "services \<Rightarrow> bot_proposal \<Rightarrow> bots \<Rightarrow> bots" where
  "discord_handleProposalAtRiskOfExpiry sv p b =
     send_all sv (\<lambda>c. Message ''Proposal At-Risk of Expiry'' (proposal_url p) (formatProposalAtRiskOfExpiryText p) c None) b"

definition discord_handleGovernanceVote :: "services \<Rightarrow> bot_proposal \<Rightarrow> vote \<Rightarrow> bots \<Rightarrow> bots" where
  "discord_handleGovernanceVote sv p v b =
     send_all sv (\<lambda>c. Message ''New Proposal Vote'' (proposal_url p) (formatNewGovernanceVoteText sv p v) c None) b"

definition discord_handler :: "services \<Rightarrow> notice \<Rightarrow> bots \<Rightarrow> bots" where
  "discord_handler sv n b =
     (case n of NewAuction i \<Rightarrow> discord_handleNewAuction sv i b | NewBid i bid \<Rightarrow> discord_handleNewBid sv i bid b
      | EndingSoon i \<Rightarrow> b | NewProposal p \<Rightarrow> discord_handleNewProposal sv p b
      | UpdatedStatus p \<Rightarrow> discord_handleUpdatedProposalStatus sv p b
      | GovernanceVote p v \<Rightarrow> discord_handleGovernanceVote sv p v b
      | AtRisk p \<Rightarrow> discord_handleProposalAtRiskOfExpiry sv p b)"

text \<open>\<open>auctionLifecycleHandlers\<close>: every enabled handler gets the notice.  When one rejects, the posts of this
  notice are unknown, and none is recorded.\<close>

definition run_handlers :: "services \<Rightarrow> notice \<Rightarrow> bots \<Rightarrow> bots" where
  "run_handlers sv n b =
     (let b1 = (if sv_twitter sv then twitter_handler sv n b else b)
      in if sv_discord sv \<noteq> [] then discord_handler sv n b1 else b1)"

definition notify :: "services \<Rightarrow> notice \<Rightarrow> bots \<Rightarrow> bool \<times> bots" where
  "notify sv n b =
     (let b1 = b\<lparr>bt_notices := bt_notices b @ [n]\<rparr>
      in if sv_rejects sv n then (False, b1) else (True, run_handlers sv n b1))"

definition incrementCounter :: "string \<Rightarrow> bots \<Rightarrow> bots" where
  "incrementCounter counterName b = b\<lparr>bt_counters := bt_counters b @ [counterName]\<rparr>"

definition on_redis :: "(redis \<Rightarrow> redis) \<Rightarrow> bots \<Rightarrow> bots" where
  "on_redis f b = b\<lparr>bt_redis := f (bt_redis b)\<rparr>"

section \<open>Ticks\<close>

text \<open>One step after another, until one rejects.\<close>

definition and_then :: "bool \<times> bots \<Rightarrow> (bots \<Rightarrow> bool \<times> bots) \<Rightarrow> bool \<times> bots" where
  "and_then r f = (if fst r then f (snd r) else r)"

definition setupAuction :: "auction_bids \<Rightarrow> bots \<Rightarrow> bots" where
  "setupAuction lastAuctionBids b = on_redis (updateAuctionCache (ub_id lastAuctionBids)) b"

definition new_auction_step :: "services \<Rightarrow> int \<Rightarrow> int \<Rightarrow> bots \<Rightarrow> bool \<times> bots" where
  "new_auction_step sv cachedAuctionId lastAuctionId b =
     (if cachedAuctionId < lastAuctionId
      then (case notify sv (NewAuction lastAuctionId)
                   (on_redis (updateAuctionCache lastAuctionId) (incrementCounter (buildCounterName ''auctions_discovered'') b)) of
              (ok, b1) \<Rightarrow> if ok then (True, incrementCounter (buildCounterName ''auction_cache_updates'') b1) else (False, b1))
      else (True, b))"

definition new_bid_step :: "services \<Rightarrow> string \<Rightarrow> auction_bids \<Rightarrow> bots \<Rightarrow> bool \<times> bots" where
  "new_bid_step sv cachedBidId lastAuctionBids b =
     (case ub_bids lastAuctionBids of
        bid # _ \<Rightarrow>
          if cachedBidId \<noteq> bi_id bid
          then notify sv (NewBid (ub_id lastAuctionBids) bid) (on_redis (updateBidCache (bi_id bid)) b)
          else (True, b)
      | [] \<Rightarrow> (True, b))"

definition ending_soon_step :: "services \<Rightarrow> int \<Rightarrow> auction_bids \<Rightarrow> bots \<Rightarrow> bool \<times> bots" where
  "ending_soon_step sv cachedAuctionEndingSoon lastAuctionBids b =
     (if ub_endTime lastAuctionBids - sv_now sv < 20 * 60 \<and> cachedAuctionEndingSoon < ub_id lastAuctionBids
      then notify sv (EndingSoon (ub_id lastAuctionBids)) (on_redis (updateAuctionEndingSoonCache (ub_id lastAuctionBids)) b)
      else (True, b))"

definition processAuctionTick :: "services \<Rightarrow> auction_bids \<Rightarrow> bots \<Rightarrow> bool \<times> bots" where
  "processAuctionTick sv lastAuctionBids b =
     (let cachedAuctionId = getAuctionCache (bt_redis b);
          cachedBidId = getBidCache (bt_redis b);
          cachedAuctionEndingSoon = getAuctionEndingSoonCache (bt_redis b)
      in and_then (and_then (new_auction_step sv cachedAuctionId (ub_id lastAuctionBids) b)
           (\<lambda>b. new_bid_step sv cachedBidId lastAuctionBids
              (incrementCounter (buildCounterName ''auction_process_last_auction'') b)))
         (ending_soon_step sv cachedAuctionEndingSoon lastAuctionBids))"

definition setupGovernance :: "bot_proposal list \<Rightarrow> bots \<Rightarrow> bots" where
  "setupGovernance proposals b = fold (\<lambda>p. on_redis (updateProposalCache p)) proposals b"

text \<open>The callbacks of the votes are not awaited: a rejection among them ends only itself.\<close>

definition vote_steps :: "services \<Rightarrow> bot_proposal \<Rightarrow> vote list \<Rightarrow> bots \<Rightarrow> bots" where
  "vote_steps sv p newVotes b = fold (\<lambda>v b. snd (notify sv (GovernanceVote p v) b)) newVotes b"

definition known_proposal_step :: "services \<Rightarrow> bot_proposal \<Rightarrow> bot_proposal \<Rightarrow> bots \<Rightarrow> bool \<times> bots" where
  "known_proposal_step sv cachedProposal p b =
     and_then (if bp_status cachedProposal \<noteq> bp_status p then notify sv (UpdatedStatus p) b else (True, b))
       (\<lambda>b. let b1 = vote_steps sv p (extractNewVotes cachedProposal p) b
            in if isAtRiskOfExpiry (sv_now sv) p \<and> \<not> hasWarnedOfExpiry (bp_id p) (bt_redis b1)
               then (case notify sv (AtRisk p) b1 of
                       (ok, b2) \<Rightarrow> if ok then (True, on_redis (setProposalExpiryWarningSent (bp_id p)) b2) else (False, b2))
               else (True, b1))"

definition proposal_step :: "services \<Rightarrow> bot_proposal \<Rightarrow> bots \<Rightarrow> bots" where
  "proposal_step sv p b =
     (let r = (case getProposalCache (bp_id p) (bt_redis b) of
                 None \<Rightarrow> notify sv (NewProposal p) b
               | Some cachedProposal \<Rightarrow> known_proposal_step sv cachedProposal p b)
      in snd (and_then r (\<lambda>b. (True, on_redis (updateProposalCache p) b))))"

definition processGovernanceTick :: "services \<Rightarrow> bot_proposal list \<Rightarrow> bots \<Rightarrow> bots" where
  "processGovernanceTick sv proposals b = fold (proposal_step sv) proposals b"

end
