(* ===== verification/Bots_Runs.thy ===== *)
theory Bots_Runs imports Bots begin

text \<open>
  Runs of the bots: any sequence of auction and governance ticks, whatever the subgraph returns and whichever
  handlers reject.  The cache stays well typed, every auction that is seen as the newest is announced exactly
  once, and so is every vote on a known proposal.
\<close>

section \<open>Keys\<close>

lemma int_to_string_not_E: "int_to_string i \<noteq> CHR ''E'' # s"
proof
  assume a: "int_to_string i = CHR ''E'' # s"
  have "int_to_string i = CHR ''-'' # nat_to_string (nat (- i)) \<or> int_to_string i = nat_to_string (nat i)"
    by (simp add: int_to_string_def)
  with a have "nat_to_string (nat i) = CHR ''E'' # s" by auto
  then have "CHR ''E'' \<in> set (nat_to_string (nat i))" by simp
  then obtain d where d: "d < 10" "CHR ''E'' = hex_digit d" using nat_to_string_digit by blast
  have "hex_val (CHR ''E'') = Some 14" by code_simp
  with d hex_val_digit [of d] show False by simp
qed

lemmas fixed_keys = getAuctionCacheKey_def getBidCacheKey_def getReplyTweetIdKey_def getAuctionEndingSoonCacheKey_def

lemma keys_differ [simp]:
  "getAuctionCacheKey \<noteq> getBidCacheKey" "getBidCacheKey \<noteq> getAuctionCacheKey"
  "getAuctionCacheKey \<noteq> getReplyTweetIdKey" "getReplyTweetIdKey \<noteq> getAuctionCacheKey"
  "getAuctionCacheKey \<noteq> getAuctionEndingSoonCacheKey" "getAuctionEndingSoonCacheKey \<noteq> getAuctionCacheKey"
  "getBidCacheKey \<noteq> getReplyTweetIdKey" "getReplyTweetIdKey \<noteq> getBidCacheKey"
  "getBidCacheKey \<noteq> getAuctionEndingSoonCacheKey" "getAuctionEndingSoonCacheKey \<noteq> getBidCacheKey"
  "getReplyTweetIdKey \<noteq> getAuctionEndingSoonCacheKey" "getAuctionEndingSoonCacheKey \<noteq> getReplyTweetIdKey"
  by (simp_all add: fixed_keys)

lemma proposal_keys_differ [simp]:
  "proposalCacheKey i \<noteq> getAuctionCacheKey" "getAuctionCacheKey \<noteq> proposalCacheKey i"
  "proposalCacheKey i \<noteq> getBidCacheKey" "getBidCacheKey \<noteq> proposalCacheKey i"
  "proposalCacheKey i \<noteq> getReplyTweetIdKey" "getReplyTweetIdKey \<noteq> proposalCacheKey i"
  "proposalCacheKey i \<noteq> getAuctionEndingSoonCacheKey" "getAuctionEndingSoonCacheKey \<noteq> proposalCacheKey i"
  by (simp_all add: fixed_keys proposalCacheKey_def getProposalCacheKeyPrefix_def)

lemma warning_keys_differ [simp]:
  "proposalExpiryWarningSentCacheKey i \<noteq> getAuctionCacheKey" "getAuctionCacheKey \<noteq> proposalExpiryWarningSentCacheKey i"
  "proposalExpiryWarningSentCacheKey i \<noteq> getBidCacheKey" "getBidCacheKey \<noteq> proposalExpiryWarningSentCacheKey i"
  "proposalExpiryWarningSentCacheKey i \<noteq> getReplyTweetIdKey" "getReplyTweetIdKey \<noteq> proposalExpiryWarningSentCacheKey i"
  "proposalExpiryWarningSentCacheKey i \<noteq> getAuctionEndingSoonCacheKey"
  "getAuctionEndingSoonCacheKey \<noteq> proposalExpiryWarningSentCacheKey i"
  by (simp_all add: fixed_keys proposalExpiryWarningSentCacheKey_def getProposalExpiryWarningSentCacheKeyPrefix_def)

lemma proposal_key_inject [simp]: "proposalCacheKey i = proposalCacheKey j \<longleftrightarrow> i = j"
  by (simp add: proposalCacheKey_def)

lemma proposal_warning_differ [simp]:
  "proposalCacheKey i \<noteq> proposalExpiryWarningSentCacheKey j" "proposalExpiryWarningSentCacheKey j \<noteq> proposalCacheKey i"
  using int_to_string_not_E int_to_string_not_E [symmetric]
  by (simp_all add: proposalCacheKey_def proposalExpiryWarningSentCacheKey_def getProposalCacheKeyPrefix_def
      getProposalExpiryWarningSentCacheKeyPrefix_def)

section \<open>Events\<close>

datatype bots_event =
    AuctionTick services auction_bids
  | GovernanceTick services "bot_proposal list"

definition bots_step :: "bots_event \<Rightarrow> bots \<Rightarrow> bots" where
  "bots_step ev b =
     (case ev of
        AuctionTick sv lastAuctionBids \<Rightarrow> snd (processAuctionTick sv lastAuctionBids b)
      | GovernanceTick sv ps \<Rightarrow> processGovernanceTick sv ps b)"

definition fresh_bots :: "redis \<Rightarrow> bots" where
  "fresh_bots r = \<lparr>bt_redis = r, bt_notices = [], bt_posts = [], bt_tweets = 0, bt_counters = []\<rparr>"

section \<open>The frame of a notice\<close>

text \<open>A notice is logged; its handlers write nothing but the tweet to reply to.\<close>

definition reply_only :: "redis \<Rightarrow> redis \<Rightarrow> bool" where
  "reply_only r r' \<longleftrightarrow> r' = r \<or> (\<exists>s. r' = r(getReplyTweetIdKey \<mapsto> RText s))"

lemma post_tweet_frame:
  "bt_notices (post_tweet sv p b) = bt_notices b" "reply_only (bt_redis b) (bt_redis (post_tweet sv p b))"
  by (auto simp: post_tweet_def reply_only_def updateAuctionReplyTweetId_def)

lemma reply_only_refl [simp]: "reply_only r r"
  by (simp add: reply_only_def)

lemma twitter_frame:
  "bt_notices (twitter_handler sv n b) = bt_notices b \<and> reply_only (bt_redis b) (bt_redis (twitter_handler sv n b))"
  by (cases n) (auto simp: twitter_handler_def twitter_handleNewAuction_def twitter_handleNewBid_def
      twitter_handleAuctionEndingSoon_def twitter_reply_def Let_def post_tweet_frame split: option.splits)

lemma discord_frame:
  "bt_notices (discord_handler sv n b) = bt_notices b \<and> bt_redis (discord_handler sv n b) = bt_redis b"
  by (cases n) (auto simp: discord_handler_def discord_handleNewAuction_def discord_handleNewBid_def
      discord_handleNewProposal_def discord_handleUpdatedProposalStatus_def discord_handleProposalAtRiskOfExpiry_def
      discord_handleGovernanceVote_def send_all_def split: option.splits)

lemma notify_frame:
  assumes "notify sv n b = (ok, b')"
  shows "ok = (\<not> sv_rejects sv n)" "bt_notices b' = bt_notices b @ [n]" "reply_only (bt_redis b) (bt_redis b')"
  using assms twitter_frame [of sv n "b\<lparr>bt_notices := bt_notices b @ [n]\<rparr>"] discord_frame
  by (auto simp: notify_def run_handlers_def Let_def split: if_splits)

lemma reply_only_read:
  assumes "reply_only r r'" "k \<noteq> getReplyTweetIdKey"
  shows "r' k = r k"
  using assms by (auto simp: reply_only_def)

text \<open>What the steps of the ticks keep, from what the writes to the cache and the notices keep: without the discovery of an
  auction, and for proposals in \<open>ok_proposal\<close> only.\<close>

lemma and_then_preserves:
  assumes "P (snd r)" "\<And>b. P b \<Longrightarrow> P (snd (f b))"
  shows "P (snd (and_then r f))"
  using assms by (simp add: and_then_def)

locale quiet =
  fixes I :: "bots \<Rightarrow> bool"
    and ok :: "notice \<Rightarrow> bool"
    and ok_proposal :: "bot_proposal \<Rightarrow> bool"
  assumes kept_notify: "ok n \<Longrightarrow> I b \<Longrightarrow> I (snd (notify sv n b))"
    and kept_counter: "I b \<Longrightarrow> I (incrementCounter c b)"
    and kept_bid: "I b \<Longrightarrow> I (on_redis (updateBidCache s) b)"
    and kept_ending: "I b \<Longrightarrow> I (on_redis (updateAuctionEndingSoonCache i) b)"
    and kept_proposal: "ok_proposal p \<Longrightarrow> I b \<Longrightarrow> I (on_redis (updateProposalCache p) b)"
    and kept_warning: "I b \<Longrightarrow> I (on_redis (setProposalExpiryWarningSent i) b)"
    and ok_auction: "ok (NewBid i bid)" "ok (EndingSoon i)"
    and ok_governance: "ok_proposal p \<Longrightarrow> ok (NewProposal p)" "ok_proposal p \<Longrightarrow> ok (UpdatedStatus p)"
      "ok_proposal p \<Longrightarrow> ok (AtRisk p)" "ok_proposal p \<Longrightarrow> ok (GovernanceVote p v)"
begin

lemma kept_new_bid: "I b \<Longrightarrow> I (snd (new_bid_step sv c l b))"
  by (simp add: new_bid_step_def kept_notify kept_bid ok_auction split: list.split)

lemma kept_ending_soon: "I b \<Longrightarrow> I (snd (ending_soon_step sv c l b))"
  by (simp add: ending_soon_step_def kept_notify kept_ending ok_auction)

lemma kept_auction_rest:
  assumes "I (snd (new_auction_step sv (getAuctionCache (bt_redis b)) (ub_id a) b))"
  shows "I (snd (processAuctionTick sv a b))"
  unfolding processAuctionTick_def Let_def
  by (rule and_then_preserves [where P = I], rule and_then_preserves [where P = I, OF assms])
    (simp_all add: kept_new_bid kept_ending_soon kept_counter)

lemma kept_votes: "ok_proposal p \<Longrightarrow> I b \<Longrightarrow> I (vote_steps sv p vs b)"
  by (induction vs arbitrary: b) (simp_all add: vote_steps_def kept_notify ok_governance)

lemma kept_known: "ok_proposal p \<Longrightarrow> I b \<Longrightarrow> I (snd (known_proposal_step sv c p b))"
proof -
  assume p: "ok_proposal p" and i: "I b"
  have risk: "I (snd (if isAtRiskOfExpiry (sv_now sv) p \<and> \<not> hasWarnedOfExpiry (bp_id p) (bt_redis b1)
               then (case notify sv (AtRisk p) b1 of
                       (ok, b2) \<Rightarrow> if ok then (True, on_redis (setProposalExpiryWarningSent (bp_id p)) b2) else (False, b2))
               else (True, b1)))" if "I b1" for b1
    using kept_notify [OF ok_governance(3) [OF p] that, of sv] that by (auto simp: kept_warning split: prod.split)
  have status: "I (snd (if bp_status c \<noteq> bp_status p then notify sv (UpdatedStatus p) b else (True, b)))"
    using i p by (simp add: kept_notify ok_governance)
  show ?thesis
    unfolding known_proposal_step_def Let_def
    by (rule and_then_preserves [where P = I, OF status]) (rule risk, rule kept_votes [OF p])
qed

lemma kept_proposal_step: "ok_proposal p \<Longrightarrow> I b \<Longrightarrow> I (proposal_step sv p b)"
  unfolding proposal_step_def Let_def
  by (rule and_then_preserves [where P = I]) (simp_all add: kept_notify kept_known kept_proposal ok_governance split: option.split)

lemma kept_governance_tick: "list_all ok_proposal ps \<Longrightarrow> I b \<Longrightarrow> I (processGovernanceTick sv ps b)"
  by (induction ps arbitrary: b) (simp_all add: processGovernanceTick_def kept_proposal_step)

end

text \<open>Every step of the bots.\<close>

locale kept = quiet I "\<lambda>_. True" "\<lambda>_. True" for I :: "bots \<Rightarrow> bool" +
  assumes kept_auction: "I b \<Longrightarrow> I (on_redis (updateAuctionCache i) b)"
begin

lemma kept_new_auction: "I b \<Longrightarrow> I (snd (new_auction_step sv c l b))"
proof -
  assume "I b"
  then have "I (snd (notify sv (NewAuction l)
      (on_redis (updateAuctionCache l) (incrementCounter (buildCounterName ''auctions_discovered'') b))))"
    by (intro kept_notify kept_auction kept_counter TrueI)
  then show ?thesis using \<open>I b\<close> by (auto simp: new_auction_step_def kept_counter split: prod.split)
qed

lemma kept_run: "I b \<Longrightarrow> I (fold bots_step evs b)"
proof (induction evs arbitrary: b)
  case (Cons ev evs)
  have "I (bots_step ev b)"
    using Cons.prems
    by (cases ev) (simp_all add: bots_step_def kept_auction_rest kept_new_auction kept_governance_tick list_all_iff)
  then show ?case using Cons.IH by simp
qed simp

end

section \<open>The cache is well typed\<close>

definition holds_number :: "redis_value option \<Rightarrow> bool" where
  "holds_number v = (case v of None \<Rightarrow> True | Some (RNumber n) \<Rightarrow> True | _ \<Rightarrow> False)"

definition holds_text :: "redis_value option \<Rightarrow> bool" where
  "holds_text v = (case v of None \<Rightarrow> True | Some (RText s) \<Rightarrow> True | _ \<Rightarrow> False)"

definition holds_proposal :: "int \<Rightarrow> redis_value option \<Rightarrow> bool" where
  "holds_proposal i v = (case v of None \<Rightarrow> True | Some (RProposal p) \<Rightarrow> bp_id p = i | _ \<Rightarrow> False)"

definition cache_typed :: "redis \<Rightarrow> bool" where
  "cache_typed r \<longleftrightarrow>
     holds_number (r getAuctionCacheKey) \<and> holds_number (r getAuctionEndingSoonCacheKey)
     \<and> holds_text (r getBidCacheKey) \<and> holds_text (r getReplyTweetIdKey)
     \<and> (\<forall>i. holds_proposal i (r (proposalCacheKey i))) \<and> (\<forall>i. holds_number (r (proposalExpiryWarningSentCacheKey i)))"

lemmas cache_writes = updateAuctionCache_def updateBidCache_def updateAuctionEndingSoonCache_def updateProposalCache_def
  setProposalExpiryWarningSent_def

lemma holds_simps [simp]:
  "holds_number (Some (RNumber n))" "holds_text (Some (RText s))" "holds_proposal (bp_id p) (Some (RProposal p))"
  "holds_number None" "holds_text None" "holds_proposal i None"
  by (simp_all add: holds_number_def holds_text_def holds_proposal_def)

lemma cache_typed_writes:
  assumes "cache_typed r"
  shows "cache_typed (updateAuctionCache i r)" "cache_typed (updateBidCache s r)"
    "cache_typed (updateAuctionEndingSoonCache i r)" "cache_typed (updateProposalCache p r)"
    "cache_typed (setProposalExpiryWarningSent i r)" "cache_typed (r(getReplyTweetIdKey \<mapsto> RText s))"
  using assms by (simp_all add: cache_typed_def cache_writes)

lemma cache_typed_notify: "cache_typed (bt_redis b) \<Longrightarrow> cache_typed (bt_redis (snd (notify sv n b)))"
  using notify_frame(3) [of sv n b] cache_typed_writes(6)
  by (cases "notify sv n b") (auto simp: reply_only_def)

interpretation typed: kept "\<lambda>b. cache_typed (bt_redis b)"
  by unfold_locales (simp_all add: cache_typed_notify incrementCounter_def on_redis_def cache_typed_writes)

text \<open>C31. The cache stays well typed: from an empty database, after the set-up and any sequence of ticks, whatever the
  subgraph returns and whichever handlers reject, every key holds a value of the kind its reader expects, and the
  record under a proposal's key is a record of that proposal.\<close>

theorem cache_well_typed:
  "cache_typed (bt_redis (fold bots_step evs (setupGovernance ps (setupAuction a (fresh_bots Map.empty)))))"
proof -
  have "cache_typed (bt_redis (setupGovernance ps b))" if "cache_typed (bt_redis b)" for b
    using that by (induction ps arbitrary: b) (simp_all add: setupGovernance_def on_redis_def cache_typed_writes)
  moreover have "cache_typed (bt_redis (setupAuction a (fresh_bots Map.empty)))"
    by (simp add: setupAuction_def on_redis_def fresh_bots_def cache_typed_def updateAuctionCache_def)
  ultimately show ?thesis by (intro typed.kept_run)
qed

section \<open>Auctions\<close>

definition announced :: "notice list \<Rightarrow> int list" where
  "announced ns = List.map_filter (\<lambda>n. case n of NewAuction i \<Rightarrow> Some i | _ \<Rightarrow> None) ns"

definition seen_auctions :: "bots_event list \<Rightarrow> int list" where
  "seen_auctions evs = List.map_filter (\<lambda>ev. case ev of AuctionTick sv a \<Rightarrow> Some (ub_id a) | GovernanceTick sv ps \<Rightarrow> None) evs"

text \<open>The numbers of a list that exceed all before them and a start.\<close>

fun new_maxima :: "int \<Rightarrow> int list \<Rightarrow> int list" where
  "new_maxima m [] = []"
| "new_maxima m (i # is) = (if m < i then i # new_maxima i is else new_maxima m is)"

lemma announced_append [simp]: "announced (ns @ ms) = announced ns @ announced ms"
  by (simp add: announced_def List.map_filter_def)

lemma announced_one:
  "announced [NewAuction i] = [i]" "(\<And>i. n \<noteq> NewAuction i) \<Longrightarrow> announced [n] = []"
  by (auto simp: announced_def List.map_filter_def split: notice.splits)

definition auction_status :: "bots \<Rightarrow> int list \<times> int" where
  "auction_status b = (announced (bt_notices b), getAuctionCache (bt_redis b))"

lemma auction_status_notify:
  "auction_status (snd (notify sv n b)) = (fst (auction_status b) @ announced [n], snd (auction_status b))"
proof -
  obtain ok b' where r: "notify sv n b = (ok, b')" by (cases "notify sv n b")
  have "bt_redis b' getAuctionCacheKey = bt_redis b getAuctionCacheKey"
    by (rule reply_only_read [OF notify_frame(3) [OF r]]) simp
  then show ?thesis using notify_frame(2) [OF r] r by (simp add: auction_status_def getAuctionCache_def read_number_def)
qed

lemma auction_status_writes:
  "auction_status (incrementCounter c b) = auction_status b"
  "auction_status (on_redis (updateBidCache s) b) = auction_status b"
  "auction_status (on_redis (updateAuctionEndingSoonCache i) b) = auction_status b"
  "auction_status (on_redis (updateProposalCache p) b) = auction_status b"
  "auction_status (on_redis (setProposalExpiryWarningSent i) b) = auction_status b"
  "auction_status (on_redis (updateAuctionCache i) b) = (fst (auction_status b), i)"
  by (simp_all add: auction_status_def incrementCounter_def on_redis_def getAuctionCache_def read_number_def cache_writes)

interpretation unannounced: quiet "\<lambda>b. auction_status b = st" "\<lambda>n. \<forall>i. n \<noteq> NewAuction i" "\<lambda>p. True" for st
  by unfold_locales (simp_all add: auction_status_notify auction_status_writes announced_one)

lemma auction_tick_status:
  "auction_status (snd (processAuctionTick sv a b))
     = (let (ns, m) = auction_status b in if m < ub_id a then (ns @ [ub_id a], ub_id a) else (ns, m))"
proof (rule unannounced.kept_auction_rest)
  let ?b = "on_redis (updateAuctionCache (ub_id a)) (incrementCounter (buildCounterName ''auctions_discovered'') b)"
  obtain ok b' where r: "notify sv (NewAuction (ub_id a)) ?b = (ok, b')" by (cases "notify sv (NewAuction (ub_id a)) ?b")
  have "auction_status b' = (fst (auction_status b) @ [ub_id a], ub_id a)"
    using auction_status_notify [of sv "NewAuction (ub_id a)" ?b] r
    by (simp add: announced_one auction_status_writes)
  moreover have "getAuctionCache (bt_redis b) = snd (auction_status b)" by (simp add: auction_status_def)
  ultimately show "auction_status (snd (new_auction_step sv (getAuctionCache (bt_redis b)) (ub_id a) b))
     = (let (ns, m) = auction_status b in if m < ub_id a then (ns @ [ub_id a], ub_id a) else (ns, m))"
    using r by (simp add: new_auction_step_def auction_status_writes case_prod_beta)
qed


section \<open>Votes\<close>

definition notified_votes :: "int \<Rightarrow> notice list \<Rightarrow> string list" where
  "notified_votes i ns = List.map_filter
     (\<lambda>n. case n of GovernanceVote p v \<Rightarrow> (if bp_id p = i then Some (vo_id v) else None) | _ \<Rightarrow> None) ns"

definition versions :: "int \<Rightarrow> bots_event list \<Rightarrow> bot_proposal list" where
  "versions i evs = concat (map (\<lambda>ev. case ev of AuctionTick sv a \<Rightarrow> [] | GovernanceTick sv ps \<Rightarrow> filter (\<lambda>p. bp_id p = i) ps) evs)"

definition accepting :: "services \<Rightarrow> bool" where
  "accepting sv \<longleftrightarrow> (\<forall>n. \<not> sv_rejects sv n)"

fun accepted :: "bots_event \<Rightarrow> bool" where
  "accepted (AuctionTick sv a) = True"
| "accepted (GovernanceTick sv ps) = accepting sv"

lemma notified_votes_append [simp]: "notified_votes i (ns @ ms) = notified_votes i ns @ notified_votes i ms"
  by (simp add: notified_votes_def List.map_filter_def)

lemma notified_votes_one:
  "notified_votes i [n] = (case n of GovernanceVote p v \<Rightarrow> (if bp_id p = i then [vo_id v] else []) | _ \<Rightarrow> [])"
  by (simp add: notified_votes_def List.map_filter_def split: notice.split)

definition vote_status :: "int \<Rightarrow> bots \<Rightarrow> string list \<times> bot_proposal option" where
  "vote_status i b = (notified_votes i (bt_notices b), getProposalCache i (bt_redis b))"

lemma vote_status_notify:
  "vote_status i (snd (notify sv n b)) = (fst (vote_status i b) @ notified_votes i [n], snd (vote_status i b))"
proof -
  obtain ok b' where r: "notify sv n b = (ok, b')" by (cases "notify sv n b")
  have "bt_redis b' (proposalCacheKey i) = bt_redis b (proposalCacheKey i)"
    by (rule reply_only_read [OF notify_frame(3) [OF r]]) simp
  then show ?thesis using notify_frame(2) [OF r] r by (simp add: vote_status_def getProposalCache_def)
qed

lemma vote_status_writes:
  "vote_status i (incrementCounter c b) = vote_status i b"
  "vote_status i (on_redis (updateBidCache s) b) = vote_status i b"
  "vote_status i (on_redis (updateAuctionEndingSoonCache j) b) = vote_status i b"
  "vote_status i (on_redis (setProposalExpiryWarningSent j) b) = vote_status i b"
  "vote_status i (on_redis (updateAuctionCache j) b) = vote_status i b"
  "vote_status i (on_redis (updateProposalCache p) b) = (fst (vote_status i b), if bp_id p = i then Some p else snd (vote_status i b))"
  by (simp_all add: vote_status_def incrementCounter_def on_redis_def getProposalCache_def cache_writes)

interpretation elsewhere: quiet "\<lambda>b. vote_status i b = st"
    "\<lambda>n. notified_votes i [n] = []" "\<lambda>p. bp_id p \<noteq> i" for i st
  by unfold_locales (simp_all add: vote_status_notify vote_status_writes notified_votes_one)

lemma auction_tick_votes: "vote_status i (snd (processAuctionTick sv a b)) = vote_status i b"
proof (rule elsewhere.kept_auction_rest)
  let ?b = "on_redis (updateAuctionCache (ub_id a)) (incrementCounter (buildCounterName ''auctions_discovered'') b)"
  obtain ok b' where r: "notify sv (NewAuction (ub_id a)) ?b = (ok, b')" by (cases "notify sv (NewAuction (ub_id a)) ?b")
  have "vote_status i b' = vote_status i b"
    using vote_status_notify [of i sv "NewAuction (ub_id a)" ?b] r by (simp add: notified_votes_one vote_status_writes)
  then show "vote_status i (snd (new_auction_step sv (getAuctionCache (bt_redis b)) (ub_id a) b)) = vote_status i b"
    using r by (simp add: new_auction_step_def vote_status_writes)
qed

lemma vote_steps_status:
  "vote_status (bp_id p) (vote_steps sv p vs b)
     = (fst (vote_status (bp_id p) b) @ map vo_id vs, snd (vote_status (bp_id p) b))"
  by (induction vs arbitrary: b) (simp_all add: vote_steps_def vote_status_notify notified_votes_one)

lemma accepting_notify:
  "accepting sv \<Longrightarrow> notify sv n b = (True, run_handlers sv n (b\<lparr>bt_notices := bt_notices b @ [n]\<rparr>))"
  by (simp add: notify_def accepting_def Let_def)

text \<open>The step of the proposal itself.\<close>

lemma own_step_status:
  assumes "accepting sv" "snd (vote_status (bp_id p) b) = Some c"
  shows "vote_status (bp_id p) (proposal_step sv p b)
     = (fst (vote_status (bp_id p) b) @ map vo_id (extractNewVotes c p), Some p)"
proof -
  let ?i = "bp_id p"
  define b1 where "b1 = (if bp_status c \<noteq> bp_status p then snd (notify sv (UpdatedStatus p) b) else b)"
  define b2 where "b2 = vote_steps sv p (extractNewVotes c p) b1"
  define b3 where "b3 = (if isAtRiskOfExpiry (sv_now sv) p \<and> \<not> hasWarnedOfExpiry ?i (bt_redis b2)
    then on_redis (setProposalExpiryWarningSent ?i) (snd (notify sv (AtRisk p) b2)) else b2)"
  have "vote_status ?i b1 = vote_status ?i b"
    by (simp add: b1_def vote_status_notify notified_votes_one)
  then have "vote_status ?i b2 = (fst (vote_status ?i b) @ map vo_id (extractNewVotes c p), Some c)"
    using assms(2) by (simp add: b2_def vote_steps_status)
  then have b3: "vote_status ?i b3 = (fst (vote_status ?i b) @ map vo_id (extractNewVotes c p), Some c)"
    by (simp add: b3_def vote_status_writes vote_status_notify notified_votes_one)
  have "getProposalCache ?i (bt_redis b) = Some c" using assms(2) by (simp add: vote_status_def)
  moreover have "known_proposal_step sv c p b = (True, b3)"
  proof -
    have "(if bp_status c \<noteq> bp_status p then notify sv (UpdatedStatus p) b else (True, b)) = (True, b1)"
      by (simp add: b1_def accepting_notify [OF assms(1)])
    moreover have "(if isAtRiskOfExpiry (sv_now sv) p \<and> \<not> hasWarnedOfExpiry ?i (bt_redis b2)
        then (case notify sv (AtRisk p) b2 of
                (ok, b') \<Rightarrow> if ok then (True, on_redis (setProposalExpiryWarningSent ?i) b') else (False, b'))
        else (True, b2)) = (True, b3)"
      by (simp add: b3_def accepting_notify [OF assms(1)])
    ultimately show ?thesis
      by (simp only: known_proposal_step_def and_then_def Let_def fst_conv snd_conv if_True b2_def)
  qed
  ultimately have "proposal_step sv p b = on_redis (updateProposalCache p) b3"
    by (simp add: proposal_step_def and_then_def)
  then show ?thesis using b3 by (simp add: vote_status_writes)
qed

fun votes_between :: "bot_proposal \<Rightarrow> bot_proposal list \<Rightarrow> string list" where
  "votes_between c [] = []"
| "votes_between c (p # ps) = map vo_id (extractNewVotes c p) @ votes_between p ps"

lemma votes_between_append: "votes_between c (ps @ qs) = votes_between c ps @ votes_between (last (c # ps)) qs"
  by (induction ps arbitrary: c) simp_all

lemma governance_tick_votes:
  assumes "accepting sv" "snd (vote_status i b) = Some c"
  shows "vote_status i (processGovernanceTick sv ps b)
     = (fst (vote_status i b) @ votes_between c (filter (\<lambda>p. bp_id p = i) ps), Some (last (c # filter (\<lambda>p. bp_id p = i) ps)))"
  using assms
proof (induction ps arbitrary: b c)
  case Nil
  then show ?case by (simp add: processGovernanceTick_def prod_eq_iff)
next
  case (Cons p ps)
  show ?case
  proof (cases "bp_id p = i")
    case True
    then have "vote_status i (proposal_step sv p b) = (fst (vote_status i b) @ map vo_id (extractNewVotes c p), Some p)"
      using own_step_status [of sv p b c] Cons.prems by simp
    then show ?thesis using Cons.IH [of "proposal_step sv p b" p] Cons.prems(1) True
      by (simp add: processGovernanceTick_def)
  next
    case False
    then have "vote_status i (proposal_step sv p b) = vote_status i b"
      by (intro elsewhere.kept_proposal_step) simp_all
    then show ?thesis using Cons.IH [of "proposal_step sv p b" c] Cons.prems False
      by (simp add: processGovernanceTick_def)
  qed
qed

lemma run_votes:
  assumes "list_all accepted evs" "snd (vote_status i b) = Some c"
  shows "vote_status i (fold bots_step evs b)
     = (fst (vote_status i b) @ votes_between c (versions i evs), Some (last (c # versions i evs)))"
  using assms
proof (induction evs arbitrary: b c)
  case Nil
  then show ?case by (simp add: versions_def prod_eq_iff)
next
  case (Cons ev evs)
  show ?case
  proof (cases ev)
    case (AuctionTick sv a)
    then have "vote_status i (bots_step ev b) = vote_status i b" by (simp add: bots_step_def auction_tick_votes)
    then show ?thesis using Cons AuctionTick by (simp add: versions_def)
  next
    case (GovernanceTick sv ps)
    let ?own = "filter (\<lambda>p. bp_id p = i) ps"
    have "vote_status i (bots_step ev b) = (fst (vote_status i b) @ votes_between c ?own, Some (last (c # ?own)))"
      using governance_tick_votes [of sv i b c ps] Cons.prems GovernanceTick by (simp add: bots_step_def)
    moreover have "versions i (ev # evs) = ?own @ versions i evs" by (simp add: GovernanceTick versions_def)
    moreover have "last (last (c # ?own) # versions i evs) = last (c # ?own @ versions i evs)" by (simp add: last_append)
    ultimately show ?thesis
      using Cons.IH [of "bots_step ev b" "last (c # ?own)"] Cons.prems(1) by (simp add: votes_between_append)
  qed
qed

definition vote_ids :: "bot_proposal \<Rightarrow> string list" where
  "vote_ids p = map vo_id (bp_votes p)"

definition votes_grow :: "bot_proposal \<Rightarrow> bot_proposal \<Rightarrow> bool" where
  "votes_grow p q \<longleftrightarrow> set (bp_votes p) \<subseteq> set (bp_votes q)"

lemma set_extractNewVotes:
  "set (map vo_id (extractNewVotes c p)) = vo_id ` {v \<in> set (bp_votes p). vo_id v \<notin> set (vote_ids c) \<and> 0 < vo_votes v}"
  by (auto simp: extractNewVotes_def vote_ids_def)

lemma distinct_extractNewVotes: "distinct (vote_ids p) \<Longrightarrow> distinct (map vo_id (extractNewVotes c p))"
  by (simp add: extractNewVotes_def vote_ids_def distinct_map_filter)

lemma votes_between_exact:
  assumes "sorted_wrt votes_grow (c # ps)" "list_all (\<lambda>p. distinct (vote_ids p)) (c # ps)"
  shows "distinct (votes_between c ps)
    \<and> set (votes_between c ps)
      = vo_id ` {v \<in> set (bp_votes (last (c # ps))). vo_id v \<notin> set (vote_ids c) \<and> 0 < vo_votes v}"
  using assms
proof (induction ps arbitrary: c)
  case Nil
  then show ?case by (auto simp: vote_ids_def)
next
  case (Cons p ps)
  let ?l = "last (p # ps)"
  have IH: "distinct (votes_between p ps)"
    "set (votes_between p ps) = vo_id ` {v \<in> set (bp_votes ?l). vo_id v \<notin> set (vote_ids p) \<and> 0 < vo_votes v}"
    using Cons.IH [of p] Cons.prems by simp_all
  have cp: "set (bp_votes c) \<subseteq> set (bp_votes p)" using Cons.prems(1) by (simp add: votes_grow_def)
  have "?l = p \<or> ?l \<in> set ps" by (cases ps) auto
  then have pl: "set (bp_votes p) \<subseteq> set (bp_votes ?l)" using Cons.prems(1) by (auto simp: votes_grow_def)
  have dl: "distinct (vote_ids ?l)" using Cons.prems(2) \<open>?l = p \<or> ?l \<in> set ps\<close> by (auto simp: list_all_iff)
  have ids: "set (vote_ids c) \<subseteq> set (vote_ids p)" using cp by (auto simp: vote_ids_def)
  have same: "v \<in> set (bp_votes p)" if "v \<in> set (bp_votes ?l)" "vo_id v \<in> set (vote_ids p)" for v
  proof -
    from that(2) obtain w where "w \<in> set (bp_votes p)" "vo_id w = vo_id v" by (auto simp: vote_ids_def)
    moreover from this(1) pl have "w \<in> set (bp_votes ?l)" by blast
    ultimately show ?thesis using that(1) dl by (auto simp: vote_ids_def distinct_map dest: inj_onD)
  qed
  have "vo_id ` {v \<in> set (bp_votes p). vo_id v \<notin> set (vote_ids c) \<and> 0 < vo_votes v}
      \<union> vo_id ` {v \<in> set (bp_votes ?l). vo_id v \<notin> set (vote_ids p) \<and> 0 < vo_votes v}
    = vo_id ` {v \<in> set (bp_votes ?l). vo_id v \<notin> set (vote_ids c) \<and> 0 < vo_votes v}"
    using pl ids same by (auto simp flip: image_Un)
  moreover have "distinct (map vo_id (extractNewVotes c p))"
    using Cons.prems(2) by (simp add: distinct_extractNewVotes)
  moreover have "set (map vo_id (extractNewVotes c p)) \<inter> set (votes_between p ps) = {}"
    unfolding set_extractNewVotes IH(2) by (auto simp: vote_ids_def image_iff)
  ultimately show ?case using IH by (simp add: set_extractNewVotes del: set_map)
qed

text \<open>C30. Every vote is notified exactly once: while no handler rejects, over any ticks in which the votes of a cached
  proposal only grow, the votes notified for it are exactly those with a weight that were cast since it was
  cached, each once.\<close>

theorem votes_notified_once:
  assumes "getProposalCache i (bt_redis b) = Some c" "list_all accepted evs"
    and "sorted_wrt votes_grow (c # versions i evs)" "list_all (\<lambda>p. distinct (vote_ids p)) (c # versions i evs)"
  shows "\<exists>new. notified_votes i (bt_notices (fold bots_step evs b)) = notified_votes i (bt_notices b) @ new
    \<and> distinct new
    \<and> set new = vo_id ` {v \<in> set (bp_votes (last (c # versions i evs))). vo_id v \<notin> set (vote_ids c) \<and> 0 < vo_votes v}"
proof -
  have "vote_status i (fold bots_step evs b)
     = (fst (vote_status i b) @ votes_between c (versions i evs), Some (last (c # versions i evs)))"
    using assms(1,2) by (intro run_votes) (simp_all add: vote_status_def)
  then show ?thesis using votes_between_exact [OF assms(3,4)] by (simp add: vote_status_def)
qed

section \<open>A run\<close>

definition demo_services :: services where
  "demo_services = \<lparr>sv_now = 0, sv_rejects = (\<lambda>_. False), sv_png = (\<lambda>_. None), sv_tweet_id = nat_to_string,
     sv_ens = (\<lambda>_. None), sv_formatEther = int_to_string, sv_lower = id, sv_twitter = True, sv_discord = [''a'']\<rparr>"

definition demo_vote :: "string \<Rightarrow> int \<Rightarrow> vote" where
  "demo_vote i n = \<lparr>vo_id = i, vo_voter = ''0x123456789'', vo_votes = n, vo_supportDetailed = 1, vo_reason = None\<rparr>"

definition demo_proposal :: "vote list \<Rightarrow> bot_proposal" where
  "demo_proposal vs = \<lparr>bp_id = 7, bp_proposer = ''0xa'', bp_description = ''# T'', bp_status = ''ACTIVE'', bp_quorumVotes = 1,
     bp_proposalThreshold = 1, bp_startBlock = 1, bp_endBlock = 9, bp_executionETA = 0, bp_votes = vs\<rparr>"

definition demo_bots :: bots where
  "demo_bots = setupGovernance [demo_proposal [demo_vote ''a'' 1]] (fresh_bots Map.empty)"

definition demo_ticks :: "bots_event list" where
  "demo_ticks = [GovernanceTick demo_services [demo_proposal [demo_vote ''b'' 2, demo_vote ''a'' 1]],
     GovernanceTick demo_services [demo_proposal [demo_vote ''c'' 0, demo_vote ''b'' 2, demo_vote ''a'' 1]]]"

theorem votes_notified_once_witness:
  "\<exists>new. notified_votes 7 (bt_notices (fold bots_step demo_ticks demo_bots)) = notified_votes 7 (bt_notices demo_bots) @ new
    \<and> distinct new
    \<and> set new = vo_id ` {v \<in> set (bp_votes (last (demo_proposal [demo_vote ''a'' 1] # versions 7 demo_ticks))).
        vo_id v \<notin> set (vote_ids (demo_proposal [demo_vote ''a'' 1])) \<and> 0 < vo_votes v}"
proof (rule votes_notified_once)
  show "getProposalCache 7 (bt_redis demo_bots) = Some (demo_proposal [demo_vote ''a'' 1])" by code_simp
  show "list_all accepted demo_ticks" by (simp add: demo_ticks_def accepting_def demo_services_def)
  show "sorted_wrt votes_grow (demo_proposal [demo_vote ''a'' 1] # versions 7 demo_ticks)" by code_simp
  show "list_all (\<lambda>p. distinct (vote_ids p)) (demo_proposal [demo_vote ''a'' 1] # versions 7 demo_ticks)" by code_simp
qed

end
