(* ===== verification/Composer_Contract.thy ===== *)
theory Composer_Contract imports Nouns_Prelude begin

text \<open>
  The composer contract, \<open>composables/composer/NounsComposer.sol\<close>, as the composer page of the web
  application relies on it: for one Noun, the children it owns, with their balances and the enumerations of
  contracts and tokens, and the positions they are composed at.  A reverted call is \<open>None\<close>.
  Ownership of the Noun and the token contracts of the children are parameters.
\<close>

section \<open>State\<close>

type_synonym child = "string \<times> int"

definition no_child :: child where "no_child = (zero_address, 0)"

record child_state =
  cs_index :: nat
  cs_balance :: nat
  cs_position1 :: nat

definition no_state :: child_state where
  "no_state = \<lparr>cs_index = 0, cs_balance = 0, cs_position1 = 0\<rparr>"

record token_transfer_params =
  tp_child :: child
  tp_amount :: nat

record token_position_params =
  pp_child :: child
  pp_position1 :: nat

datatype composer_event =
    ChildReceived string child nat
  | ChildTransferred string child nat
  | CompositionAdded child nat
  | CompositionRemoved child nat

text \<open>The entries of the mappings that belong to one token id, and the events logged for it.\<close>

record composer =
  composedChildTokens :: "nat \<Rightarrow> child"
  childContracts :: "string list"
  childTokens :: "string \<Rightarrow> int list"
  childContractIndex :: "string \<Rightarrow> nat"
  childTokenState :: "child \<Rightarrow> child_state"
  emitted :: "composer_event list"

definition new_composer :: composer where
  "new_composer = \<lparr>composedChildTokens = (\<lambda>_. no_child), childContracts = [], childTokens = (\<lambda>_. []),
     childContractIndex = (\<lambda>_. 0), childTokenState = (\<lambda>_. no_state), emitted = []\<rparr>"

text \<open>\<open>te_moves from to child amount\<close>: the child's token contract carries the transfer out.\<close>

record token_env =
  te_self :: string
  te_isApprovedOrOwner :: "string \<Rightarrow> bool"
  te_moves :: "string \<Rightarrow> string \<Rightarrow> child \<Rightarrow> nat \<Rightarrow> bool"

definition emit :: "composer_event \<Rightarrow> composer \<Rightarrow> composer" where
  "emit e c = c\<lparr>emitted := emitted c @ [e]\<rparr>"

definition set_state :: "child \<Rightarrow> child_state \<Rightarrow> composer \<Rightarrow> composer" where
  "set_state ch st c = c\<lparr>childTokenState := (childTokenState c)(ch := st)\<rparr>"

section \<open>Composition\<close>

definition childExists :: "child \<Rightarrow> composer \<Rightarrow> bool" where
  "childExists ch c = (cs_balance (childTokenState c ch) > 0)"

definition remove_composed_child :: "nat \<Rightarrow> composer \<Rightarrow> composer" where
  "remove_composed_child position1 c =
     (let ch = composedChildTokens c position1;
          c1 = c\<lparr>composedChildTokens := (composedChildTokens c)(position1 := no_child)\<rparr>
      in emit (CompositionRemoved ch position1)
           (set_state ch ((childTokenState c1 ch)\<lparr>cs_position1 := 0\<rparr>) c1))"

definition compose_child :: "child \<Rightarrow> nat \<Rightarrow> composer \<Rightarrow> composer" where
  "compose_child ch position1 c =
     (if position1 = 0 then remove_composed_child position1 c
      else (let c1 = (if fst (composedChildTokens c position1) \<noteq> zero_address
                      then remove_composed_child position1 c else c);
                pos1 = cs_position1 (childTokenState c1 ch);
                c2 = (if pos1 \<noteq> 0 then remove_composed_child pos1 c1 else c1);
                c3 = c2\<lparr>composedChildTokens := (composedChildTokens c2)(position1 := ch)\<rparr>
            in emit (CompositionAdded ch position1)
                 (set_state ch ((childTokenState c3 ch)\<lparr>cs_position1 := position1\<rparr>) c3)))"

definition compose_child_batch :: "token_position_params list \<Rightarrow> composer \<Rightarrow> composer option" where
  "compose_child_batch =
     each (\<lambda>p c. if childExists (pp_child p) c then Some (compose_child (pp_child p) (pp_position1 p) c) else None)"

section \<open>Receiving and transferring\<close>

definition receive_child :: "token_env \<Rightarrow> string \<Rightarrow> token_transfer_params \<Rightarrow> composer \<Rightarrow> composer option" where
  "receive_child env sender p c =
     (let ch = tp_child p; amount = tp_amount p;
          childTokensLength = length (childTokens c (fst ch));
          c1 = (if childTokensLength = 0
                then c\<lparr>childContractIndex := (childContractIndex c)(fst ch := length (childContracts c)),
                       childContracts := childContracts c @ [fst ch]\<rparr>
                else c);
          st = childTokenState c1 ch;
          c2 = (if cs_balance st = 0
                then Some (set_state ch \<lparr>cs_index = childTokensLength, cs_balance = amount, cs_position1 = 0\<rparr>
                       (c1\<lparr>childTokens := (childTokens c1)(fst ch := childTokens c1 (fst ch) @ [snd ch])\<rparr>))
                else if cs_balance st + amount < 2 ^ 256
                then Some (set_state ch (st\<lparr>cs_balance := cs_balance st + amount\<rparr>) c1)
                else None)
      in case c2 of
           None \<Rightarrow> None
         | Some c3 \<Rightarrow> if te_moves env sender (te_self env) ch amount
                      then Some (emit (ChildReceived sender ch amount) c3) else None)"

definition receive_child_batch ::
    "token_env \<Rightarrow> string \<Rightarrow> token_transfer_params list \<Rightarrow> composer \<Rightarrow> composer option" where
  "receive_child_batch env sender = each (receive_child env sender)"

text \<open>Removal from an array by moving its last element to the freed index; \<open>length - 1\<close> of an empty
  array and an index out of range revert.\<close>

definition swap_pop :: "'a \<Rightarrow> nat \<Rightarrow> 'a list \<Rightarrow> 'a list option" where
  "swap_pop x i xs =
     (if xs = [] then None
      else if x \<noteq> last xs
      then (if i < length xs then Some (butlast (xs[i := last xs])) else None)
      else Some (butlast xs))"

definition remove_contract :: "string \<Rightarrow> composer \<Rightarrow> composer option" where
  "remove_contract a c =
     (let xs = childContracts c; i = childContractIndex c a
      in case swap_pop a i xs of
           None \<Rightarrow> None
         | Some ys \<Rightarrow>
             (let index = (if a \<noteq> last xs then (childContractIndex c)(last xs := i) else childContractIndex c)
              in Some (c\<lparr>childContracts := ys, childContractIndex := index(a := 0)\<rparr>)))"

definition remove_token :: "child \<Rightarrow> nat \<Rightarrow> composer \<Rightarrow> composer option" where
  "remove_token ch tokenIndex c =
     (let xs = childTokens c (fst ch)
      in case swap_pop (snd ch) tokenIndex xs of
           None \<Rightarrow> None
         | Some ys \<Rightarrow>
             (let lastChild = (fst ch, last xs);
                  c1 = (if snd ch \<noteq> last xs
                        then set_state lastChild ((childTokenState c lastChild)\<lparr>cs_index := tokenIndex\<rparr>) c
                        else c);
                  c2 = set_state ch no_state (c1\<lparr>childTokens := (childTokens c1)(fst ch := ys)\<rparr>)
              in if length xs = 1 then remove_contract (fst ch) c2 else Some c2))"

definition transfer_child :: "token_env \<Rightarrow> string \<Rightarrow> token_transfer_params \<Rightarrow> composer \<Rightarrow> composer option" where
  "transfer_child env to_holder p c =
     (let ch = tp_child p; amount = tp_amount p; st = childTokenState c ch
      in if cs_balance st < amount then None
         else (let c1 = (if cs_position1 st > 0 then remove_composed_child (cs_position1 st) c else c);
                   newChildBalance = cs_balance st - amount;
                   c2 = set_state ch ((childTokenState c1 ch)\<lparr>cs_balance := newChildBalance\<rparr>) c1
               in case (if newChildBalance = 0 then remove_token ch (cs_index st) c2 else Some c2) of
                    None \<Rightarrow> None
                  | Some c3 \<Rightarrow> if te_moves env (te_self env) to_holder ch amount
                               then Some (emit (ChildTransferred to_holder ch amount) c3) else None))"

section \<open>Calls\<close>

datatype composer_call =
    ReceiveChild token_transfer_params
  | ReceiveChildBatch "token_transfer_params list"
  | ReceiveAndComposeChild token_transfer_params nat
  | ReceiveAndComposeChildBatch "(token_transfer_params \<times> nat) list"
  | ReceiveAndComposeChildBatchMixed "token_transfer_params list" "token_position_params list"
  | TransferChild string token_transfer_params
  | TransferChildBatch string "token_transfer_params list"
  | ComposeChild token_position_params
  | ComposeChildBatch "token_position_params list"
  | RemoveComposedChild nat
  | RemoveComposedChildBatch "nat list"

definition position_of :: "token_transfer_params \<times> nat \<Rightarrow> token_position_params" where
  "position_of p = \<lparr>pp_child = tp_child (fst p), pp_position1 = snd p\<rparr>"

definition remove_checked :: "nat \<Rightarrow> composer \<Rightarrow> composer option" where
  "remove_checked position1 c =
     (if fst (composedChildTokens c position1) \<noteq> zero_address then Some (remove_composed_child position1 c) else None)"

fun perform :: "token_env \<Rightarrow> string \<Rightarrow> composer_call \<Rightarrow> composer \<Rightarrow> composer option" where
  "perform env sender (ReceiveChild p) c = receive_child env sender p c"
| "perform env sender (ReceiveChildBatch ps) c = receive_child_batch env sender ps c"
| "perform env sender (ReceiveAndComposeChild p position1) c =
     map_option (compose_child (tp_child p) position1) (receive_child env sender p c)"
| "perform env sender (ReceiveAndComposeChildBatch ps) c =
     Option.bind (receive_child_batch env sender (map fst ps) c) (compose_child_batch (map position_of ps))"
| "perform env sender (ReceiveAndComposeChildBatchMixed rs ps) c =
     Option.bind (receive_child_batch env sender rs c) (compose_child_batch ps)"
| "perform env sender (TransferChild to_holder p) c =
     (if to_holder = zero_address then None else transfer_child env to_holder p c)"
| "perform env sender (TransferChildBatch to_holder ps) c =
     (if to_holder = zero_address then None else each (transfer_child env to_holder) ps c)"
| "perform env sender (ComposeChild p) c = compose_child_batch [p] c"
| "perform env sender (ComposeChildBatch ps) c = compose_child_batch ps c"
| "perform env sender (RemoveComposedChild position1) c = remove_checked position1 c"
| "perform env sender (RemoveComposedChildBatch ps) c = each remove_checked ps c"

definition call_composer :: "token_env \<Rightarrow> string \<Rightarrow> composer_call \<Rightarrow> composer \<Rightarrow> composer option" where
  "call_composer env sender f c = (if te_isApprovedOrOwner env sender then perform env sender f c else None)"

text \<open>A transaction: the surroundings it runs in, its sender and its call; a revert leaves the state as it was.\<close>

type_synonym composer_tx = "token_env \<times> string \<times> composer_call"

definition transact :: "composer_tx \<Rightarrow> composer \<Rightarrow> composer" where
  "transact t c = (case t of (env, sender, f) \<Rightarrow> (case call_composer env sender f c of None \<Rightarrow> c | Some c' \<Rightarrow> c'))"

definition getComposedChildBatch_answer :: "nat \<Rightarrow> nat \<Rightarrow> composer \<Rightarrow> child list" where
  "getComposedChildBatch_answer position1Start position1End c =
     map (composedChildTokens c) [position1Start..<Suc position1End]"


section \<open>The composition is consistent\<close>

text \<open>Positions and children point at each other, and only children that are owned are composed.\<close>

definition composition_ok :: "composer \<Rightarrow> bool" where
  "composition_ok c =
     ((\<forall>p. composedChildTokens c p \<noteq> no_child \<longrightarrow>
         p \<noteq> 0 \<and> fst (composedChildTokens c p) \<noteq> zero_address
         \<and> cs_position1 (childTokenState c (composedChildTokens c p)) = p \<and> childExists (composedChildTokens c p) c)
      \<and> (\<forall>ch. cs_position1 (childTokenState c ch) \<noteq> 0 \<longrightarrow> composedChildTokens c (cs_position1 (childTokenState c ch)) = ch)
      \<and> (\<forall>i. cs_balance (childTokenState c (zero_address, i)) = 0 \<and> cs_position1 (childTokenState c (zero_address, i)) = 0))"

named_theorems composer_frame

lemma emit_frame [composer_frame, simp]:
  "composedChildTokens (emit e c) = composedChildTokens c" "childContracts (emit e c) = childContracts c"
  "childTokens (emit e c) = childTokens c" "childContractIndex (emit e c) = childContractIndex c"
  "childTokenState (emit e c) = childTokenState c" "emitted (emit e c) = emitted c @ [e]"
  by (simp_all add: emit_def)

lemma set_state_frame [composer_frame, simp]:
  "composedChildTokens (set_state ch st c) = composedChildTokens c" "childContracts (set_state ch st c) = childContracts c"
  "childTokens (set_state ch st c) = childTokens c" "childContractIndex (set_state ch st c) = childContractIndex c"
  "childTokenState (set_state ch st c) = (childTokenState c)(ch := st)" "emitted (set_state ch st c) = emitted c"
  by (simp_all add: set_state_def)

lemma remove_composed_child_frame [simp]:
  "childContracts (remove_composed_child p c) = childContracts c" "childTokens (remove_composed_child p c) = childTokens c"
  "childContractIndex (remove_composed_child p c) = childContractIndex c"
  "composedChildTokens (remove_composed_child p c) = (composedChildTokens c)(p := no_child)"
  "cs_position1 (childTokenState (remove_composed_child p c) ch)
     = (if ch = composedChildTokens c p then 0 else cs_position1 (childTokenState c ch))"
  "cs_balance (childTokenState (remove_composed_child p c) ch) = cs_balance (childTokenState c ch)"
  "cs_index (childTokenState (remove_composed_child p c) ch) = cs_index (childTokenState c ch)"
  "childExists ch (remove_composed_child p c) = childExists ch c"
  "emitted (remove_composed_child p c) = emitted c @ [CompositionRemoved (composedChildTokens c p) p]"
  by (simp_all add: remove_composed_child_def Let_def childExists_def)

lemma compose_child_frame [simp]:
  "childContracts (compose_child ch p c) = childContracts c" "childTokens (compose_child ch p c) = childTokens c"
  "childContractIndex (compose_child ch p c) = childContractIndex c"
  "cs_balance (childTokenState (compose_child ch p c) x) = cs_balance (childTokenState c x)"
  "cs_index (childTokenState (compose_child ch p c) x) = cs_index (childTokenState c x)"
  "childExists x (compose_child ch p c) = childExists x c"
  by (simp_all add: compose_child_def Let_def childExists_def)

lemma composition_okD:
  assumes "composition_ok c"
  shows "composedChildTokens c p \<noteq> no_child \<Longrightarrow> p \<noteq> 0"
    and "composedChildTokens c p \<noteq> no_child \<Longrightarrow> fst (composedChildTokens c p) \<noteq> zero_address"
    and "composedChildTokens c p \<noteq> no_child \<Longrightarrow> cs_position1 (childTokenState c (composedChildTokens c p)) = p"
    and "composedChildTokens c p \<noteq> no_child \<Longrightarrow> childExists (composedChildTokens c p) c"
    and "cs_position1 (childTokenState c ch) \<noteq> 0 \<Longrightarrow> composedChildTokens c (cs_position1 (childTokenState c ch)) = ch"
    and "childExists ch c \<Longrightarrow> fst ch \<noteq> zero_address"
    and "cs_position1 (childTokenState c no_child) = 0"
    and "fst (composedChildTokens c p) = zero_address \<longleftrightarrow> composedChildTokens c p = no_child"
    and "composedChildTokens c 0 = no_child"
  using assms by (auto simp: composition_ok_def no_child_def childExists_def) (metis neq0_conv prod.collapse)+

lemma remove_composition_ok:
  assumes "composition_ok c"
  shows "composition_ok (remove_composed_child p c)"
  using assms unfolding composition_ok_def
  by (auto simp: no_child_def split: if_splits) metis+

lemma compose_child_spec:
  assumes ok: "composition_ok c" and p: "p \<noteq> 0" and ex: "childExists ch c"
  shows "composedChildTokens (compose_child ch p c) q =
      (if q = p then ch else if composedChildTokens c q = ch then no_child else composedChildTokens c q)"
    and "cs_position1 (childTokenState (compose_child ch p c) x) =
      (if x = ch then p else if x = composedChildTokens c p then 0 else cs_position1 (childTokenState c x))"
proof -
  note D = composition_okD [OF ok]
  have ch: "ch \<noteq> no_child" "fst ch \<noteq> zero_address" using D(6) [OF ex] by (auto simp: no_child_def)
  define c1 where "c1 = (if fst (composedChildTokens c p) \<noteq> zero_address then remove_composed_child p c else c)"
  have ok1: "composition_ok c1" using ok by (simp add: c1_def remove_composition_ok)
  have c1: "composedChildTokens c1 = (composedChildTokens c)(p := no_child)"
    "cs_position1 (childTokenState c1 x) = (if x = composedChildTokens c p then 0 else cs_position1 (childTokenState c x))" for x
    using D(7,8) by (auto simp: c1_def)
  note D1 = composition_okD [OF ok1]
  define pos1 where "pos1 = cs_position1 (childTokenState c1 ch)"
  have pos1: "composedChildTokens c1 r = ch \<longleftrightarrow> pos1 \<noteq> 0 \<and> r = pos1" for r
    using D1(1,3) D1(5) [of ch] ch by (auto simp: pos1_def)
  define c2 where "c2 = (if pos1 \<noteq> 0 then remove_composed_child pos1 c1 else c1)"
  have c2: "composedChildTokens c2 r = (if composedChildTokens c1 r = ch then no_child else composedChildTokens c1 r)"
    "x \<noteq> ch \<Longrightarrow> cs_position1 (childTokenState c2 x) = cs_position1 (childTokenState c1 x)" for r x
    using pos1 by (auto simp: c2_def)
  have eq: "compose_child ch p c = emit (CompositionAdded ch p) (set_state ch ((childTokenState c2 ch)\<lparr>cs_position1 := p\<rparr>)
      (c2\<lparr>composedChildTokens := (composedChildTokens c2)(p := ch)\<rparr>))"
    using p by (simp add: compose_child_def Let_def c1_def pos1_def c2_def)
  show "composedChildTokens (compose_child ch p c) q =
      (if q = p then ch else if composedChildTokens c q = ch then no_child else composedChildTokens c q)"
    using c2(1) c1(1) by (simp add: eq)
  show "cs_position1 (childTokenState (compose_child ch p c) x) =
      (if x = ch then p else if x = composedChildTokens c p then 0 else cs_position1 (childTokenState c x))"
    using c2(2) c1(2) by (simp add: eq)
qed

lemma compose_composition_ok:
  assumes ok: "composition_ok c" and ex: "childExists ch c"
  shows "composition_ok (compose_child ch p c)"
proof (cases "p = 0")
  case True
  with ok show ?thesis by (simp add: compose_child_def remove_composition_ok)
next
  case False
  note spec = compose_child_spec [OF ok False ex] and D = composition_okD [OF ok]
  let ?c = "compose_child ch p c"
  have ch: "fst ch \<noteq> zero_address" "ch \<noteq> no_child" using D(6) [OF ex] by (auto simp: no_child_def)
  have "cs_position1 (childTokenState ?c (composedChildTokens ?c q)) = q \<and> q \<noteq> 0
      \<and> fst (composedChildTokens ?c q) \<noteq> zero_address \<and> childExists (composedChildTokens ?c q) ?c"
    if "composedChildTokens ?c q \<noteq> no_child" for q
    using that ex ch False D(1,2,4) [of q] D(3) [of q] D(3) [of p] by (auto simp: spec split: if_splits)
  moreover have "composedChildTokens ?c (cs_position1 (childTokenState ?c x)) = x"
    if "cs_position1 (childTokenState ?c x) \<noteq> 0" for x
    using that D(5) [of x] D(3) by (auto simp: spec split: if_splits)
  moreover have "cs_position1 (childTokenState ?c (zero_address, i)) = 0" for i
  proof -
    have "cs_position1 (childTokenState c (zero_address, i)) = 0" using ok by (simp add: composition_ok_def)
    moreover have "(zero_address, i) \<noteq> ch" using ch by auto
    ultimately show ?thesis by (simp add: spec)
  qed
  moreover have "cs_balance (childTokenState ?c (zero_address, i)) = 0" for i
    using ok by (simp add: composition_ok_def)
  ultimately show ?thesis unfolding composition_ok_def by blast
qed

text \<open>Receiving and transferring change balances only, apart from what a transferred child leaves.\<close>

lemma remove_contract_frame:
  assumes "remove_contract a c = Some c'"
  shows "composedChildTokens c' = composedChildTokens c" "childTokenState c' = childTokenState c"
    "childTokens c' = childTokens c" "emitted c' = emitted c"
  using assms by (auto simp: remove_contract_def Let_def split: option.splits)

lemma remove_token_frame:
  assumes "remove_token ch i c = Some c'"
  shows "composedChildTokens c' = composedChildTokens c" "emitted c' = emitted c"
    "cs_balance (childTokenState c' x) = (if x = ch then 0 else cs_balance (childTokenState c x))"
    "cs_position1 (childTokenState c' x) = (if x = ch then 0 else cs_position1 (childTokenState c x))"
proof -
  obtain c2 where "c' = c2 \<or> remove_contract (fst ch) c2 = Some c'"
    and c2: "composedChildTokens c2 = composedChildTokens c" "emitted c2 = emitted c"
      "cs_balance (childTokenState c2 x) = (if x = ch then 0 else cs_balance (childTokenState c x))"
      "cs_position1 (childTokenState c2 x) = (if x = ch then 0 else cs_position1 (childTokenState c x))"
    using assms by (fastforce simp: remove_token_def Let_def no_state_def split: option.splits if_splits)
  then have "composedChildTokens c' = composedChildTokens c2 \<and> childTokenState c' = childTokenState c2 \<and> emitted c' = emitted c2"
    by (auto dest: remove_contract_frame)
  with c2 show "composedChildTokens c' = composedChildTokens c" "emitted c' = emitted c"
    "cs_balance (childTokenState c' x) = (if x = ch then 0 else cs_balance (childTokenState c x))"
    "cs_position1 (childTokenState c' x) = (if x = ch then 0 else cs_position1 (childTokenState c x))"
    by simp_all
qed

lemma receive_child_frame:
  assumes "receive_child env sender p c = Some c'"
  shows "composedChildTokens c' = composedChildTokens c"
    "cs_balance (childTokenState c' x) = cs_balance (childTokenState c x) + (if x = tp_child p then tp_amount p else 0)"
    "cs_position1 (childTokenState c' x) =
      (if x = tp_child p \<and> cs_balance (childTokenState c x) = 0 then 0 else cs_position1 (childTokenState c x))"
    "te_moves env sender (te_self env) (tp_child p) (tp_amount p)"
    "emitted c' = emitted c @ [ChildReceived sender (tp_child p) (tp_amount p)]"
  using assms by (auto simp: receive_child_def Let_def split: option.splits if_splits)

lemma transfer_child_frame:
  assumes "transfer_child env to_holder p c = Some c'" and ok: "composition_ok c"
  defines "ch \<equiv> tp_child p"
  shows "composedChildTokens c' q = (if composedChildTokens c q = ch then no_child else composedChildTokens c q)"
    and "cs_balance (childTokenState c' x) = cs_balance (childTokenState c x) - (if x = ch then tp_amount p else 0)"
    and "cs_position1 (childTokenState c' x) = (if x = ch then 0 else cs_position1 (childTokenState c x))"
    and "tp_amount p \<le> cs_balance (childTokenState c ch)"
proof -
  let ?st = "childTokenState c ch"
  define c1 where "c1 = (if cs_position1 ?st > 0 then remove_composed_child (cs_position1 ?st) c else c)"
  define c2 where "c2 = set_state ch ((childTokenState c1 ch)\<lparr>cs_balance := cs_balance ?st - tp_amount p\<rparr>) c1"
  obtain c3 where amount: "tp_amount p \<le> cs_balance ?st"
    and c3: "(if cs_balance ?st - tp_amount p = 0 then remove_token ch (cs_index ?st) c2 else Some c2) = Some c3"
    and c': "c' = emit (ChildTransferred to_holder ch (tp_amount p)) c3"
    using assms(1) by (auto simp: transfer_child_def Let_def ch_def c1_def c2_def split: if_splits option.splits)
  note D = composition_okD [OF ok]
  have c1: "composedChildTokens c1 q = (if composedChildTokens c q = ch then no_child else composedChildTokens c q)"
    "cs_position1 (childTokenState c1 x) = (if x = ch then 0 else cs_position1 (childTokenState c x))"
    "cs_balance (childTokenState c1 x) = cs_balance (childTokenState c x)" for q x
    using D(3) [of q] D(5) [of ch] D(1) [of q] by (cases "composedChildTokens c q = no_child"; auto simp: c1_def)+
  show "composedChildTokens c' q = (if composedChildTokens c q = ch then no_child else composedChildTokens c q)"
    using c3 by (auto simp: c' c2_def c1 split: if_splits dest!: remove_token_frame(1))
  show "cs_balance (childTokenState c' x) = cs_balance (childTokenState c x) - (if x = ch then tp_amount p else 0)"
    using c3 by (auto simp: c' c2_def c1 remove_token_frame(3) split: if_splits)
  show "cs_position1 (childTokenState c' x) = (if x = ch then 0 else cs_position1 (childTokenState c x))"
    using c3 by (auto simp: c' c2_def c1 remove_token_frame(4) split: if_splits)
  show "tp_amount p \<le> cs_balance (childTokenState c ch)" by (rule amount)
qed

lemma receive_composition_ok:
  assumes "composition_ok c" and "receive_child env sender p c = Some c'"
    and "fst (tp_child p) \<noteq> zero_address"
  shows "composition_ok c'"
proof -
  note R = receive_child_frame [OF assms(2)] and D = composition_okD [OF assms(1)]
  have z: "cs_position1 (childTokenState c x) = 0" if "cs_balance (childTokenState c x) = 0" for x
    using that D(4) [of "cs_position1 (childTokenState c x)"] D(5) [of x] D(7) by (metis childExists_def less_not_refl)
  have "cs_position1 (childTokenState c' x) = cs_position1 (childTokenState c x)" for x by (cases "x = tp_child p") (simp_all add: R(3) z)
  moreover have "childExists x c \<Longrightarrow> childExists x c'" for x by (simp add: childExists_def R(2))
  moreover have "(zero_address, i) \<noteq> tp_child p" for i using assms(3) by (metis fst_conv)
  ultimately show ?thesis
    using assms(1) unfolding composition_ok_def by (auto simp: R(1,2))
qed

lemma transfer_composition_ok:
  assumes "composition_ok c" and "transfer_child env to_holder p c = Some c'"
  shows "composition_ok c'"
proof -
  note T = transfer_child_frame [OF assms(2,1)]
  have "childExists (composedChildTokens c' q) c'" if "composedChildTokens c' q \<noteq> no_child" for q
    using that assms(1) by (auto simp: T composition_ok_def childExists_def split: if_splits)
  then show ?thesis
    using assms(1) unfolding composition_ok_def by (auto simp: T(1,2,3) split: if_splits)
qed

section \<open>The enumerations are complete\<close>

definition enumerates :: "'a list \<Rightarrow> ('a \<Rightarrow> nat) \<Rightarrow> bool" where
  "enumerates xs index = (distinct xs \<and> (\<forall>i < length xs. index (xs ! i) = i))"

lemma enumerates_push:
  assumes "enumerates xs index" "x \<notin> set xs"
  shows "enumerates (xs @ [x]) (index(x := length xs))"
  using assms by (auto simp: enumerates_def nth_append less_Suc_eq)

lemma enumerates_cong: "(\<And>x. x \<in> set xs \<Longrightarrow> index x = index' x) \<Longrightarrow> enumerates xs index = enumerates xs index'"
  by (simp add: enumerates_def cong: conj_cong)

lemma swap_pop_enumerates:
  assumes e: "enumerates xs index" and x: "x \<in> set xs"
  obtains ys where "swap_pop x (index x) xs = Some ys" "set ys = set xs - {x}" "length ys = length xs - 1"
    "enumerates ys (if x \<noteq> last xs then index(last xs := index x) else index)"
proof -
  have ne: "xs \<noteq> []" using x by auto
  obtain i where i: "i < length xs" "xs ! i = x" using x by (auto simp: in_set_conv_nth)
  have ix: "index x = i" and d: "distinct xs" using e i by (auto simp: enumerates_def)
  define n where "n = length xs - 1"
  have n: "length xs = Suc n" "last xs = xs ! n" using ne by (auto simp: n_def last_conv_nth)
  show thesis
  proof (cases "x = last xs")
    case True
    have "set (butlast xs) = set xs - {x}"
      using d ne True append_butlast_last_id [OF ne] by (metis Diff_insert_absorb distinct_butlast list.simps(15)
        rotate1.simps(2) set_rotate1 not_distinct_conv_prefix)
    moreover have "enumerates (butlast xs) index"
      using e by (auto simp: enumerates_def distinct_butlast nth_butlast)
    ultimately show ?thesis using that [of "butlast xs"] ne True by (simp add: swap_pop_def)
  next
    case False
    with i n have lt: "i < n" by (metis less_Suc_eq)
    define ys where "ys = butlast (xs[i := last xs])"
    have ly: "length ys = n" by (simp add: ys_def n)
    have nth: "ys ! j = (if j = i then xs ! n else xs ! j)" if "j < n" for j
      using that by (simp add: ys_def nth_butlast n)
    have "distinct ys"
      using d lt n by (auto simp: distinct_conv_nth ly nth)
    moreover have "set ys = set xs - {x}"
    proof -
      have "y \<in> set ys \<longleftrightarrow> y \<in> set xs \<and> y \<noteq> x" for y
      proof
        assume "y \<in> set ys"
        then obtain j where j: "j < n" "y = ys ! j" by (auto simp: in_set_conv_nth ly)
        then show "y \<in> set xs \<and> y \<noteq> x"
          using d lt n i by (auto simp: nth nth_eq_iff_index_eq)
      next
        assume "y \<in> set xs \<and> y \<noteq> x"
        then obtain j where j: "j < Suc n" "y = xs ! j" "j \<noteq> i" using n i by (auto simp: in_set_conv_nth)
        then have "(j = n \<and> y = ys ! i) \<or> (j < n \<and> y = ys ! j)" using lt by (cases "j = n") (auto simp: nth)
        then show "y \<in> set ys" using lt ly by (auto intro: nth_mem)
      qed
      then show ?thesis by auto
    qed
    moreover have "enumerates ys (index(last xs := i))"
    proof -
      have "(index(xs ! n := i)) (ys ! j) = j" if "j < n" for j
        using that e lt n d by (auto simp: nth enumerates_def nth_eq_iff_index_eq)
      with \<open>distinct ys\<close> show ?thesis by (simp add: enumerates_def ly n)
    qed
    ultimately show ?thesis using that [of ys] ne False i n by (simp add: swap_pop_def ys_def ix)
  qed
qed


definition enumeration_ok :: "composer \<Rightarrow> bool" where
  "enumeration_ok c =
     ((\<forall>a. enumerates (childTokens c a) (\<lambda>i. cs_index (childTokenState c (a, i)))
         \<and> set (childTokens c a) = {i. childExists (a, i) c})
      \<and> enumerates (childContracts c) (childContractIndex c)
      \<and> set (childContracts c) = {a. childTokens c a \<noteq> []})"

text \<open>Steps that keep the arrays, indexes and balances keep the enumerations.\<close>

lemma enumeration_same:
  assumes "enumeration_ok c" "childTokens c' = childTokens c" "childContracts c' = childContracts c"
    "childContractIndex c' = childContractIndex c"
    "\<And>x. cs_index (childTokenState c' x) = cs_index (childTokenState c x)"
    "\<And>x. childExists x c' = childExists x c"
  shows "enumeration_ok c'"
  using assms by (simp add: enumeration_ok_def)

lemma receive_enumeration_ok:
  assumes e: "enumeration_ok c" and r: "receive_child env sender p c = Some c'" and pos: "tp_amount p > 0"
  shows "enumeration_ok c'"
proof -
  obtain a i where ch: "tp_child p = (a, i)" by (cases "tp_child p")
  let ?st = "childTokenState c (a, i)"
  have ex: "childExists x c' = (childExists x c \<or> x = (a, i))" for x
    using receive_child_frame(2) [OF r] pos ch by (auto simp: childExists_def)
  have contracts: "enumerates (childContracts c') (childContractIndex c') \<and> set (childContracts c') = insert a (set (childContracts c))"
  proof (cases "childTokens c a = []")
    case True
    then have "a \<notin> set (childContracts c)" using e by (simp add: enumeration_ok_def)
    then have "enumerates (childContracts c @ [a]) ((childContractIndex c)(a := length (childContracts c)))"
      using e by (auto simp: enumeration_ok_def intro: enumerates_push)
    with True r ch show ?thesis by (auto simp: receive_child_def Let_def split: option.splits if_splits)
  next
    case False
    then have "a \<in> set (childContracts c)" using e by (simp add: enumeration_ok_def)
    with False r ch e show ?thesis
      by (auto simp: receive_child_def Let_def enumeration_ok_def insert_absorb split: option.splits if_splits)
  qed
  show ?thesis
  proof (cases "cs_balance ?st = 0")
    case True
    then have "i \<notin> set (childTokens c a)" using e by (simp add: enumeration_ok_def childExists_def)
    then have push: "enumerates (childTokens c a @ [i]) ((\<lambda>i. cs_index (childTokenState c (a, i)))(i := length (childTokens c a)))"
      using e by (auto simp: enumeration_ok_def intro: enumerates_push)
    have t: "childTokens c' = (childTokens c)(a := childTokens c a @ [i])"
      "cs_index (childTokenState c' x) = (if x = (a, i) then length (childTokens c a) else cs_index (childTokenState c x))" for x
      using True r ch by (auto simp: receive_child_def Let_def split: option.splits if_splits)
    have "enumerates (childTokens c' b) (\<lambda>j. cs_index (childTokenState c' (b, j)))" for b
      using push e by (auto simp: t enumeration_ok_def fun_upd_def if_distrib cong: if_cong)
    moreover have "set (childTokens c' b) = {j. childExists (b, j) c'}" for b
      using e by (auto simp: t ex enumeration_ok_def)
    moreover have "insert a (set (childContracts c)) = {b. childTokens c' b \<noteq> []}"
      using e by (auto simp: t enumeration_ok_def)
    ultimately show ?thesis using contracts by (simp add: enumeration_ok_def)
  next
    case False
    have t: "childTokens c' = childTokens c" "cs_index (childTokenState c' x) = cs_index (childTokenState c x)" for x
      using False r ch by (auto simp: receive_child_def Let_def split: option.splits if_splits)
    have "childExists (a, i) c" using False by (simp add: childExists_def)
    then have "i \<in> set (childTokens c a)" using e by (simp add: enumeration_ok_def)
    then have "childTokens c a \<noteq> []" by auto
    then have "a \<in> set (childContracts c)" using e by (simp add: enumeration_ok_def)
    moreover have "childExists x c' = childExists x c" for x using \<open>childExists (a, i) c\<close> by (auto simp: ex)
    ultimately show ?thesis using contracts e by (simp add: enumeration_ok_def t insert_absorb)
  qed
qed


lemma remove_contract_enumerates:
  assumes "enumerates (childContracts c) (childContractIndex c)" and "a \<in> set (childContracts c)"
  obtains c' where "remove_contract a c = Some c'" "enumerates (childContracts c') (childContractIndex c')"
    "set (childContracts c') = set (childContracts c) - {a}"
proof (rule swap_pop_enumerates [OF assms])
  fix ys
  assume ys: "swap_pop a (childContractIndex c a) (childContracts c) = Some ys" "set ys = set (childContracts c) - {a}"
    "enumerates ys (if a \<noteq> last (childContracts c)
       then (childContractIndex c)(last (childContracts c) := childContractIndex c a) else childContractIndex c)"
  then have "enumerates ys ((if a \<noteq> last (childContracts c)
       then (childContractIndex c)(last (childContracts c) := childContractIndex c a) else childContractIndex c)(a := 0))"
    by (subst enumerates_cong [of _ _ "if a \<noteq> last (childContracts c)
       then (childContractIndex c)(last (childContracts c) := childContractIndex c a) else childContractIndex c"]) auto
  with ys show thesis
    by (intro that [of "c\<lparr>childContracts := ys, childContractIndex := ((if a \<noteq> last (childContracts c)
       then (childContractIndex c)(last (childContracts c) := childContractIndex c a) else childContractIndex c)(a := 0))\<rparr>"])
      (simp_all add: remove_contract_def Let_def)
qed

lemma remove_token_enumerates:
  assumes e: "enumeration_ok c" and ex: "childExists (a, i) c"
    and i: "n = cs_index (childTokenState c (a, i))"
    and c1: "childTokens c1 = childTokens c" "childContracts c1 = childContracts c" "childContractIndex c1 = childContractIndex c"
      "\<And>x. cs_index (childTokenState c1 x) = cs_index (childTokenState c x)"
      "\<And>x. x \<noteq> (a, i) \<Longrightarrow> childExists x c1 = childExists x c"
  obtains c' where "remove_token (a, i) n c1 = Some c'" "enumeration_ok c'"
proof -
  let ?xs = "childTokens c a" let ?index = "\<lambda>j. cs_index (childTokenState c (a, j))"
  have en: "enumerates ?xs ?index" and mem: "i \<in> set ?xs" using e ex by (simp_all add: enumeration_ok_def)
  from swap_pop_enumerates [OF this] obtain ys where
    ys: "swap_pop i n ?xs = Some ys" "set ys = set ?xs - {i}" "length ys = length ?xs - 1"
      "enumerates ys (if i \<noteq> last ?xs then ?index(last ?xs := n) else ?index)"
    using i by metis
  define c2 where "c2 = (if i \<noteq> last ?xs
    then set_state (a, last ?xs) ((childTokenState c1 (a, last ?xs))\<lparr>cs_index := n\<rparr>) c1 else c1)"
  define c3 where "c3 = set_state (a, i) no_state (c2\<lparr>childTokens := (childTokens c2)(a := ys)\<rparr>)"
  have t3: "childTokens c3 = (childTokens c)(a := ys)" "childContracts c3 = childContracts c" "childContractIndex c3 = childContractIndex c"
    by (simp_all add: c3_def c2_def c1)
  have x3: "cs_index (childTokenState c3 x) = (if x = (a, i) then 0 else if i \<noteq> last ?xs \<and> x = (a, last ?xs) then n
      else cs_index (childTokenState c x))" for x
    by (simp add: c3_def c2_def c1(4) no_state_def)
  have ex3: "childExists x c3 = (childExists x c \<and> x \<noteq> (a, i))" for x
    using c1(5) [of x] by (auto simp: c3_def c2_def childExists_def no_state_def)
  have "enumerates (childTokens c3 b) (\<lambda>j. cs_index (childTokenState c3 (b, j)))" for b
  proof (cases "b = a")
    case True
    have "enumerates ys (\<lambda>j. cs_index (childTokenState c3 (a, j)))"
      using ys(4) ys(2) by (subst enumerates_cong [of _ _ "if i \<noteq> last ?xs then ?index(last ?xs := n) else ?index"]) (auto simp: x3)
    with True show ?thesis by (simp add: t3)
  next
    case False
    with e show ?thesis by (simp add: t3 x3 enumeration_ok_def)
  qed
  moreover have "set (childTokens c3 b) = {j. childExists (b, j) c3}" for b
    using e ys(2) by (auto simp: t3 ex3 enumeration_ok_def)
  ultimately have tokens: "\<forall>b. enumerates (childTokens c3 b) (\<lambda>j. cs_index (childTokenState c3 (b, j)))
      \<and> set (childTokens c3 b) = {j. childExists (b, j) c3}" by blast
  have rt: "remove_token (a, i) n c1 = (if length ?xs = 1 then remove_contract a c3 else Some c3)"
    using ys(1) by (simp add: remove_token_def Let_def c1 c2_def c3_def)
  show thesis
  proof (cases "length ?xs = 1")
    case True
    then have "ys = []" using ys(3) by simp
    have "?xs \<noteq> []" using mem by auto
    then have "a \<in> set (childContracts c3)" using e by (simp add: t3 enumeration_ok_def)
    moreover have "enumerates (childContracts c3) (childContractIndex c3)" using e by (simp add: t3 enumeration_ok_def)
    ultimately obtain c4 where c4: "remove_contract a c3 = Some c4" "enumerates (childContracts c4) (childContractIndex c4)"
      "set (childContracts c4) = set (childContracts c3) - {a}" by (metis remove_contract_enumerates)
    note f = remove_contract_frame [OF c4(1)]
    have "set (childContracts c4) = {b. childTokens c4 b \<noteq> []}"
      using e \<open>ys = []\<close> by (auto simp: c4(3) f(3) t3 enumeration_ok_def)
    with tokens c4(2) have "enumeration_ok c4" by (simp add: enumeration_ok_def f childExists_def)
    then show thesis using that rt True c4(1) by simp
  next
    case False
    have "set (childContracts c3) = {b. childTokens c3 b \<noteq> []}"
    proof -
      have "length ys > 0" unfolding ys(3) using False mem by (cases ?xs) auto
      then have "ys \<noteq> []" by simp
      moreover have "?xs \<noteq> []" using mem by auto
      ultimately show ?thesis using e by (auto simp: t3 enumeration_ok_def)
    qed
    with tokens e have "enumeration_ok c3" by (simp add: enumeration_ok_def t3(2,3))
    then show thesis using that rt False by simp
  qed
qed


lemma transfer_enumeration_ok:
  assumes e: "enumeration_ok c" and ok: "composition_ok c" and t: "transfer_child env to_holder p c = Some c'"
    and pos: "tp_amount p > 0"
  shows "enumeration_ok c'"
proof -
  obtain a i where ch: "tp_child p = (a, i)" by (cases "tp_child p")
  let ?st = "childTokenState c (a, i)"
  define c1 where "c1 = (if cs_position1 ?st > 0 then remove_composed_child (cs_position1 ?st) c else c)"
  define c2 where "c2 = set_state (a, i) ((childTokenState c1 (a, i))\<lparr>cs_balance := cs_balance ?st - tp_amount p\<rparr>) c1"
  obtain c3 where amount: "tp_amount p \<le> cs_balance ?st"
    and c3: "(if cs_balance ?st - tp_amount p = 0 then remove_token (a, i) (cs_index ?st) c2 else Some c2) = Some c3"
    and c': "c' = emit (ChildTransferred to_holder (a, i) (tp_amount p)) c3"
    using t by (auto simp: transfer_child_def Let_def ch c1_def c2_def split: if_splits option.splits)
  have c2s: "childTokens c2 = childTokens c" "childContracts c2 = childContracts c" "childContractIndex c2 = childContractIndex c"
    "cs_index (childTokenState c2 x) = cs_index (childTokenState c x)"
    "x \<noteq> (a, i) \<Longrightarrow> childExists x c2 = childExists x c" for x
    by (auto simp: c2_def c1_def childExists_def)
  have "enumeration_ok c3"
  proof (cases "cs_balance ?st - tp_amount p = 0")
    case True
    have "childExists (a, i) c" using amount pos by (simp add: childExists_def)
    with c3 True show ?thesis by (metis remove_token_enumerates [OF e _ refl c2s] option.inject)
  next
    case False
    have "childExists x c2 = childExists x c" for x
    proof (cases "x = (a, i)")
      case True
      with \<open>cs_balance ?st - tp_amount p \<noteq> 0\<close> show ?thesis by (simp add: c2_def childExists_def)
    qed (rule c2s(5))
    then have "enumeration_ok c2" by (rule enumeration_same [OF e c2s(1-4)])
    with False c3 show ?thesis by simp
  qed
  then show ?thesis by (simp add: c' enumeration_ok_def childExists_def)
qed

section \<open>Balances and events\<close>

definition received :: "child \<Rightarrow> composer_event list \<Rightarrow> nat" where
  "received ch es = sum_list (map (\<lambda>e. case e of ChildReceived _ x n \<Rightarrow> if x = ch then n else 0 | _ \<Rightarrow> 0) es)"

definition transferred_on :: "child \<Rightarrow> composer_event list \<Rightarrow> nat" where
  "transferred_on ch es = sum_list (map (\<lambda>e. case e of ChildTransferred _ x n \<Rightarrow> if x = ch then n else 0 | _ \<Rightarrow> 0) es)"

definition balances_ok :: "composer \<Rightarrow> bool" where
  "balances_ok c = (\<forall>ch. received ch (emitted c) = cs_balance (childTokenState c ch) + transferred_on ch (emitted c))"

lemma remove_balances_ok: "balances_ok c \<Longrightarrow> balances_ok (remove_composed_child p c)"
  by (simp add: balances_ok_def received_def transferred_on_def)

lemma compose_balances_ok:
  assumes "balances_ok c"
  shows "balances_ok (compose_child ch p c)"
proof -
  have "balances_ok (emit (CompositionAdded ch p) (set_state ch ((childTokenState c3 ch)\<lparr>cs_position1 := p\<rparr>)
      (c3\<lparr>composedChildTokens := f\<rparr>)))" if "balances_ok c3" for c3 f
    using that by (simp add: balances_ok_def received_def transferred_on_def)
  with assms show ?thesis by (simp add: compose_child_def Let_def remove_balances_ok)
qed

lemma receive_balances_ok:
  assumes "balances_ok c" "receive_child env sender p c = Some c'"
  shows "balances_ok c'"
  using assms(1) receive_child_frame(2,5) [OF assms(2)]
  by (simp add: balances_ok_def received_def transferred_on_def)

lemma transfer_balances_ok:
  assumes b: "balances_ok c" and "composition_ok c" and t: "transfer_child env to_holder p c = Some c'"
  shows "balances_ok c'"
proof -
  note f = transfer_child_frame [OF t assms(2)]
  have "received ch (emitted c') = received ch (emitted c)
     \<and> transferred_on ch (emitted c') = transferred_on ch (emitted c) + (if ch = tp_child p then tp_amount p else 0)" for ch
    using t by (auto simp: transfer_child_def Let_def received_def transferred_on_def remove_token_frame(2)
        split: if_splits option.splits)
  with b f(2,4) show ?thesis by (auto simp: balances_ok_def)
qed

section \<open>Every transaction keeps the contract consistent\<close>

definition composer_ok :: "composer \<Rightarrow> bool" where
  "composer_ok c = (composition_ok c \<and> enumeration_ok c \<and> balances_ok c)"

text \<open>A call to the zero address reverts, so no token can be moved there.\<close>

definition lawful :: "token_env \<Rightarrow> bool" where
  "lawful env = (\<forall>sender to_holder i n. \<not> te_moves env sender to_holder (zero_address, i) n)"

fun amounts :: "composer_call \<Rightarrow> nat list" where
  "amounts (ReceiveChild p) = [tp_amount p]"
| "amounts (ReceiveChildBatch ps) = map tp_amount ps"
| "amounts (ReceiveAndComposeChild p _) = [tp_amount p]"
| "amounts (ReceiveAndComposeChildBatch ps) = map (tp_amount \<circ> fst) ps"
| "amounts (ReceiveAndComposeChildBatchMixed rs _) = map tp_amount rs"
| "amounts (TransferChild _ p) = [tp_amount p]"
| "amounts (TransferChildBatch _ ps) = map tp_amount ps"
| "amounts _ = []"

definition tx_ok :: "composer_tx \<Rightarrow> bool" where
  "tx_ok t = (case t of (env, sender, f) \<Rightarrow> lawful env \<and> list_all (\<lambda>n. n > 0) (amounts f))"

lemma composer_ok_new: "composer_ok new_composer"
  by (auto simp: composer_ok_def composition_ok_def enumeration_ok_def enumerates_def balances_ok_def new_composer_def
      received_def transferred_on_def no_state_def childExists_def)

lemma remove_composer_ok: "composer_ok c \<Longrightarrow> composer_ok (remove_composed_child p c)"
  by (auto simp: composer_ok_def remove_composition_ok remove_balances_ok intro: enumeration_same)

lemma compose_composer_ok: "composer_ok c \<Longrightarrow> childExists ch c \<Longrightarrow> composer_ok (compose_child ch p c)"
  by (auto simp: composer_ok_def compose_composition_ok compose_balances_ok intro: enumeration_same)

lemma receive_composer_ok:
  assumes "composer_ok c" "receive_child env sender p c = Some c'" "lawful env" "tp_amount p > 0"
  shows "composer_ok c'"
proof -
  have "fst (tp_child p) \<noteq> zero_address"
    using receive_child_frame(4) [OF assms(2)] assms(3) by (metis lawful_def prod.collapse)
  with assms show ?thesis
    by (auto simp: composer_ok_def intro: receive_composition_ok receive_enumeration_ok receive_balances_ok)
qed

lemma transfer_composer_ok:
  assumes "composer_ok c" "transfer_child env to_holder p c = Some c'" "tp_amount p > 0"
  shows "composer_ok c'"
  using assms
  by (auto simp: composer_ok_def intro: transfer_composition_ok transfer_enumeration_ok transfer_balances_ok)


lemma compose_batch_ok:
  assumes "compose_child_batch ps c = Some c'" "composer_ok c"
  shows "composer_ok c'"
  using assms(1) unfolding compose_child_batch_def
  by (rule each_preserves [where P = composer_ok, OF _ assms(2)]) (auto intro: compose_composer_ok split: if_splits)

lemma receive_batch_ok:
  assumes "receive_child_batch env sender ps c = Some c'" "composer_ok c" "lawful env" "list_all (\<lambda>p. tp_amount p > 0) ps"
  shows "composer_ok c'"
  using assms(1) unfolding receive_child_batch_def
  by (rule each_preserves_all [where P = composer_ok, OF _ assms(2,4)]) (auto intro: receive_composer_ok assms(3))

lemma perform_composer_ok:
  assumes "perform env sender f c = Some c'" "composer_ok c" "lawful env" "list_all (\<lambda>n. n > 0) (amounts f)"
  shows "composer_ok c'"
proof -
  have receive: "composer_ok s'" if "receive_child_batch env sender ps s = Some s'" "composer_ok s"
    "list_all (\<lambda>p. tp_amount p > 0) ps" for ps s s'
    using receive_batch_ok [OF that(1,2) assms(3) that(3)] .
  have transfer: "composer_ok s'" if "each (transfer_child env to_holder) ps s = Some s'" "composer_ok s"
    "list_all (\<lambda>p. tp_amount p > 0) ps" for to_holder ps s s'
    by (rule each_preserves_all [where P = composer_ok, OF that]) (rule transfer_composer_ok)
  have remove: "composer_ok s'" if "each remove_checked ps s = Some s'" "composer_ok s" for ps s s'
    by (rule each_preserves [where P = composer_ok, OF that])
      (auto simp: remove_checked_def remove_composer_ok split: if_splits)
  show ?thesis
  proof (cases f)
    case (ReceiveAndComposeChild p position1)
    then obtain c1 where c1: "receive_child env sender p c = Some c1" "c' = compose_child (tp_child p) position1 c1"
      using assms(1) by auto
    have "composer_ok c1" using receive_composer_ok [OF assms(2) c1(1) assms(3)] assms(4) ReceiveAndComposeChild by simp
    moreover have "childExists (tp_child p) c1"
      using receive_child_frame(2) [OF c1(1), of "tp_child p"] assms(4) ReceiveAndComposeChild by (simp add: childExists_def)
    ultimately show ?thesis by (simp add: c1(2) compose_composer_ok)
  next
    case (ReceiveAndComposeChildBatch ps)
    then show ?thesis
      using assms
      by (auto simp: bind_eq_Some_conv list_all_iff elim!: compose_batch_ok intro!: receive [of "map fst ps" c])
  next
    case (ReceiveAndComposeChildBatchMixed rs ps)
    then show ?thesis
      using assms by (auto simp: bind_eq_Some_conv list_all_iff elim!: compose_batch_ok intro!: receive [of rs c])
  next
    case (ReceiveChild p)
    with assms show ?thesis by (auto intro: receive_composer_ok)
  next
    case (ReceiveChildBatch ps)
    with assms show ?thesis by (auto simp: list_all_iff intro: receive)
  next
    case (TransferChild to_holder p)
    with assms show ?thesis by (auto split: if_splits intro: transfer_composer_ok)
  next
    case (TransferChildBatch to_holder ps)
    with assms show ?thesis by (auto simp: list_all_iff split: if_splits intro: transfer)
  next
    case (RemoveComposedChild position1)
    with assms show ?thesis by (auto simp: remove_checked_def remove_composer_ok split: if_splits)
  next
    case (RemoveComposedChildBatch ps)
    with assms(1) have "each remove_checked ps c = Some c'" by simp
    then show ?thesis by (rule remove [OF _ assms(2)])
  next
    case (ComposeChild p)
    with assms(1) have "compose_child_batch [p] c = Some c'" by simp
    then show ?thesis by (rule compose_batch_ok [OF _ assms(2)])
  next
    case (ComposeChildBatch ps)
    with assms(1) have "compose_child_batch ps c = Some c'" by simp
    then show ?thesis by (rule compose_batch_ok [OF _ assms(2)])
  qed
qed


lemma transact_composer_ok:
  assumes "composer_ok c" "tx_ok t"
  shows "composer_ok (transact t c)"
proof -
  obtain env sender f where t: "t = (env, sender, f)" by (cases t)
  show ?thesis
  proof (cases "call_composer env sender f c")
    case (Some c')
    then have "perform env sender f c = Some c'" by (simp add: call_composer_def split: if_splits)
    then have "composer_ok c'" by (rule perform_composer_ok) (use assms t in \<open>simp_all add: tx_ok_def\<close>)
    with Some t show ?thesis by (simp add: transact_def)
  qed (use assms t in \<open>simp add: transact_def\<close>)
qed

interpretation noun: event_driven transact "\<lambda>_. tx_ok" composer_ok
  by unfold_locales (rule transact_composer_ok)

lemma composer_run: "list_all tx_ok txs \<Longrightarrow> composer_ok (fold transact txs new_composer)"
  using noun.run_inv [OF composer_ok_new] by (simp add: admissible_all)

text \<open>C1. After any sequence of transactions that move positive amounts: a position holds a child exactly when the
  child's state names the position, and then the Noun owns the child; the enumeration of a contract's tokens
  lists exactly the owned ones, once each, that of the contracts exactly those with tokens; and a balance is what the
  events say was received minus what was transferred on.\<close>

theorem composer_consistent:
  assumes "list_all tx_ok txs"
  shows "let c = fold transact txs new_composer
    in (composedChildTokens c p = ch \<and> ch \<noteq> no_child) = (cs_position1 (childTokenState c ch) = p \<and> p \<noteq> 0)
     \<and> (composedChildTokens c p = ch \<and> ch \<noteq> no_child \<longrightarrow> childExists ch c)
     \<and> distinct (childTokens c a) \<and> set (childTokens c a) = {i. childExists (a, i) c}
     \<and> distinct (childContracts c) \<and> set (childContracts c) = {a. \<exists>i. childExists (a, i) c}
     \<and> int (cs_balance (childTokenState c ch)) = int (received ch (emitted c)) - int (transferred_on ch (emitted c))"
proof -
  let ?c = "fold transact txs new_composer"
  have ok: "composition_ok ?c" "enumeration_ok ?c" "balances_ok ?c"
    using composer_run [OF assms] by (simp_all add: composer_ok_def)
  note D = composition_okD [OF ok(1)]
  have "(composedChildTokens ?c p = ch \<and> ch \<noteq> no_child) = (cs_position1 (childTokenState ?c ch) = p \<and> p \<noteq> 0)"
    using D(1,3) [of p] D(5) [of ch] D(7) by metis
  moreover have "composedChildTokens ?c p = ch \<and> ch \<noteq> no_child \<longrightarrow> childExists ch ?c" using D(4) by auto
  moreover have "distinct (childTokens ?c a)" "set (childTokens ?c a) = {i. childExists (a, i) ?c}"
    "distinct (childContracts ?c)"
    using ok(2) by (simp_all add: enumeration_ok_def enumerates_def)
  moreover have "(childTokens ?c b \<noteq> []) = (\<exists>i. childExists (b, i) ?c)" for b
  proof -
    have "(childTokens ?c b \<noteq> []) = (set (childTokens ?c b) \<noteq> {})" by simp
    also have "\<dots> = (\<exists>i. childExists (b, i) ?c)" using ok(2) by (auto simp only: enumeration_ok_def)
    finally show ?thesis .
  qed
  then have "set (childContracts ?c) = {a. \<exists>i. childExists (a, i) ?c}" using ok(2) by (simp add: enumeration_ok_def)
  moreover have "int (cs_balance (childTokenState ?c ch)) = int (received ch (emitted ?c)) - int (transferred_on ch (emitted ?c))"
    using ok(3) [unfolded balances_ok_def, rule_format, of ch] by simp
  ultimately show ?thesis by (simp add: Let_def)
qed

definition demo_env :: token_env where
  "demo_env = \<lparr>te_self = ''composer'', te_isApprovedOrOwner = (\<lambda>s. s = ''ann''),
     te_moves = (\<lambda>_ _ ch _. fst ch \<noteq> zero_address)\<rparr>"

definition demo_txs :: "composer_tx list" where
  "demo_txs =
     [(demo_env, ''ann'', ReceiveChildBatch [\<lparr>tp_child = (''hats'', 3), tp_amount = 1\<rparr>, \<lparr>tp_child = (''hats'', 5), tp_amount = 2\<rparr>]),
      (demo_env, ''ann'', ComposeChildBatch [\<lparr>pp_child = (''hats'', 3), pp_position1 = 9\<rparr>, \<lparr>pp_child = (''hats'', 5), pp_position1 = 12\<rparr>]),
      (demo_env, ''bob'', RemoveComposedChild 9),
      (demo_env, ''ann'', TransferChild ''bob'' \<lparr>tp_child = (''hats'', 3), tp_amount = 1\<rparr>)]"

lemma demo_txs_ok: "list_all tx_ok demo_txs"
  by (simp add: demo_txs_def demo_env_def tx_ok_def lawful_def)

theorem composer_consistent_witness:
  "let c = fold transact demo_txs new_composer
   in composedChildTokens c 12 = (''hats'', 5) \<and> childExists (''hats'', 5) c \<and> cs_position1 (childTokenState c (''hats'', 5)) = 12
     \<and> set (childTokens c ''hats'') = {i. childExists (''hats'', i) c} \<and> childTokens c ''hats'' = [5]"
proof -
  have at: "composedChildTokens (fold transact demo_txs new_composer) 12 = (''hats'', 5)"
    and toks: "childTokens (fold transact demo_txs new_composer) ''hats'' = [5]"
    by code_simp+
  have "(''hats'', 5) \<noteq> no_child" by (simp add: no_child_def zero_address_def)
  then show ?thesis
    using at toks composer_consistent [OF demo_txs_ok, of 12 "(''hats'', 5)" "''hats''"] by (simp add: Let_def)
qed

end
