(* ===== verification/Composer_Page.thy ===== *)
theory Composer_Page imports Composables_Pages Noun_Seed Png_Encoder Web_Logs Composer_Contract begin

text \<open>
  The composer page of the web application, \<open>pages/Composer/index.tsx\<close> with the Noun picker
  \<open>pages/Composer/NounPicker/index.tsx\<close>: the sixteen layers of a Noun as state, the handlers that place,
  move and remove items, the search, the upload of a trait, and the effect that recomputes the image and the flags
  behind the save button.  The state hooks are the record \<open>composer_page\<close>; the markup is left out.
  A page whose effect throws, or whose image never gets drawn, is \<open>None\<close>.
\<close>

section \<open>Layers\<close>

datatype layer = ItemLayer composable_item | PartLayer encoded_part

record extension =
  ex_name :: string
  ex_tokenAddress :: string
  ex_composerProxy :: "string option"
  ex_imageData :: "image_set option"

abbreviation no_address :: js_value where
  "no_address \<equiv> Str ''0x0000000000000000000000000000000000000000''"

definition ri :: "nat \<Rightarrow> nat" where "ri index = 15 - index"

definition isSpecialLayer :: "nat \<Rightarrow> bool" where
  "isSpecialLayer index = (ri index = 4 \<or> ri index = 6 \<or> ri index = 8 \<or> ri index = 10)"

text \<open>\<open>splice(startIndex, 1)\<close>, then \<open>splice(endIndex, 0, removed)\<close>: nothing removed counts as \<open>undefined\<close>.\<close>

definition reorder :: "'a option list \<Rightarrow> nat \<Rightarrow> nat \<Rightarrow> 'a option list" where
  "reorder xs startIndex endIndex =
     (let removed = (if startIndex < length xs then xs ! startIndex else None);
          rest = take startIndex xs @ drop (Suc startIndex) xs
      in take endIndex rest @ [removed] @ drop endIndex rest)"

text \<open>\<open>xs[i] = v\<close> of an array extends it.\<close>

definition put_at :: "nat \<Rightarrow> 'a option \<Rightarrow> 'a option list \<Rightarrow> 'a option list" where
  "put_at i v xs = (xs @ replicate (Suc i - length xs) None)[i := v]"

definition slot :: "'a option list \<Rightarrow> nat \<Rightarrow> 'a option" where
  "slot xs i = (if i < length xs then xs ! i else None)"

text \<open>The layers shown: the Noun's own body, accessory, head and glasses fill their layers.\<close>

definition part_slot :: "nat \<Rightarrow> nat option" where
  "part_slot i = (if i = 4 then Some 0 else if i = 6 then Some 1 else if i = 8 then Some 2 else if i = 10 then Some 3 else None)"

definition compose_layers :: "composable_item option list \<Rightarrow> encoded_part option list \<Rightarrow> layer option list" where
  "compose_layers stateItems parts =
     map (\<lambda>i. case slot stateItems i of
            Some item \<Rightarrow> Some (ItemLayer item)
          | None \<Rightarrow> (case part_slot i of None \<Rightarrow> None | Some k \<Rightarrow> map_option PartLayer (slot parts k))) [0..<16]"

text \<open>What is drawn of a layer; an image that is not text throws.\<close>

definition layer_source :: "layer \<Rightarrow> (string \<times> string list option) option" where
  "layer_source l =
     (case l of
        ItemLayer item \<Rightarrow> (case ci_data (it_image item) of Str s \<Rightarrow> Some (s, Some (ci_palette (it_image item))) | _ \<Rightarrow> None)
      | PartLayer part \<Rightarrow> Some (ep_data part, None))"

definition filled :: "'a option list \<Rightarrow> 'a list" where
  "filled xs = List.map_filter id xs"

definition layers_svg :: "layer option list \<Rightarrow> string list \<Rightarrow> string option \<Rightarrow> string option" where
  "layers_svg layers colours background =
     Option.bind (all_or_none (map layer_source (filled layers)))
       (\<lambda>parts. local_buildSVG parts colours (case background of Some b \<Rightarrow> b | None \<Rightarrow> ''undefined''))"

definition item_in :: "layer option \<Rightarrow> composable_item option" where
  "item_in l = (case l of Some (ItemLayer item) \<Rightarrow> Some item | _ \<Rightarrow> None)"

definition hasOwned :: "token_item list \<Rightarrow> layer option list \<Rightarrow> bool" where
  "hasOwned mergedHoldings layers =
     (filter (\<lambda>item. filterTokenItem (Some mergedHoldings) (it_tokenAddress item) (it_tokenId item) = None)
        (List.map_filter item_in layers) = [])"

definition child_differs :: "token_item \<Rightarrow> composable_item option \<Rightarrow> bool" where
  "child_differs child part =
     (if tk_address child \<noteq> no_address \<or> part \<noteq> None
      then (case part of
              None \<Rightarrow> True
            | Some item \<Rightarrow> tk_address child = no_address
                         \<or> tk_address child \<noteq> it_tokenAddress item \<or> tk_id child \<noteq> it_tokenId item)
      else False)"

definition hasDifferent :: "token_item list \<Rightarrow> layer option list \<Rightarrow> bool" where
  "hasDifferent previousComposed layers =
     list_ex (\<lambda>i. child_differs (previousComposed ! i) (item_in (slot layers i))) [0..<length previousComposed]"

section \<open>State\<close>

record search_filter =
  sf_title :: string
  sf_filterNames :: "string list"

record composer_page =
  pg_groups :: "(string \<times> composable_item list) list"
  pg_nounExtensions :: "extension list"
  pg_defaultImages :: image_set
  pg_nounExtensionName :: string
  pg_nounTokenAddress :: "string option"
  pg_nounTokenId :: "string option"
  pg_composerProxyAddress :: "string option"
  pg_previousChildTokens :: "token_item list"
  pg_previousComposedChildTokens :: "token_item list"
  pg_stateItems :: "composable_item option list"
  pg_composedItems :: "layer option list"
  pg_hasOwnedComposedItems :: bool
  pg_hasDifferentComposedItems :: bool
  pg_seed :: "noun_seed option"
  pg_nounSVG :: "string option"
  pg_collectionItems :: "composable_item list option"
  pg_holdings :: "token_item list"
  pg_filters :: "search_filter list"
  pg_searchToggle :: bool
  pg_selectIndexes :: "int js_map"
  pg_collectionItemsCount :: int
  pg_currentPage :: nat
  pg_searchText :: string
  pg_pendingTrait :: "pending_trait option"
  pg_traitValid :: "bool option"

definition PageSize :: nat where "PageSize = 40"

definition DEFAULT_TRAIT_TYPE :: string where "DEFAULT_TRAIT_TYPE = ''heads''"

text \<open>The page after its first effect: six empty groups, three filters, sixteen empty layers.\<close>

definition open_page :: "image_set \<Rightarrow> extension list \<Rightarrow> composer_page" where
  "open_page default_images extensions =
     \<lparr>pg_groups = map (\<lambda>n. (n, [])) [''Foreground'', ''Glasses'', ''Head'', ''Accessory'', ''Body'', ''Background''],
      pg_nounExtensions = extensions, pg_defaultImages = default_images, pg_nounExtensionName = ''Nouns'',
      pg_nounTokenAddress = None, pg_nounTokenId = None, pg_composerProxyAddress = None,
      pg_previousChildTokens = [], pg_previousComposedChildTokens = [],
      pg_stateItems = replicate 16 None, pg_composedItems = [],
      pg_hasOwnedComposedItems = True, pg_hasDifferentComposedItems = True,
      pg_seed = None, pg_nounSVG = None, pg_collectionItems = None, pg_holdings = [],
      pg_filters = map (\<lambda>n. \<lparr>sf_title = n, sf_filterNames = []\<rparr>) [''Category'', ''Collection'', ''Creator''],
      pg_searchToggle = True, pg_selectIndexes = [], pg_collectionItemsCount = 0, pg_currentPage = 1, pg_searchText = '''',
      pg_pendingTrait = None, pg_traitValid = None\<rparr>"

text \<open>The image data of an extension, which may not be loaded yet (\<open>Some None\<close>), or the default.\<close>

definition getImageData :: "composer_page \<Rightarrow> string \<Rightarrow> image_set option" where
  "getImageData pg name =
     (case find (\<lambda>e. ex_name e = name) (pg_nounExtensions pg) of
        Some e \<Rightarrow> ex_imageData e
      | None \<Rightarrow> Some (pg_defaultImages pg))"

section \<open>The effect that draws the layers\<close>

definition draw_effect :: "composer_page \<Rightarrow> composer_page option" where
  "draw_effect pg =
     (case pg_seed pg of
        None \<Rightarrow> Some pg
      | Some seed \<Rightarrow>
     (case getImageData pg (pg_nounExtensionName pg) of
        None \<Rightarrow> None
      | Some imageData \<Rightarrow>
          (let (parts, background) = getNounData (is_catalog imageData) seed;
               partsComposed = compose_layers (pg_stateItems pg) parts
           in case layers_svg partsComposed (is_palette imageData) background of
                None \<Rightarrow> None
              | Some svg \<Rightarrow>
                  Some (pg\<lparr>pg_nounSVG := Some svg, pg_composedItems := partsComposed,
                           pg_hasOwnedComposedItems := hasOwned (pg_holdings pg @ pg_previousChildTokens pg) partsComposed,
                           pg_hasDifferentComposedItems := hasDifferent (pg_previousComposedChildTokens pg) partsComposed\<rparr>))))"

definition saveEnabled :: "composer_page \<Rightarrow> bool" where
  "saveEnabled pg =
     (pg_nounTokenAddress pg \<noteq> None \<and> pg_nounTokenId pg \<noteq> None \<and> pg_composerProxyAddress pg \<noteq> None
      \<and> pg_hasOwnedComposedItems pg \<and> pg_hasDifferentComposedItems pg)"

section \<open>Items and layers\<close>

definition getTopComposedItemsIndex :: "layer option list \<Rightarrow> nat" where
  "getTopComposedItemsIndex composedItems =
     (let index = (case find (\<lambda>i. slot composedItems i \<noteq> None) (rev [0..<length composedItems]) of
                     Some i \<Rightarrow> i | None \<Rightarrow> 15)
      in if index < 15 then index + 1 else index)"

definition onItemClick :: "composable_item \<Rightarrow> composer_page \<Rightarrow> composer_page option" where
  "onItemClick item pg =
     (let index = getTopComposedItemsIndex (pg_composedItems pg)
      in draw_effect (pg\<lparr>pg_stateItems := put_at index (Some item) (pg_stateItems pg)\<rparr>))"

text \<open>The rows of the list show the layers from the top; their indexes count from there.\<close>

definition onRemoveItemClick :: "nat \<Rightarrow> composer_page \<Rightarrow> composer_page option" where
  "onRemoveItemClick index pg =
     draw_effect (pg\<lparr>pg_stateItems := rev (put_at index None (rev (pg_stateItems pg)))\<rparr>)"

record drag_result =
  dr_source :: nat
  dr_destination :: "nat option"
  dr_combine :: "nat option"

text \<open>Both branches start from the items before the drag; the list is the only one to drop on.\<close>

definition onDragEndSimple :: "drag_result \<Rightarrow> composer_page \<Rightarrow> composer_page option" where
  "onDragEndSimple dropped pg =
     (let moved = (\<lambda>target. rev (reorder (rev (pg_stateItems pg)) (dr_source dropped) target))
      in case dr_destination dropped of
           Some destination \<Rightarrow> draw_effect (pg\<lparr>pg_stateItems := moved destination\<rparr>)
         | None \<Rightarrow> (case dr_combine dropped of
               Some combine \<Rightarrow> draw_effect (pg\<lparr>pg_stateItems := moved combine\<rparr>)
             | None \<Rightarrow> Some pg))"

text \<open>The list of items to choose from leaves out those in the layers.\<close>

definition encodedItems :: "composer_page \<Rightarrow> composable_item list option" where
  "encodedItems pg =
     map_option (filter (\<lambda>item. filter (\<lambda>part. it_tokenAddress part = it_tokenAddress item \<and> it_tokenId part = it_tokenId item)
        (List.map_filter item_in (pg_composedItems pg)) = [])) (pg_collectionItems pg)"

section \<open>Choosing a Noun\<close>

definition random_pick :: "(nat \<Rightarrow> nat \<times> nat) \<Rightarrow> nat \<Rightarrow> nat" where
  "random_pick random n = random_index (random 0) n"

definition generateRandomSeed :: "(nat \<Rightarrow> nat \<times> nat) \<Rightarrow> composer_page \<Rightarrow> composer_page option" where
  "generateRandomSeed random pg =
     (let i = random_pick random (length (pg_nounExtensions pg))
      in if i < length (pg_nounExtensions pg)
         then (let name = ex_name (pg_nounExtensions pg ! i)
               in case getImageData pg name of
                    None \<Rightarrow> Some pg
                  | Some imageData \<Rightarrow>
                      draw_effect (pg\<lparr>pg_nounTokenAddress := None, pg_nounTokenId := None, pg_nounExtensionName := name,
                        pg_seed := Some (getRandomNounSeed (\<lambda>k. random (Suc k)) (is_catalog imageData)),
                        pg_previousChildTokens := [], pg_previousComposedChildTokens := []\<rparr>))
         else Some pg)"

definition seed_field :: "js_value \<Rightarrow> string \<Rightarrow> nat" where
  "seed_field v k = (case as_int (member v k) of Some n \<Rightarrow> nat n | None \<Rightarrow> 0)"

definition seed_of :: "js_value \<Rightarrow> noun_seed option" where
  "seed_of v =
     (case v of
        Obj _ \<Rightarrow> Some \<lparr>ns_background = seed_field v ''background'', ns_body = seed_field v ''body'',
                   ns_accessory = seed_field v ''accessory'', ns_head = seed_field v ''head'', ns_glasses = seed_field v ''glasses''\<rparr>
      | _ \<Rightarrow> None)"

record selection =
  sl_extensionName :: "string option"
  sl_tokenAddress :: "string option"
  sl_tokenId :: "string option"
  sl_seed :: "noun_seed option"
  sl_composerProxyAddress :: "string option"
  sl_childTokens :: "token_item list"
  sl_composedChildTokens :: "token_item list"

definition no_selection :: selection where
  "no_selection = \<lparr>sl_extensionName = None, sl_tokenAddress = None, sl_tokenId = None, sl_seed = None,
     sl_composerProxyAddress = None, sl_childTokens = [], sl_composedChildTokens = []\<rparr>"

text \<open>The last extension of the address counts.\<close>

definition extension_of :: "extension list \<Rightarrow> string \<Rightarrow> string option \<times> string option" where
  "extension_of extensions tokenAddress =
     fold (\<lambda>e acc. if to_lower (ex_tokenAddress e) = to_lower tokenAddress then (Some (ex_name e), ex_composerProxy e) else acc)
       extensions (None, None)"

text \<open>Picking one of the wallet's Nouns reads its seed and its children; \<open>None\<close> when there is none or a read throws.\<close>

definition setIndexOfNounSelectedAndReturn ::
    "rpc \<Rightarrow> extension list \<Rightarrow> (string \<times> string) list option \<Rightarrow> nat \<Rightarrow> selection option" where
  "setIndexOfNounSelectedAndReturn net extensions nounNfts index =
     (case nounNfts of
        None \<Rightarrow> None
      | Some ownedNfts \<Rightarrow>
          if index < length ownedNfts
          then (let (tokenAddress, tokenId) = ownedNfts ! index;
                    seed = seed_of (getNounSeed net tokenAddress tokenId);
                    (extensionName, composerProxyAddress) = extension_of extensions tokenAddress;
                    chosen = \<lparr>sl_extensionName = extensionName, sl_tokenAddress = Some tokenAddress, sl_tokenId = Some tokenId,
                      sl_seed = seed, sl_composerProxyAddress = composerProxyAddress, sl_childTokens = [],
                      sl_composedChildTokens = []\<rparr>
                in if truthy_string composerProxyAddress
                   then map_option (\<lambda>children. chosen\<lparr>sl_childTokens := getChildTokens net (the composerProxyAddress) tokenId,
                            sl_composedChildTokens := children\<rparr>)
                          (getComposedChildBatch net (the composerProxyAddress) tokenId 1 16)
                   else Some chosen)
          else None)"

text \<open>The groups of a composed Noun, and the remaining items; they are not the layers.\<close>

definition group_name :: "nat \<Rightarrow> string" where
  "group_name i =
     (if i < 4 then ''Background'' else if i < 6 then ''Body'' else if i < 8 then ''Accessory''
      else if i < 10 then ''Head'' else if i < 12 then ''Glasses'' else ''Foreground'')"

definition resetListsWithComposedChildTokens :: "token_item list \<Rightarrow> composer_page \<Rightarrow> composer_page option" where
  "resetListsWithComposedChildTokens composedTokens pg =
     (case pg_collectionItems pg of
        None \<Rightarrow> None
      | Some collectionItems \<Rightarrow>
          (let matches = (\<lambda>group. List.map_filter (\<lambda>(i, child).
                  if tk_address child \<noteq> no_address \<and> group_name i = group
                  then filterComposableItem (Some collectionItems) (tk_address child) (tk_id child) else None)
                  (enumerate 0 composedTokens));
               filteredComposedChildTokens = filter (\<lambda>child. tk_address child \<noteq> no_address) composedTokens;
               filteredCollectionItems = filter (\<lambda>item.
                  filterTokenItem (Some filteredComposedChildTokens) (it_tokenAddress item) (it_tokenId item) = None) collectionItems
           in Some (pg\<lparr>pg_groups := map (\<lambda>g. (g, matches g)) [''Foreground'', ''Glasses'', ''Head'', ''Accessory'', ''Body'', ''Background'']
                 @ [(''Items'', filteredCollectionItems)]\<rparr>)))"

text \<open>Outside of an event of React every setter renders on its own: the effect runs after the seed is set,
  with the children of the previous Noun, and again after the groups are; without a list of items the
  handler throws before that.\<close>

definition onSelectNoun :: "selection \<Rightarrow> composer_page \<Rightarrow> composer_page option" where
  "onSelectNoun s pg =
     (case (sl_tokenAddress s, sl_tokenId s, sl_extensionName s, sl_seed s) of
        (Some tokenAddress, Some tokenId, Some extensionName, Some seed) \<Rightarrow>
          (case draw_effect (pg\<lparr>pg_nounExtensionName := extensionName, pg_seed := Some seed\<rparr>) of
             None \<Rightarrow> None
           | Some pg1 \<Rightarrow>
               (let pg2 = pg1\<lparr>pg_nounTokenAddress := Some tokenAddress, pg_nounTokenId := Some tokenId,
                       pg_composerProxyAddress := sl_composerProxyAddress s, pg_previousChildTokens := sl_childTokens s,
                       pg_previousComposedChildTokens := sl_composedChildTokens s\<rparr>
                in case resetListsWithComposedChildTokens (sl_composedChildTokens s) pg2 of
                     None \<Rightarrow> Some pg2
                   | Some pg3 \<Rightarrow> draw_effect pg3))
      | _ \<Rightarrow> Some pg)"


section \<open>Uploading a trait\<close>

text \<open>A file is its name and what the PNG decoder gives, \<open>None\<close> when it throws.\<close>

definition validateAndSetCustomTrait :: "(string \<times> png option) option \<Rightarrow> composer_page \<Rightarrow> composer_page" where
  "validateAndSetCustomTrait file pg =
     (case file of
        None \<Rightarrow> pg
      | Some (name, content) \<Rightarrow>
          (case content of
             None \<Rightarrow> pg\<lparr>pg_traitValid := Some False\<rparr>
           | Some png \<Rightarrow>
               if png_width png \<noteq> 32 \<or> png_height png \<noteq> 32 then pg\<lparr>pg_traitValid := Some False\<rparr>
               else (let stem = remove_first ''.png'' name;
                         file_name = (if stem = '''' then ''custom'' else stem);
                         (encoded, encoder) = encodeImage file_name (png_image png) None (new_encoder (Some []))
                     in pg\<lparr>pg_pendingTrait := Some \<lparr>pt_type = DEFAULT_TRAIT_TYPE, pt_data = encoded,
                                pt_palette = palette (get_data encoder), pt_filename = file_name\<rparr>,
                           pg_traitValid := Some True\<rparr>)))"

text \<open>The timeout after an invalid file.\<close>

definition traitErrorTimeout :: "composer_page \<Rightarrow> composer_page" where
  "traitErrorTimeout pg = pg\<lparr>pg_traitValid := None\<rparr>"

definition push_head :: "encoded_part \<Rightarrow> image_set \<Rightarrow> image_set" where
  "push_head part s = s\<lparr>is_catalog := (is_catalog s)\<lparr>id_heads := id_heads (is_catalog s) @ [part]\<rparr>\<rparr>"

definition update_first :: "('a \<Rightarrow> bool) \<Rightarrow> ('a \<Rightarrow> 'a) \<Rightarrow> 'a list \<Rightarrow> 'a list" where
  "update_first P f xs =
     (let i = length (takeWhile (\<lambda>x. \<not> P x) xs) in if i < length xs then xs[i := f (xs ! i)] else xs)"

text \<open>The trait joins the heads of the image data, whose palette is another one, and the group
  \<open>Items\<close>, if there is one.  Without image data the handler throws before any change.\<close>

definition push_image :: "encoded_part \<Rightarrow> composer_page \<Rightarrow> composer_page" where
  "push_image part pg =
     (let name = pg_nounExtensionName pg
      in if find (\<lambda>e. ex_name e = name) (pg_nounExtensions pg) \<noteq> None
         then pg\<lparr>pg_nounExtensions := update_first (\<lambda>e. ex_name e = name)
                    (\<lambda>e. e\<lparr>ex_imageData := map_option (push_head part) (ex_imageData e)\<rparr>) (pg_nounExtensions pg)\<rparr>
         else pg\<lparr>pg_defaultImages := push_head part (pg_defaultImages pg)\<rparr>)"

definition uploaded_item :: "pending_trait \<Rightarrow> composable_item" where
  "uploaded_item t =
     \<lparr>it_collection = Str ''UPLOADED'', it_meta = Obj [(''name'', Str (pt_filename t))],
      it_image = \<lparr>ci_filename = pt_filename t, ci_data = Str (pt_data t), ci_palette = pt_palette t\<rparr>,
      it_tokenAddress = Str (pt_filename t), it_tokenId = 0\<rparr>"

definition uploadCustomTrait :: "composer_page \<Rightarrow> composer_page option" where
  "uploadCustomTrait pg =
     (case pg_pendingTrait pg of
        None \<Rightarrow> Some pg
      | Some t \<Rightarrow>
          if pt_type t = '''' \<or> pt_data t = '''' \<or> pt_filename t = '''' then Some pg
          else if getImageData pg (pg_nounExtensionName pg) = None then Some pg
          else draw_effect ((push_image \<lparr>ep_filename = pt_filename t, ep_data = pt_data t\<rparr> pg)
                 \<lparr>pg_groups := map (\<lambda>(g, items). if g = ''Items'' then (g, uploaded_item t # items) else (g, items)) (pg_groups pg),
                  pg_pendingTrait := None, pg_traitValid := None\<rparr>))"

section \<open>Searching\<close>

text \<open>\<open>a > b\<close> on strings.\<close>

fun text_less :: "string \<Rightarrow> string \<Rightarrow> bool" where
  "text_less s [] = False"
| "text_less [] (d # ds) = True"
| "text_less (c # cs) (d # ds) =
     ((of_char c :: nat) < of_char d \<or> ((of_char c :: nat) = of_char d \<and> text_less cs ds))"

definition sort_names :: "string list \<Rightarrow> string list" where
  "sort_names = sort_by (\<lambda>a b. \<not> text_less (to_lower b) (to_lower a))"

text \<open>Names in the order they first occur; a name that is not text makes the sort throw.\<close>

definition add_name :: "js_value \<Rightarrow> js_value list \<Rightarrow> js_value list" where
  "add_name v names = (if v \<in> set names then names else names @ [v])"

definition text_of :: "js_value \<Rightarrow> string option" where
  "text_of v = (case v of Str s \<Rightarrow> Some s | _ \<Rightarrow> None)"

definition filter_of :: "string \<Rightarrow> js_value list \<Rightarrow> search_filter option" where
  "filter_of title vs =
     map_option (\<lambda>names. \<lparr>sf_title = title, sf_filterNames = sort_names names\<rparr>)
       (all_or_none (map text_of (fold add_name vs [])))"

definition set_filters :: "js_value list \<Rightarrow> js_value list \<Rightarrow> js_value list \<Rightarrow> composer_page \<Rightarrow> composer_page option" where
  "set_filters categoryNames collectionNames creatorNames pg =
     (case all_or_none [filter_of ''Category'' categoryNames, filter_of ''Collection'' collectionNames,
             filter_of ''Creator'' creatorNames] of
        None \<Rightarrow> Some pg
      | Some fs \<Rightarrow> draw_effect (pg\<lparr>pg_filters := fs, pg_groups := pg_groups pg @ [(''Items'', [])]\<rparr>))"

definition attribute_value :: "nat \<Rightarrow> composable_item \<Rightarrow> js_value option" where
  "attribute_value k item =
     (case member (it_meta item) ''attributes'' of
        Arr vs \<Rightarrow> (if k < length vs \<and> vs ! k \<noteq> Null \<and> vs ! k \<noteq> Undefined then Some (member (vs ! k) ''value'') else None)
      | _ \<Rightarrow> None)"

text \<open>What happens once the collections are known: the items and filters of the first page.  A read that
  throws leaves the page as it is.\<close>

definition loadCollectionItems :: "env \<Rightarrow> (string \<times> int \<times> js_value) list \<Rightarrow> db \<Rightarrow> composer_page \<Rightarrow> composer_page option" where
  "loadCollectionItems en collections d pg =
     (if en_isIndexer en
      then (let (indexed, d1) = indexComposableItemsSearchFilters (en_rt en) d;
                rows = getComposableItemsSearchFilters d1
            in if \<not> indexed then Some pg
               else (case getComposableItemsSearch en 0 PageSize None None None None d1 of
                  None \<Rightarrow> Some pg
                | Some items \<Rightarrow>
                    set_filters (map (\<lambda>r. field r ''parsedCategoryName'') rows) (map (\<lambda>r. field r ''collectionName'') rows)
                      (map (\<lambda>r. field r ''parsedCreatorName'') rows)
                      (pg\<lparr>pg_collectionItemsCount := getComposableItemsSearchCount en None None None None d1,
                          pg_collectionItems := Some items\<rparr>)))
      else (case getComposableItemsBatch en collections d of
              None \<Rightarrow> Some pg
            | Some items \<Rightarrow>
                (case (all_or_none (map (attribute_value 0) items), all_or_none (map (attribute_value 1) items)) of
                   (Some categories, Some creators) \<Rightarrow>
                     set_filters categories (map it_collection items) creators (pg\<lparr>pg_collectionItems := Some items\<rparr>)
                 | _ \<Rightarrow> Some pg)))"

definition selected_name :: "composer_page \<Rightarrow> nat \<Rightarrow> string \<Rightarrow> string option" where
  "selected_name pg k title =
     (case map_of (pg_selectIndexes pg) title of
        None \<Rightarrow> None
      | Some i \<Rightarrow> (let names = (if k < length (pg_filters pg) then sf_filterNames (pg_filters pg ! k) else [])
                   in if 0 \<le> i \<and> i < int (length names) then Some (names ! nat i) else None))"

definition search_text :: "composer_page \<Rightarrow> string option" where
  "search_text pg = (if trim (pg_searchText pg) = '''' then None else Some (trim (pg_searchText pg)))"

text \<open>The effect of the search: with the index only, and once there are collections.\<close>

definition search_effect :: "env \<Rightarrow> db \<Rightarrow> composer_page \<Rightarrow> composer_page" where
  "search_effect en d pg =
     (if en_isIndexer en
      then (let selectedCategory = selected_name pg 0 ''Category'';
                selectedCollection = selected_name pg 1 ''Collection'';
                selectedCreator = selected_name pg 2 ''Creator'';
                firstPageIndex = (pg_currentPage pg - 1) * PageSize;
                lastPageIndex = firstPageIndex + PageSize
            in case getComposableItemsSearch en firstPageIndex lastPageIndex selectedCollection selectedCategory
                      selectedCreator (search_text pg) d of
                 None \<Rightarrow> pg
               | Some items \<Rightarrow>
                   pg\<lparr>pg_collectionItemsCount := getComposableItemsSearchCount en selectedCollection selectedCategory
                        selectedCreator (search_text pg) d,
                      pg_collectionItems := Some items\<rparr>)
      else pg)"

definition onSearchButtonClick :: "env \<Rightarrow> db \<Rightarrow> composer_page \<Rightarrow> composer_page" where
  "onSearchButtonClick en d pg = search_effect en d (pg\<lparr>pg_currentPage := 1, pg_searchToggle := \<not> pg_searchToggle pg\<rparr>)"

definition filterButtonHandler :: "env \<Rightarrow> db \<Rightarrow> string \<Rightarrow> nat \<Rightarrow> composer_page \<Rightarrow> composer_page" where
  "filterButtonHandler en d title selectedIndex pg =
     search_effect en d (pg\<lparr>pg_currentPage := 1, pg_searchToggle := \<not> pg_searchToggle pg,
       pg_selectIndexes := AList.update title (int selectedIndex - 1) (pg_selectIndexes pg)\<rparr>)"

definition onPageChange :: "env \<Rightarrow> db \<Rightarrow> nat \<Rightarrow> composer_page \<Rightarrow> composer_page" where
  "onPageChange en d page pg =
     (if page = pg_currentPage pg then pg else search_effect en d (pg\<lparr>pg_currentPage := page\<rparr>))"

definition loadHoldings :: "rpc \<Rightarrow> string list \<Rightarrow> string \<Rightarrow> composer_page \<Rightarrow> composer_page" where
  "loadHoldings net addresses activeAccount pg =
     pg\<lparr>pg_holdings := concat (map (\<lambda>a. getTokenHoldings net a activeAccount) addresses)\<rparr>"

text \<open>The options of a filter: \<open>Any\<close>, then its names.\<close>

definition filterOptions :: "search_filter \<Rightarrow> string list" where
  "filterOptions f = ''Any'' # sf_filterNames f"


section \<open>Rows\<close>

text \<open>What a row of the list shows: an item, with its picture, whether it is owned, and the button that removes
  it; a part of the Noun, by the name in its file name; or nothing.\<close>

datatype row =
    ItemRow string "string option" bool
  | PartRow string "string option"
  | EmptyRow

definition getSVG :: "string \<Rightarrow> string list \<Rightarrow> string option" where
  "getSVG data colours = local_buildSVG [(data, None)] colours ''fff''"

definition shortName :: "string \<Rightarrow> string" where
  "shortName name =
     (if length name < 21 then name else take 7 name @ ''...'' @ drop (length name - 11) name)"

text \<open>\<open>filename.split('-').slice(1).join(' ')\<close>, capitalised.\<close>

definition trait_value :: "string \<Rightarrow> string" where
  "trait_value file_name = join_with (CHR '' '') (tl (split_on (CHR ''-'') file_name))"

definition capitalizeFirstLetter :: "string \<Rightarrow> string" where
  "capitalizeFirstLetter s = (case s of [] \<Rightarrow> [] | c # cs \<Rightarrow>
     (if 97 \<le> (of_char c :: nat) \<and> (of_char c :: nat) \<le> 122 then char_of ((of_char c :: nat) - 32) else c) # cs)"

definition draggable_row :: "token_item list \<Rightarrow> string list \<Rightarrow> nat \<Rightarrow> layer option \<Rightarrow> row" where
  "draggable_row holdings colours index l =
     (case l of
        Some (ItemLayer item) \<Rightarrow>
          (if js_truthy (it_meta item) \<and> js_truthy (member (it_meta item) ''name'')
           then ItemRow (as_string (member (it_meta item) ''name''))
                  (Option.bind (text_of (ci_data (it_image item))) (\<lambda>data. getSVG data (ci_palette (it_image item))))
                  (filterTokenItem (Some holdings) (it_tokenAddress item) (it_tokenId item) \<noteq> None)
           else EmptyRow)
      | Some (PartLayer part) \<Rightarrow>
          (if isSpecialLayer index
           then PartRow (capitalizeFirstLetter (trait_value (ep_filename part))) (getSVG (ep_data part) colours)
           else EmptyRow)
      | None \<Rightarrow> EmptyRow)"

definition isDragDisabled :: "row \<Rightarrow> bool" where
  "isDragDisabled r = (case r of ItemRow _ _ _ \<Rightarrow> False | _ \<Rightarrow> True)"

definition droppable_rows :: "token_item list \<Rightarrow> string list \<Rightarrow> layer option list \<Rightarrow> row list" where
  "droppable_rows holdings colours layers =
     map (\<lambda>(index, l). draggable_row holdings colours index l) (enumerate 0 (rev layers))"

section \<open>The page as a state machine\<close>

datatype page_event =
    ExtensionLoaded nat image_set
  | CollectionsLoaded "(string \<times> int \<times> js_value) list" db
  | HoldingsLoaded rpc "string list" string
  | RandomNoun "nat \<Rightarrow> nat \<times> nat"
  | NounPicked selection
  | ItemClicked composable_item
  | ItemRemoved nat
  | ItemDragged drag_result
  | TraitChosen "(string \<times> png option) option"
  | TraitTimeout
  | TraitUploaded
  | SearchTyped string
  | SearchClicked db
  | FilterChosen db string nat
  | PageChanged db nat

fun page_step :: "env \<Rightarrow> page_event \<Rightarrow> composer_page \<Rightarrow> composer_page option" where
  "page_step en (ExtensionLoaded i imageData) pg =
     Some (pg\<lparr>pg_nounExtensions := (if i < length (pg_nounExtensions pg)
       then (pg_nounExtensions pg)[i := (pg_nounExtensions pg ! i)\<lparr>ex_imageData := Some imageData\<rparr>]
       else pg_nounExtensions pg)\<rparr>)"
| "page_step en (CollectionsLoaded collections d) pg = loadCollectionItems en collections d pg"
| "page_step en (HoldingsLoaded net addresses account) pg = Some (loadHoldings net addresses account pg)"
| "page_step en (RandomNoun random) pg = generateRandomSeed random pg"
| "page_step en (NounPicked s) pg = onSelectNoun s pg"
| "page_step en (ItemClicked item) pg = onItemClick item pg"
| "page_step en (ItemRemoved index) pg = onRemoveItemClick index pg"
| "page_step en (ItemDragged dropped) pg = onDragEndSimple dropped pg"
| "page_step en (TraitChosen file) pg = Some (validateAndSetCustomTrait file pg)"
| "page_step en TraitTimeout pg = Some (traitErrorTimeout pg)"
| "page_step en TraitUploaded pg = uploadCustomTrait pg"
| "page_step en (SearchTyped s) pg = Some (pg\<lparr>pg_searchText := s\<rparr>)"
| "page_step en (SearchClicked d) pg = Some (onSearchButtonClick en d pg)"
| "page_step en (FilterChosen d title index) pg = Some (filterButtonHandler en d title index pg)"
| "page_step en (PageChanged d page) pg = Some (onPageChange en d page pg)"

text \<open>The list has sixteen rows to remove, drag and drop on.\<close>

definition event_ok :: "page_event \<Rightarrow> bool" where
  "event_ok e =
     (case e of
        ItemRemoved index \<Rightarrow> index < 16
      | ItemDragged dropped \<Rightarrow> dr_source dropped < 16 \<and> list_all (\<lambda>t. t < 16)
          ((case dr_destination dropped of Some t \<Rightarrow> [t] | None \<Rightarrow> []) @ (case dr_combine dropped of Some t \<Rightarrow> [t] | None \<Rightarrow> []))
      | _ \<Rightarrow> True)"


section \<open>The layers stay consistent\<close>

definition shown_items :: "composer_page \<Rightarrow> composable_item option list" where
  "shown_items pg = map item_in (pg_composedItems pg)"

definition layers_ok :: "composer_page \<Rightarrow> bool" where
  "layers_ok pg =
     (length (pg_stateItems pg) = 16
      \<and> (pg_seed pg = None \<longrightarrow> pg_composedItems pg = [])
      \<and> (pg_seed pg \<noteq> None \<longrightarrow> shown_items pg = pg_stateItems pg
           \<and> (\<exists>svg colours background. pg_nounSVG pg = Some svg \<and> layers_svg (pg_composedItems pg) colours background = Some svg)))"

lemma length_compose_layers [simp]: "length (compose_layers items parts) = 16"
  by (simp add: compose_layers_def)

lemma item_layers: "length items = 16 \<Longrightarrow> map item_in (compose_layers items parts) = items"
  by (rule nth_equalityI) (auto simp: compose_layers_def slot_def item_in_def split: option.splits)

lemma draw_effect_frame:
  assumes "draw_effect pg = Some pg'"
  shows "pg_stateItems pg' = pg_stateItems pg" "pg_seed pg' = pg_seed pg"
    and "length (pg_stateItems pg) = 16 \<Longrightarrow> (pg_seed pg = None \<longrightarrow> pg_composedItems pg = []) \<Longrightarrow> layers_ok pg'"
proof -
  have result: "pg_stateItems pg' = pg_stateItems pg \<and> pg_seed pg' = pg_seed pg \<and> (length (pg_stateItems pg) = 16 \<longrightarrow> (pg_seed pg = None \<longrightarrow> pg_composedItems pg = []) \<longrightarrow> layers_ok pg')"
  proof (cases "pg_seed pg")
    case None
    with assms show ?thesis by (auto simp: draw_effect_def layers_ok_def)
  next
    case (Some seed)
    with assms show ?thesis
      by (auto simp: draw_effect_def Let_def layers_ok_def shown_items_def item_layers split: option.splits prod.splits
          intro!: exI)
  qed
  then show "pg_stateItems pg' = pg_stateItems pg" "pg_seed pg' = pg_seed pg" by simp_all
  show "layers_ok pg'" if "length (pg_stateItems pg) = 16" "pg_seed pg = None \<longrightarrow> pg_composedItems pg = []"
    using result that by simp
qed

text \<open>A change of other fields.\<close>

lemma layers_ok_cong:
  assumes "layers_ok pg" "pg_stateItems pg' = pg_stateItems pg" "pg_seed pg' = pg_seed pg"
    "pg_composedItems pg' = pg_composedItems pg" "pg_nounSVG pg' = pg_nounSVG pg"
  shows "layers_ok pg'"
  using assms by (simp add: layers_ok_def shown_items_def)

lemma length_reorder: "s < length xs \<Longrightarrow> d < length xs \<Longrightarrow> length (reorder xs s d) = length xs"
  by (simp add: reorder_def Let_def)

lemma length_put_at: "i < length xs \<Longrightarrow> length (put_at i v xs) = length xs"
  by (simp add: put_at_def)

lemma getTop_bound: "getTopComposedItemsIndex layers < 16" if "length layers \<le> 16"
proof -
  have "i < 16" if "find P (rev [0..<length layers]) = Some i" for i P
    using that \<open>length layers \<le> 16\<close> by (auto simp: find_Some_iff rev_nth)
  then show ?thesis by (auto simp: getTopComposedItemsIndex_def Let_def split: option.splits)
qed

lemma search_effect_frame [simp]:
  "pg_stateItems (search_effect en d pg) = pg_stateItems pg" "pg_seed (search_effect en d pg) = pg_seed pg"
  "pg_composedItems (search_effect en d pg) = pg_composedItems pg" "pg_nounSVG (search_effect en d pg) = pg_nounSVG pg"
  by (simp_all add: search_effect_def Let_def split: option.splits)

lemma set_filters_ok:
  assumes "layers_ok pg" "set_filters a b c pg = Some pg'"
  shows "layers_ok pg'"
  using assms by (auto simp: set_filters_def layers_ok_def split: option.splits dest: draw_effect_frame(3))

lemma loadCollectionItems_ok:
  assumes "layers_ok pg" "loadCollectionItems en collections d pg = Some pg'"
  shows "layers_ok pg'"
proof -
  have "layers_ok (pg\<lparr>pg_collectionItemsCount := n, pg_collectionItems := items\<rparr>)"
    "layers_ok (pg\<lparr>pg_collectionItems := items\<rparr>)" for n items
    by (rule layers_ok_cong [OF assms(1)]; simp)+
  with assms show ?thesis
    by (auto simp: loadCollectionItems_def Let_def split: prod.splits option.splits if_splits intro: set_filters_ok)
qed

lemma onSelectNoun_ok:
  assumes ok: "layers_ok pg" and "onSelectNoun s pg = Some pg'"
  shows "layers_ok pg'"
proof (cases "sl_tokenAddress s = None \<or> sl_tokenId s = None \<or> sl_extensionName s = None \<or> sl_seed s = None")
  case True
  with assms show ?thesis by (auto simp: onSelectNoun_def split: option.splits)
next
  case False
  then obtain a i n sd where s: "sl_tokenAddress s = Some a" "sl_tokenId s = Some i" "sl_extensionName s = Some n" "sl_seed s = Some sd"
    by auto
  obtain pg1 where pg1: "draw_effect (pg\<lparr>pg_nounExtensionName := n, pg_seed := Some sd\<rparr>) = Some pg1"
    using assms(2) s by (auto simp: onSelectNoun_def split: option.splits)
  define pg2 where "pg2 = pg1\<lparr>pg_nounTokenAddress := Some a, pg_nounTokenId := Some i,
      pg_composerProxyAddress := sl_composerProxyAddress s, pg_previousChildTokens := sl_childTokens s,
      pg_previousComposedChildTokens := sl_composedChildTokens s\<rparr>"
  have "layers_ok pg1" using draw_effect_frame(3) [OF pg1] ok by (simp add: layers_ok_def)
  then have pg2: "layers_ok pg2" by (rule layers_ok_cong) (simp_all add: pg2_def)
  have r: "pg_stateItems pg3 = pg_stateItems pg2" "pg_seed pg3 = pg_seed pg2" "pg_composedItems pg3 = pg_composedItems pg2"
    if "resetListsWithComposedChildTokens t pg2 = Some pg3" for t pg3
    using that by (auto simp: resetListsWithComposedChildTokens_def Let_def split: option.splits)
  show ?thesis
  proof (cases "resetListsWithComposedChildTokens (sl_composedChildTokens s) pg2")
    case None
    with assms(2) s pg1 pg2 show ?thesis by (simp add: onSelectNoun_def Let_def pg2_def)
  next
    case (Some pg3)
    then have "draw_effect pg3 = Some pg'" using assms(2) s pg1 by (simp add: onSelectNoun_def Let_def pg2_def)
    then show ?thesis by (rule draw_effect_frame(3)) (use pg2 r [OF Some] in \<open>simp_all add: layers_ok_def\<close>)
  qed
qed


lemma page_step_ok:
  assumes ok: "layers_ok pg" and e: "event_ok e" and step: "page_step en e pg = Some pg'"
  shows "layers_ok pg'"
proof -
  have len: "length (pg_stateItems pg) = 16" "pg_seed pg = None \<longrightarrow> pg_composedItems pg = []"
    using ok by (simp_all add: layers_ok_def)
  have redraw: "layers_ok q'" if "draw_effect (pg\<lparr>pg_stateItems := items\<rparr>) = Some q'" "length items = 16" for items q'
    using draw_effect_frame(3) [OF that(1)] that(2) ok by (simp add: layers_ok_def)
  show ?thesis
  proof (cases e)
    case (ItemClicked item)
    have "length (pg_composedItems pg) \<le> 16"
      using ok by (cases "pg_seed pg") (auto simp: layers_ok_def shown_items_def dest: arg_cong [where f = length])
    then have "getTopComposedItemsIndex (pg_composedItems pg) < 16" by (rule getTop_bound)
    with ItemClicked step len show ?thesis by (auto simp: onItemClick_def Let_def length_put_at intro: redraw)
  next
    case (CollectionsLoaded collections d)
    with ok step show ?thesis by (auto intro: loadCollectionItems_ok)
  next
    case (NounPicked s)
    with ok step show ?thesis by (auto intro: onSelectNoun_ok)
  next
    case (RandomNoun random)
    with step len ok show ?thesis
      by (auto simp: generateRandomSeed_def Let_def split: if_splits option.splits dest!: draw_effect_frame(3))
  next
    case (ItemRemoved index)
    with step e len show ?thesis
      by (auto simp: onRemoveItemClick_def event_ok_def length_put_at intro: redraw)
  next
    case (ItemDragged dropped)
    with step e len ok show ?thesis
      by (auto simp: onDragEndSimple_def Let_def event_ok_def length_reorder split: option.splits intro!: redraw)
  next
    case TraitUploaded
    have "layers_ok q'" if "draw_effect ((push_image p pg)\<lparr>pg_groups := g, pg_pendingTrait := None, pg_traitValid := None\<rparr>) = Some q'" for g p q'
      using draw_effect_frame(3) [OF that] len by (simp add: push_image_def Let_def)
    with TraitUploaded step ok show ?thesis
      by (auto simp: uploadCustomTrait_def split: option.splits if_splits)
  next
    case (TraitChosen content)
    with step have "pg' = validateAndSetCustomTrait content pg" by simp
    then show ?thesis
      by (intro layers_ok_cong [OF ok]) (simp_all add: validateAndSetCustomTrait_def Let_def split: option.splits prod.splits)
  qed (use step in \<open>auto simp: loadHoldings_def traitErrorTimeout_def onSearchButtonClick_def filterButtonHandler_def
         onPageChange_def intro: layers_ok_cong [OF ok]\<close>)
qed


definition reached :: "env \<Rightarrow> image_set \<Rightarrow> extension list \<Rightarrow> page_event list \<Rightarrow> composer_page \<Rightarrow> bool" where
  "reached en default_images extensions es pg =
     (each (page_step en) es (open_page default_images extensions) = Some pg \<and> list_all event_ok es)"

lemma reached_ok:
  assumes "reached en default_images extensions es pg"
  shows "layers_ok pg"
proof -
  have "layers_ok (open_page default_images extensions)" by (simp add: layers_ok_def open_page_def)
  with assms show ?thesis
    unfolding reached_def by (blast intro: each_preserves_all [where P = layers_ok and Q = event_ok] page_step_ok)
qed


text \<open>The layer an item is put on.\<close>

lemma getTop_spec:
  assumes len: "length layers = 16"
  defines "k \<equiv> getTopComposedItemsIndex layers"
  shows "k < 16" "k < j \<Longrightarrow> j < 16 \<Longrightarrow> layers ! j = None" "k = 15 \<or> layers ! k = None"
proof -
  show "k < 16" using getTop_bound [of layers] assms by simp
  have nth: "rev [0..<16] ! n = 15 - n" if "n < 16" for n :: nat using that by (simp add: rev_nth)
  let ?top = "find (\<lambda>i. slot layers i \<noteq> None) (rev [0..<16])"
  have above: "layers ! j = None" if "?top = Some i" "i < j" "j < 16" for i j
  proof -
    obtain n where n: "n < 16" "i = 15 - n" "\<forall>m < n. slot layers (15 - m) = None"
      using \<open>?top = Some i\<close> by (auto simp: find_Some_iff nth)
    with that have "15 - j < n" "15 - (15 - j) = j" by auto
    with n(3) have "slot layers j = None" by metis
    with len that show ?thesis by (simp add: slot_def)
  qed
  have all: "layers ! j = None" if "?top = None" "j < 16" for j
    using that len by (auto simp: find_None_iff slot_def)
  have k: "k = (case ?top of Some i \<Rightarrow> if i < 15 then i + 1 else i | None \<Rightarrow> 15)"
    unfolding k_def getTopComposedItemsIndex_def Let_def len by (simp split: option.splits)
  show "layers ! j = None" if "k < j" "j < 16"
    using that k above all by (cases ?top) (auto split: if_splits)
  show "k = 15 \<or> layers ! k = None"
    using k above [of _ k] all [of k] \<open>k < 16\<close> by (cases ?top) (auto split: if_splits)
qed

lemma nth_reorder:
  assumes "s < length xs" "d < length xs"
  shows "reorder xs s d ! d = xs ! s" "mset (reorder xs s d) = mset xs"
proof -
  have xs: "xs = take s xs @ [xs ! s] @ drop (Suc s) xs" using assms by (simp add: id_take_nth_drop)
  show "reorder xs s d ! d = xs ! s" using assms by (auto simp: reorder_def Let_def nth_append)
  define ys where "ys = take s xs @ drop (Suc s) xs"
  have "reorder xs s d = take d ys @ [xs ! s] @ drop d ys" unfolding reorder_def Let_def ys_def using assms(1) by simp
  moreover have "mset (take d ys) + mset (drop d ys) = mset ys" by (metis append_take_drop_id mset_append)
  ultimately have "mset (reorder xs s d) = add_mset (xs ! s) (mset (take s xs @ drop (Suc s) xs))"
    by (simp flip: ys_def)
  also have "\<dots> = mset xs" by (subst (4) xs) simp
  finally show "mset (reorder xs s d) = mset xs" .
qed


definition demo_part :: encoded_part where
  "demo_part = \<lparr>ep_filename = ''head-red-hat'', ep_data = ''0x0000010100010101''\<rparr>"

definition demo_images :: image_set where
  "demo_images = \<lparr>is_catalog = \<lparr>id_bgcolors = [''d5d7e1''], id_bodies = [demo_part], id_accessories = [demo_part],
     id_heads = [demo_part], id_glasses = [demo_part]\<rparr>, is_palette = [''000000'', ''ff0000'']\<rparr>"

definition demo_hat :: composable_item where
  "demo_hat = \<lparr>it_collection = Str ''Hats'', it_meta = Obj [(''name'', Str ''hat'')],
     it_image = \<lparr>ci_filename = ''hat'', ci_data = Str ''0x0000010100010101'', ci_palette = [''000000'', ''00ff00'']\<rparr>,
     it_tokenAddress = Str ''hats'', it_tokenId = 3\<rparr>"

definition demo_net :: rpc where
  "demo_net = \<lparr>rpc_events = (\<lambda>_ _ _. []), rpc_call = (\<lambda>_ _ _. Undefined)\<rparr>"

definition demo_page_env :: env where
  "demo_page_env = \<lparr>en_isIndexer = False,
     en_cfg = \<lparr>cfg_composableItemFactory = ''f'', cfg_composablesMarketProxy = ''m'', cfg_nounsToken = ''n''\<rparr>,
     en_net = demo_net, en_rt = demo_rt, en_fill = (\<lambda>_ _. [])\<rparr>"

definition demo_extension :: extension where
  "demo_extension = \<lparr>ex_name = ''Nouns'', ex_tokenAddress = ''0xA'', ex_composerProxy = None, ex_imageData = Some demo_images\<rparr>"

definition demo_session :: "page_event list" where
  "demo_session = [RandomNoun (\<lambda>_. (0, 1)), ItemClicked demo_hat]"

definition demo_page :: composer_page where
  "demo_page = the (each (page_step demo_page_env) demo_session (open_page demo_images [demo_extension]))"

text \<open>A page whose items and parts can be drawn goes on.\<close>

definition drawable :: "string list \<Rightarrow> layer \<Rightarrow> bool" where
  "drawable colours l = (case layer_source l of None \<Rightarrow> False | Some p \<Rightarrow> local_draw_part colours p \<noteq> None)"

lemma all_or_none_map: "list_all (\<lambda>x. f x \<noteq> None) xs \<Longrightarrow> all_or_none (map f xs) = Some (map (the \<circ> f) xs)"
  by (induction xs) auto

lemma local_draw_parts_returns:
  "list_all (\<lambda>p. local_draw_part colours p \<noteq> None) ps \<Longrightarrow> \<exists>svg. local_draw_parts colours ps acc = Some svg"
  by (induction ps arbitrary: acc) auto

lemma layers_svg_returns:
  assumes "list_all (drawable colours) (filled layers)"
  shows "\<exists>svg. layers_svg layers colours background = Some svg"
proof -
  have "list_all (\<lambda>l. layer_source l \<noteq> None) (filled layers)"
    and d: "list_all (\<lambda>p. local_draw_part colours p \<noteq> None) (map (the \<circ> layer_source) (filled layers))"
    using assms by (auto simp: list_all_iff drawable_def split: option.splits)
  from local_draw_parts_returns [OF d] all_or_none_map [OF this(1)] show ?thesis
    by (fastforce simp: layers_svg_def local_buildSVG_def split: option.splits)
qed

definition demo_ready :: "composer_page \<Rightarrow> bool" where
  "demo_ready pg = (pg_seed pg \<noteq> None \<and> pg_nounExtensionName pg = ''Nouns'' \<and> pg_nounExtensions pg = [demo_extension]
     \<and> set (pg_stateItems pg) \<subseteq> {None, Some demo_hat})"

lemma demo_draws:
  assumes "demo_ready pg"
  shows "\<exists>pg'. draw_effect pg = Some pg' \<and> demo_ready pg'"
proof -
  obtain seed where seed: "pg_seed pg = Some seed" using assms by (auto simp: demo_ready_def)
  have hat: "drawable (is_palette demo_images) (ItemLayer demo_hat)"
    and part: "drawable (is_palette demo_images) (PartLayer demo_part)" by code_simp+
  obtain parts background where parts: "getNounData (is_catalog demo_images) seed = (parts, background)" by fastforce
  then have ps: "set parts \<subseteq> {None, Some demo_part}" by (auto simp: getNounData_def demo_images_def at_def split: if_splits)
  have items: "slot (pg_stateItems pg) i \<in> {None, Some demo_hat}" for i
    using assms by (auto simp: demo_ready_def slot_def dest!: nth_mem)
  have parts_at: "slot parts k \<in> {None, Some demo_part}" for k using ps by (auto simp: slot_def dest!: nth_mem)
  have "l \<in> {None, Some (ItemLayer demo_hat), Some (PartLayer demo_part)}"
    if "l \<in> set (compose_layers (pg_stateItems pg) parts)" for l
  proof -
    from that obtain i where "l = (case slot (pg_stateItems pg) i of Some item \<Rightarrow> Some (ItemLayer item)
        | None \<Rightarrow> (case part_slot i of None \<Rightarrow> None | Some k \<Rightarrow> map_option PartLayer (slot parts k)))"
      by (auto simp: compose_layers_def)
    moreover have "map_option PartLayer (slot parts k) \<in> {None, Some (PartLayer demo_part)}" for k
      using parts_at [of k] by auto
    ultimately show ?thesis using items [of i] by (auto split: option.splits)
  qed
  then have "list_all (drawable (is_palette demo_images)) (filled (compose_layers (pg_stateItems pg) parts))"
    using hat part by (fastforce simp: list_all_iff filled_def map_filter_def)
  from layers_svg_returns [OF this, of background] seed parts assms show ?thesis
    by (auto simp: draw_effect_def demo_ready_def getImageData_def demo_extension_def Let_def)
qed

lemma demo_step:
  assumes "demo_ready pg" "set items \<subseteq> {None, Some demo_hat}"
  shows "\<exists>pg'. draw_effect (pg\<lparr>pg_stateItems := items\<rparr>) = Some pg' \<and> demo_ready pg'"
  using assms by (intro demo_draws) (simp add: demo_ready_def)

lemma set_put_at: "set (put_at i v xs) \<subseteq> set xs \<union> {None, v}"
  unfolding put_at_def by (rule subset_trans [OF set_update_subset_insert]) auto

lemma demo_run:
  obtains pg where "each (page_step demo_page_env) demo_session (open_page demo_images [demo_extension]) = Some pg"
    "demo_ready pg"
proof -
  have "\<exists>pg1. page_step demo_page_env (RandomNoun (\<lambda>_. (0, 1))) (open_page demo_images [demo_extension]) = Some pg1
      \<and> demo_ready pg1"
    unfolding page_step.simps generateRandomSeed_def Let_def
    by (simp add: open_page_def random_pick_def random_index_def getImageData_def demo_extension_def, intro demo_draws)
      (simp add: demo_ready_def demo_extension_def)
  then obtain pg1 where pg1: "page_step demo_page_env (RandomNoun (\<lambda>_. (0, 1))) (open_page demo_images [demo_extension]) = Some pg1"
    "demo_ready pg1" by blast
  have "set (put_at k (Some demo_hat) (pg_stateItems pg1)) \<subseteq> {None, Some demo_hat}" for k
    using set_put_at [of k "Some demo_hat" "pg_stateItems pg1"] pg1(2) by (auto simp: demo_ready_def)
  from demo_step [OF pg1(2) this] obtain pg2 where "page_step demo_page_env (ItemClicked demo_hat) pg1 = Some pg2" "demo_ready pg2"
    by (auto simp: onItemClick_def Let_def)
  with pg1(1) show thesis by (intro that) (simp_all add: demo_session_def del: page_step.simps)
qed

lemma demo_reached:
  "reached demo_page_env demo_images [demo_extension] demo_session demo_page" "demo_ready demo_page" "pg_seed demo_page \<noteq> None"
proof -
  obtain pg where pg: "each (page_step demo_page_env) demo_session (open_page demo_images [demo_extension]) = Some pg"
    "demo_ready pg" by (rule demo_run)
  have "list_all event_ok demo_session" by (simp add: demo_session_def event_ok_def)
  with pg show "reached demo_page_env demo_images [demo_extension] demo_session demo_page"
    and "demo_ready demo_page" by (simp_all add: reached_def demo_page_def)
  then show "pg_seed demo_page \<noteq> None" by (simp add: demo_ready_def)
qed



end
