(* ===== verification/Composer_Save.thy ===== *)
theory Composer_Save imports Composer_Page begin

text \<open>
  Saving a composition: \<open>pages/Composer/SaveModal/index.tsx\<close>, which compares the layers with what the
  composer contract has and sends one batch call; what the site reads from the contract before (the children of a
  Noun and their positions) and what the contract does with the call; and the image the descriptor contract
  (\<open>NounsComposableDescriptor.sol\<close>) makes of the result, next to the preview of the page.
\<close>

section \<open>The transaction to send\<close>

datatype instruction = Move composable_item | Position composable_item nat

definition item_child :: "composable_item \<Rightarrow> child" where
  "item_child item = (as_string (it_tokenAddress item), it_tokenId item)"

record save_plan =
  sp_transfers :: "token_transfer_params list"
  sp_positions :: "token_position_params list"
  sp_approvals :: "js_value list"
  sp_instructions :: "instruction list"

text \<open>The first loop: for every layer with an item, move it in unless the Noun owns it, and place it unless it is
  where it was.\<close>

definition plan_layer :: "token_item list \<Rightarrow> token_item list \<Rightarrow> nat \<times> layer option \<Rightarrow> save_plan \<Rightarrow> save_plan" where
  "plan_layer previousChildTokens previousComposed p plan =
     (case item_in (snd p) of
        None \<Rightarrow> plan
      | Some item \<Rightarrow>
          (let owned = filterTokenItem (Some previousChildTokens) (it_tokenAddress item) (it_tokenId item) \<noteq> None;
               plan1 = (if owned then plan
                        else plan\<lparr>sp_transfers := sp_transfers plan @ [\<lparr>tp_child = item_child item, tp_amount = 1\<rparr>],
                               sp_approvals := (if it_tokenAddress item \<in> set (sp_approvals plan) then sp_approvals plan
                                                else sp_approvals plan @ [it_tokenAddress item]),
                               sp_instructions := sp_instructions plan @ [Move item]\<rparr>);
               same = (fst p < length previousComposed
                       \<and> tk_address (previousComposed ! fst p) = it_tokenAddress item
                       \<and> tk_id (previousComposed ! fst p) = it_tokenId item)
           in if same then plan1
              else plan1\<lparr>sp_positions := sp_positions plan1 @ [\<lparr>pp_child = item_child item, pp_position1 = fst p + 1\<rparr>],
                         sp_instructions := sp_instructions plan1 @ [Position item (fst p + 1)]\<rparr>))"

text \<open>The second loop: the listed items that were composed and are on no layer any more are sent with position zero.\<close>

definition plan_removal :: "layer option list \<Rightarrow> composable_item \<Rightarrow> save_plan \<Rightarrow> save_plan" where
  "plan_removal composedLayers item plan =
     (if list_ex (\<lambda>i. it_tokenAddress i = it_tokenAddress item \<and> it_tokenId i = it_tokenId item)
           (List.map_filter item_in composedLayers)
      then plan
      else plan\<lparr>sp_positions := sp_positions plan @ [\<lparr>pp_child = item_child item, pp_position1 = 0\<rparr>],
                sp_instructions := sp_instructions plan @ [Position item 0]\<rparr>)"

definition save_plan_of ::
    "layer option list \<Rightarrow> composable_item list \<Rightarrow> token_item list \<Rightarrow> token_item list \<Rightarrow> save_plan" where
  "save_plan_of composedLayers collectionItems previousChildTokens previousComposed =
     (let plan = fold (plan_layer previousChildTokens previousComposed) (enumerate 0 composedLayers)
                   \<lparr>sp_transfers = [], sp_positions = [], sp_approvals = [], sp_instructions = []\<rparr>;
          prevComposed = filter (\<lambda>item. filterTokenItem (Some previousComposed) (it_tokenAddress item) (it_tokenId item) \<noteq> None)
                           collectionItems
      in fold (plan_removal composedLayers) prevComposed plan)"

datatype save_result = NotConnected | NeedsApproval js_value | Sent string "token_transfer_params list" "token_position_params list"

text \<open>The handler asks for the first missing approval, and sends the call when there is none.\<close>

definition saveHandler :: "rpc \<Rightarrow> string option \<Rightarrow> string \<Rightarrow> string \<Rightarrow> save_plan \<Rightarrow> save_result" where
  "saveHandler net activeAccount composerProxyAddress tokenId plan =
     (if \<not> truthy_string activeAccount then NotConnected
      else (case find (\<lambda>a. \<not> js_truthy (isApprovedForAll net (as_string a) (the activeAccount) composerProxyAddress))
                   (sp_approvals plan) of
              Some a \<Rightarrow> NeedsApproval a
            | None \<Rightarrow> Sent tokenId (sp_transfers plan) (sp_positions plan)))"

datatype tx_status = NoTx | PendingSignature | Mining | Success | Fail string | Exception string

datatype save_button = Idle | Busy

record save_modal =
  sm_button :: save_button
  sm_completed :: bool
  sm_alert :: "(string \<times> string) option"

text \<open>The effect of the state of the transaction.\<close>

definition tx_effect :: "tx_status \<Rightarrow> save_modal \<Rightarrow> save_modal" where
  "tx_effect status m =
     (case status of
        NoTx \<Rightarrow> m\<lparr>sm_button := Idle\<rparr>
      | PendingSignature \<Rightarrow> m\<lparr>sm_button := Busy\<rparr>
      | Mining \<Rightarrow> m\<lparr>sm_button := Busy\<rparr>
      | Success \<Rightarrow> m\<lparr>sm_completed := True, sm_alert := Some (''Success'', ''Changes successfully saved on-chain!''), sm_button := Idle\<rparr>
      | Fail msg \<Rightarrow> m\<lparr>sm_alert := Some (''Transaction Failed'', if msg = '''' then ''Please try again.'' else msg), sm_button := Idle\<rparr>
      | Exception msg \<Rightarrow> m\<lparr>sm_alert := Some (''Transaction Error'', if msg = '''' then ''Please try again.'' else msg), sm_button := Idle\<rparr>)"

section \<open>What the site reads from the contract\<close>

text \<open>The answers of ethers for a composer contract in a state: its events and the batch of composed children.\<close>

definition child_args :: "child \<Rightarrow> nat \<Rightarrow> obj" where
  "child_args ch n = [(''childTokenAddress'', Str (fst ch)), (''childTokenId'', BigNum (snd ch)), (''amount'', BigNum (int n))]"

fun received_args :: "composer_event \<Rightarrow> obj list" where
  "received_args (ChildReceived _ ch n) = [child_args ch n]"
| "received_args _ = []"

fun transferred_args :: "composer_event \<Rightarrow> obj list" where
  "transferred_args (ChildTransferred _ ch n) = [child_args ch n]"
| "transferred_args _ = []"

definition child_obj :: "child \<Rightarrow> js_value" where
  "child_obj ch = Obj [(''tokenAddress'', Str (fst ch)), (''tokenId'', BigNum (snd ch))]"

definition serves :: "rpc \<Rightarrow> string \<Rightarrow> string \<Rightarrow> composer \<Rightarrow> bool" where
  "serves net proxy tokenId c =
     (getChildReceivedEvents net proxy tokenId = concat (map received_args (emitted c))
      \<and> getChildTransferredEvents net proxy tokenId = concat (map transferred_args (emitted c))
      \<and> chain_composedChildBatch net proxy tokenId 1 16 = Arr (map child_obj (getComposedChildBatch_answer 1 16 c)))"

lemma composed_received:
  "composed (Str a, i) (concat (map received_args es)) = int (received (a, i) es)"
proof (induction es)
  case (Cons e es)
  have "composed k (xs @ ys) = composed k xs + composed k ys" for k xs ys by (simp add: composed_def)
  with Cons show ?case
    by (cases e) (auto simp: composed_def received_def child_key_def child_args_def event_int_def as_int_def)
qed (simp add: composed_def received_def)

lemma composed_transferred:
  "composed (Str a, i) (concat (map transferred_args es)) = int (transferred_on (a, i) es)"
proof (induction es)
  case (Cons e es)
  have "composed k (xs @ ys) = composed k xs + composed k ys" for k xs ys by (simp add: composed_def)
  with Cons show ?case
    by (cases e) (auto simp: composed_def transferred_on_def child_key_def child_args_def event_int_def as_int_def)
qed (simp add: composed_def transferred_on_def)


lemma child_token_balance:
  assumes "balances_ok c" and "serves net proxy tokenId c"
  shows "(\<lparr>tk_address = Str a, tk_id = i, tk_balance = Some b\<rparr> \<in> set (getChildTokens net proxy tokenId))
    = (b = int (cs_balance (childTokenState c (a, i))) \<and> b > 0)"
proof -
  have events: "getChildReceivedEvents net proxy tokenId = concat (map received_args (emitted c))"
    "getChildTransferredEvents net proxy tokenId = concat (map transferred_args (emitted c))"
    using assms(2) by (simp_all add: serves_def)
  have bal: "received (a, i) (emitted c) = cs_balance (childTokenState c (a, i)) + transferred_on (a, i) (emitted c)"
    using assms(1) by (simp only: balances_ok_def)
  have "(Str a, i) \<in> child_key ` set (concat (map received_args es))" if "received (a, i) es > 0" for es
    using that
  proof (induction es)
    case (Cons e es)
    show ?case
    proof (cases "received (a, i) es > 0")
      case True
      then show ?thesis using Cons.IH by auto
    next
      case False
      moreover have "received (a, i) (e # es) = received (a, i) [e] + received (a, i) es" by (simp add: received_def)
      ultimately have "received (a, i) [e] > 0" using Cons.prems by simp
      then obtain s n where "e = ChildReceived s (a, i) n"
        by (cases e) (auto simp: received_def split: if_splits)
      then show ?thesis by (simp add: child_key_def child_args_def event_int_def as_int_def image_Un)
    qed
  qed (simp add: received_def)
  then show ?thesis
    unfolding child_token_iff events composed_received composed_transferred using bal by auto
qed

text \<open>A child is among the tokens read exactly when the Noun owns it.\<close>

lemma filterTokenItem_iff: "(filterTokenItem (Some ts) x i \<noteq> None) = (\<exists>t \<in> set ts. tk_address t = x \<and> tk_id t = i)"
  by (auto simp: filterTokenItem_def find_None_iff)

lemma owned_iff:
  assumes "balances_ok c" and "serves net proxy tokenId c"
  shows "(filterTokenItem (Some (getChildTokens net proxy tokenId)) (Str a) i \<noteq> None) = childExists (a, i) c"
proof -
  have pos: "\<exists>b. tk_balance t = Some b" if "t \<in> set (getChildTokens net proxy tokenId)" for t
    using that by (auto simp: getChildTokens_def Let_def positive_def split: option.splits)
  have "(\<exists>t \<in> set (getChildTokens net proxy tokenId). tk_address t = Str a \<and> tk_id t = i)
      = (\<exists>b. \<lparr>tk_address = Str a, tk_id = i, tk_balance = Some b\<rparr> \<in> set (getChildTokens net proxy tokenId))"
    using pos by (metis (full_types) old.unit.exhaust token_item.select_convs(1,2) token_item.surjective)
  then show ?thesis
    unfolding filterTokenItem_iff by (simp add: child_token_balance [OF assms] childExists_def)
qed

definition child_token :: "child \<Rightarrow> token_item" where
  "child_token ch = \<lparr>tk_address = Str (fst ch), tk_id = snd ch, tk_balance = None\<rparr>"

lemma composed_batch:
  assumes "serves net proxy tokenId c"
  shows "getComposedChildBatch net proxy tokenId 1 16 = Some (map child_token (getComposedChildBatch_answer 1 16 c))"
  using assms
  by (simp add: getComposedChildBatch_def serves_def child_obj_def member_def as_int_def child_token_def comp_def)

text \<open>C21. What the site reads from a composer contract is what the contract holds: the children with their balances,
  computed from the events alone, and the sixteen positions.\<close>

theorem site_children_match_contract:
  assumes "list_all tx_ok txs" and "serves net proxy tokenId (fold transact txs new_composer)"
  shows "let c = fold transact txs new_composer
    in (\<lparr>tk_address = Str a, tk_id = i, tk_balance = Some b\<rparr> \<in> set (getChildTokens net proxy tokenId))
         = (b = int (cs_balance (childTokenState c (a, i))) \<and> b > 0)
     \<and> getComposedChildBatch net proxy tokenId 1 16
         = Some (map (\<lambda>p. \<lparr>tk_address = Str (fst (composedChildTokens c p)), tk_id = snd (composedChildTokens c p),
                         tk_balance = None\<rparr>) [1..<17])"
proof -
  have "balances_ok (fold transact txs new_composer)" using composer_run [OF assms(1)] by (simp add: composer_ok_def)
  then show ?thesis
    unfolding Let_def using child_token_balance composed_batch assms(2)
    by (auto simp: getComposedChildBatch_answer_def child_token_def)
qed

text \<open>A node that answers for a contract in a state.\<close>

definition node_for :: "composer \<Rightarrow> rpc" where
  "node_for c =
     \<lparr>rpc_events = (\<lambda>_ event _. map (\<lambda>a. \<lparr>re_blockNumber = 0, re_blockHash = '''', re_transactionIndex = 0, re_args = a\<rparr>)
        (if event = ''ChildReceived'' then concat (map received_args (emitted c))
         else if event = ''ChildTransferred'' then concat (map transferred_args (emitted c)) else [])),
      rpc_call = (\<lambda>_ _ _. Arr (map child_obj (getComposedChildBatch_answer 1 16 c)))\<rparr>"

lemma spread_args:
  "map (spread []) (received_args e) = received_args e" "map (spread []) (transferred_args e) = transferred_args e"
  by (cases e; simp add: spread_def child_args_def)+

lemma node_serves: "serves (node_for c) proxy tokenId c"
  by (simp add: serves_def node_for_def getChildReceivedEvents_def getChildTransferredEvents_def
      chain_composedChildBatch_def event_args_def comp_def map_concat spread_args)

theorem site_children_match_contract_witness:
  "\<lparr>tk_address = Str ''hats'', tk_id = 5, tk_balance = Some 2\<rparr>
     \<in> set (getChildTokens (node_for (fold transact demo_txs new_composer)) ''proxy'' ''1'')
   \<and> getComposedChildBatch (node_for (fold transact demo_txs new_composer)) ''proxy'' ''1'' 1 16 \<noteq> None"
proof -
  have "cs_balance (childTokenState (fold transact demo_txs new_composer) (''hats'', 5)) = 2" by code_simp
  then show ?thesis
    using site_children_match_contract [OF demo_txs_ok node_serves, of "''hats''" 5 2 "''proxy''" "''1''"]
    by (simp add: Let_def)
qed

section \<open>What the contract does with the call\<close>

lemma receive_new_children:
  assumes "composition_ok c" "distinct (map tp_child ps)"
    and "list_all (\<lambda>p. cs_balance (childTokenState c (tp_child p)) = 0 \<and> tp_amount p = 1
           \<and> te_moves env sender (te_self env) (tp_child p) 1) ps"
    and "lawful env"
  shows "\<exists>c'. receive_child_batch env sender ps c = Some c' \<and> composition_ok c'
    \<and> composedChildTokens c' = composedChildTokens c
    \<and> (\<forall>x. childExists x c' = (childExists x c \<or> x \<in> tp_child ` set ps))"
  using assms(1-3)
proof (induction ps arbitrary: c)
  case (Cons p ps)
  have p: "cs_balance (childTokenState c (tp_child p)) = 0" "tp_amount p = 1" "te_moves env sender (te_self env) (tp_child p) 1"
    using Cons.prems(3) by simp_all
  then have "receive_child env sender p c \<noteq> None"
    by (cases "childTokens c (fst (tp_child p)) = []") (simp_all add: receive_child_def Let_def)
  then obtain c1 where c1: "receive_child env sender p c = Some c1" by blast
  note f = receive_child_frame [OF c1]
  have "fst (tp_child p) \<noteq> zero_address" using p(3) assms(4) by (metis lawful_def prod.collapse)
  then have ok1: "composition_ok c1" by (rule receive_composition_ok [OF Cons.prems(1) c1])
  have "list_all (\<lambda>p. cs_balance (childTokenState c1 (tp_child p)) = 0 \<and> tp_amount p = 1
           \<and> te_moves env sender (te_self env) (tp_child p) 1) ps"
    unfolding list_all_iff
  proof
    fix q
    assume q: "q \<in> set ps"
    then have "tp_child q \<in> tp_child ` set ps" by simp
    with Cons.prems(2) have "tp_child q \<noteq> tp_child p" by auto
    with q Cons.prems(3) show "cs_balance (childTokenState c1 (tp_child q)) = 0 \<and> tp_amount q = 1
        \<and> te_moves env sender (te_self env) (tp_child q) 1" by (simp add: list_all_iff f(2))
  qed
  from Cons.IH [OF ok1 _ this] Cons.prems(2) obtain c' where
    "receive_child_batch env sender ps c1 = Some c'" "composition_ok c'" "composedChildTokens c' = composedChildTokens c1"
    "\<forall>x. childExists x c' = (childExists x c1 \<or> x \<in> tp_child ` set ps)" by auto
  then show ?case
    using c1 p by (auto simp: receive_child_batch_def f(1) childExists_def f(2))
qed (simp add: receive_child_batch_def)

text \<open>The children on layers, and the positions to send for them.\<close>

definition layer_items :: "layer option list \<Rightarrow> composable_item list" where
  "layer_items layers = List.map_filter item_in layers"

definition new_position :: "token_item list \<Rightarrow> nat \<times> layer option \<Rightarrow> token_position_params option" where
  "new_position previousComposed p =
     (case item_in (snd p) of
        None \<Rightarrow> None
      | Some item \<Rightarrow>
          if fst p < length previousComposed \<and> tk_address (previousComposed ! fst p) = it_tokenAddress item
             \<and> tk_id (previousComposed ! fst p) = it_tokenId item
          then None else Some \<lparr>pp_child = item_child item, pp_position1 = fst p + 1\<rparr>)"

lemma plan_layers:
  "sp_transfers (fold (plan_layer owned_tokens previous) ps plan) = sp_transfers plan
     @ map (\<lambda>item. \<lparr>tp_child = item_child item, tp_amount = 1\<rparr>)
         (filter (\<lambda>item. filterTokenItem (Some owned_tokens) (it_tokenAddress item) (it_tokenId item) = None) (layer_items (map snd ps)))
   \<and> sp_positions (fold (plan_layer owned_tokens previous) ps plan) = sp_positions plan @ List.map_filter (new_position previous) ps"
proof (induction ps arbitrary: plan)
  case (Cons p ps)
  have "sp_transfers (plan_layer owned_tokens previous p plan) = sp_transfers plan
      @ map (\<lambda>item. \<lparr>tp_child = item_child item, tp_amount = 1\<rparr>)
         (filter (\<lambda>item. filterTokenItem (Some owned_tokens) (it_tokenAddress item) (it_tokenId item) = None)
           (case item_in (snd p) of None \<Rightarrow> [] | Some item \<Rightarrow> [item]))"
    "sp_positions (plan_layer owned_tokens previous p plan) = sp_positions plan
      @ (case new_position previous p of None \<Rightarrow> [] | Some q \<Rightarrow> [q])"
    by (auto simp: plan_layer_def new_position_def Let_def split: option.splits)
  with Cons show ?case by (auto simp: layer_items_def map_filter_simps split: option.splits)
qed (simp add: layer_items_def map_filter_simps)

lemma plan_removals:
  "sp_transfers (fold (plan_removal layers) items plan) = sp_transfers plan"
  "\<exists>gone. set gone \<subseteq> set items
     \<and> sp_positions (fold (plan_removal layers) items plan) = sp_positions plan @ map (\<lambda>i. \<lparr>pp_child = item_child i, pp_position1 = 0\<rparr>) gone"
proof (induction items arbitrary: plan)
  case (Cons i items)
  { case 1 show ?case using Cons.IH(1) by (simp add: plan_removal_def) }
  { case 2
    obtain gone where g: "set gone \<subseteq> set items"
      "sp_positions (fold (plan_removal layers) items (plan_removal layers i plan))
        = sp_positions (plan_removal layers i plan) @ map (\<lambda>i. \<lparr>pp_child = item_child i, pp_position1 = 0\<rparr>) gone"
      using Cons.IH(2) by blast
    have "sp_positions (plan_removal layers i plan) = sp_positions plan
        \<or> sp_positions (plan_removal layers i plan) = sp_positions plan @ [\<lparr>pp_child = item_child i, pp_position1 = 0\<rparr>]"
      by (simp add: plan_removal_def)
    then show ?case
    proof
      assume "sp_positions (plan_removal layers i plan) = sp_positions plan"
      with g show ?case by (intro exI [of _ gone]) auto
    next
      assume "sp_positions (plan_removal layers i plan) = sp_positions plan @ [\<lparr>pp_child = item_child i, pp_position1 = 0\<rparr>]"
      with g show ?case by (intro exI [of _ "i # gone"]) auto
    qed }
qed simp_all

text \<open>What is sent: the items the Noun does not own, the new positions, and zeros for items taken off.\<close>

lemma plan_parts:
  obtains gone where
    "set gone \<subseteq> set (filter (\<lambda>item. filterTokenItem (Some previous) (it_tokenAddress item) (it_tokenId item) \<noteq> None) listed)"
    "sp_transfers (save_plan_of layers listed owned_tokens previous) = map (\<lambda>item. \<lparr>tp_child = item_child item, tp_amount = 1\<rparr>)
      (filter (\<lambda>item. filterTokenItem (Some owned_tokens) (it_tokenAddress item) (it_tokenId item) = None) (layer_items layers))"
    "sp_positions (save_plan_of layers listed owned_tokens previous) = List.map_filter (new_position previous) (enumerate 0 layers)
      @ map (\<lambda>i. \<lparr>pp_child = item_child i, pp_position1 = 0\<rparr>) gone"
proof -
  define start where "start = \<lparr>sp_transfers = [], sp_positions = [], sp_approvals = [], sp_instructions = []\<rparr>"
  define plan where "plan = fold (plan_layer owned_tokens previous) (enumerate 0 layers) start"
  define former where "former = filter (\<lambda>item. filterTokenItem (Some previous) (it_tokenAddress item) (it_tokenId item) \<noteq> None) listed"
  have "save_plan_of layers listed owned_tokens previous = fold (plan_removal layers) former plan"
    by (simp add: save_plan_of_def plan_def former_def start_def)
  moreover obtain gone where "set gone \<subseteq> set former" "sp_positions (fold (plan_removal layers) former plan)
      = sp_positions plan @ map (\<lambda>i. \<lparr>pp_child = item_child i, pp_position1 = 0\<rparr>) gone"
    using plan_removals(2) by blast
  ultimately show thesis
    using that [of gone] plan_layers [of owned_tokens previous "enumerate 0 layers" start]
    by (simp add: plan_removals(1) plan_def former_def start_def)
qed

text \<open>Position zero changes nothing: it clears a position nothing is ever composed at.\<close>

lemma compose_zero:
  assumes "composition_ok c"
  shows "composedChildTokens (compose_child ch 0 c) = composedChildTokens c"
  using composition_okD(9) [OF assms] by (simp add: compose_child_def fun_upd_idem)

lemma compose_zero_batch:
  assumes "composition_ok c" "\<forall>ch \<in> set chs. childExists ch c"
  shows "\<exists>c'. compose_child_batch (map (\<lambda>ch. \<lparr>pp_child = ch, pp_position1 = 0\<rparr>) chs) c = Some c'
    \<and> composedChildTokens c' = composedChildTokens c"
  using assms
proof (induction chs arbitrary: c)
  case (Cons ch chs)
  have "composition_ok (compose_child ch 0 c)" using Cons.prems by (simp add: compose_composition_ok)
  from Cons.IH [OF this] Cons.prems show ?case
    by (auto simp: compose_child_batch_def compose_zero)
qed (simp add: compose_child_batch_def)


definition target :: "composer \<Rightarrow> layer option list \<Rightarrow> nat \<Rightarrow> nat \<Rightarrow> child" where
  "target c layers k q =
     (case (if 0 < q \<and> q - 1 < k then item_in (layers ! (q - 1)) else None) of
        Some item \<Rightarrow> item_child item
      | None \<Rightarrow> if composedChildTokens c q \<in> item_child ` set (layer_items (take k layers)) then no_child
               else composedChildTokens c q)"

lemma text_address: "text_of v \<noteq> None \<Longrightarrow> \<exists>a. v = Str a"
  by (cases v) (simp_all add: text_of_def)

lemma text_addresses:
  assumes "list_all (\<lambda>item. text_of (it_tokenAddress item) \<noteq> None) items" "item \<in> set items"
  obtains a where "it_tokenAddress item = Str a"
  using assms text_address by (meson list_all_iff)

lemma layer_items_append: "layer_items (xs @ ys) = layer_items xs @ layer_items ys"
  by (simp add: layer_items_def map_filter_def)

lemma layer_items_take_Suc:
  assumes "k < length layers"
  shows "layer_items (take (Suc k) layers) = layer_items (take k layers)
     @ (case item_in (layers ! k) of None \<Rightarrow> [] | Some item \<Rightarrow> [item])"
  using assms by (simp add: take_Suc_conv_app_nth layer_items_def map_filter_def split: option.splits)

text \<open>Placing the layers one after the other.\<close>

lemma place_layers:
  assumes c: "composition_ok c" and k: "k \<le> length layers"
    and d: "distinct (map item_child (layer_items layers))"
    and ex: "\<forall>item \<in> set (layer_items layers). childExists (item_child item) c \<and> text_of (it_tokenAddress item) \<noteq> None"
    and prev: "previous = map child_token (map (composedChildTokens c) [1..<Suc (length layers)])"
  shows "\<exists>s. compose_child_batch (List.map_filter (new_position previous) (enumerate 0 (take k layers))) c = Some s
    \<and> composition_ok s \<and> (\<forall>x. childExists x s = childExists x c)
    \<and> (\<forall>q. composedChildTokens s q = target c layers k q)"
  using k
proof (induction k)
  case 0
  then show ?case using c by (simp add: compose_child_batch_def map_filter_simps target_def layer_items_def)
next
  case (Suc k)
  then obtain s where s: "compose_child_batch (List.map_filter (new_position previous) (enumerate 0 (take k layers))) c = Some s"
    "composition_ok s" "\<forall>x. childExists x s = childExists x c" "\<forall>q. composedChildTokens s q = target c layers k q" by auto
  have k: "k < length layers" using Suc.prems by simp
  have en: "enumerate 0 (take (Suc k) layers) = enumerate 0 (take k layers) @ [(k, layers ! k)]"
    using k by (simp add: take_Suc_conv_app_nth enumerate_append_eq)
  have batch: "compose_child_batch (List.map_filter (new_position previous) (enumerate 0 (take (Suc k) layers))) c
      = compose_child_batch (case new_position previous (k, layers ! k) of None \<Rightarrow> [] | Some p \<Rightarrow> [p]) s"
    using s(1) unfolding en by (auto simp: compose_child_batch_def each_append map_filter_def split: option.splits)
  show ?case
  proof (cases "item_in (layers ! k)")
    case None
    then have "composedChildTokens s q = target c layers (Suc k) q" for q
      using s(4) k by (auto simp: target_def layer_items_take_Suc less_Suc_eq)
    moreover have "new_position previous (k, layers ! k) = None" using None by (simp add: new_position_def)
    then have "compose_child_batch (List.map_filter (new_position previous) (enumerate 0 (take (Suc k) layers))) c = Some s"
      using batch by (simp add: compose_child_batch_def)
    ultimately show ?thesis using s(2,3) by blast
  next
    case (Some item)
    let ?x = "item_child item"
    have "item \<in> set (layer_items (take (Suc k) layers))" using Some k by (simp add: layer_items_take_Suc)
    moreover have split: "layer_items layers = layer_items (take (Suc k) layers) @ layer_items (drop (Suc k) layers)"
      by (metis append_take_drop_id layer_items_append)
    ultimately have "item \<in> set (layer_items layers)" by simp
    with ex have ex': "childExists ?x c" "text_of (it_tokenAddress item) \<noteq> None" by blast+
    from text_address [OF this(2)] obtain a where a: "it_tokenAddress item = Str a" by blast
    with ex' have x: "childExists ?x c" "it_tokenAddress item = Str a" "?x = (a, it_tokenId item)"
      by (simp_all add: item_child_def as_string_def)
    have "distinct (map item_child (layer_items (take (Suc k) layers)))" using d unfolding split by simp
    then have new: "?x \<notin> item_child ` set (layer_items (take k layers))" using Some k by (simp add: layer_items_take_Suc)
    have nc: "?x \<noteq> no_child" using composition_okD(6) [OF c x(1)] by (auto simp: no_child_def)
    have at_prev: "previous ! k = child_token (composedChildTokens c (Suc k))" "k < length previous"
      using k unfolding prev by (simp_all del: upt_Suc)
    show ?thesis
    proof (cases "composedChildTokens c (Suc k) = ?x")
      case True
      then have stays: "new_position previous (k, layers ! k) = None"
        using Some at_prev x by (simp add: new_position_def child_token_def)
      have "target c layers k q = target c layers (Suc k) q" for q
      proof -
        have "q = Suc k" if "composedChildTokens c q = ?x"
          using that True nc composition_okD(3) [OF c] by metis
        moreover have "item_child i \<noteq> ?x" if "i \<in> set (layer_items (take k layers))" for i
          using new that by (metis image_eqI)
        ultimately show ?thesis using True Some k
          by (auto simp: target_def layer_items_take_Suc less_Suc_eq split: option.splits)
      qed
      moreover have "compose_child_batch (List.map_filter (new_position previous) (enumerate 0 (take (Suc k) layers))) c = Some s"
        using batch stays by (simp add: compose_child_batch_def)
      ultimately show ?thesis using s(2-4) by auto
    next
      case False
      then have np: "new_position previous (k, layers ! k) = Some \<lparr>pp_child = ?x, pp_position1 = Suc k\<rparr>"
        using Some at_prev x by (auto simp: new_position_def child_token_def prod_eq_iff)
      have exs: "childExists ?x s" using s(3) x(1) by blast
      note spec = compose_child_spec(1) [OF s(2) _ exs, of "Suc k"]
      have "item_child i \<noteq> ?x" if "q - 1 < k" "item_in (layers ! (q - 1)) = Some i" for q i
      proof -
        have "i \<in> set (layer_items (take k layers))"
          using that k by (force simp: layer_items_def map_filter_def in_set_conv_nth intro: image_eqI)
        with new show ?thesis by (metis image_eqI)
      qed
      then have "composedChildTokens (compose_child ?x (Suc k) s) q = target c layers (Suc k) q" for q
        using s(4) Some new k by (auto simp: spec target_def layer_items_take_Suc less_Suc_eq split: option.splits)
      moreover have "compose_child_batch (List.map_filter (new_position previous) (enumerate 0 (take (Suc k) layers))) c
          = Some (compose_child ?x (Suc k) s)"
        using batch np exs by (simp add: compose_child_batch_def)
      moreover have "composition_ok (compose_child ?x (Suc k) s)" by (rule compose_composition_ok [OF s(2) exs])
      ultimately show ?thesis using s(3) by auto
    qed
  qed
qed


lemma save_applied:
  fixes listed previous
  assumes txs: "list_all tx_ok txs" and c: "c = fold transact txs new_composer"
    and net: "serves net proxy tokenId c" "getComposedChildBatch net proxy tokenId 1 16 = Some previous"
    and layers: "length layers = 16" "distinct (map item_child (layer_items layers))"
    and addresses: "list_all (\<lambda>item. text_of (it_tokenAddress item) \<noteq> None) (layer_items layers @ listed)"
      "list_all (\<lambda>item. it_tokenAddress item \<noteq> no_address) listed"
    and env: "te_isApprovedOrOwner env sender" "lawful env"
      "list_all (\<lambda>item. te_moves env sender (te_self env) (item_child item) 1) (layer_items layers)"
    and plan: "plan = save_plan_of layers listed (getChildTokens net proxy tokenId) previous"
  shows "\<exists>c'. call_composer env sender (ReceiveAndComposeChildBatchMixed (sp_transfers plan) (sp_positions plan)) c = Some c'
    \<and> (\<forall>k < 16. composedChildTokens c' (Suc k) =
         (case item_in (layers ! k) of
            Some item \<Rightarrow> item_child item
          | None \<Rightarrow> if composedChildTokens c (Suc k) \<in> item_child ` set (layer_items layers) then no_child
                   else composedChildTokens c (Suc k)))"
proof -
  let ?owned = "getChildTokens net proxy tokenId"
  have ok: "composition_ok c" "balances_ok c" using composer_run [OF txs] by (simp_all add: c composer_ok_def)
  have prev: "previous = map child_token (map (composedChildTokens c) [1..<Suc (length layers)])"
    using net(2) composed_batch [OF net(1)] layers(1) by (simp add: getComposedChildBatch_answer_def)
  have owned: "(filterTokenItem (Some ?owned) (it_tokenAddress item) (it_tokenId item) = None) = (\<not> childExists (item_child item) c)"
    if "item \<in> set (layer_items layers)" for item
  proof -
    from that have "item \<in> set (layer_items layers @ listed)" by simp
    then obtain a where "it_tokenAddress item = Str a" by (rule text_addresses [OF addresses(1)])
    then show ?thesis
      using owned_iff [OF ok(2) net(1), of a "it_tokenId item"] by (auto simp: item_child_def as_string_def simp del: not_None_eq)
  qed
  define news where "news = map (\<lambda>item. \<lparr>tp_child = item_child item, tp_amount = 1\<rparr>)
      (filter (\<lambda>item. filterTokenItem (Some ?owned) (it_tokenAddress item) (it_tokenId item) = None) (layer_items layers))"
  define places where "places = List.map_filter (new_position previous) (enumerate 0 layers)"
  obtain gone where gone: "set gone \<subseteq> set (filter (\<lambda>item. filterTokenItem (Some previous) (it_tokenAddress item)
        (it_tokenId item) \<noteq> None) listed)"
    and p: "sp_transfers plan = news" "sp_positions plan = places @ map (\<lambda>i. \<lparr>pp_child = item_child i, pp_position1 = 0\<rparr>) gone"
    unfolding plan news_def places_def by (rule plan_parts)
  have "distinct (map tp_child news)"
    using layers(2) by (simp add: news_def comp_def distinct_map_filter)
  moreover have "list_all (\<lambda>p. cs_balance (childTokenState c (tp_child p)) = 0 \<and> tp_amount p = 1
      \<and> te_moves env sender (te_self env) (tp_child p) 1) news"
    using owned env(3) by (auto simp: news_def list_all_iff childExists_def)
  ultimately obtain c0 where c0: "receive_child_batch env sender news c = Some c0" "composition_ok c0"
    "composedChildTokens c0 = composedChildTokens c" "\<forall>x. childExists x c0 = (childExists x c \<or> x \<in> tp_child ` set news)"
    using receive_new_children [OF ok(1) _ _ env(2)] by blast
  have "\<forall>item \<in> set (layer_items layers). childExists (item_child item) c0 \<and> text_of (it_tokenAddress item) \<noteq> None"
  proof
    fix item
    assume item: "item \<in> set (layer_items layers)"
    have "item_child item \<in> tp_child ` set news" if "\<not> childExists (item_child item) c"
      using that item owned [OF item] by (simp add: news_def image_image)
    with c0(4) have "childExists (item_child item) c0" by blast
    moreover have "text_of (it_tokenAddress item) \<noteq> None" using item addresses(1) by (simp add: list_all_iff)
    ultimately show "childExists (item_child item) c0 \<and> text_of (it_tokenAddress item) \<noteq> None" ..
  qed
  then obtain s where s: "compose_child_batch places c0 = Some s" "composition_ok s" "\<forall>x. childExists x s = childExists x c0"
    "\<forall>q. composedChildTokens s q = target c0 layers 16 q"
    using place_layers [OF c0(2) order_refl layers(2), of previous] prev layers(1) unfolding places_def c0(3) by auto
  have "childExists (item_child i) s" if "i \<in> set gone" for i
  proof -
    have i: "i \<in> set listed" "filterTokenItem (Some previous) (it_tokenAddress i) (it_tokenId i) \<noteq> None" using that gone by auto
    from i(1) have "i \<in> set (layer_items layers @ listed)" by simp
    then obtain a where a: "it_tokenAddress i = Str a" by (rule text_addresses [OF addresses(1)])
    then have z: "Str a \<noteq> no_address" using i(1) addresses(2) by (auto simp: list_all_iff)
    from i(2) obtain t where t: "t \<in> set previous" "tk_address t = Str a" "tk_id t = it_tokenId i"
      unfolding filterTokenItem_iff a by blast
    from t(1) obtain q where "t = child_token (composedChildTokens c q)" unfolding prev by auto
    with t(2,3) a have "composedChildTokens c q = item_child i"
      by (simp add: child_token_def item_child_def as_string_def prod_eq_iff)
    moreover have "item_child i \<noteq> no_child" using a z by (auto simp: item_child_def no_child_def zero_address_def as_string_def)
    ultimately have "childExists (item_child i) c" using composition_okD(4) [OF ok(1)] by metis
    with s(3) c0(4) show ?thesis by blast
  qed
  then obtain c' where c': "compose_child_batch (map (\<lambda>i. \<lparr>pp_child = item_child i, pp_position1 = 0\<rparr>) gone) s = Some c'"
    "composedChildTokens c' = composedChildTokens s"
    using compose_zero_batch [OF s(2), of "map item_child gone"] by (auto simp: comp_def)
  have "call_composer env sender (ReceiveAndComposeChildBatchMixed (sp_transfers plan) (sp_positions plan)) c = Some c'"
    using env(1) c0(1) s(1) c'(1) by (simp add: call_composer_def p compose_child_batch_def each_append)
  then show ?thesis using c'(2) s(4) c0(3) layers(1) by (auto simp: target_def split: option.splits)
qed



end
