(* ===== verification/Composer_Drawing.thy ===== *)
theory Composer_Drawing imports Composer_Save begin

text \<open>
  The image the descriptor contract (\<open>NounsComposableDescriptor.sol\<close>, \<open>getPartsForSeed\<close>) makes
  of a Noun's composition, next to the preview that the composer page draws before it is saved.
\<close>

section \<open>What the contracts draw\<close>

text \<open>A part of the renderer: its image, empty when there is none, and its palette.  \<open>getPart\<close> is what an item
  contract answers, \<open>base\<close> the parts of the art contract for the Noun's seed.\<close>

type_synonym renderer_part = "string \<times> string list"

definition getParts :: "(child \<Rightarrow> renderer_part) \<Rightarrow> composer \<Rightarrow> renderer_part list" where
  "getParts getPart c =
     map (\<lambda>i. let ch = composedChildTokens c (i + 1) in if fst ch \<noteq> zero_address then getPart ch else ('''', [])) [0..<16]"

definition replace_empty :: "nat \<Rightarrow> renderer_part \<Rightarrow> renderer_part list \<Rightarrow> renderer_part list" where
  "replace_empty i part parts = (if fst (parts ! i) = '''' then parts[i := part] else parts)"

definition getPartsForSeed :: "(child \<Rightarrow> renderer_part) \<Rightarrow> renderer_part list \<Rightarrow> composer \<Rightarrow> renderer_part list" where
  "getPartsForSeed getPart base c =
     (let composableParts = getParts getPart c
      in if length composableParts < 12 then base
         else filter (\<lambda>p. fst p \<noteq> '''')
                (replace_empty 10 (base ! 3) (replace_empty 8 (base ! 2) (replace_empty 6 (base ! 1)
                  (replace_empty 4 (base ! 0) composableParts)))))"

text \<open>What the page draws for a layer, with the palette it uses.\<close>

definition drawn_part :: "string list \<Rightarrow> layer \<Rightarrow> renderer_part" where
  "drawn_part colours l =
     (case the (layer_source l) of (s, own) \<Rightarrow> (s, case own of Some local \<Rightarrow> local | None \<Rightarrow> colours))"

lemma filter_map_filled:
  assumes "\<forall>i \<in> set xs. case h i of None \<Rightarrow> \<not> P (f i) | Some l \<Rightarrow> P (f i) \<and> f i = g l"
  shows "filter P (map f xs) = map g (filled (map h xs))"
  using assms by (induction xs) (auto simp: filled_def map_filter_simps split: option.splits)

lemma length_replace_empty [simp]: "length (replace_empty i part parts) = length parts"
  by (simp add: replace_empty_def)

lemma nth_replace_empty:
  "i < length parts \<Longrightarrow> replace_empty i part parts ! j = (if j = i \<and> fst (parts ! i) = '''' then part else parts ! j)"
  by (simp add: replace_empty_def nth_list_update)

lemma merged_parts:
  assumes "length parts = 16"
  shows "replace_empty 10 (base ! 3) (replace_empty 8 (base ! 2) (replace_empty 6 (base ! 1) (replace_empty 4 (base ! 0) parts)))
    = map (\<lambda>i. case part_slot i of Some k \<Rightarrow> if fst (parts ! i) = '''' then base ! k else parts ! i | None \<Rightarrow> parts ! i) [0..<16]"
proof (rule nth_equalityI)
  fix i
  assume "i < length (replace_empty 10 (base ! 3) (replace_empty 8 (base ! 2) (replace_empty 6 (base ! 1) (replace_empty 4 (base ! 0) parts))))"
  then have i: "i < 16" by (simp add: assms)
  consider "i = 4" | "i = 6" | "i = 8" | "i = 10" | "i \<notin> {4, 6, 8, 10}" by blast
  then show "replace_empty 10 (base ! 3) (replace_empty 8 (base ! 2) (replace_empty 6 (base ! 1) (replace_empty 4 (base ! 0) parts))) ! i
    = map (\<lambda>i. case part_slot i of Some k \<Rightarrow> if fst (parts ! i) = '''' then base ! k else parts ! i | None \<Rightarrow> parts ! i) [0..<16] ! i"
    using i by cases (simp_all add: nth_replace_empty assms part_slot_def del: upt_Suc)
qed (simp add: assms)

lemma descriptor_draws_layers:
  assumes comp: "\<forall>k < 16. composedChildTokens c (Suc k) = (case item_in (layers ! k) of Some item \<Rightarrow> item_child item | None \<Rightarrow> no_child)"
    and layers: "layers = compose_layers items (map Some parts)" "length items = 16" "length parts = 4"
    and item_parts: "list_all (\<lambda>item. fst (item_child item) \<noteq> zero_address \<and> fst (getPart (item_child item)) \<noteq> ''''
        \<and> layer_source (ItemLayer item) = Some (fst (getPart (item_child item)), Some (snd (getPart (item_child item)))))
      (layer_items layers)"
    and base: "base = map (\<lambda>p. (ep_data p, colours)) parts" "list_all (\<lambda>p. ep_data p \<noteq> '''') parts"
  shows "getPartsForSeed getPart base c = map (drawn_part colours) (filled layers)"
proof -
  let ?parts = "getParts getPart c"
  have len: "length ?parts = 16" by (simp add: getParts_def)
  have at_item: "?parts ! i = getPart (item_child item) \<and> fst (?parts ! i) \<noteq> '''' \<and> drawn_part colours (ItemLayer item) = ?parts ! i"
    if "i < 16" "items ! i = Some item" for i item
  proof -
    have "item_in (layers ! i) = Some item"
      using that layers(2) by (simp add: layers(1) compose_layers_def slot_def item_in_def)
    moreover from this have "item \<in> set (layer_items layers)"
      using that layers(1) by (force simp: layer_items_def map_filter_def in_set_conv_nth intro: image_eqI)
    ultimately have "composedChildTokens c (Suc i) = item_child item" "fst (item_child item) \<noteq> zero_address"
      "fst (getPart (item_child item)) \<noteq> ''''"
      "layer_source (ItemLayer item) = Some (fst (getPart (item_child item)), Some (snd (getPart (item_child item))))"
      using comp that item_parts by (simp_all add: list_all_iff)
    then show ?thesis using that by (simp add: getParts_def Let_def drawn_part_def)
  qed
  have at_none: "?parts ! i = ('''', [])" if "i < 16" "items ! i = None" for i
  proof -
    have "item_in (layers ! i) = None"
      using that layers(2) by (auto simp: layers(1) compose_layers_def slot_def item_in_def split: option.splits)
    then show ?thesis using comp that by (simp add: getParts_def Let_def no_child_def)
  qed
  have "filter (\<lambda>p. fst p \<noteq> '''') (map (\<lambda>i. case part_slot i of Some k \<Rightarrow> if fst (?parts ! i) = '''' then base ! k else ?parts ! i
        | None \<Rightarrow> ?parts ! i) [0..<16])
    = map (drawn_part colours) (filled (map (\<lambda>i. case slot items i of
            Some item \<Rightarrow> Some (ItemLayer item)
          | None \<Rightarrow> (case part_slot i of None \<Rightarrow> None | Some k \<Rightarrow> map_option PartLayer (slot (map Some parts) k))) [0..<16]))"
  proof (rule filter_map_filled, rule ballI)
    fix i :: nat
    assume "i \<in> set [0..<16]"
    then have i: "i < 16" by simp
    show "case (case slot items i of Some item \<Rightarrow> Some (ItemLayer item)
          | None \<Rightarrow> (case part_slot i of None \<Rightarrow> None | Some k \<Rightarrow> map_option PartLayer (slot (map Some parts) k))) of
        None \<Rightarrow> \<not> fst (case part_slot i of Some k \<Rightarrow> if fst (?parts ! i) = '''' then base ! k else ?parts ! i | None \<Rightarrow> ?parts ! i) \<noteq> ''''
      | Some l \<Rightarrow> fst (case part_slot i of Some k \<Rightarrow> if fst (?parts ! i) = '''' then base ! k else ?parts ! i | None \<Rightarrow> ?parts ! i) \<noteq> ''''
          \<and> (case part_slot i of Some k \<Rightarrow> if fst (?parts ! i) = '''' then base ! k else ?parts ! i | None \<Rightarrow> ?parts ! i)
            = drawn_part colours l"
    proof (cases "items ! i")
      case (Some item)
      then show ?thesis using at_item [OF i Some] i layers(2) by (auto simp: slot_def split: option.splits)
    next
      case None
      have "k < 4" if "part_slot i = Some k" for k using that by (auto simp: part_slot_def split: if_splits)
      with None show ?thesis
        using at_none [OF i None] i layers(2,3) base
        by (auto simp: slot_def drawn_part_def layer_source_def list_all_iff split: option.splits)
    qed
  qed
  then show ?thesis
    unfolding getPartsForSeed_def Let_def merged_parts [OF len] by (simp add: len layers(1) compose_layers_def)
qed


definition demo_art :: "child \<Rightarrow> renderer_part" where
  "demo_art ch = (''0x0000010100010101'', [''000000'', ''00ff00''])"

definition demo_layers :: "layer option list" where
  "demo_layers = compose_layers ((replicate 16 None)[8 := Some demo_hat]) (map Some (replicate 4 demo_part))"


end
