(* ===== verification/Deploy_Tasks.thy ===== *)
theory Deploy_Tasks imports Noun_Seed begin

text \<open>
  The deployment tasks of \<open>packages/nouns-contracts/tasks\<close>: the tables of contracts with their constructor
  arguments (\<open>deploy.ts\<close>, \<open>deploy-short-times.ts\<close>, \<open>deploy-short-times-daov1.ts\<close>, \<open>deploy-local.ts\<close>,
  \<open>deploy-descriptor-v2.ts\<close>), the loop that deploys them one after the other, and the tasks that fill the descriptor, hand
  the contracts over to the executor and write the configurations.  Addresses of new contracts, ABI encoding,
  compression and the chain's verdict on a constructor are arguments of the model, collected in \<open>deploy_env\<close>.
\<close>

section \<open>Surroundings and arguments\<close>

datatype contract_name =
    NFTDescriptorV2 | NounsDescriptorV2 | SVGRenderer | NounsArt | Inflator | NFTDescriptor | NounsDescriptor
  | NounsSeeder | NounsToken | NounsAuctionHouse | NounsAuctionHouseProxyAdmin | NounsAuctionHouseProxy
  | NounsDAOExecutor | NounsDAOLogicV1 | NounsDAOProxy | NounsDAOLogicV2 | NounsDAOProxyV2 | WETH | Multicall2
  | NounsDAOExecutorTest | NounsDAOLogicV1Harness | NounsDAOLogicV2Harness

text \<open>\<open>de_address from nonce\<close> is \<open>getContractAddress\<close>, \<open>de_encode\<close> is \<open>encodeFunctionData\<close> of the auction
  house, \<open>de_abi\<close> the default ABI coder; \<open>de_prompt\<close> is what the user types when asked to confirm a contract.\<close>

record deploy_env =
  de_chainId :: int
  de_deployer :: string
  de_address :: "string \<Rightarrow> nat \<Rightarrow> string"
  de_encode :: "string \<Rightarrow> js_value list \<Rightarrow> string"
  de_parseUnits :: "string \<Rightarrow> nat \<Rightarrow> js_value"
  de_abi :: "string list \<Rightarrow> js_value list \<Rightarrow> string"
  de_deflate :: "string \<Rightarrow> string"
  de_accepts :: "contract_name \<Rightarrow> js_value list \<Rightarrow> bool"
  de_prompt :: "contract_name \<Rightarrow> string"

definition proxyRegistries :: "int \<Rightarrow> string option" where
  "proxyRegistries chainId = map_of
     [(1, ''0xa5409ec958c83c3f309868babaca7c86dcb077c1''), (4, ''0xf57b2c51ded3a29e6891aba85459d600256cf317'')] chainId"

definition wethContracts :: "int \<Rightarrow> string option" where
  "wethContracts chainId = map_of
     [(1, ''0xC02aaA39b223FE8D0A0e5C4F27eAD9083C756Cc2''), (3, ''0xc778417e063141139fce010982780140aa0cd5ab''),
      (4, ''0xc778417e063141139fce010982780140aa0cd5ab''), (42, ''0xd0a1e359811322d97991e03f863a0c30c2cf029c''),
      (5, ''0xB4FBF271143F4FBf7B91A5ded31805e42b2208d6'')] chainId"

definition proxyRegistryAddress :: "deploy_env \<Rightarrow> string" where
  "proxyRegistryAddress env =
     (case proxyRegistries (de_chainId env) of Some a \<Rightarrow> a | None \<Rightarrow> the (proxyRegistries 4))"

text \<open>\<open>Math.round(a / b)\<close>.\<close>

definition round_div :: "int \<Rightarrow> int \<Rightarrow> int" where
  "round_div a b = (2 * a + b) div (2 * b)"

text \<open>The defaults of the parameters of the three tasks that deploy to a network.\<close>

definition deploy_defaults :: obj where
  "deploy_defaults =
     [(''autoDeploy'', Bool False), (''auctionTimeBuffer'', Num (5 * 60)), (''auctionReservePrice'', Num 1),
      (''auctionMinIncrementBidPercentage'', Num 2), (''auctionDuration'', Num (60 * 60 * 24)),
      (''timelockDelay'', Num (60 * 60 * 24 * 2)), (''votingPeriod'', Num (round_div (4 * 60 * 24 * 60) 13)),
      (''votingDelay'', Num (round_div (3 * 60 * 24 * 60) 13)), (''proposalThresholdBps'', Num 100),
      (''quorumVotesBps'', Num 1000)]"

definition short_times_defaults :: obj where
  "short_times_defaults =
     [(''autoDeploy'', Bool False), (''auctionTimeBuffer'', Num 30), (''auctionReservePrice'', Num 1),
      (''auctionMinIncrementBidPercentage'', Num 2), (''auctionDuration'', Num (60 * 2)), (''timelockDelay'', Num 60),
      (''votingPeriod'', Num 80), (''votingDelay'', Num 1), (''proposalThresholdBps'', Num 100),
      (''minQuorumVotesBPS'', Num 1000), (''maxQuorumVotesBPS'', Num 4000), (''quorumCoefficient'', Num 1)]"

definition short_times_daov1_defaults :: obj where
  "short_times_daov1_defaults =
     [(''autoDeploy'', Bool False), (''auctionTimeBuffer'', Num 30), (''auctionReservePrice'', Num 1),
      (''auctionMinIncrementBidPercentage'', Num 2), (''auctionDuration'', Num (60 * 2)), (''timelockDelay'', Num 60),
      (''votingPeriod'', Num 80), (''votingDelay'', Num 1), (''proposalThresholdBps'', Num 100), (''quorumVotesBps'', Num 1000)]"

definition local_defaults :: obj where
  "local_defaults =
     [(''auctionTimeBuffer'', Num 30), (''auctionReservePrice'', Num 1), (''auctionMinIncrementBidPercentage'', Num 5),
      (''auctionDuration'', Num (60 * 2)), (''timelockDelay'', Num (60 * 60 * 24 * 2)), (''votingPeriod'', Num (4 * 60 * 24 * 3)),
      (''votingDelay'', Num 1), (''proposalThresholdBps'', Num 500), (''minQuorumVotesBPS'', Num 1000),
      (''maxQuorumVotesBPS'', Num 4000), (''quorumCoefficient'', Num 1)]"

text \<open>The nounders and the WETH contract that are filled in; on a chain without a known WETH contract the task throws.\<close>

definition prepare_args :: "deploy_env \<Rightarrow> obj \<Rightarrow> obj option" where
  "prepare_args env args =
     (let args1 = (if js_truthy (field args ''noundersdao'') then args
                   else AList.update ''noundersdao'' (Str (de_deployer env)) args)
      in if js_truthy (field args1 ''weth'') then Some args1
         else (case wethContracts (de_chainId env) of
                 None \<Rightarrow> None
               | Some deployedWETHContract \<Rightarrow> Some (AList.update ''weth'' (Str deployedWETHContract) args1)))"

section \<open>Contracts to deploy\<close>

text \<open>A constructor argument is a value or is computed when the contract is deployed: the address of an earlier one, or the
  call data of \<open>initialize\<close>.\<close>

datatype deploy_arg = Given js_value | AddressOf contract_name | InitializeData "deploy_arg list"

record contract_deployment =
  cd_args :: "deploy_arg list"
  cd_libraries :: "(contract_name \<times> contract_name) list"
  cd_waitForConfirmation :: bool
  cd_validateDeployment :: "string option"

definition plain_contract :: contract_deployment where
  "plain_contract = \<lparr>cd_args = [], cd_libraries = [], cd_waitForConfirmation = False, cd_validateDeployment = None\<rparr>"

definition NOUNS_ART_NONCE_OFFSET :: nat where "NOUNS_ART_NONCE_OFFSET = 4"

definition AUCTION_HOUSE_PROXY_NONCE_OFFSET :: nat where "AUCTION_HOUSE_PROXY_NONCE_OFFSET = 9"

definition GOVERNOR_N_DELEGATOR_NONCE_OFFSET :: nat where "GOVERNOR_N_DELEGATOR_NONCE_OFFSET = 12"

definition expected_address :: "deploy_env \<Rightarrow> nat \<Rightarrow> nat \<Rightarrow> string" where
  "expected_address env nonce offset = de_address env (de_deployer env) (nonce + offset)"

text \<open>The first ten contracts: the descriptor with its parts, the seeder, the token and the auction house.\<close>

definition descriptor_contracts :: "string \<Rightarrow> (contract_name \<times> contract_deployment) list" where
  "descriptor_contracts expectedNounsArtAddress =
     [(NFTDescriptorV2, plain_contract),
      (SVGRenderer, plain_contract),
      (NounsDescriptorV2, plain_contract\<lparr>cd_args := [Given (Str expectedNounsArtAddress), AddressOf SVGRenderer],
         cd_libraries := [(NFTDescriptorV2, NFTDescriptorV2)]\<rparr>),
      (Inflator, plain_contract),
      (NounsArt, plain_contract\<lparr>cd_args := [AddressOf NounsDescriptorV2, AddressOf Inflator]\<rparr>)]"

definition token_contracts :: "js_value \<Rightarrow> string \<Rightarrow> string \<Rightarrow> (contract_name \<times> contract_deployment) list" where
  "token_contracts noundersdao expectedAuctionHouseProxyAddress registry =
     [(NounsSeeder, plain_contract),
      (NounsToken, plain_contract\<lparr>cd_args := [Given noundersdao, Given (Str expectedAuctionHouseProxyAddress),
         AddressOf NounsDescriptorV2, AddressOf NounsSeeder, Given (Str registry)]\<rparr>),
      (NounsAuctionHouse, plain_contract\<lparr>cd_waitForConfirmation := True\<rparr>),
      (NounsAuctionHouseProxyAdmin, plain_contract)]"

definition auction_house_proxy :: "deploy_arg \<Rightarrow> obj \<Rightarrow> contract_deployment" where
  "auction_house_proxy weth args =
     plain_contract\<lparr>cd_args := [AddressOf NounsAuctionHouse, AddressOf NounsAuctionHouseProxyAdmin,
       InitializeData [AddressOf NounsToken, weth, Given (field args ''auctionTimeBuffer''),
         Given (field args ''auctionReservePrice''), Given (field args ''auctionMinIncrementBidPercentage''),
         Given (field args ''auctionDuration'')]]\<rparr>"

definition validated :: "string \<Rightarrow> contract_deployment \<Rightarrow> contract_deployment" where
  "validated expected c = c\<lparr>cd_waitForConfirmation := True, cd_validateDeployment := Some expected\<rparr>"

definition executor_contract :: "string \<Rightarrow> obj \<Rightarrow> contract_deployment" where
  "executor_contract expectedNounsDAOProxyAddress args =
     plain_contract\<lparr>cd_args := [Given (Str expectedNounsDAOProxyAddress), Given (field args ''timelockDelay'')]\<rparr>"

text \<open>The proxy of the DAO, for the first version with a fixed quorum, for the second one with the parameters of a
  dynamic quorum.\<close>

definition dao_proxy :: "contract_name \<Rightarrow> js_value \<Rightarrow> js_value \<Rightarrow> obj \<Rightarrow> contract_deployment" where
  "dao_proxy logic noundersdao quorum args =
     plain_contract\<lparr>cd_args := [AddressOf NounsDAOExecutor, AddressOf NounsToken, Given noundersdao,
         AddressOf NounsDAOExecutor, AddressOf logic, Given (field args ''votingPeriod''), Given (field args ''votingDelay''),
         Given (field args ''proposalThresholdBps''), Given quorum],
       cd_waitForConfirmation := True\<rparr>"

definition dynamic_quorum :: "deploy_env \<Rightarrow> obj \<Rightarrow> js_value" where
  "dynamic_quorum env args =
     Obj [(''minQuorumVotesBPS'', field args ''minQuorumVotesBPS''), (''maxQuorumVotesBPS'', field args ''maxQuorumVotesBPS''),
          (''quorumCoefficient'', de_parseUnits env (as_string (field args ''quorumCoefficient'')) 6)]"

definition network_contracts :: "deploy_env \<Rightarrow> obj \<Rightarrow> nat \<Rightarrow> (contract_name \<times> contract_deployment) list" where
  "network_contracts env args nonce =
     descriptor_contracts (expected_address env nonce NOUNS_ART_NONCE_OFFSET)
     @ token_contracts (field args ''noundersdao'') (expected_address env nonce AUCTION_HOUSE_PROXY_NONCE_OFFSET)
         (proxyRegistryAddress env)
     @ [(NounsAuctionHouseProxy, validated (expected_address env nonce AUCTION_HOUSE_PROXY_NONCE_OFFSET)
          (auction_house_proxy (Given (field args ''weth'')) args)),
        (NounsDAOExecutor, executor_contract (expected_address env nonce GOVERNOR_N_DELEGATOR_NONCE_OFFSET) args)]"

definition dao_contracts ::
    "deploy_env \<Rightarrow> contract_name \<Rightarrow> contract_name \<Rightarrow> js_value \<Rightarrow> obj \<Rightarrow> nat \<Rightarrow> (contract_name \<times> contract_deployment) list" where
  "dao_contracts env logic proxy quorum args nonce =
     [(logic, plain_contract\<lparr>cd_waitForConfirmation := True\<rparr>),
      (proxy, validated (expected_address env nonce GOVERNOR_N_DELEGATOR_NONCE_OFFSET)
         (dao_proxy logic (field args ''noundersdao'') quorum args))]"

definition deploy_contracts :: "deploy_env \<Rightarrow> obj \<Rightarrow> nat \<Rightarrow> (contract_name \<times> contract_deployment) list" where
  "deploy_contracts env args nonce =
     network_contracts env args nonce
     @ dao_contracts env NounsDAOLogicV1 NounsDAOProxy (field args ''quorumVotesBps'') args nonce"

definition short_times_contracts :: "deploy_env \<Rightarrow> obj \<Rightarrow> nat \<Rightarrow> (contract_name \<times> contract_deployment) list" where
  "short_times_contracts env args nonce =
     network_contracts env args nonce
     @ dao_contracts env NounsDAOLogicV2 NounsDAOProxyV2 (dynamic_quorum env args) args nonce"

definition short_times_daov1_contracts :: "deploy_env \<Rightarrow> obj \<Rightarrow> nat \<Rightarrow> (contract_name \<times> contract_deployment) list" where
  "short_times_daov1_contracts env args nonce = deploy_contracts env args nonce"

text \<open>On a local node the WETH contract comes first, so the offsets are one higher.\<close>

definition local_contracts :: "deploy_env \<Rightarrow> obj \<Rightarrow> nat \<Rightarrow> (contract_name \<times> contract_deployment) list" where
  "local_contracts env args nonce =
     (let noundersdao = (if js_truthy (field args ''noundersdao'') then field args ''noundersdao'' else Str (de_deployer env))
      in [(WETH, plain_contract)]
         @ descriptor_contracts (expected_address env nonce 5)
         @ token_contracts noundersdao (expected_address env nonce 10) ''0xa5409ec958c83c3f309868babaca7c86dcb077c1''
         @ [(NounsAuctionHouseProxy, auction_house_proxy (AddressOf WETH) args),
            (NounsDAOExecutor, executor_contract (expected_address env nonce 13) args),
            (NounsDAOLogicV2, plain_contract\<lparr>cd_waitForConfirmation := True\<rparr>),
            (NounsDAOProxyV2, dao_proxy NounsDAOLogicV2 noundersdao (dynamic_quorum env args) args),
            (Multicall2, plain_contract)])"

section \<open>Deploying\<close>

record deployed_contract =
  dc_name :: contract_name
  dc_address :: string
  dc_constructorArguments :: "js_value list"
  dc_libraries :: "(contract_name \<times> string) list"

text \<open>The deployer's nonce, what has been deployed, and the chain: owners of the ownable contracts and the calls made.\<close>

record deploy_state =
  ds_nonce :: nat
  ds_deployment :: "(contract_name \<times> deployed_contract) list"
  ds_owner :: "string \<Rightarrow> string option"
  ds_calls :: "(string \<times> string \<times> js_value list) list"

datatype 'a task_result = Done 'a | Exited | Failed

fun eval_arg :: "(contract_name \<Rightarrow> js_value option) \<Rightarrow> (string \<Rightarrow> js_value list \<Rightarrow> string) \<Rightarrow> deploy_arg \<Rightarrow> js_value option" where
  "eval_arg address_of encode (Given v) = Some v"
| "eval_arg address_of encode (AddressOf n) = address_of n"
| "eval_arg address_of encode (InitializeData args) =
     map_option (\<lambda>vs. Str (encode ''initialize'' vs)) (all_or_none (map (eval_arg address_of encode) args))"

text \<open>The contracts whose constructor makes the sender their owner; the proxy of the auction house runs \<open>initialize\<close>.\<close>

definition ownable :: "contract_name \<Rightarrow> bool" where
  "ownable name = (name \<in> {NounsDescriptorV2, NounsToken, NounsAuctionHouseProxyAdmin, NounsAuctionHouseProxy})"

definition create_contract ::
    "deploy_env \<Rightarrow> contract_name \<Rightarrow> contract_name \<Rightarrow> js_value list \<Rightarrow> (contract_name \<times> string) list \<Rightarrow> deploy_state \<Rightarrow> deploy_state" where
  "create_contract env name factoryName args libraries s =
     (let a = de_address env (de_deployer env) (ds_nonce s)
      in s\<lparr>ds_nonce := ds_nonce s + 1,
           ds_owner := (if ownable name then (ds_owner s)(a \<mapsto> de_deployer env) else ds_owner s),
           ds_deployment := AList.update name \<lparr>dc_name = factoryName, dc_address = a, dc_constructorArguments = args,
             dc_libraries = libraries\<rparr> (ds_deployment s)\<rparr>)"

definition deployed_address :: "deploy_state \<Rightarrow> contract_name \<Rightarrow> string option" where
  "deployed_address s name = map_option dc_address (map_of (ds_deployment s) name)"

text \<open>One round of the loop.  The prompt has one property, \<open>confirm\<close>; the loop reads \<open>operation\<close>.\<close>

definition deploy_contract ::
    "deploy_env \<Rightarrow> (contract_name \<Rightarrow> contract_name) \<Rightarrow> bool \<Rightarrow> contract_name \<times> contract_deployment \<Rightarrow> deploy_state \<Rightarrow> deploy_state task_result" where
  "deploy_contract env factory_name autoDeploy p s =
     (case p of (name, contract) \<Rightarrow>
        (case (all_or_none (map (\<lambda>(l, n). map_option (Pair l) (deployed_address s n)) (cd_libraries contract)),
               all_or_none (map (eval_arg (\<lambda>n. map_option Str (deployed_address s n)) (de_encode env)) (cd_args contract))) of
           (Some libraries, Some args) \<Rightarrow>
             (if \<not> de_accepts env (factory_name name) args then Failed
              else (let result = [(''confirm'', Str (de_prompt env name))]
                    in if \<not> autoDeploy \<and> field result ''operation'' = Str ''SKIP'' then Done s
                       else if \<not> autoDeploy \<and> field result ''operation'' = Str ''EXIT'' then Exited
                       else (let s' = create_contract env name (factory_name name) args libraries s
                             in case cd_validateDeployment contract of
                                  None \<Rightarrow> Done s'
                                | Some expected \<Rightarrow> if map_option to_lower (deployed_address s' name) \<noteq> Some (to_lower expected)
                                                   then Failed else Done s')))
         | _ \<Rightarrow> Failed))"

fun run_contracts ::
    "(contract_name \<times> contract_deployment \<Rightarrow> deploy_state \<Rightarrow> deploy_state task_result)
      \<Rightarrow> (contract_name \<times> contract_deployment) list \<Rightarrow> deploy_state \<Rightarrow> deploy_state task_result" where
  "run_contracts step [] s = Done s"
| "run_contracts step (p # ps) s = (case step p s of Done s' \<Rightarrow> run_contracts step ps s' | Exited \<Rightarrow> Exited | Failed \<Rightarrow> Failed)"

definition fresh_state :: "nat \<Rightarrow> deploy_state" where
  "fresh_state nonce = \<lparr>ds_nonce = nonce, ds_deployment = [], ds_owner = (\<lambda>_. None), ds_calls = []\<rparr>"

definition deploy_task ::
    "obj \<Rightarrow> (deploy_env \<Rightarrow> obj \<Rightarrow> nat \<Rightarrow> (contract_name \<times> contract_deployment) list) \<Rightarrow> (contract_name \<Rightarrow> contract_name)
      \<Rightarrow> deploy_env \<Rightarrow> obj \<Rightarrow> nat \<Rightarrow> deploy_state task_result" where
  "deploy_task defaults contracts factory_name env given nonce =
     (case prepare_args env (spread defaults given) of
        None \<Rightarrow> Failed
      | Some args \<Rightarrow> run_contracts (deploy_contract env factory_name (js_truthy (field args ''autoDeploy'')))
                       (contracts env args nonce) (fresh_state nonce))"

definition deploy :: "deploy_env \<Rightarrow> obj \<Rightarrow> nat \<Rightarrow> deploy_state task_result" where
  "deploy = deploy_task deploy_defaults deploy_contracts id"

definition short_times_name :: "contract_name \<Rightarrow> contract_name" where
  "short_times_name name =
     (if name = NounsDAOExecutor then NounsDAOExecutorTest
      else if name = NounsDAOLogicV2 then NounsDAOLogicV2Harness else name)"

definition short_times_daov1_name :: "contract_name \<Rightarrow> contract_name" where
  "short_times_daov1_name name =
     (if name = NounsDAOExecutor then NounsDAOExecutorTest
      else if name = NounsDAOLogicV1 then NounsDAOLogicV1Harness else name)"

definition deploy_short_times :: "deploy_env \<Rightarrow> obj \<Rightarrow> nat \<Rightarrow> deploy_state task_result" where
  "deploy_short_times = deploy_task short_times_defaults short_times_contracts short_times_name"

definition deploy_short_times_daov1 :: "deploy_env \<Rightarrow> obj \<Rightarrow> nat \<Rightarrow> deploy_state task_result" where
  "deploy_short_times_daov1 = deploy_task short_times_daov1_defaults short_times_daov1_contracts short_times_daov1_name"

text \<open>The loop of the local task: no prompts, and the address of a contract that is not there yet is \<open>undefined\<close>.\<close>

definition deploy_local_contract ::
    "deploy_env \<Rightarrow> contract_name \<times> contract_deployment \<Rightarrow> deploy_state \<Rightarrow> deploy_state task_result" where
  "deploy_local_contract env p s =
     (case p of (name, contract) \<Rightarrow>
        (let address_of = (\<lambda>n. Some (case deployed_address s n of Some a \<Rightarrow> Str a | None \<Rightarrow> Undefined))
         in case (all_or_none (map (\<lambda>(l, n). map_option (Pair l) (deployed_address s n)) (cd_libraries contract)),
                  all_or_none (map (eval_arg address_of (de_encode env)) (cd_args contract))) of
              (Some libraries, Some args) \<Rightarrow>
                if de_accepts env name args then Done (create_contract env name name args libraries s) else Failed
            | _ \<Rightarrow> Failed))"

definition deploy_local :: "deploy_env \<Rightarrow> obj \<Rightarrow> nat \<Rightarrow> deploy_state task_result" where
  "deploy_local env given nonce =
     (if de_chainId env \<noteq> 31337 then Exited
      else run_contracts (deploy_local_contract env) (local_contracts env (spread local_defaults given) nonce) (fresh_state nonce))"

text \<open>The task that deploys only the descriptor and its parts.\<close>

definition deploy_descriptor_v2_contracts :: "deploy_env \<Rightarrow> nat \<Rightarrow> deploy_state task_result" where
  "deploy_descriptor_v2_contracts env nonce =
     run_contracts (deploy_contract env id True) (descriptor_contracts (expected_address env nonce 4)) (fresh_state nonce)"

end
