(* ===== verification/Deploy_Setup.thy ===== *)
theory Deploy_Setup imports Deploy_Tasks begin

text \<open>
  What follows a deployment: filling the descriptor with the art, directly (\<open>populate-descriptor.ts\<close>, for the first
  version \<open>populate-descriptor-v1.ts\<close>) or by a proposal (\<open>populate-descriptor-via-proposal.ts\<close>), handing the
  contracts over to the executor (\<open>deploy-and-configure.ts\<close> and its variants, \<open>run-local.ts\<close>), verification requests and
  the configurations that are written (\<open>verify-etherscan.ts\<close>, \<open>update-configs.ts\<close>, \<open>deploy-ci.ts\<close>).
\<close>

section \<open>Calls\<close>

text \<open>The calls the tasks send are all reserved to the owner of the contract; otherwise the transaction reverts and the task fails.\<close>

definition send :: "deploy_env \<Rightarrow> string \<times> string \<times> js_value list \<Rightarrow> deploy_state \<Rightarrow> deploy_state option" where
  "send env c s =
     (case c of (target_address, method, args) \<Rightarrow>
        if ds_owner s target_address \<noteq> Some (de_deployer env) then None
        else Some (s\<lparr>ds_nonce := ds_nonce s + 1, ds_calls := ds_calls s @ [c],
               ds_owner := (if method = ''transferOwnership'' then (ds_owner s)(target_address \<mapsto> as_string (hd args)) else ds_owner s)\<rparr>))"

definition transferOwnership :: "string \<Rightarrow> string \<Rightarrow> string \<times> string \<times> js_value list" where
  "transferOwnership newOwner a = (a, ''transferOwnership'', [Str newOwner])"

section \<open>Art\<close>

definition dataToDescriptorInput :: "deploy_env \<Rightarrow> string list \<Rightarrow> js_value list" where
  "dataToDescriptorInput env data =
     (let abiEncoded = de_abi env [''bytes[]''] [Arr (map Str data)]
      in [Str (''0x'' @ de_deflate env (drop 2 abiEncoded)), Num (int (length (drop 2 abiEncoded) div 2)), Num (int (length data))])"

definition palette_bytes :: "string list \<Rightarrow> js_value" where
  "palette_bytes colours = Str (''0x000000'' @ concat colours)"

definition populate_calls :: "deploy_env \<Rightarrow> image_set \<Rightarrow> string \<Rightarrow> (string \<times> string \<times> js_value list) list" where
  "populate_calls env images nounsDescriptor =
     (let page = (\<lambda>parts. dataToDescriptorInput env (map ep_data parts))
      in [(nounsDescriptor, ''addManyBackgrounds'', [Arr (map Str (id_bgcolors (is_catalog images)))]),
          (nounsDescriptor, ''setPalette'', [Num 0, palette_bytes (is_palette images)]),
          (nounsDescriptor, ''addBodies'', page (id_bodies (is_catalog images))),
          (nounsDescriptor, ''addHeads'', page (id_heads (is_catalog images))),
          (nounsDescriptor, ''addGlasses'', page (id_glasses (is_catalog images))),
          (nounsDescriptor, ''addAccessories'', page (id_accessories (is_catalog images)))])"

text \<open>\<open>chunkArray\<close>: the index does not advance when the size is zero.\<close>

partial_function (option) chunk_loop :: "nat \<Rightarrow> 'a list \<Rightarrow> nat \<Rightarrow> 'a list list \<Rightarrow> 'a list list option" where
  "chunk_loop chunkSize xs i chunk =
     (if i < length xs then chunk_loop chunkSize xs (i + chunkSize) (chunk @ [take chunkSize (drop i xs)]) else Some chunk)"

definition chunkArray :: "'a list \<Rightarrow> nat \<Rightarrow> 'a list list option" where
  "chunkArray xs chunkSize = chunk_loop chunkSize xs 0 []"

definition populate_v1_calls :: "image_set \<Rightarrow> string \<Rightarrow> (string \<times> string \<times> js_value list) list option" where
  "populate_v1_calls images nounsDescriptor =
     (let texts = (\<lambda>parts. Arr (map (\<lambda>p. Str (ep_data p)) parts)); art = is_catalog images
      in case (chunkArray (id_accessories art) 10, chunkArray (id_heads art) 10) of
           (Some accessoryChunk, Some headChunk) \<Rightarrow>
             Some ([(nounsDescriptor, ''addManyBackgrounds'', [Arr (map Str (id_bgcolors art))]),
                    (nounsDescriptor, ''addManyColorsToPalette'', [Num 0, Arr (map Str (is_palette images))]),
                    (nounsDescriptor, ''addManyBodies'', [texts (id_bodies art)])]
               @ map (\<lambda>chunk. (nounsDescriptor, ''addManyAccessories'', [texts chunk])) accessoryChunk
               @ map (\<lambda>chunk. (nounsDescriptor, ''addManyHeads'', [texts chunk])) headChunk
               @ [(nounsDescriptor, ''addManyGlasses'', [texts (id_glasses art)])])
         | _ \<Rightarrow> None)"

section \<open>A proposal that fills the descriptor\<close>

text \<open>The input file may leave out any part; the numbered palettes come in ascending order.\<close>

record art_images =
  ai_bodies :: "encoded_part list option"
  ai_accessories :: "encoded_part list option"
  ai_heads :: "encoded_part list option"
  ai_glasses :: "encoded_part list option"

record art_file =
  af_bgcolors :: "string list option"
  af_palettes :: "(nat \<times> string list) list option"
  af_images :: "art_images option"

record proposal_draft =
  pd_targets :: "string list"
  pd_values :: "int list"
  pd_signatures :: "string list"
  pd_calldatas :: "string list"

definition push_action :: "string \<Rightarrow> string \<Rightarrow> string \<Rightarrow> proposal_draft \<Rightarrow> proposal_draft" where
  "push_action target_address signature calldata d =
     \<lparr>pd_targets = pd_targets d @ [target_address], pd_values = pd_values d @ [0],
      pd_signatures = pd_signatures d @ [signature], pd_calldatas = pd_calldatas d @ [calldata]\<rparr>"

definition push_palette :: "deploy_env \<Rightarrow> string \<Rightarrow> nat \<times> string list \<Rightarrow> proposal_draft \<Rightarrow> proposal_draft" where
  "push_palette env nounsDescriptor p =
     push_action nounsDescriptor ''setPalette(uint8,bytes)''
       (de_abi env [''uint8'', ''bytes''] [Num (int (fst p)), palette_bytes (snd p)])"

definition push_page :: "deploy_env \<Rightarrow> string \<Rightarrow> string \<Rightarrow> encoded_part list option \<Rightarrow> proposal_draft \<Rightarrow> proposal_draft" where
  "push_page env nounsDescriptor signature parts d =
     (case parts of
        None \<Rightarrow> d
      | Some ps \<Rightarrow> push_action nounsDescriptor signature
                    (de_abi env [''bytes'', ''uint80'', ''uint16''] (dataToDescriptorInput env (map ep_data ps))) d)"

definition populate_proposal :: "deploy_env \<Rightarrow> string \<Rightarrow> art_file \<Rightarrow> proposal_draft" where
  "populate_proposal env nounsDescriptor art =
     (let d0 = \<lparr>pd_targets = [], pd_values = [], pd_signatures = [], pd_calldatas = []\<rparr>;
          d1 = (case af_bgcolors art of
                  None \<Rightarrow> d0
                | Some bgcolors \<Rightarrow> push_action nounsDescriptor ''addManyBackgrounds(string[])''
                                     (de_abi env [''string[]''] [Arr (map Str bgcolors)]) d0);
          d2 = (case af_palettes art of
                  None \<Rightarrow> d1
                | Some palettes \<Rightarrow> fold (push_palette env nounsDescriptor) (sort_key fst palettes) d1)
      in case af_images art of
           None \<Rightarrow> d2
         | Some images \<Rightarrow>
             push_page env nounsDescriptor ''addAccessories(bytes,uint80,uint16)'' (ai_accessories images)
               (push_page env nounsDescriptor ''addGlasses(bytes,uint80,uint16)'' (ai_glasses images)
                 (push_page env nounsDescriptor ''addHeads(bytes,uint80,uint16)'' (ai_heads images)
                   (push_page env nounsDescriptor ''addBodies(bytes,uint80,uint16)'' (ai_bodies images) d2))))"

text \<open>What \<open>propose\<close> of the DAO asks of the actions, and the actions as the executor performs them.\<close>

definition actions_accepted :: "proposal_draft \<Rightarrow> bool" where
  "actions_accepted d =
     (length (pd_targets d) = length (pd_values d) \<and> length (pd_targets d) = length (pd_signatures d)
      \<and> length (pd_targets d) = length (pd_calldatas d) \<and> length (pd_targets d) \<noteq> 0 \<and> length (pd_targets d) \<le> 10)"

definition actions :: "proposal_draft \<Rightarrow> (string \<times> string \<times> string) list" where
  "actions d = zip (pd_targets d) (zip (pd_signatures d) (pd_calldatas d))"

text \<open>The signatures and argument types of the methods of the descriptor.\<close>

definition method_types :: "string \<Rightarrow> string list" where
  "method_types method =
     (if method = ''addManyBackgrounds'' then [''string[]'']
      else if method = ''setPalette'' then [''uint8'', ''bytes'']
      else [''bytes'', ''uint80'', ''uint16''])"

definition method_signature :: "string \<Rightarrow> string" where
  "method_signature method =
     (if method = ''addManyBackgrounds'' then ''addManyBackgrounds(string[])''
      else if method = ''setPalette'' then ''setPalette(uint8,bytes)''
      else method @ ''(bytes,uint80,uint16)'')"

definition encoded_call :: "deploy_env \<Rightarrow> string \<times> string \<times> js_value list \<Rightarrow> string \<times> string \<times> string" where
  "encoded_call env c =
     (case c of (target_address, method, args) \<Rightarrow> (target_address, method_signature method, de_abi env (method_types method) args))"

section \<open>Handing over\<close>

definition run_calls :: "deploy_env \<Rightarrow> (string \<times> string \<times> js_value list) list \<Rightarrow> deploy_state \<Rightarrow> deploy_state task_result" where
  "run_calls env calls s = (case each (send env) calls s of None \<Rightarrow> Failed | Some s' \<Rightarrow> Done s')"

text \<open>Reading the address of a contract that was not deployed throws.\<close>

definition configure :: "deploy_env \<Rightarrow> image_set \<Rightarrow> bool \<Rightarrow> deploy_state \<Rightarrow> deploy_state task_result" where
  "configure env images startAuction s =
     (case (deployed_address s NounsDescriptorV2, deployed_address s NounsDAOExecutor, deployed_address s NounsToken,
            deployed_address s NounsAuctionHouseProxyAdmin, deployed_address s NounsAuctionHouseProxy) of
        (Some descriptor, Some executorAddress, Some token, Some admin, Some proxy) \<Rightarrow>
          run_calls env
            (populate_calls env images descriptor
             @ map (transferOwnership executorAddress) [descriptor, token, admin]
             @ (if startAuction then [(proxy, ''unpause'', []), transferOwnership executorAddress proxy] else [])) s
      | _ \<Rightarrow> Failed)"

definition and_configure ::
    "(deploy_env \<Rightarrow> obj \<Rightarrow> nat \<Rightarrow> deploy_state task_result) \<Rightarrow> obj \<Rightarrow> deploy_env \<Rightarrow> image_set \<Rightarrow> obj \<Rightarrow> nat \<Rightarrow> deploy_state task_result" where
  "and_configure task defaults env images given nonce =
     (let args = spread defaults given
      in case task env args nonce of
           Done s \<Rightarrow> configure env images (js_truthy (field args ''startAuction'')) s
         | _ \<Rightarrow> Failed)"

definition deploy_and_configure :: "deploy_env \<Rightarrow> image_set \<Rightarrow> obj \<Rightarrow> nat \<Rightarrow> deploy_state task_result" where
  "deploy_and_configure =
     and_configure deploy [(''startAuction'', Bool False), (''autoDeploy'', Bool False), (''updateConfigs'', Bool False),
       (''auctionTimeBuffer'', Num (5 * 60))]"

definition deploy_and_configure_short_times :: "deploy_env \<Rightarrow> image_set \<Rightarrow> obj \<Rightarrow> nat \<Rightarrow> deploy_state task_result" where
  "deploy_and_configure_short_times =
     and_configure deploy_short_times ([(''startAuction'', Bool False), (''updateConfigs'', Bool False)] @ short_times_defaults)"

definition deploy_and_configure_short_times_daov1 :: "deploy_env \<Rightarrow> image_set \<Rightarrow> obj \<Rightarrow> nat \<Rightarrow> deploy_state task_result" where
  "deploy_and_configure_short_times_daov1 =
     and_configure deploy_short_times_daov1 ([(''startAuction'', Bool False), (''updateConfigs'', Bool False)] @ short_times_daov1_defaults)"

text \<open>On a local node the auction starts before the contracts are handed over.\<close>

definition run_local :: "deploy_env \<Rightarrow> image_set \<Rightarrow> nat \<Rightarrow> deploy_state task_result" where
  "run_local env images nonce =
     (case deploy_local env [] nonce of
        Done s \<Rightarrow>
          (case (deployed_address s NounsDescriptorV2, deployed_address s NounsDAOExecutor, deployed_address s NounsToken,
                 deployed_address s NounsAuctionHouseProxyAdmin, deployed_address s NounsAuctionHouseProxy) of
             (Some descriptor, Some executorAddress, Some token, Some admin, Some proxy) \<Rightarrow>
               run_calls env
                 (populate_calls env images descriptor @ [(proxy, ''unpause'', [])]
                  @ map (transferOwnership executorAddress) [descriptor, token, admin, proxy]) s
           | _ \<Rightarrow> Failed)
      | _ \<Rightarrow> Failed)"

definition deploy_descriptor_v2 :: "deploy_env \<Rightarrow> image_set \<Rightarrow> string \<Rightarrow> nat \<Rightarrow> deploy_state task_result" where
  "deploy_descriptor_v2 env images daoExecutor nonce =
     (case deploy_descriptor_v2_contracts env nonce of
        Done s \<Rightarrow>
          (case deployed_address s NounsDescriptorV2 of
             Some descriptor \<Rightarrow> run_calls env (populate_calls env images descriptor @ [transferOwnership daoExecutor descriptor]) s
           | None \<Rightarrow> Failed)
      | _ \<Rightarrow> Failed)"

section \<open>Records of a deployment\<close>

definition nameToFullyQualifiedName :: "contract_name \<Rightarrow> string option" where
  "nameToFullyQualifiedName name = map_of
     [(NounsAuctionHouseProxy, ''contracts/proxies/NounsAuctionHouseProxy.sol:NounsAuctionHouseProxy''),
      (NounsAuctionHouseProxyAdmin, ''contracts/proxies/NounsAuctionHouseProxyAdmin.sol:NounsAuctionHouseProxyAdmin''),
      (NounsDAOLogicV1Harness, ''contracts/test/NounsDAOLogicV1Harness.sol:NounsDAOLogicV1Harness'')] name"

text \<open>The requests of \<open>verify-etherscan\<close>; one that fails does not stop the others.\<close>

definition verify_requests :: "deploy_state \<Rightarrow> (deployed_contract \<times> string option) list" where
  "verify_requests s = map (\<lambda>(_, c). (c, nameToFullyQualifiedName (dc_name c))) (ds_deployment s)"

definition nameToFullyQualifiedName_daov2 :: "contract_name \<Rightarrow> string option" where
  "nameToFullyQualifiedName_daov2 name = map_of
     [(NounsAuctionHouseProxy, ''contracts/proxies/NounsAuctionHouseProxy.sol:NounsAuctionHouseProxy''),
      (NounsAuctionHouseProxyAdmin, ''contracts/proxies/NounsAuctionHouseProxyAdmin.sol:NounsAuctionHouseProxyAdmin''),
      (NounsDAOLogicV2Harness, ''contracts/test/NounsDAOLogicV2Harness.sol:NounsDAOLogicV2Harness'')] name"

definition verify_requests_daov2 :: "deploy_state \<Rightarrow> (deployed_contract \<times> string option) list" where
  "verify_requests_daov2 s = map (\<lambda>(_, c). (c, nameToFullyQualifiedName_daov2 (dc_name c))) (ds_deployment s)"

definition address_entry :: "deploy_state \<Rightarrow> string \<times> contract_name \<Rightarrow> (string \<times> js_value) option" where
  "address_entry s p = map_option (\<lambda>a. (fst p, Str a)) (deployed_address s (snd p))"

definition sdk_addresses :: "contract_name \<Rightarrow> contract_name \<Rightarrow> deploy_state \<Rightarrow> obj option" where
  "sdk_addresses proxy logic s =
     all_or_none (map (address_entry s)
       [(''nounsToken'', NounsToken), (''nounsSeeder'', NounsSeeder),
        (''nounsDescriptor'', if map_of (ds_deployment s) NounsDescriptorV2 \<noteq> None then NounsDescriptorV2 else NounsDescriptor),
        (''nftDescriptor'', if map_of (ds_deployment s) NFTDescriptorV2 \<noteq> None then NFTDescriptorV2 else NFTDescriptor),
        (''nounsAuctionHouse'', NounsAuctionHouse), (''nounsAuctionHouseProxy'', NounsAuctionHouseProxy),
        (''nounsAuctionHouseProxyAdmin'', NounsAuctionHouseProxyAdmin), (''nounsDaoExecutor'', NounsDAOExecutor),
        (''nounsDAOProxy'', proxy), (''nounsDAOLogicV1'', logic)])"

definition subgraph_config :: "(contract_name \<Rightarrow> js_value) \<Rightarrow> string \<Rightarrow> contract_name \<Rightarrow> deploy_state \<Rightarrow> obj option" where
  "subgraph_config blockNumber network proxy s =
     map_option (\<lambda>sources. (''network'', Str network) # sources)
       (all_or_none (map (\<lambda>(k, n). map_option (\<lambda>a. (k, Obj [(''address'', Str a), (''startBlock'', blockNumber n)])) (deployed_address s n))
          [(''nounsToken'', NounsToken), (''nounsAuctionHouse'', NounsAuctionHouseProxy), (''nounsDAO'', proxy)]))"

definition update_configs :: "(contract_name \<Rightarrow> js_value) \<Rightarrow> string \<Rightarrow> deploy_state \<Rightarrow> (obj \<times> obj) option" where
  "update_configs blockNumber network s =
     (case (sdk_addresses NounsDAOProxy NounsDAOLogicV1 s, subgraph_config blockNumber network NounsDAOProxy s) of
        (Some a, Some b) \<Rightarrow> Some (a, b) | _ \<Rightarrow> None)"

definition update_configs_daov2 :: "(contract_name \<Rightarrow> js_value) \<Rightarrow> string \<Rightarrow> deploy_state \<Rightarrow> (obj \<times> obj) option" where
  "update_configs_daov2 blockNumber network s =
     (case (sdk_addresses NounsDAOProxyV2 NounsDAOLogicV2 s, subgraph_config blockNumber network NounsDAOProxyV2 s) of
        (Some a, Some b) \<Rightarrow> Some (a, b) | _ \<Rightarrow> None)"

text \<open>The task of the continuous integration writes a log of four addresses.\<close>

definition deploy_ci :: "deploy_env \<Rightarrow> js_value \<Rightarrow> js_value \<Rightarrow> nat \<Rightarrow> obj task_result" where
  "deploy_ci env noundersdao weth nonce =
     (case deploy env [(''weth'', weth), (''noundersDAO'', if js_truthy noundersdao then noundersdao else Str (de_deployer env))] nonce of
        Done s \<Rightarrow>
          (case all_or_none (map (address_entry s) [(''NFTDescriptor'', NFTDescriptor), (''NounsDescriptor'', NounsDescriptor),
                  (''NounsSeeder'', NounsSeeder), (''NounsToken'', NounsToken)]) of
             Some contractAddresses \<Rightarrow> Done contractAddresses
           | None \<Rightarrow> Failed)
      | _ \<Rightarrow> Failed)"

end
