(* ===== verification/Deploy_Runs.thy ===== *)
theory Deploy_Runs imports Deploy_Setup begin

text \<open>
  What the deployment tasks achieve: every reference between the contracts, predicted or looked up, is the address the
  contract really gets; the ownership that is handed over; the proposal that fills a descriptor performs the calls of the
  direct task; and what goes wrong (the answers of the user, the task of the continuous integration).
\<close>

section \<open>Deployments\<close>

definition constructor_args :: "deploy_state \<Rightarrow> contract_name \<Rightarrow> js_value list" where
  "constructor_args s name = dc_constructorArguments (the (map_of (ds_deployment s) name))"

lemma create_contract_facts [simp]:
  "deployed_address (create_contract env name f args libs s) n
     = (if n = name then Some (de_address env (de_deployer env) (ds_nonce s)) else deployed_address s n)"
  "constructor_args (create_contract env name f args libs s) n = (if n = name then args else constructor_args s n)"
  "ds_nonce (create_contract env name f args libs s) = Suc (ds_nonce s)"
  "ds_calls (create_contract env name f args libs s) = ds_calls s"
  "ds_owner (create_contract env name f args libs s)
     = (if ownable name then (ds_owner s)(de_address env (de_deployer env) (ds_nonce s) \<mapsto> de_deployer env) else ds_owner s)"
  by (simp_all add: create_contract_def Let_def deployed_address_def constructor_args_def map_of_update)

lemma fresh_state_facts [simp]:
  "deployed_address (fresh_state nonce) n = None" "ds_nonce (fresh_state nonce) = nonce" "ds_calls (fresh_state nonce) = []"
  "ds_owner (fresh_state nonce) a = None"
  by (simp_all add: fresh_state_def deployed_address_def)

definition accepting_chain :: "deploy_env \<Rightarrow> bool" where
  "accepting_chain env = (\<forall>name args. de_accepts env name args)"

lemma deploy_contract_done:
  assumes "all_or_none (map (\<lambda>(l, n). map_option (Pair l) (deployed_address s n)) (cd_libraries c)) = Some libs"
    and "all_or_none (map (eval_arg (\<lambda>n. map_option Str (deployed_address s n)) (de_encode env)) (cd_args c)) = Some args"
    and "accepting_chain env"
    and "cd_validateDeployment c \<in> {None, Some (de_address env (de_deployer env) (ds_nonce s))}"
  shows "deploy_contract env f auto (name, c) s = Done (create_contract env name (f name) args libs s)"
  using assms by (auto simp: deploy_contract_def accepting_chain_def)

lemma deploy_local_contract_done:
  assumes "all_or_none (map (\<lambda>(l, n). map_option (Pair l) (deployed_address s n)) (cd_libraries c)) = Some libs"
    and "all_or_none (map (eval_arg (\<lambda>n. Some (case deployed_address s n of Some a \<Rightarrow> Str a | None \<Rightarrow> Undefined)) (de_encode env)) (cd_args c)) = Some args"
    and "accepting_chain env"
  shows "deploy_local_contract env (name, c) s = Done (create_contract env name name args libs s)"
  using assms by (auto simp: deploy_local_contract_def accepting_chain_def Let_def)

text \<open>The references between the contracts.\<close>

definition wired :: "contract_name \<Rightarrow> contract_name \<Rightarrow> deploy_state \<Rightarrow> bool" where
  "wired logic proxy s =
     (let addr = (\<lambda>n. Str (the (deployed_address s n))); args = constructor_args s
      in args NounsDescriptorV2 = [addr NounsArt, addr SVGRenderer]
       \<and> args NounsArt = [addr NounsDescriptorV2, addr Inflator]
       \<and> args NounsToken ! 1 = addr NounsAuctionHouseProxy
       \<and> args NounsToken ! 2 = addr NounsDescriptorV2
       \<and> args NounsToken ! 3 = addr NounsSeeder
       \<and> args NounsAuctionHouseProxy ! 0 = addr NounsAuctionHouse
       \<and> args NounsAuctionHouseProxy ! 1 = addr NounsAuctionHouseProxyAdmin
       \<and> args NounsDAOExecutor ! 0 = addr proxy
       \<and> args proxy ! 0 = addr NounsDAOExecutor
       \<and> args proxy ! 1 = addr NounsToken
       \<and> args proxy ! 3 = addr NounsDAOExecutor
       \<and> args proxy ! 4 = addr logic)"

lemmas contract_tables =
  descriptor_contracts_def token_contracts_def auction_house_proxy_def validated_def executor_contract_def dao_proxy_def
  network_contracts_def dao_contracts_def plain_contract_def expected_address_def
  NOUNS_ART_NONCE_OFFSET_def AUCTION_HOUSE_PROXY_NONCE_OFFSET_def GOVERNOR_N_DELEGATOR_NONCE_OFFSET_def

text \<open>What the hand-over needs: the four owned contracts belong to the deployer, and their addresses differ.\<close>

definition handover_ready :: "deploy_env \<Rightarrow> deploy_state \<Rightarrow> bool" where
  "handover_ready env s =
     (\<exists>descriptor token admin proxy executor.
        deployed_address s NounsDescriptorV2 = Some descriptor \<and> deployed_address s NounsToken = Some token
      \<and> deployed_address s NounsAuctionHouseProxyAdmin = Some admin \<and> deployed_address s NounsAuctionHouseProxy = Some proxy
      \<and> deployed_address s NounsDAOExecutor = Some executor
      \<and> distinct [descriptor, token, admin, proxy]
      \<and> list_all (\<lambda>a. ds_owner s a = Some (de_deployer env)) [descriptor, token, admin, proxy])"

text \<open>The state after the descriptor, the token, the auction house and the executor; \<open>at i\<close> is the address of the
  \<open>i\<close>-th contract.\<close>

definition base_deployed :: "(nat \<Rightarrow> string) \<Rightarrow> string \<Rightarrow> deploy_env \<Rightarrow> deploy_state \<Rightarrow> bool" where
  "base_deployed place dao env s =
     (list_all (\<lambda>(n, i). deployed_address s n = Some (place i))
        [(SVGRenderer, 1), (NounsDescriptorV2, 2), (Inflator, 3), (NounsArt, 4), (NounsSeeder, 5),
         (NounsToken, 6), (NounsAuctionHouse, 7), (NounsAuctionHouseProxyAdmin, 8), (NounsAuctionHouseProxy, 9),
         (NounsDAOExecutor, 10)]
      \<and> constructor_args s NounsDescriptorV2 = [Str (place 4), Str (place 1)]
      \<and> constructor_args s NounsArt = [Str (place 2), Str (place 3)]
      \<and> constructor_args s NounsToken ! 1 = Str (place 9) \<and> constructor_args s NounsToken ! 2 = Str (place 2)
      \<and> constructor_args s NounsToken ! 3 = Str (place 5)
      \<and> constructor_args s NounsAuctionHouseProxy ! 0 = Str (place 7)
      \<and> constructor_args s NounsAuctionHouseProxy ! 1 = Str (place 8)
      \<and> constructor_args s NounsDAOExecutor ! 0 = Str dao
      \<and> list_all (\<lambda>i. ds_owner s (place i) = Some (de_deployer env)) [2, 6, 8, 9])"

lemma run_contracts_append:
  "run_contracts step (xs @ ys) s = (case run_contracts step xs s of Done s' \<Rightarrow> run_contracts step ys s' | r \<Rightarrow> r)"
  by (induction xs arbitrary: s) (auto split: task_result.splits)

lemma base_run:
  assumes "accepting_chain env"
  shows "\<exists>s. run_contracts (deploy_contract env f auto) (network_contracts env args nonce) (fresh_state nonce) = Done s
      \<and> ds_nonce s = nonce + 11
      \<and> base_deployed (\<lambda>i. de_address env (de_deployer env) (nonce + i)) (de_address env (de_deployer env) (nonce + 12)) env s"
  using assms by (simp add: contract_tables deploy_contract_done base_deployed_def ownable_def eval_nat_numeral)

lemma inj_shift: "inj f \<Longrightarrow> inj (\<lambda>i. f (k + i))" for f :: "nat \<Rightarrow> 'a"
  by (rule injI) (simp add: inj_eq)

lemma base_owned:
  assumes "base_deployed place dao env s" "inj place"
  shows "handover_ready env s"
  using assms by (simp add: base_deployed_def handover_ready_def inj_eq)

lemma base_later:
  assumes "base_deployed place dao env s" "name \<notin> {SVGRenderer, NounsDescriptorV2, Inflator, NounsArt, NounsSeeder,
      NounsToken, NounsAuctionHouse, NounsAuctionHouseProxyAdmin, NounsAuctionHouseProxy, NounsDAOExecutor}"
  shows "base_deployed place dao env (create_contract env name f args libs s)"
proof -
  have "\<not> ownable name" using assms(2) by (auto simp: ownable_def)
  moreover have "SVGRenderer \<noteq> name" "NounsDescriptorV2 \<noteq> name" "Inflator \<noteq> name" "NounsArt \<noteq> name"
    "NounsSeeder \<noteq> name" "NounsToken \<noteq> name" "NounsAuctionHouse \<noteq> name" "NounsAuctionHouseProxyAdmin \<noteq> name"
    "NounsAuctionHouseProxy \<noteq> name" "NounsDAOExecutor \<noteq> name" using assms(2) by blast+
  ultimately show ?thesis using assms(1) by (simp add: base_deployed_def)
qed

lemma base_wired:
  assumes "base_deployed place (place 12) env s" "deployed_address s proxy = Some (place 12)" "deployed_address s logic = Some (place 11)"
    and "constructor_args s proxy ! 0 = Str (place 10)" "constructor_args s proxy ! 1 = Str (place 6)"
      "constructor_args s proxy ! 3 = Str (place 10)" "constructor_args s proxy ! 4 = Str (place 11)"
  shows "wired logic proxy s"
  using assms by (simp add: wired_def base_deployed_def Let_def)

lemma dao_run:
  assumes chain: "accepting_chain env"
    and base: "base_deployed (\<lambda>i. de_address env (de_deployer env) (nonce + i)) (de_address env (de_deployer env) (nonce + 12)) env s"
    and nonce: "ds_nonce s = nonce + 11"
    and names: "(logic, proxy) \<in> {(NounsDAOLogicV1, NounsDAOProxy), (NounsDAOLogicV2, NounsDAOProxyV2)}"
  shows "\<exists>s'. run_contracts (deploy_contract env f auto) (dao_contracts env logic proxy quorum args nonce) s = Done s'
      \<and> wired logic proxy s'
      \<and> base_deployed (\<lambda>i. de_address env (de_deployer env) (nonce + i)) (de_address env (de_deployer env) (nonce + 12)) env s'"
proof -
  let ?place = "\<lambda>i. de_address env (de_deployer env) (nonce + i)"
  define s1 where "s1 = create_contract env logic (f logic) [] [] s"
  define ctor where "ctor = [Str (?place 10), Str (?place 6), field args ''noundersdao'', Str (?place 10), Str (?place 11),
      field args ''votingPeriod'', field args ''votingDelay'', field args ''proposalThresholdBps'', quorum]"
  define s2 where "s2 = create_contract env proxy (f proxy) ctor [] s1"
  have fresh: "logic \<notin> {SVGRenderer, NounsDescriptorV2, Inflator, NounsArt, NounsSeeder,
      NounsToken, NounsAuctionHouse, NounsAuctionHouseProxyAdmin, NounsAuctionHouseProxy, NounsDAOExecutor}"
    "proxy \<notin> {SVGRenderer, NounsDescriptorV2, Inflator, NounsArt, NounsSeeder,
      NounsToken, NounsAuctionHouse, NounsAuctionHouseProxyAdmin, NounsAuctionHouseProxy, NounsDAOExecutor}"
    "logic \<noteq> proxy" using names by auto
  have one: "deploy_contract env f auto (logic, plain_contract\<lparr>cd_waitForConfirmation := True\<rparr>) s = Done s1"
    unfolding s1_def by (rule deploy_contract_done) (simp_all add: plain_contract_def chain)
  have b1: "base_deployed ?place (?place 12) env s1" unfolding s1_def by (rule base_later [OF base fresh(1)])
  have at: "deployed_address s1 NounsDAOExecutor = Some (?place 10)" "deployed_address s1 NounsToken = Some (?place 6)"
    "deployed_address s1 logic = Some (?place 11)" "ds_nonce s1 = nonce + 12"
    using b1 nonce by (simp_all add: base_deployed_def s1_def)
  have two: "deploy_contract env f auto (proxy, validated (expected_address env nonce GOVERNOR_N_DELEGATOR_NONCE_OFFSET)
      (dao_proxy logic (field args ''noundersdao'') quorum args)) s1 = Done s2"
    unfolding s2_def by (rule deploy_contract_done)
      (simp_all add: contract_tables chain at ctor_def)
  have b2: "base_deployed ?place (?place 12) env s2" unfolding s2_def by (rule base_later [OF b1 fresh(2)])
  have "wired logic proxy s2"
    by (rule base_wired [OF b2]) (use fresh(3) at in \<open>simp_all add: s2_def ctor_def\<close>)
  with one two b2 show ?thesis by (simp add: dao_contracts_def)
qed

lemma network_run:
  assumes chain: "accepting_chain env"
  shows "\<exists>s. run_contracts (deploy_contract env f auto) (deploy_contracts env args nonce) (fresh_state nonce) = Done s
      \<and> wired NounsDAOLogicV1 NounsDAOProxy s
      \<and> (inj (de_address env (de_deployer env)) \<longrightarrow> handover_ready env s)"
    and "\<exists>s. run_contracts (deploy_contract env f auto) (short_times_contracts env args nonce) (fresh_state nonce) = Done s
      \<and> wired NounsDAOLogicV2 NounsDAOProxyV2 s
      \<and> (inj (de_address env (de_deployer env)) \<longrightarrow> handover_ready env s)"
proof -
  from base_run [OF chain] obtain s where s:
    "run_contracts (deploy_contract env f auto) (network_contracts env args nonce) (fresh_state nonce) = Done s"
    "ds_nonce s = nonce + 11"
    "base_deployed (\<lambda>i. de_address env (de_deployer env) (nonce + i)) (de_address env (de_deployer env) (nonce + 12)) env s"
    by blast
  have owned: "inj (de_address env (de_deployer env)) \<longrightarrow> handover_ready env s'"
    if "base_deployed (\<lambda>i. de_address env (de_deployer env) (nonce + i)) (de_address env (de_deployer env) (nonce + 12)) env s'" for s'
    using base_owned [OF that] inj_shift by blast
  show "\<exists>s. run_contracts (deploy_contract env f auto) (deploy_contracts env args nonce) (fresh_state nonce) = Done s
      \<and> wired NounsDAOLogicV1 NounsDAOProxy s \<and> (inj (de_address env (de_deployer env)) \<longrightarrow> handover_ready env s)"
    using dao_run [OF chain s(3,2), of "NounsDAOLogicV1" "NounsDAOProxy"] owned
    by (fastforce simp: deploy_contracts_def run_contracts_append s(1))
  show "\<exists>s. run_contracts (deploy_contract env f auto) (short_times_contracts env args nonce) (fresh_state nonce) = Done s
      \<and> wired NounsDAOLogicV2 NounsDAOProxyV2 s \<and> (inj (de_address env (de_deployer env)) \<longrightarrow> handover_ready env s)"
    using dao_run [OF chain s(3,2), of "NounsDAOLogicV2" "NounsDAOProxyV2"] owned
    by (fastforce simp: short_times_contracts_def run_contracts_append s(1))
qed

text \<open>On a local node everything comes one place later.\<close>

lemma local_run:
  assumes chain: "accepting_chain env"
  shows "\<exists>s. run_contracts (deploy_local_contract env) (local_contracts env args nonce) (fresh_state nonce) = Done s
      \<and> wired NounsDAOLogicV2 NounsDAOProxyV2 s
      \<and> (inj (de_address env (de_deployer env)) \<longrightarrow> handover_ready env s)"
proof -
  let ?place = "\<lambda>i. de_address env (de_deployer env) (nonce + 1 + i)"
  from chain obtain s where s: "run_contracts (deploy_local_contract env) (local_contracts env args nonce) (fresh_state nonce) = Done s"
    "base_deployed ?place (?place 12) env s" "deployed_address s NounsDAOProxyV2 = Some (?place 12)"
    "deployed_address s NounsDAOLogicV2 = Some (?place 11)"
    "constructor_args s NounsDAOProxyV2 ! 0 = Str (?place 10)" "constructor_args s NounsDAOProxyV2 ! 1 = Str (?place 6)"
    "constructor_args s NounsDAOProxyV2 ! 3 = Str (?place 10)" "constructor_args s NounsDAOProxyV2 ! 4 = Str (?place 11)"
    by (simp add: local_contracts_def contract_tables deploy_local_contract_done base_deployed_def ownable_def Let_def eval_nat_numeral)
  moreover have "inj (de_address env (de_deployer env)) \<longrightarrow> handover_ready env s"
    using base_owned [OF s(2)] inj_shift by blast
  ultimately show ?thesis using base_wired [OF s(2-8)] by blast
qed

lemma prepare_args_known:
  assumes "wethContracts (de_chainId env) \<noteq> None"
  shows "\<exists>args. prepare_args env given = Some args"
  using assms by (auto simp: prepare_args_def Let_def)


section \<open>The hand-over\<close>

lemma populate_run:
  assumes "ds_owner s descriptor = Some (de_deployer env)"
  shows "\<exists>s'. each (send env) (populate_calls env images descriptor) s = Some s' \<and> ds_owner s' = ds_owner s
    \<and> ds_deployment s' = ds_deployment s"
  using assms by (simp add: populate_calls_def send_def Let_def)

text \<open>Who owns the four contracts in the end.\<close>

definition owners :: "deploy_state \<Rightarrow> string option list" where
  "owners s = map (\<lambda>n. ds_owner s (the (deployed_address s n)))
     [NounsDescriptorV2, NounsToken, NounsAuctionHouseProxyAdmin, NounsAuctionHouseProxy]"

lemma send_calls:
  assumes "list_all (\<lambda>a. ds_owner s a = Some (de_deployer env)) [descriptor, token, admin, proxy]" "distinct [descriptor, token, admin, proxy]"
  shows "\<exists>s'. each (send env) (populate_calls env images descriptor
            @ map (transferOwnership executor) [descriptor, token, admin]
            @ (if startAuction then [(proxy, ''unpause'', []), transferOwnership executor proxy] else [])) s = Some s'
        \<and> ds_deployment s' = ds_deployment s
        \<and> map (ds_owner s') [descriptor, token, admin, proxy]
          = [Some executor, Some executor, Some executor, Some (if startAuction then executor else de_deployer env)]"
    and "\<exists>s'. each (send env) (populate_calls env images descriptor @ [(proxy, ''unpause'', [])]
            @ map (transferOwnership executor) [descriptor, token, admin, proxy]) s = Some s'
        \<and> ds_deployment s' = ds_deployment s
        \<and> map (ds_owner s') [descriptor, token, admin, proxy] = replicate 4 (Some executor)"
proof -
  obtain s1 where "each (send env) (populate_calls env images descriptor) s = Some s1" "ds_owner s1 = ds_owner s"
    "ds_deployment s1 = ds_deployment s"
    using populate_run [of s descriptor env images] assms(1) by auto
  moreover have "distinct [proxy, admin, token, descriptor]" using assms(2) by auto
  ultimately show
    "\<exists>s'. each (send env) (populate_calls env images descriptor
            @ map (transferOwnership executor) [descriptor, token, admin]
            @ (if startAuction then [(proxy, ''unpause'', []), transferOwnership executor proxy] else [])) s = Some s'
        \<and> ds_deployment s' = ds_deployment s
        \<and> map (ds_owner s') [descriptor, token, admin, proxy]
          = [Some executor, Some executor, Some executor, Some (if startAuction then executor else de_deployer env)]"
    "\<exists>s'. each (send env) (populate_calls env images descriptor @ [(proxy, ''unpause'', [])]
            @ map (transferOwnership executor) [descriptor, token, admin, proxy]) s = Some s'
        \<and> ds_deployment s' = ds_deployment s
        \<and> map (ds_owner s') [descriptor, token, admin, proxy] = replicate 4 (Some executor)"
    using assms by (simp_all add: each_append send_def transferOwnership_def as_string_def eval_nat_numeral)
qed

lemma handover_readyE:
  assumes "handover_ready env s"
  obtains descriptor token admin proxy executor where
    "deployed_address s NounsDescriptorV2 = Some descriptor" "deployed_address s NounsToken = Some token"
    "deployed_address s NounsAuctionHouseProxyAdmin = Some admin" "deployed_address s NounsAuctionHouseProxy = Some proxy"
    "deployed_address s NounsDAOExecutor = Some executor" "distinct [descriptor, token, admin, proxy]"
    "list_all (\<lambda>a. ds_owner s a = Some (de_deployer env)) [descriptor, token, admin, proxy]"
  using assms unfolding handover_ready_def by blast

lemma configured:
  assumes "handover_ready env s"
  shows "\<exists>s' e. configure env images startAuction s = Done s' \<and> deployed_address s' NounsDAOExecutor = Some e
    \<and> owners s' = [Some e, Some e, Some e, Some (if startAuction then e else de_deployer env)]"
proof -
  from assms obtain d t a p e where s: "deployed_address s NounsDescriptorV2 = Some d" "deployed_address s NounsToken = Some t"
    "deployed_address s NounsAuctionHouseProxyAdmin = Some a" "deployed_address s NounsAuctionHouseProxy = Some p"
    "deployed_address s NounsDAOExecutor = Some e" "distinct [d, t, a, p]"
    "list_all (\<lambda>x. ds_owner s x = Some (de_deployer env)) [d, t, a, p]" by (rule handover_readyE)
  obtain s' where s': "each (send env) (populate_calls env images d @ map (transferOwnership e) [d, t, a]
            @ (if startAuction then [(p, ''unpause'', []), transferOwnership e p] else [])) s = Some s'
      \<and> ds_deployment s' = ds_deployment s
      \<and> map (ds_owner s') [d, t, a, p] = [Some e, Some e, Some e, Some (if startAuction then e else de_deployer env)]"
    by (rule exE [OF send_calls(1) [OF s(7,6), of images e startAuction]])
  have at: "deployed_address s' n = deployed_address s n" for n by (simp add: deployed_address_def s')
  have "configure env images startAuction s = Done s'"
    unfolding configure_def s(1-5) run_calls_def by (simp only: option.case prod.case s' [THEN conjunct1])
  moreover have "owners s' = [Some e, Some e, Some e, Some (if startAuction then e else de_deployer env)]"
    using s' by (simp add: owners_def at s(1-5))
  ultimately show ?thesis using at s(5) by simp
qed

lemma and_configured:
  assumes "task env (spread defaults given) nonce = Done s" "handover_ready env s"
  shows "\<exists>s' e. and_configure task defaults env images given nonce = Done s' \<and> deployed_address s' NounsDAOExecutor = Some e
    \<and> owners s' = [Some e, Some e, Some e,
                    Some (if js_truthy (field (spread defaults given) ''startAuction'') then e else de_deployer env)]"
  using configured [OF assms(2)] assms(1) by (simp add: and_configure_def Let_def)

lemma field_spread_given: "k \<notin> fst ` set options \<Longrightarrow> field (spread defaults ((k, v) # options)) k = v"
  using field_spread [of k options "AList.update k v defaults"] by (simp add: spread_def)

lemma deployed_ready:
  assumes "accepting_chain env" "wethContracts (de_chainId env) \<noteq> None" "inj (de_address env (de_deployer env))"
  shows "\<exists>s. deploy env given nonce = Done s \<and> handover_ready env s"
    and "\<exists>s. deploy_short_times env given nonce = Done s \<and> handover_ready env s"
    and "\<exists>s. deploy_short_times_daov1 env given nonce = Done s \<and> handover_ready env s"
proof -
  obtain args1 args2 args3 where args:
    "prepare_args env (spread deploy_defaults given) = Some args1" "prepare_args env (spread short_times_defaults given) = Some args2"
    "prepare_args env (spread short_times_daov1_defaults given) = Some args3" using prepare_args_known [OF assms(2)] by metis
  show "\<exists>s. deploy env given nonce = Done s \<and> handover_ready env s"
    using network_run(1) [OF assms(1), of id "js_truthy (field args1 ''autoDeploy'')" args1 nonce] args assms(3)
    by (simp add: deploy_def deploy_task_def) blast
  show "\<exists>s. deploy_short_times env given nonce = Done s \<and> handover_ready env s"
    using network_run(2) [OF assms(1), of short_times_name "js_truthy (field args2 ''autoDeploy'')" args2 nonce] args assms(3)
    by (simp add: deploy_short_times_def deploy_task_def) blast
  show "\<exists>s. deploy_short_times_daov1 env given nonce = Done s \<and> handover_ready env s"
    using network_run(1) [OF assms(1), of short_times_daov1_name "js_truthy (field args3 ''autoDeploy'')" args3 nonce] args assms(3)
    by (simp add: deploy_short_times_daov1_def short_times_daov1_contracts_def deploy_task_def) blast
qed

text \<open>C33. The hand-over.  When addresses of new contracts do not repeat, deploying and configuring leaves the descriptor, the
  token and the proxy admin with the executor of the DAO, and the auction house too if the first auction was
  started; otherwise the auction house stays with the deployer, who has to start it.\<close>

theorem contracts_handed_over:
  assumes chain: "accepting_chain env" "wethContracts (de_chainId env) \<noteq> None"
    and addresses: "inj (de_address env (de_deployer env))"
    and given: "given = (''startAuction'', Bool startAuction) # options" "''startAuction'' \<notin> fst ` set options"
    and task: "task \<in> {deploy_and_configure, deploy_and_configure_short_times, deploy_and_configure_short_times_daov1}"
  shows "\<exists>s executor. task env images given nonce = Done s \<and> deployed_address s NounsDAOExecutor = Some executor
    \<and> owners s = [Some executor, Some executor, Some executor, Some (if startAuction then executor else de_deployer env)]"
proof -
  note ready = deployed_ready [OF chain addresses]
  have start: "js_truthy (field (spread defaults given) ''startAuction'') = startAuction" for defaults
    by (simp add: given field_spread_given js_truthy_def)
  have conclude: ?thesis
    if "task = and_configure deploying defaults" "\<And>g. \<exists>s. deploying env g nonce = Done s \<and> handover_ready env s" for deploying defaults
  proof -
    from that(2) obtain s where "deploying env (spread defaults given) nonce = Done s" "handover_ready env s" by blast
    from and_configured [where task = deploying and defaults = defaults, OF this, of images] show ?thesis unfolding start that(1) .
  qed
  from task consider "task = deploy_and_configure" | "task = deploy_and_configure_short_times"
    | "task = deploy_and_configure_short_times_daov1" by blast
  then show ?thesis
  proof cases
    case 1
    show ?thesis by (rule conclude [of deploy]) (use 1 ready(1) in \<open>simp_all add: deploy_and_configure_def\<close>)
  next
    case 2
    show ?thesis
      by (rule conclude [of deploy_short_times]) (use 2 ready(2) in \<open>simp_all add: deploy_and_configure_short_times_def\<close>)
  next
    case 3
    show ?thesis
      by (rule conclude [of deploy_short_times_daov1]) (use 3 ready(3) in \<open>simp_all add: deploy_and_configure_short_times_daov1_def\<close>)
  qed
qed

section \<open>The proposal that fills a descriptor\<close>

lemma push_page_length:
  assumes "length (pd_targets d) = n" "length (pd_values d) = n" "length (pd_signatures d) = n" "length (pd_calldatas d) = n"
  shows "length (pd_targets (push_page env a sig parts d)) = n + (if parts = None then 0 else 1)"
    "length (pd_values (push_page env a sig parts d)) = n + (if parts = None then 0 else 1)"
    "length (pd_signatures (push_page env a sig parts d)) = n + (if parts = None then 0 else 1)"
    "length (pd_calldatas (push_page env a sig parts d)) = n + (if parts = None then 0 else 1)"
  using assms by (auto simp: push_page_def push_action_def split: option.splits)

lemma push_palettes_length:
  assumes "length (pd_targets d) = n" "length (pd_values d) = n" "length (pd_signatures d) = n" "length (pd_calldatas d) = n"
  shows "length (pd_targets (fold (push_palette env a) ps d)) = n + length ps"
    "length (pd_values (fold (push_palette env a) ps d)) = n + length ps"
    "length (pd_signatures (fold (push_palette env a) ps d)) = n + length ps"
    "length (pd_calldatas (fold (push_palette env a) ps d)) = n + length ps"
  using assms by (induction ps arbitrary: d n) (auto simp: push_palette_def push_action_def)

definition action_count :: "art_file \<Rightarrow> nat" where
  "action_count art =
     (if af_bgcolors art = None then 0 else 1)
     + (case af_palettes art of None \<Rightarrow> 0 | Some palettes \<Rightarrow> length palettes)
     + (case af_images art of
          None \<Rightarrow> 0
        | Some images \<Rightarrow> length (filter (\<lambda>parts. parts \<noteq> None)
                            [ai_bodies images, ai_heads images, ai_glasses images, ai_accessories images]))"

lemma populate_proposal_length:
  "let d = populate_proposal env a art
   in length (pd_targets d) = action_count art \<and> length (pd_values d) = action_count art
    \<and> length (pd_signatures d) = action_count art \<and> length (pd_calldatas d) = action_count art"
proof -
  define d0 where "d0 = \<lparr>pd_targets = [], pd_values = [], pd_signatures = [], pd_calldatas = []\<rparr>"
  define d1 where "d1 = (case af_bgcolors art of None \<Rightarrow> d0
      | Some bgcolors \<Rightarrow> push_action a ''addManyBackgrounds(string[])'' (de_abi env [''string[]''] [Arr (map Str bgcolors)]) d0)"
  define n1 :: nat where "n1 = (if af_bgcolors art = None then 0 else 1)"
  have l1: "length (pd_targets d1) = n1" "length (pd_values d1) = n1" "length (pd_signatures d1) = n1" "length (pd_calldatas d1) = n1"
    by (simp_all add: d1_def d0_def n1_def push_action_def split: option.splits)
  define d2 where "d2 = (case af_palettes art of None \<Rightarrow> d1 | Some palettes \<Rightarrow> fold (push_palette env a) (sort_key fst palettes) d1)"
  define n2 where "n2 = n1 + (case af_palettes art of None \<Rightarrow> 0 | Some palettes \<Rightarrow> length palettes)"
  have l2: "length (pd_targets d2) = n2" "length (pd_values d2) = n2" "length (pd_signatures d2) = n2" "length (pd_calldatas d2) = n2"
    using l1 push_palettes_length [OF l1] by (simp_all add: d2_def n2_def split: option.splits)
  have eq: "populate_proposal env a art = (case af_images art of None \<Rightarrow> d2 | Some images \<Rightarrow>
      push_page env a ''addAccessories(bytes,uint80,uint16)'' (ai_accessories images)
        (push_page env a ''addGlasses(bytes,uint80,uint16)'' (ai_glasses images)
          (push_page env a ''addHeads(bytes,uint80,uint16)'' (ai_heads images)
            (push_page env a ''addBodies(bytes,uint80,uint16)'' (ai_bodies images) d2))))"
    by (simp only: populate_proposal_def Let_def d2_def d1_def d0_def)
  show ?thesis
  proof (cases "af_images art")
    case None
    then show ?thesis using l2 by (simp add: eq action_count_def n2_def n1_def)
  next
    case (Some images)
    note p1 = push_page_length [OF l2, of env a "''addBodies(bytes,uint80,uint16)''" "ai_bodies images"]
    note p2 = push_page_length [OF p1, of env a "''addHeads(bytes,uint80,uint16)''" "ai_heads images"]
    note p3 = push_page_length [OF p2, of env a "''addGlasses(bytes,uint80,uint16)''" "ai_glasses images"]
    note p4 = push_page_length [OF p3, of env a "''addAccessories(bytes,uint80,uint16)''" "ai_accessories images"]
    from Some p4 show ?thesis by (simp add: eq Let_def action_count_def n2_def n1_def)
  qed
qed

text \<open>C34. A descriptor filled by vote.  The proposal made from a file with all parts performs, in the same order and with
  the same data, the calls of the task that fills a descriptor directly; and whatever parts a file has, its actions
  are accepted by the DAO exactly when there are between one and ten of them.\<close>

theorem proposal_fills_descriptor:
  "actions (populate_proposal env descriptor
      \<lparr>af_bgcolors = Some (id_bgcolors (is_catalog images)), af_palettes = Some [(0, is_palette images)],
       af_images = Some \<lparr>ai_bodies = Some (id_bodies (is_catalog images)), ai_accessories = Some (id_accessories (is_catalog images)),
         ai_heads = Some (id_heads (is_catalog images)), ai_glasses = Some (id_glasses (is_catalog images))\<rparr>\<rparr>)
     = map (encoded_call env) (populate_calls env images descriptor)
   \<and> actions_accepted (populate_proposal env descriptor art) = (action_count art \<in> {1..10})"
proof
  show "actions_accepted (populate_proposal env descriptor art) = (action_count art \<in> {1..10})"
    using populate_proposal_length [of env descriptor art] by (auto simp: actions_accepted_def Let_def)
qed (simp add: actions_def populate_proposal_def populate_calls_def encoded_call_def push_page_def push_palette_def push_action_def
      method_signature_def method_types_def Let_def)

section \<open>Chunks\<close>

lemma chunk_loop_spec:
  assumes "0 < n"
  shows "\<exists>rest. chunk_loop n xs i chunk = Some (chunk @ rest) \<and> concat rest = drop i xs
    \<and> list_all (\<lambda>c. c \<noteq> [] \<and> length c \<le> n) rest"
  using assms
proof (induction "length xs - i" arbitrary: i chunk rule: less_induct)
  case less
  show ?case
  proof (cases "i < length xs")
    case True
    then obtain rest where "chunk_loop n xs (i + n) (chunk @ [take n (drop i xs)]) = Some ((chunk @ [take n (drop i xs)]) @ rest)"
      "concat rest = drop (i + n) xs" "list_all (\<lambda>c. c \<noteq> [] \<and> length c \<le> n) rest"
      using less.hyps [of "i + n" "chunk @ [take n (drop i xs)]"] less.prems by fastforce
    moreover have "take n (drop i xs) @ drop (i + n) xs = drop i xs" by (metis append_take_drop_id drop_drop add.commute)
    moreover have "take n (drop i xs) \<noteq> []" using True less.prems by simp
    ultimately show ?thesis
      using True by (intro exI [of _ "take n (drop i xs) # rest"]) (simp add: chunk_loop.simps [of n xs i])
  qed (simp add: chunk_loop.simps)
qed

text \<open>Chunks.  Splitting into chunks of a positive size returns, and the chunks put together are the list, none of them
  empty or too long; so the first version of the descriptor is sent every accessory and every head once, at most
  ten at a time.\<close>

theorem chunks_cover:
  assumes "0 < n"
  shows "\<exists>chunks. chunkArray xs n = Some chunks \<and> concat chunks = xs \<and> list_all (\<lambda>c. c \<noteq> [] \<and> length c \<le> n) chunks"
  using chunk_loop_spec [OF assms, of xs 0 "[]"] by (simp add: chunkArray_def)

theorem chunks_cover_witness:
  "\<exists>chunks. chunkArray [1, 2, 3, 4, 5 :: nat] 2 = Some chunks \<and> concat chunks = [1, 2, 3, 4, 5] \<and> list_all (\<lambda>c. c \<noteq> [] \<and> length c \<le> 2) chunks"
  by (rule chunks_cover) simp

section \<open>What goes wrong\<close>

text \<open>The user is asked in vain.  Whatever is typed when a contract is to be confirmed, also \<open>SKIP\<close> and \<open>EXIT\<close>, the
  three tasks do the same, and none of them ends early.\<close>

theorem answers_ignored:
  "deploy (env\<lparr>de_prompt := answers\<rparr>) given nonce = deploy env given nonce
   \<and> deploy_short_times (env\<lparr>de_prompt := answers\<rparr>) given nonce = deploy_short_times env given nonce
   \<and> deploy_short_times_daov1 (env\<lparr>de_prompt := answers\<rparr>) given nonce = deploy_short_times_daov1 env given nonce
   \<and> deploy env given nonce \<noteq> Exited \<and> deploy_short_times env given nonce \<noteq> Exited
   \<and> deploy_short_times_daov1 env given nonce \<noteq> Exited"
proof -
  have silent: "field [(''confirm'', v)] ''operation'' = Undefined" "de_accepts (env\<lparr>de_prompt := answers\<rparr>) = de_accepts env"
    "de_encode (env\<lparr>de_prompt := answers\<rparr>) = de_encode env" for v by simp_all
  have created: "create_contract (env\<lparr>de_prompt := answers\<rparr>) = create_contract env"
    by (intro ext) (simp add: create_contract_def Let_def)
  have step: "deploy_contract (env\<lparr>de_prompt := answers\<rparr>) f auto = deploy_contract env f auto" for f auto
    unfolding deploy_contract_def created Let_def silent ..
  have tables: "deploy_contracts (env\<lparr>de_prompt := answers\<rparr>) = deploy_contracts env"
    "short_times_contracts (env\<lparr>de_prompt := answers\<rparr>) = short_times_contracts env"
    "prepare_args (env\<lparr>de_prompt := answers\<rparr>) = prepare_args env"
    by (intro ext, simp add: deploy_contracts_def short_times_contracts_def contract_tables proxyRegistryAddress_def dynamic_quorum_def
        prepare_args_def)+
  have no_exit: "deploy_contract env f auto p s \<noteq> Exited" for f auto p s
    by (auto simp: deploy_contract_def Let_def split: option.splits prod.splits)
  have "run_contracts (deploy_contract env f auto) ps s \<noteq> Exited" for f auto ps s
    by (induction ps arbitrary: s) (auto simp: no_exit split: task_result.splits)
  then show ?thesis
    by (auto simp: deploy_def deploy_short_times_def deploy_short_times_daov1_def short_times_daov1_contracts_def deploy_task_def step tables split: option.splits)
qed

lemma run_contracts_names:
  assumes "run_contracts (deploy_contract env f auto) ps s = Done s'" "deployed_address s' n \<noteq> None"
  shows "n \<in> fst ` set ps \<or> deployed_address s n \<noteq> None"
  using assms
proof (induction ps arbitrary: s)
  case (Cons p ps)
  obtain s1 where s1: "deploy_contract env f auto p s = Done s1" "run_contracts (deploy_contract env f auto) ps s1 = Done s'"
    using Cons.prems(1) by (auto split: task_result.splits)
  have "\<exists>libs args. s1 = create_contract env (fst p) (f (fst p)) args libs s"
    using s1(1) by (cases p) (auto simp: deploy_contract_def Let_def split: option.splits if_splits)
  then show ?case using Cons.IH [OF s1(2) Cons.prems(2)] by (auto split: if_splits)
qed simp

text \<open>The deployment of the continuous integration always fails: it asks for the addresses of contracts that the
  deployment does not have any more.\<close>

theorem ci_deployment_fails:
  "deploy_ci env noundersdao weth nonce = Failed"
proof -
  have "deployed_address s NFTDescriptor = None" if "deploy env given nonce = Done s" for s given
  proof -
    from that obtain args where "run_contracts (deploy_contract env id (js_truthy (field args ''autoDeploy'')))
        (deploy_contracts env args nonce) (fresh_state nonce) = Done s"
      by (auto simp: deploy_def deploy_task_def split: option.splits)
    from run_contracts_names [OF this, of NFTDescriptor] show ?thesis
      by (auto simp: deploy_contracts_def contract_tables simp del: not_None_eq)
  qed
  then show ?thesis
    by (auto simp: deploy_ci_def address_entry_def split: task_result.splits)
qed

section \<open>Witnesses\<close>

definition demo_deploy_env :: deploy_env where
  "demo_deploy_env = \<lparr>de_chainId = 5, de_deployer = ''0xD'', de_address = (\<lambda>from n. from @ replicate n (CHR ''1'')),
     de_encode = (\<lambda>f _. f), de_parseUnits = (\<lambda>s _. Str s), de_abi = (\<lambda>_ _. ''0x''), de_deflate = id,
     de_accepts = (\<lambda>_ _. True), de_prompt = (\<lambda>_. ''DEPLOY'')\<rparr>"

lemma demo_deploy_env_ok:
  "accepting_chain demo_deploy_env" "wethContracts (de_chainId demo_deploy_env) \<noteq> None"
  "inj (de_address demo_deploy_env (de_deployer demo_deploy_env))"
  by (auto simp: demo_deploy_env_def accepting_chain_def wethContracts_def inj_def replicate_eq_replicate)


theorem contracts_handed_over_witness:
  "\<exists>s executor. deploy_and_configure demo_deploy_env
        \<lparr>is_catalog = \<lparr>id_bgcolors = [], id_bodies = [], id_accessories = [], id_heads = [], id_glasses = []\<rparr>, is_palette = []\<rparr>
        [(''startAuction'', Bool True)] 7 = Done s
      \<and> deployed_address s NounsDAOExecutor = Some executor \<and> owners s = replicate 4 (Some executor)"
proof -
  have "deploy_and_configure \<in> {deploy_and_configure, deploy_and_configure_short_times, deploy_and_configure_short_times_daov1}"
    by blast
  from contracts_handed_over [OF demo_deploy_env_ok refl _ this, where options = "[]" and startAuction = True] show ?thesis
    by (simp add: numeral_eq_Suc)
qed

end
