(* ===== verification/Auction_House.thy ===== *)
theory Auction_House imports Web_Auction "HOL-Library.Multiset" begin

text \<open>
  The auction house contract, \<open>NounsAuctionHouse.sol\<close>: bids, refunds, settlement and pausing, with the ETH it
  holds; and how the web application follows its events (\<open>ChainSubscriber\<close> in \<open>index.tsx\<close>, over the slices
  of \<open>Web_Auction\<close>).  The struct of an auction is the record \<open>auction\<close>; \<open>uint256\<close> arithmetic is checked.  The
  token contract is a parameter of a transaction: what \<open>mint\<close> returns and whether the token can be moved.
\<close>

section \<open>The contract\<close>

datatype house_event =
    AuctionCreated int int int
  | AuctionBid int string int bool string int
  | AuctionExtended int int
  | AuctionSettled int string int
  | AuctionTimeBufferUpdated int
  | AuctionReservePriceUpdated int
  | AuctionMinBidIncrementPercentageUpdated int

record house =
  h_owner :: string
  h_timeBuffer :: int
  h_reservePrice :: int
  h_minBidIncrementPercentage :: int
  h_duration :: int
  h_auction :: auction
  h_paused :: bool
  h_balance :: int
  h_payments :: "(string \<times> int) list"
  h_events :: "house_event list"

definition no_auction :: auction where
  "no_auction = \<lparr>amount = 0, bidder = zero_address, startTime = 0, endTime = 0, nounId = 0, settled = False\<rparr>"

definition new_house :: "string \<Rightarrow> int \<Rightarrow> int \<Rightarrow> int \<Rightarrow> int \<Rightarrow> house" where
  "new_house owner timeBuffer reservePrice minBidIncrementPercentage duration =
     \<lparr>h_owner = owner, h_timeBuffer = timeBuffer, h_reservePrice = reservePrice,
      h_minBidIncrementPercentage = minBidIncrementPercentage, h_duration = duration, h_auction = no_auction,
      h_paused = True, h_balance = 0, h_payments = [], h_events = []\<rparr>"

datatype mint_result = Minted int | MintError | MintPanic

record house_tx =
  t_sender :: string
  t_value :: int
  t_time :: int
  t_hash :: string
  t_mint :: mint_result
  t_moves :: bool

definition emit_event :: "house_event \<Rightarrow> house \<Rightarrow> house" where
  "emit_event e h = h\<lparr>h_events := h_events h @ [e]\<rparr>"

text \<open>ETH or, when the receiver does not take it, WETH leaves the contract.\<close>

definition safeTransferETHWithFallback :: "string \<Rightarrow> int \<Rightarrow> house \<Rightarrow> house option" where
  "safeTransferETHWithFallback receiver n h =
     (if h_balance h < n then None
      else Some (h\<lparr>h_balance := h_balance h - n, h_payments := h_payments h @ [(receiver, n)]\<rparr>))"

abbreviation uint256 :: "int \<Rightarrow> bool" where
  "uint256 n \<equiv> n < 2 ^ 256"

definition minimum_bid :: "house \<Rightarrow> int" where
  "minimum_bid h = amount (h_auction h) + amount (h_auction h) * h_minBidIncrementPercentage h div 100"

definition createBid :: "house_tx \<Rightarrow> int \<Rightarrow> house \<Rightarrow> house option" where
  "createBid t n h =
     (let a = h_auction h
      in if nounId a \<noteq> n then None
         else if \<not> t_time t < endTime a then None
         else if t_value t < h_reservePrice h then None
         else if \<not> uint256 (amount a * h_minBidIncrementPercentage h) \<or> \<not> uint256 (minimum_bid h) then None
         else if t_value t < minimum_bid h then None
         else (case (if bidder a \<noteq> zero_address then safeTransferETHWithFallback (bidder a) (amount a) h else Some h) of
                 None \<Rightarrow> None
               | Some h1 \<Rightarrow>
                   (let extended = (endTime a - t_time t < h_timeBuffer h);
                        newEnd = t_time t + h_timeBuffer h;
                        a1 = a\<lparr>amount := t_value t, bidder := t_sender t\<rparr>;
                        h2 = emit_event (AuctionBid (nounId a) (t_sender t) (t_value t) extended (t_hash t) (t_time t))
                               (h1\<lparr>h_auction := (if extended then a1\<lparr>endTime := newEnd\<rparr> else a1)\<rparr>)
                    in if extended \<and> \<not> uint256 newEnd then None
                       else Some (if extended then emit_event (AuctionExtended (nounId a) newEnd) h2 else h2))))"

definition createAuction :: "house_tx \<Rightarrow> house \<Rightarrow> house option" where
  "createAuction t h =
     (case t_mint t of
        MintPanic \<Rightarrow> None
      | MintError \<Rightarrow> if h_paused h then None else Some (h\<lparr>h_paused := True\<rparr>)
      | Minted n \<Rightarrow>
          (let start = t_time t; last_time = start + h_duration h
           in if \<not> uint256 last_time then None
              else Some (emit_event (AuctionCreated n start last_time)
                     (h\<lparr>h_auction := \<lparr>amount = 0, bidder = zero_address, startTime = start, endTime = last_time,
                        nounId = n, settled = False\<rparr>\<rparr>))))"

definition settle :: "house_tx \<Rightarrow> house \<Rightarrow> house option" where
  "settle t h =
     (let a = h_auction h
      in if startTime a = 0 \<or> settled a \<or> t_time t < endTime a \<or> \<not> t_moves t then None
         else map_option (emit_event (AuctionSettled (nounId a) (bidder a) (amount a)))
                (if amount a > 0 then safeTransferETHWithFallback (h_owner h) (amount a) (h\<lparr>h_auction := a\<lparr>settled := True\<rparr>\<rparr>)
                 else Some (h\<lparr>h_auction := a\<lparr>settled := True\<rparr>\<rparr>)))"

datatype house_function =
    CreateBid int
  | SettleCurrentAndCreateNewAuction
  | SettleAuction
  | Pause
  | Unpause
  | SetTimeBuffer int
  | SetReservePrice int
  | SetMinBidIncrementPercentage int

text \<open>Only a bid is payable; the value of the call has arrived when the function runs.\<close>

fun house_perform :: "house_tx \<Rightarrow> house_function \<Rightarrow> house \<Rightarrow> house option" where
  "house_perform t (CreateBid n) h = createBid t n h"
| "house_perform t SettleCurrentAndCreateNewAuction h = (if h_paused h then None else Option.bind (settle t h) (createAuction t))"
| "house_perform t SettleAuction h = (if h_paused h then settle t h else None)"
| "house_perform t Pause h = (if t_sender t = h_owner h \<and> \<not> h_paused h then Some (h\<lparr>h_paused := True\<rparr>) else None)"
| "house_perform t Unpause h =
     (if t_sender t = h_owner h \<and> h_paused h
      then (if startTime (h_auction h) = 0 \<or> settled (h_auction h) then createAuction t (h\<lparr>h_paused := False\<rparr>)
            else Some (h\<lparr>h_paused := False\<rparr>))
      else None)"
| "house_perform t (SetTimeBuffer n) h =
     (if t_sender t = h_owner h then Some (emit_event (AuctionTimeBufferUpdated n) (h\<lparr>h_timeBuffer := n\<rparr>)) else None)"
| "house_perform t (SetReservePrice n) h =
     (if t_sender t = h_owner h then Some (emit_event (AuctionReservePriceUpdated n) (h\<lparr>h_reservePrice := n\<rparr>)) else None)"
| "house_perform t (SetMinBidIncrementPercentage n) h =
     (if t_sender t = h_owner h
      then Some (emit_event (AuctionMinBidIncrementPercentageUpdated n) (h\<lparr>h_minBidIncrementPercentage := n\<rparr>)) else None)"

definition payable :: "house_function \<Rightarrow> bool" where
  "payable f = (case f of CreateBid _ \<Rightarrow> True | _ \<Rightarrow> False)"

definition house_call :: "house_tx \<Rightarrow> house_function \<Rightarrow> house \<Rightarrow> house option" where
  "house_call t f h =
     (if t_value t \<noteq> 0 \<and> \<not> payable f then None
      else house_perform t f (h\<lparr>h_balance := h_balance h + t_value t\<rparr>))"

definition house_transact :: "house_tx \<times> house_function \<Rightarrow> house \<Rightarrow> house" where
  "house_transact p h = (case house_call (fst p) (snd p) h of None \<Rightarrow> h | Some h' \<Rightarrow> h')"

text \<open>Senders are not the zero address, times start after zero, and the percentage is a \<open>uint8\<close>.\<close>

definition house_tx_ok :: "house_tx \<times> house_function \<Rightarrow> bool" where
  "house_tx_ok p =
     (t_sender (fst p) \<noteq> zero_address \<and> 0 \<le> t_value (fst p) \<and> 0 < t_time (fst p)
      \<and> (case snd p of SetMinBidIncrementPercentage n \<Rightarrow> 0 \<le> n \<and> n < 256 | _ \<Rightarrow> True))"

section \<open>Solvency\<close>

definition escrow :: "house \<Rightarrow> int" where
  "escrow h = (if settled (h_auction h) then 0 else amount (h_auction h))"

definition solvent :: "int \<Rightarrow> house \<Rightarrow> bool" where
  "solvent now h =
     (h_balance h = escrow h \<and> 0 \<le> amount (h_auction h)
      \<and> (bidder (h_auction h) = zero_address \<longrightarrow> amount (h_auction h) = 0)
      \<and> (settled (h_auction h) \<longrightarrow> endTime (h_auction h) \<le> now)
      \<and> (startTime (h_auction h) = 0 \<longrightarrow> amount (h_auction h) = 0 \<and> endTime (h_auction h) \<le> 0))"

lemma pay_facts:
  assumes "safeTransferETHWithFallback r n h = Some h'"
  shows "h' = h\<lparr>h_balance := h_balance h - n, h_payments := h_payments h @ [(r, n)]\<rparr>" "n \<le> h_balance h"
  using assms by (auto simp: safeTransferETHWithFallback_def split: if_splits)

lemma createBid_cases:
  assumes "createBid t n (h\<lparr>h_balance := h_balance h + v\<rparr>) = Some h'"
    and "bidder (h_auction h) = zero_address \<longrightarrow> amount (h_auction h) = 0"
  obtains extended where "nounId (h_auction h) = n" "t_time t < endTime (h_auction h)" "h_reservePrice h \<le> t_value t"
    "minimum_bid h \<le> t_value t" "extended = (endTime (h_auction h) - t_time t < h_timeBuffer h)"
    "h_balance h' = h_balance h + v - amount (h_auction h)"
    "h_auction h' = (h_auction h)\<lparr>amount := t_value t, bidder := t_sender t,
       endTime := (if extended then t_time t + h_timeBuffer h else endTime (h_auction h))\<rparr>"
    "h_events h' = h_events h @ [AuctionBid n (t_sender t) (t_value t) extended (t_hash t) (t_time t)]
       @ (if extended then [AuctionExtended n (t_time t + h_timeBuffer h)] else [])"
    "h_payments h' = h_payments h @ (if bidder (h_auction h) \<noteq> zero_address then [(bidder (h_auction h), amount (h_auction h))] else [])"
proof -
  define g where "g = h\<lparr>h_balance := h_balance h + v\<rparr>"
  have g: "h_auction g = h_auction h" "h_reservePrice g = h_reservePrice h" "minimum_bid g = minimum_bid h"
    "h_timeBuffer g = h_timeBuffer h" "h_balance g = h_balance h + v" "h_events g = h_events h" "h_payments g = h_payments h"
    by (simp_all add: g_def minimum_bid_def)
  define e where "e = (endTime (h_auction h) - t_time t < h_timeBuffer h)"
  obtain g1 where g1: "(if bidder (h_auction g) \<noteq> zero_address then safeTransferETHWithFallback (bidder (h_auction g)) (amount (h_auction g)) g
      else Some g) = Some g1"
    using assms(1) unfolding g_def [symmetric] by (auto simp: createBid_def Let_def split: if_splits option.splits)
  then have "g1 = g\<lparr>h_balance := h_balance g - amount (h_auction g),
      h_payments := h_payments g @ (if bidder (h_auction g) \<noteq> zero_address then [(bidder (h_auction g), amount (h_auction g))] else [])\<rparr>"
    using assms(2) pay_facts g(1) by (auto split: if_splits)
  then show thesis
    using assms g1 unfolding g_def [symmetric]
    by (intro that [of e]) (auto simp: createBid_def Let_def e_def emit_event_def g split: if_splits)
qed

text \<open>The bids an auction house has recorded.\<close>

fun bid_value :: "house_event \<Rightarrow> int" where
  "bid_value (AuctionBid _ _ v _ _ _) = v"
| "bid_value _ = 0"

definition bids_total :: "house \<Rightarrow> int" where
  "bids_total h = sum_list (map bid_value (h_events h))"

definition paid_total :: "house \<Rightarrow> int" where
  "paid_total h = sum_list (map snd (h_payments h))"

definition house_inv :: "int \<Rightarrow> house \<Rightarrow> bool" where
  "house_inv now h = (solvent now h \<and> paid_total h + h_balance h = bids_total h)"

lemma house_inv_mono: "house_inv now h \<Longrightarrow> now \<le> later \<Longrightarrow> house_inv later h"
  by (auto simp: house_inv_def solvent_def)

lemma createBid_inv:
  assumes inv: "house_inv now h" and t: "t_sender t \<noteq> zero_address" "0 \<le> t_value t" "now \<le> t_time t" "0 < t_time t"
    and call: "createBid t n (h\<lparr>h_balance := h_balance h + t_value t\<rparr>) = Some h'"
  shows "house_inv (t_time t) h'"
proof -
  have zero: "bidder (h_auction h) = zero_address \<longrightarrow> amount (h_auction h) = 0"
    using inv by (simp add: house_inv_def solvent_def)
  obtain extended where b:
    "t_time t < endTime (h_auction h)" "h_balance h' = h_balance h + t_value t - amount (h_auction h)"
    "h_auction h' = (h_auction h)\<lparr>amount := t_value t, bidder := t_sender t,
       endTime := (if extended then t_time t + h_timeBuffer h else endTime (h_auction h))\<rparr>"
    "h_events h' = h_events h @ [AuctionBid n (t_sender t) (t_value t) extended (t_hash t) (t_time t)]
       @ (if extended then [AuctionExtended n (t_time t + h_timeBuffer h)] else [])"
    "h_payments h' = h_payments h @ (if bidder (h_auction h) \<noteq> zero_address then [(bidder (h_auction h), amount (h_auction h))] else [])"
    by (rule createBid_cases [OF call zero])
  have "\<not> settled (h_auction h)" "startTime (h_auction h) \<noteq> 0" using inv b(1) t(3,4) by (auto simp: house_inv_def solvent_def)
  then show ?thesis
    using inv t by (cases extended; cases "bidder (h_auction h) = zero_address")
      (simp_all add: b(2-5) house_inv_def solvent_def escrow_def bids_total_def paid_total_def)
qed

lemma createAuction_inv:
  assumes "house_inv now h" "settled (h_auction h) \<or> startTime (h_auction h) = 0" "0 < t_time t" "createAuction t h = Some h'"
  shows "house_inv now h'"
  using assms
  by (auto simp: createAuction_def house_inv_def solvent_def escrow_def bids_total_def paid_total_def emit_event_def Let_def
      split: mint_result.splits if_splits)

lemma settle_inv:
  assumes "house_inv now h" "now \<le> t_time t" "settle t h = Some h'"
  shows "house_inv (t_time t) h'" "settled (h_auction h')"
  using assms
  by (auto simp: settle_def house_inv_def solvent_def escrow_def bids_total_def paid_total_def emit_event_def Let_def
      safeTransferETHWithFallback_def split: if_splits)

lemma transact_inv:
  assumes inv: "house_inv now h" and ok: "house_tx_ok p" and time: "now \<le> t_time (fst p)"
  shows "house_inv (t_time (fst p)) (house_transact p h)"
proof (cases "house_call (fst p) (snd p) h")
  case None
  then show ?thesis using house_inv_mono [OF inv time] by (simp add: house_transact_def)
next
  case (Some h')
  let ?t = "fst p"
  have t: "t_sender ?t \<noteq> zero_address" "0 \<le> t_value ?t" "0 < t_time ?t" using ok by (simp_all add: house_tx_ok_def)
  have later: "house_inv (t_time ?t) h" by (rule house_inv_mono [OF inv time])
  have "house_inv (t_time ?t) h'"
  proof (cases "snd p")
    case (CreateBid n)
    then show ?thesis using Some createBid_inv [OF inv t(1,2) time t(3)] by (simp add: house_call_def payable_def)
  next
    case SettleCurrentAndCreateNewAuction
    then obtain h1 where "settle ?t h = Some h1" "createAuction ?t h1 = Some h'"
      using Some by (auto simp: house_call_def payable_def bind_eq_Some_conv split: if_splits)
    then show ?thesis using settle_inv [OF inv time] createAuction_inv t(3) by blast
  next
    case SettleAuction
    then show ?thesis using Some settle_inv(1) [OF inv time] by (auto simp: house_call_def payable_def split: if_splits)
  next
    case Pause
    then show ?thesis using Some later
      by (auto simp: house_call_def payable_def house_inv_def solvent_def escrow_def bids_total_def paid_total_def split: if_splits)
  next
    case Unpause
    have unpaused: "house_inv (t_time ?t) (h\<lparr>h_paused := False\<rparr>)"
      using later by (simp add: house_inv_def solvent_def escrow_def bids_total_def paid_total_def)
    then show ?thesis using Some Unpause t(3) createAuction_inv [OF unpaused, of ?t h']
      by (auto simp: house_call_def payable_def split: if_splits)
  qed (use Some later in \<open>auto simp: house_call_def payable_def house_inv_def solvent_def escrow_def bids_total_def paid_total_def
      emit_event_def split: if_splits\<close>)
  with Some show ?thesis by (simp add: house_transact_def)
qed

lemma house_run_inv:
  assumes "list_all house_tx_ok txs" "sorted (map (t_time \<circ> fst) txs)" "house_inv now h" "\<forall>p \<in> set txs. now \<le> t_time (fst p)"
  shows "\<exists>later. house_inv later (fold house_transact txs h)"
  using assms
proof (induction txs arbitrary: now h)
  case (Cons p txs)
  have "house_inv (t_time (fst p)) (house_transact p h)" using transact_inv Cons.prems by simp
  from Cons.IH [OF _ _ this] Cons.prems show ?case by simp
qed auto

lemma new_house_inv: "house_inv now (new_house owner timeBuffer reservePrice percentage duration)"
  by (simp add: new_house_def house_inv_def solvent_def no_auction_def escrow_def bids_total_def paid_total_def)


text \<open>An auction of noun 7 with two bids, the second close to the end, settled after a pause; and one call that fails.\<close>

definition example_calls :: "(house_tx \<times> house_function) list" where
  "example_calls =
     (let tx = (\<lambda>sender v time k. \<lparr>t_sender = sender, t_value = v, t_time = time, t_hash = k, t_mint = Minted 7, t_moves = True\<rparr>)
      in [(tx ''dao'' 0 100 ''k0'', Unpause), (tx ''ann'' 10 110 ''k1'', CreateBid 7), (tx ''bob'' 10 120 ''k2'', CreateBid 7),
          (tx ''bob'' 20 145 ''k3'', CreateBid 7), (tx ''dao'' 0 150 ''k4'', Pause), (tx ''ann'' 0 200 ''k5'', SettleAuction)])"

abbreviation example_house :: house where
  "example_house \<equiv> fold house_transact example_calls (new_house ''dao'' 15 5 10 50)"

lemmas house_evaluation = example_calls_def new_house_def no_auction_def house_transact_def house_call_def payable_def
  createBid_def createAuction_def settle_def minimum_bid_def emit_event_def safeTransferETHWithFallback_def zero_address_def

lemma example_run:
  "h_auction example_house = \<lparr>amount = 20, bidder = ''bob'', startTime = 100, endTime = 160, nounId = 7, settled = True\<rparr>"
  "h_balance example_house = 0" "h_payments example_house = [(''ann'', 10), (''dao'', 20)]"
  "h_events example_house = [AuctionCreated 7 100 150, AuctionBid 7 ''ann'' 10 False ''k1'' 110,
     AuctionBid 7 ''bob'' 20 True ''k3'' 145, AuctionExtended 7 160, AuctionSettled 7 ''bob'' 20]"
  by (simp_all add: house_evaluation Let_def)

lemma example_calls_ok: "list_all house_tx_ok example_calls" "sorted (map (t_time \<circ> fst) example_calls)"
  by (simp_all add: example_calls_def house_tx_ok_def zero_address_def Let_def)


section \<open>Following the events\<close>

text \<open>What each event says of the auction.\<close>

fun observe :: "house_event \<Rightarrow> auction \<Rightarrow> auction" where
  "observe (AuctionCreated n s e) a =
     \<lparr>amount = 0, bidder = zero_address, startTime = s, endTime = e, nounId = n, settled = False\<rparr>"
| "observe (AuctionBid n sender v _ _ _) a = a\<lparr>amount := v, bidder := sender\<rparr>"
| "observe (AuctionExtended n e) a = a\<lparr>endTime := e\<rparr>"
| "observe (AuctionSettled n w v) a = a\<lparr>settled := True\<rparr>"
| "observe _ a = a"

fun in_order :: "house_event \<Rightarrow> auction \<Rightarrow> bool" where
  "in_order (AuctionBid n sender v _ _ _) a = (n = nounId a \<and> amount a \<le> v \<and> \<not> settled a)"
| "in_order (AuctionExtended n e) a = (n = nounId a)"
| "in_order (AuctionSettled n w v) a = (n = nounId a \<and> w = bidder a \<and> v = amount a)"
| "in_order _ a = True"

fun consistent :: "house_event list \<Rightarrow> auction \<Rightarrow> bool" where
  "consistent [] a = True"
| "consistent (e # es) a = (in_order e a \<and> consistent es (observe e a))"

lemma consistent_append [simp]: "consistent (xs @ ys) a = (consistent xs a \<and> consistent ys (fold observe xs a))"
  by (induction xs arbitrary: a) auto

definition observed :: "house \<Rightarrow> bool" where
  "observed h = (h_auction h = fold observe (h_events h) no_auction \<and> consistent (h_events h) no_auction
     \<and> 0 \<le> h_minBidIncrementPercentage h)"

lemma createBid_observed:
  assumes "house_inv now h" "observed h" "now \<le> t_time t"
    and call: "createBid t n (h\<lparr>h_balance := h_balance h + v\<rparr>) = Some h'"
  shows "observed h'"
proof -
  have zero: "bidder (h_auction h) = zero_address \<longrightarrow> amount (h_auction h) = 0"
    using assms(1) by (simp add: house_inv_def solvent_def)
  obtain extended where b: "nounId (h_auction h) = n" "t_time t < endTime (h_auction h)" "minimum_bid h \<le> t_value t"
    "h_auction h' = (h_auction h)\<lparr>amount := t_value t, bidder := t_sender t,
       endTime := (if extended then t_time t + h_timeBuffer h else endTime (h_auction h))\<rparr>"
    "h_events h' = h_events h @ [AuctionBid n (t_sender t) (t_value t) extended (t_hash t) (t_time t)]
       @ (if extended then [AuctionExtended n (t_time t + h_timeBuffer h)] else [])"
    by (rule createBid_cases [OF call zero])
  have "\<not> settled (h_auction h)" "0 \<le> amount (h_auction h)" using assms(1,3) b(2) by (auto simp: house_inv_def solvent_def)
  moreover have "amount (h_auction h) \<le> minimum_bid h"
    using assms(2) calculation(2) by (simp add: minimum_bid_def observed_def pos_imp_zdiv_nonneg_iff)
  moreover have "h_minBidIncrementPercentage h' = h_minBidIncrementPercentage h"
    using call by (auto simp: createBid_def Let_def emit_event_def safeTransferETHWithFallback_def split: if_splits option.splits)
  ultimately show ?thesis
    using assms(2) b by (cases extended) (simp_all add: observed_def)
qed

lemma createAuction_observed:
  assumes "observed h" "createAuction t h = Some h'"
  shows "observed h'"
  using assms by (auto simp: createAuction_def observed_def emit_event_def Let_def split: mint_result.splits if_splits)

lemma settle_observed:
  assumes "observed h" "settle t h = Some h'"
  shows "observed h'"
proof -
  have "h_events h' = h_events h @ [AuctionSettled (nounId (h_auction h)) (bidder (h_auction h)) (amount (h_auction h))]"
    "h_auction h' = (h_auction h)\<lparr>settled := True\<rparr>" "h_minBidIncrementPercentage h' = h_minBidIncrementPercentage h"
    using assms(2) by (auto simp: settle_def emit_event_def Let_def safeTransferETHWithFallback_def split: if_splits)
  with assms(1) show ?thesis by (simp add: observed_def)
qed

lemma transact_observed:
  assumes inv: "house_inv now h" and obs: "observed h" and ok: "house_tx_ok p" and time: "now \<le> t_time (fst p)"
  shows "observed (house_transact p h)"
proof (cases "house_call (fst p) (snd p) h")
  case (Some h')
  let ?t = "fst p"
  have "observed h'"
  proof (cases "snd p")
    case (CreateBid n)
    then show ?thesis using Some createBid_observed [OF inv obs time] by (simp add: house_call_def payable_def)
  next
    case SettleCurrentAndCreateNewAuction
    then obtain h1 where "settle ?t h = Some h1" "createAuction ?t h1 = Some h'"
      using Some by (auto simp: house_call_def payable_def bind_eq_Some_conv split: if_splits)
    then show ?thesis using settle_observed [OF obs] createAuction_observed by blast
  next
    case SettleAuction
    then show ?thesis using Some settle_observed [OF obs] by (auto simp: house_call_def payable_def split: if_splits)
  next
    case Unpause
    have "observed (h\<lparr>h_paused := False\<rparr>)" using obs by (simp add: observed_def)
    then show ?thesis using Some Unpause createAuction_observed by (auto simp: house_call_def payable_def split: if_splits)
  next
    case (SetMinBidIncrementPercentage n)
    then show ?thesis using Some obs ok
      by (auto simp: house_call_def payable_def observed_def emit_event_def house_tx_ok_def split: if_splits)
  qed (use Some obs in \<open>auto simp: house_call_def payable_def observed_def emit_event_def split: if_splits\<close>)
  with Some show ?thesis by (simp add: house_transact_def)
qed (simp add: house_transact_def obs)

lemma house_run_observed:
  assumes "list_all house_tx_ok txs" "sorted (map (t_time \<circ> fst) txs)" "house_inv now h" "observed h" "\<forall>p \<in> set txs. now \<le> t_time (fst p)"
  shows "observed (fold house_transact txs h)"
  using assms
proof (induction txs arbitrary: now h)
  case (Cons p txs)
  have "house_inv (t_time (fst p)) (house_transact p h)" "observed (house_transact p h)"
    using transact_inv transact_observed Cons.prems by simp_all
  from Cons.IH [OF _ _ this] Cons.prems show ?case by simp
qed simp

section \<open>The site\<close>

fun is_bid :: "house_event \<Rightarrow> bool" where
  "is_bid (AuctionBid _ _ _ _ _ _) = True"
| "is_bid _ = False"

fun bid_of :: "house_event \<Rightarrow> bid_event list" where
  "bid_of (AuctionBid n s v x k t) =
     [\<lparr>b_nounId = n, b_sender = s, b_value = v, b_extended = x, b_transactionHash = k, b_timestamp = t\<rparr>]"
| "bid_of _ = []"

definition bids_of :: "house_event list \<Rightarrow> bid_event list" where
  "bids_of es = concat (map bid_of es)"

text \<open>The listeners of \<open>ChainSubscriber\<close>, and what it does when the page is loaded.\<close>

fun process_event :: "house_event \<Rightarrow> auction_state \<Rightarrow> auction_state" where
  "process_event (AuctionCreated n s e) st = setActiveAuction \<lparr>cr_nounId = n, cr_startTime = s, cr_endTime = e\<rparr> st"
| "process_event (AuctionBid n s v x k t) st =
     appendBid (reduxSafeBid \<lparr>b_nounId = n, b_sender = s, b_value = v, b_extended = x, b_transactionHash = k, b_timestamp = t\<rparr>) st"
| "process_event (AuctionExtended n e) st = setAuctionExtended \<lparr>ex_nounId = n, ex_endTime = e\<rparr> st"
| "process_event (AuctionSettled n w v) st = setAuctionSettled \<lparr>se_nounId = n, se_winner = w, se_amount = v\<rparr> st"
| "process_event _ st = st"

definition display_event :: "house_event \<Rightarrow> on_display_state \<Rightarrow> on_display_state" where
  "display_event e d =
     (case e of AuctionCreated n _ _ \<Rightarrow> setLastAuctionNounId n (setOnDisplayAuctionNounId n d) | _ \<Rightarrow> d)"

definition loadState :: "auction \<Rightarrow> bid_event list \<Rightarrow> auction_state \<times> on_display_state \<Rightarrow> auction_state \<times> on_display_state" where
  "loadState currentAuction previousBids p =
     (fold (\<lambda>b. appendBid (reduxSafeBid b)) previousBids (setFullAuction (reduxSafeAuction currentAuction) (fst p)),
      setLastAuctionNounId (nounId currentAuction) (snd p))"

definition calm :: "house_event \<Rightarrow> bool" where
  "calm e = (case e of AuctionCreated _ _ _ \<Rightarrow> False | _ \<Rightarrow> True)"

lemma observe_others:
  "endTime (fold observe es a) = endTime (fold observe (filter (\<lambda>e. \<not> is_bid e) es) a)
   \<and> settled (fold observe es a) = settled (fold observe (filter (\<lambda>e. \<not> is_bid e) es) a)" if "list_all calm es"
proof -
  have "endTime (fold observe es a) = endTime (fold observe (filter (\<lambda>e. \<not> is_bid e) es) b)
   \<and> settled (fold observe es a) = settled (fold observe (filter (\<lambda>e. \<not> is_bid e) es) b)"
    if "list_all calm es" "endTime a = endTime b" "settled a = settled b" for a b
    using that
  proof (induction es arbitrary: a b)
    case (Cons e es)
    then show ?case by (cases e) (auto simp: calm_def)
  qed simp
  with that show ?thesis by blast
qed

lemma observe_frame:
  assumes "list_all calm es"
  shows "nounId (fold observe es a) = nounId a" "startTime (fold observe es a) = startTime a"
  using assms
proof (induction es arbitrary: a)
  case (Cons e es)
  { case 1 with Cons.IH(1) show ?case by (cases e) (auto simp: calm_def) }
  { case 2 with Cons.IH(2) show ?case by (cases e) (auto simp: calm_def) }
qed simp_all

lemma settled_final:
  assumes "list_all calm es" "consistent es a" "settled a"
  shows "amount (fold observe es a) = amount a \<and> bidder (fold observe es a) = bidder a"
  using assms
proof (induction es arbitrary: a)
  case (Cons e es)
  then show ?case by (cases e) (auto simp: calm_def)
qed simp

lemma observed_bids:
  assumes "list_all calm es" "consistent es a"
  shows "amount a \<le> amount (fold observe es a) \<and> (\<forall>b \<in> set (bids_of es). b_nounId b = nounId a \<and> b_value b \<le> amount (fold observe es a))
    \<and> (if bids_of es = [] then amount (fold observe es a) = amount a \<and> bidder (fold observe es a) = bidder a
       else \<exists>b \<in> set (bids_of es). amount (fold observe es a) = b_value b \<and> bidder (fold observe es a) = b_sender b)
    \<and> (\<forall>n w v. AuctionSettled n w v \<in> set es \<longrightarrow> w = bidder (fold observe es a) \<and> v = amount (fold observe es a))
    \<and> (\<forall>e \<in> set es. \<forall>n t. e = AuctionExtended n t \<longrightarrow> n = nounId a) \<and> (\<forall>n w v. AuctionSettled n w v \<in> set es \<longrightarrow> n = nounId a)"
  using assms
proof (induction es arbitrary: a)
  case (Cons e es)
  have calm: "list_all calm es" "calm e" and ok: "in_order e a" "consistent es (observe e a)" using Cons.prems by simp_all
  note ih = Cons.IH [OF calm(1) ok(2)]
  show ?case
  proof (cases e)
    case (AuctionBid n s v x k t)
    then show ?thesis using ih ok(1) by (auto simp: bids_of_def split: if_splits)
  next
    case (AuctionSettled n w v)
    have "amount (fold observe es (observe e a)) = amount a \<and> bidder (fold observe es (observe e a)) = bidder a"
      using settled_final [OF calm(1) ok(2)] AuctionSettled by simp
    then show ?thesis using ih ok(1) AuctionSettled by (auto simp: bids_of_def split: if_splits)
  qed (use ih ok(1) calm(2) in \<open>auto simp: bids_of_def calm_def split: if_splits\<close>)
qed (simp add: bids_of_def)


lemma bids_of_simps [simp]:
  "bids_of [] = []" "bids_of (e # es) = bid_of e @ bids_of es" "bids_of (es @ fs) = bids_of es @ bids_of fs"
  by (simp_all add: bids_of_def)

text \<open>The auction of the slice after the events \<open>L\<close> of one auction, in the order they were delivered; \<open>w\<close> and \<open>v\<close>
  are the winner and the price that the settlement announces.\<close>

definition follows :: "auction \<Rightarrow> string \<Rightarrow> int \<Rightarrow> house_event list \<Rightarrow> auction_state \<Rightarrow> bool" where
  "follows a0 w v L st =
     (\<exists>a. activeAuction st = Some a \<and> nounId a = nounId a0 \<and> startTime a = startTime a0
        \<and> endTime a = endTime (fold observe L a0) \<and> settled a = settled (fold observe L a0) \<and> a_bids st = rev (bids_of L)
        \<and> (if bids_of L = [] \<and> \<not> settled a then amount a = 0 \<and> bidder a = ''''
           else (\<exists>m. maxBid (rev (bids_of L)) = Some m \<and> amount a = b_value m \<and> bidder a = b_sender m)
             \<or> (settled a \<and> amount a = v \<and> bidder a = w)))"

definition belongs :: "int \<Rightarrow> string \<Rightarrow> int \<Rightarrow> house_event \<Rightarrow> bool" where
  "belongs n w v e =
     (case e of AuctionCreated _ _ _ \<Rightarrow> False
      | AuctionBid k _ _ _ _ _ \<Rightarrow> k = n
      | AuctionExtended k _ \<Rightarrow> k = n
      | AuctionSettled k w' v' \<Rightarrow> k = n \<and> w' = w \<and> v' = v
      | _ \<Rightarrow> True)"

lemma follows_step:
  assumes st: "follows a0 w v L st" and e: "belongs (nounId a0) w v e"
    and new: "distinct (map b_transactionHash (bids_of L @ bid_of e))"
  shows "follows a0 w v (L @ [e]) (process_event e st)"
proof -
  obtain a where a: "activeAuction st = Some a" "nounId a = nounId a0" "startTime a = startTime a0"
      "endTime a = endTime (fold observe L a0)" "settled a = settled (fold observe L a0)" "a_bids st = rev (bids_of L)"
      "if bids_of L = [] \<and> \<not> settled a then amount a = 0 \<and> bidder a = ''''
       else (\<exists>m. maxBid (rev (bids_of L)) = Some m \<and> amount a = b_value m \<and> bidder a = b_sender m)
         \<or> (settled a \<and> amount a = v \<and> bidder a = w)"
    using st unfolding follows_def by blast
  show ?thesis
  proof (cases e)
    case (AuctionBid n s x extended k t)
    obtain b where b: "bid_of e = [b]" "b_nounId b = nounId a0" "process_event e st = appendBid b st"
      using AuctionBid e by (auto simp: belongs_def)
    have fresh: "\<not> containsBid (a_bids st) b" using new b(1) a(6) by (auto simp: containsBid_def)
    obtain m where m: "maxBid (b # rev (bids_of L)) = Some m" by simp
    have "appendBid b st = st\<lparr>a_bids := b # rev (bids_of L), activeAuction := Some (a\<lparr>amount := b_value m, bidder := b_sender m\<rparr>)\<rparr>"
      using a(1,2,6) b(2) fresh m by (simp add: appendBid_def Let_def del: maxBid.simps)
    then show ?thesis using a b m AuctionBid by (simp add: follows_def del: maxBid.simps)
  next
    case (AuctionSettled n w' v')
    then show ?thesis using a e by (simp add: follows_def belongs_def setAuctionSettled_def del: maxBid.simps)
  next
    case (AuctionExtended n t)
    then show ?thesis using a e by (auto simp: follows_def belongs_def setAuctionExtended_def simp del: maxBid.simps split: if_splits)
  qed (use a e in \<open>auto simp: follows_def belongs_def simp del: maxBid.simps split: if_splits\<close>)
qed

lemma follows_run:
  assumes "follows a0 w v [] st" "\<forall>e \<in> set L. belongs (nounId a0) w v e" "distinct (map b_transactionHash (bids_of L))"
  shows "follows a0 w v L (fold process_event L st)"
  using assms
proof (induction L rule: rev_induct)
  case (snoc e L)
  then have "follows a0 w v L (fold process_event L st)" by simp
  from follows_step [OF this] snoc.prems show ?case by simp
qed simp


lemma mset_bids_of: "mset (filter is_bid xs) = mset (filter is_bid ys) \<Longrightarrow> mset (bids_of xs) = mset (bids_of ys)"
proof -
  have "mset (bids_of es) = sum_mset (image_mset (mset \<circ> bid_of) (mset (filter is_bid es)))" for es
  proof (induction es)
    case (Cons e es)
    then show ?case by (cases e) auto
  qed simp
  then show "mset (filter is_bid xs) = mset (filter is_bid ys) \<Longrightarrow> mset (bids_of xs) = mset (bids_of ys)" by simp
qed

text \<open>The listeners wait for the block of a bid before they record it, so bids may be recorded late and in any order; the
  other events are recorded as they come.\<close>

definition delivery :: "house_event list \<Rightarrow> house_event list \<Rightarrow> bool" where
  "delivery es acts =
     (filter (\<lambda>e. \<not> is_bid e) acts = filter (\<lambda>e. \<not> is_bid e) es \<and> mset (filter is_bid acts) = mset (filter is_bid es))"

lemma delivery_set:
  assumes "delivery es acts"
  shows "set acts = set es"
proof -
  have "set xs = set (filter (\<lambda>e. \<not> is_bid e) xs) \<union> set (filter is_bid xs)" for xs by auto
  then show ?thesis using assms unfolding delivery_def by (metis set_mset_mset)
qed

lemma delivered_bids:
  assumes "delivery es acts"
  shows "mset (bids_of acts) = mset (bids_of es)" "set (bids_of acts) = set (bids_of es)"
proof -
  show "mset (bids_of acts) = mset (bids_of es)" by (rule mset_bids_of) (use assms in \<open>simp add: delivery_def\<close>)
  from arg_cong [OF this, of set_mset] show "set (bids_of acts) = set (bids_of es)" by simp
qed

lemma max_bid_unique:
  assumes m: "maxBid xs = Some m" and set: "set xs = set bs" and "distinct (map b_value bs)"
    and b: "b \<in> set bs" "\<forall>b' \<in> set bs. b_value b' \<le> b_value b"
  shows "m = b"
proof -
  have "m \<in> set bs" "b_value b \<le> b_value m" using maxBid_max [OF m] b(1) unfolding set by simp_all
  moreover from this b(2) have "b_value m = b_value b" by force
  ultimately show ?thesis using assms(3) b(1) by (auto simp: distinct_map inj_on_def)
qed

text \<open>What the page shows of an auction without bids: no bidder at all, until it is settled.\<close>

definition shown_auction :: "house_event list \<Rightarrow> auction \<Rightarrow> auction" where
  "shown_auction es a = (if bids_of es = [] \<and> \<not> settled a then a\<lparr>bidder := ''''\<rparr> else a)"

lemma site_after_delivery:
  assumes ok: "list_all calm es" "consistent es a0" and a0: "amount a0 = 0" "bidder a0 = zero_address"
    and del: "delivery es acts" and keys: "distinct (map b_transactionHash (bids_of es))" "distinct (map b_value (bids_of es))"
    and st: "follows a0 (bidder (fold observe es a0)) (amount (fold observe es a0)) [] st"
  shows "activeAuction (fold process_event acts st) = Some (shown_auction es (fold observe es a0))"
proof -
  define h where "h = fold observe es a0"
  note facts = observed_bids [OF ok, folded h_def]
  have "belongs (nounId a0) (bidder h) (amount h) e" if e: "e \<in> set es" for e
  proof (cases e)
    case (AuctionCreated n s t)
    then show ?thesis using e ok(1) by (fastforce simp: list_all_iff calm_def)
  next
    case (AuctionBid n s v x k t)
    then have "\<lparr>b_nounId = n, b_sender = s, b_value = v, b_extended = x, b_transactionHash = k, b_timestamp = t\<rparr> \<in> set (bids_of es)"
      using e by (force simp: bids_of_def)
    then show ?thesis using facts AuctionBid by (force simp: belongs_def)
  next
    case (AuctionExtended n t)
    then show ?thesis using e facts by (simp add: belongs_def)
  next
    case (AuctionSettled n w v)
    then have "AuctionSettled n w v \<in> set es" using e by simp
    then show ?thesis using facts AuctionSettled by (simp add: belongs_def) blast
  qed (simp_all add: belongs_def)
  then have "\<forall>e \<in> set acts. belongs (nounId a0) (bidder h) (amount h) e" using delivery_set [OF del] by blast
  moreover have "distinct (map b_transactionHash (bids_of acts))"
    using keys(1) delivered_bids(1) [OF del] by (metis mset_eq_imp_distinct_iff mset_map)
  ultimately obtain a where a: "activeAuction (fold process_event acts st) = Some a" "nounId a = nounId a0" "startTime a = startTime a0"
      "endTime a = endTime (fold observe acts a0)" "settled a = settled (fold observe acts a0)"
      "if bids_of acts = [] \<and> \<not> settled a then amount a = 0 \<and> bidder a = ''''
       else (\<exists>m. maxBid (rev (bids_of acts)) = Some m \<and> amount a = b_value m \<and> bidder a = b_sender m)
         \<or> (settled a \<and> amount a = amount h \<and> bidder a = bidder h)"
    using follows_run st unfolding follows_def h_def by blast
  have calm: "list_all calm acts" using ok(1) delivery_set [OF del] by (simp add: list_all_iff)
  have "filter (\<lambda>e. \<not> is_bid e) acts = filter (\<lambda>e. \<not> is_bid e) es" using del by (simp add: delivery_def)
  then have same: "endTime a = endTime h" "settled a = settled h" "nounId a = nounId h" "startTime a = startTime h"
    using observe_others [OF calm, of a0] observe_others [OF ok(1), of a0] observe_frame [OF ok(1), of a0] a by (simp_all add: h_def)
  have empty: "bids_of acts = [] \<longleftrightarrow> bids_of es = []" using delivered_bids(2) [OF del] by (metis set_empty2)
  have top: "amount a = amount h \<and> bidder a = bidder h" if "\<not> (bids_of es = [] \<and> \<not> settled h)"
  proof (cases "bids_of es = []")
    case False
    then obtain b where b: "b \<in> set (bids_of es)" "\<forall>b' \<in> set (bids_of es). b_value b' \<le> b_value b"
      "amount h = b_value b" "bidder h = b_sender b" using facts by auto
    show ?thesis using a(6) False empty b(3,4) max_bid_unique [OF _ _ keys(2) b(1,2)] delivered_bids(2) [OF del] by force
  qed (use a(6) that same empty in simp)
  have "amount h = 0" if "bids_of es = []" using facts that a0 by simp
  then have "a = shown_auction es h"
    using top same a(6) empty by (cases a; cases h) (auto simp: shown_auction_def)
  then show ?thesis using a(1) by (simp add: h_def)
qed

text \<open>C9. The page follows the auction house.  Whatever was called before, when an auction is created while the page
  listens, then after any further calls, with the bids delivered in any order and as late as they like, the page shows
  the auction as the contract stores it; only an auction that has no bid and is not settled has an empty bidder on the
  page.  The bids are in different transactions and of different values.\<close>

theorem site_follows_auction_house:
  assumes "list_all house_tx_ok txs" "sorted (map (t_time \<circ> fst) txs)"
    and "h = fold house_transact txs (new_house owner timeBuffer reservePrice percentage duration)"
    and "0 \<le> percentage" and "h_events h = before @ AuctionCreated n s e # es" "list_all calm es" "delivery es acts"
    and "distinct (map b_transactionHash (bids_of es))" "distinct (map b_value (bids_of es))"
  shows "activeAuction (fold process_event acts (process_event (AuctionCreated n s e) st))
    = Some (if bids_of es = [] \<and> \<not> settled (h_auction h) then (h_auction h)\<lparr>bidder := ''''\<rparr> else h_auction h)"
proof -
  define a0 where "a0 = observe (AuctionCreated n s e) no_auction"
  have "\<forall>p \<in> set txs. 0 \<le> t_time (fst p)" using assms(1) by (auto simp: list_all_iff house_tx_ok_def less_imp_le)
  then have "observed h"
    using house_run_observed [OF assms(1,2) new_house_inv [of 0]] assms(3,4) by (simp add: observed_def new_house_def)
  then have h: "h_auction h = fold observe es a0" and ok: "consistent es a0"
    using assms(5) by (simp_all add: observed_def a0_def)
  have "follows a0 w v [] (process_event (AuctionCreated n s e) st)" for w v
    by (simp add: follows_def a0_def setActiveAuction_def reduxSafeNewAuction_def)
  from site_after_delivery [OF assms(6) ok _ _ assms(7,8,9) this] show ?thesis
    by (simp add: h shown_auction_def a0_def)
qed


theorem site_follows_auction_house_witness:
  "activeAuction (fold process_event
     [AuctionExtended 7 160, AuctionBid 7 ''bob'' 20 True ''k3'' 145, AuctionSettled 7 ''bob'' 20, AuctionBid 7 ''ann'' 10 False ''k1'' 110]
     (process_event (AuctionCreated 7 100 150) initial_auction_state)) = Some (h_auction example_house)"
  using site_follows_auction_house [OF example_calls_ok refl, of 10 "''dao''" 15 5 50 "[]" 7 100 150
      "[AuctionBid 7 ''ann'' 10 False ''k1'' 110, AuctionBid 7 ''bob'' 20 True ''k3'' 145, AuctionExtended 7 160, AuctionSettled 7 ''bob'' 20]"
      "[AuctionExtended 7 160, AuctionBid 7 ''bob'' 20 True ''k3'' 145, AuctionSettled 7 ''bob'' 20, AuctionBid 7 ''ann'' 10 False ''k1'' 110]"
      initial_auction_state]
  by (simp add: example_run calm_def delivery_def)

end
