(* ===== verification/Web_Bid.thy ===== *)
theory Web_Bid imports Auction_House begin

text \<open>
  The bid form of the auction page (\<open>components/Bid\<close>), the button that settles an auction by hand
  (\<open>components/SettleManuallyBtn\<close>) and the clock of \<open>components/AuctionActivity\<close>, and what the contract does with the bids
  the form sends.  A \<open>BigNumber\<close> of wei is an \<open>int\<close>; \<open>parseEther\<close> of the package ethers is a parameter (\<open>None\<close>
  when it throws), as is the gas estimate.
\<close>

section \<open>Amounts\<close>

definition ceil_div :: "int \<Rightarrow> int \<Rightarrow> int" where
  "ceil_div n k = - ((- n) div k)"

text \<open>The product with \<open>1 + percentage / 100\<close> is exact, and is rounded up.\<close>

definition computeMinimumNextBid :: "int \<Rightarrow> int option \<Rightarrow> int" where
  "computeMinimumNextBid bid percentage =
     (case percentage of None \<Rightarrow> 0 | Some p \<Rightarrow> ceil_div (bid * (p + 100)) 100)"

definition pad2 :: "nat \<Rightarrow> string" where
  "pad2 n = padStart 2 CHR ''0'' (nat_to_string n)"

text \<open>\<open>toFixed(2)\<close> of a nonnegative number of hundredths.\<close>

definition fixed2 :: "int \<Rightarrow> string" where
  "fixed2 n = nat_to_string (nat n div 100) @ ''.'' @ pad2 (nat n mod 100)"

text \<open>Throws (\<open>None\<close>) where ethers does not read the number.\<close>

definition minBidEth :: "int \<Rightarrow> string option" where
  "minBidEth minBid =
     (if minBid = 0 then Some ''0.01'' else map_option (\<lambda>n. fixed2 (ceil_div n (10 ^ 16))) (ethers_number minBid))"

lemma ceil_div_bounds:
  assumes "0 < k"
  shows "n \<le> ceil_div n k * k" "ceil_div n k * k < n + k"
proof -
  have "(- n) div k * k + (- n) mod k = - n" by (rule div_mult_mod_eq)
  moreover have "0 \<le> (- n) mod k" "(- n) mod k < k" using assms by simp_all
  ultimately show "n \<le> ceil_div n k * k" "ceil_div n k * k < n + k"
    unfolding ceil_div_def mult_minus_left by linarith+
qed

lemma site_minimum:
  assumes "0 \<le> amount (h_auction h)"
  shows "minimum_bid h \<le> computeMinimumNextBid (amount (h_auction h)) (Some (h_minBidIncrementPercentage h))
    \<and> computeMinimumNextBid (amount (h_auction h)) (Some (h_minBidIncrementPercentage h)) \<le> minimum_bid h + 1"
proof -
  define x where "x = amount (h_auction h) * h_minBidIncrementPercentage h"
  have "x div 100 * 100 \<le> x" "x < x div 100 * 100 + 100"
    using div_mult_mod_eq [of x 100] by (simp_all add: add.commute)
  then show ?thesis
    using ceil_div_bounds [of 100 "amount (h_auction h) * 100 + x"]
    by (simp add: minimum_bid_def computeMinimumNextBid_def x_def distrib_left add.commute)
qed


section \<open>The form\<close>

datatype button = PlaceBid | BidButton | Settle | SettleAuctionButton | Empty

datatype bid_notice = InsufficientBid string | BidPlaced | AuctionWasSettled | TransactionFailed "string option" | TransactionError "string option"

datatype bid_status = NotSent | Mining | Success | Fail | Exception

text \<open>The state \<open>bidInput\<close>, and the value the input field holds; a render puts the one into the other.\<close>

record bid_form =
  bidInput :: string
  inputValue :: string
  buttonLoading :: bool
  buttonContent :: button
  bidModal :: "bid_notice option"
  placeBidStatus :: bid_status
  settleStatus :: bid_status
  bidsSent :: "(int \<times> int \<times> int) list"

definition new_bid_form :: "bool \<Rightarrow> bid_form" where
  "new_bid_form auctionEnded =
     \<lparr>bidInput = '''', inputValue = '''', buttonLoading = False, buttonContent = (if auctionEnded then Settle else PlaceBid),
      bidModal = None, placeBidStatus = NotSent, settleStatus = NotSent, bidsSent = []\<rparr>"

definition render_input :: "bid_form \<Rightarrow> bid_form" where
  "render_input f = f\<lparr>inputValue := bidInput f\<rparr>"

text \<open>\<open>split('.')[1]\<close>: what stands between the first and the second dot.\<close>

definition decimals :: "string \<Rightarrow> string" where
  "decimals s = takeWhile (\<lambda>c. c \<noteq> CHR ''.'') (drop 1 (dropWhile (\<lambda>c. c \<noteq> CHR ''.'') s))"

definition bidInputHandler :: "string \<Rightarrow> bid_form \<Rightarrow> bid_form" where
  "bidInputHandler s f =
     (if CHR ''.'' \<in> set s \<and> 2 < length (decimals s) then f else f\<lparr>bidInput := s\<rparr>)"

text \<open>A handler throws (\<open>None\<close>) where \<open>parseEther\<close> does.\<close>

definition currentBid :: "(string \<Rightarrow> int option) \<Rightarrow> bid_form \<Rightarrow> int option" where
  "currentBid parseEther f = (if inputValue f = '''' then Some 0 else parseEther (inputValue f))"

definition placeBidHandler ::
    "(string \<Rightarrow> int option) \<Rightarrow> (int \<Rightarrow> int \<Rightarrow> int option) \<Rightarrow> int option \<Rightarrow> auction option \<Rightarrow> bid_form \<Rightarrow> bid_form option" where
  "placeBidHandler parseEther estimateGas percentage shown f =
     (case shown of
        None \<Rightarrow> Some f
      | Some a \<Rightarrow>
          if inputValue f = '''' then Some f
          else let minBid = computeMinimumNextBid (amount a) percentage
               in case currentBid parseEther f of
                    None \<Rightarrow> None
                  | Some v \<Rightarrow>
                      if v < minBid
                      then map_option (\<lambda>s. f\<lparr>bidModal := Some (InsufficientBid s), bidInput := s\<rparr>) (minBidEth minBid)
                      else (case estimateGas (nounId a) v of
                              None \<Rightarrow> None
                            | Some gasLimit \<Rightarrow> Some (f\<lparr>bidsSent := bidsSent f @ [(nounId a, v, gasLimit + 10000)]\<rparr>)))"

text \<open>The effects that run when the auction, the account or the state of a transaction changes.\<close>

definition successEffect :: "(string \<Rightarrow> int option) \<Rightarrow> string option \<Rightarrow> auction \<Rightarrow> bid_form \<Rightarrow> bid_form option" where
  "successEffect parseEther account a f =
     (case account of
        None \<Rightarrow> Some f
      | Some me \<Rightarrow>
          (case currentBid parseEther f of
             None \<Rightarrow> None
           | Some v \<Rightarrow>
               if placeBidStatus f = Mining \<and> bidder a = me \<and> v = amount a
               then Some (f\<lparr>placeBidStatus := Success, bidModal := Some BidPlaced, buttonLoading := False,
                            buttonContent := PlaceBid, inputValue := ''''\<rparr>)
               else Some f))"

definition placeBidEffect :: "bool \<Rightarrow> string option \<Rightarrow> bid_form \<Rightarrow> bid_form" where
  "placeBidEffect auctionEnded errorMessage f =
     (if auctionEnded then f
      else case placeBidStatus f of
             NotSent \<Rightarrow> f\<lparr>buttonLoading := False, buttonContent := PlaceBid\<rparr>
           | Mining \<Rightarrow> f\<lparr>buttonLoading := True, buttonContent := Empty\<rparr>
           | Fail \<Rightarrow> f\<lparr>bidModal := Some (TransactionFailed errorMessage), buttonLoading := False, buttonContent := BidButton\<rparr>
           | Exception \<Rightarrow> f\<lparr>bidModal := Some (TransactionError errorMessage), buttonLoading := False, buttonContent := BidButton\<rparr>
           | Success \<Rightarrow> f)"

definition settleEffect :: "bool \<Rightarrow> string option \<Rightarrow> bid_form \<Rightarrow> bid_form" where
  "settleEffect auctionEnded errorMessage f =
     (if \<not> auctionEnded then f
      else case settleStatus f of
             NotSent \<Rightarrow> f\<lparr>buttonLoading := False, buttonContent := SettleAuctionButton\<rparr>
           | Mining \<Rightarrow> f\<lparr>buttonLoading := True, buttonContent := Empty\<rparr>
           | Success \<Rightarrow> f\<lparr>bidModal := Some AuctionWasSettled, buttonLoading := False, buttonContent := SettleAuctionButton\<rparr>
           | Fail \<Rightarrow> f\<lparr>bidModal := Some (TransactionFailed errorMessage), buttonLoading := False, buttonContent := SettleAuctionButton\<rparr>
           | Exception \<Rightarrow> f\<lparr>bidModal := Some (TransactionError errorMessage), buttonLoading := False, buttonContent := SettleAuctionButton\<rparr>)"

text \<open>Whether the form renders: an empty field shows the minimum.\<close>

definition bidFormRenders :: "bool \<Rightarrow> int \<Rightarrow> bid_form \<Rightarrow> bool" where
  "bidFormRenders auctionEnded minBid f = (\<not> auctionEnded \<and> bidInput f = '''' \<longrightarrow> minBidEth minBid \<noteq> None)"

definition bidDisabled :: "string option \<Rightarrow> bid_form \<Rightarrow> bool" where
  "bidDisabled activeAccount f = (placeBidStatus f = Mining \<or> settleStatus f = Mining \<or> activeAccount = None)"

section \<open>Clocks\<close>

record settle_button =
  settleEnabled :: bool
  auctionTimer :: int

definition settleTimer :: "int \<Rightarrow> int \<Rightarrow> auction \<Rightarrow> settle_button \<Rightarrow> settle_button \<times> bool" where
  "settleTimer chainId now a b =
     (if chainId \<noteq> 1 then (b\<lparr>settleEnabled := True, auctionTimer := 0\<rparr>, False)
      else let timeLeft = 5 * 60 - (now - endTime a)
           in if timeLeft \<le> 0 then (b\<lparr>settleEnabled := True, auctionTimer := 0\<rparr>, False)
              else (b\<lparr>auctionTimer := timeLeft\<rparr>, True))"

definition settleMinutes :: "settle_button \<Rightarrow> int" where
  "settleMinutes b = (let mins = auctionTimer b mod 3600 div 60 in if mins \<noteq> 0 then mins + 1 else 1)"

text \<open>Whether the auction has ended, and after how many milliseconds the page looks again.\<close>

definition auctionClock :: "int \<Rightarrow> auction option \<Rightarrow> bool \<Rightarrow> bool \<times> int option" where
  "auctionClock now shown ended =
     (case shown of
        None \<Rightarrow> (ended, None)
      | Some a \<Rightarrow>
          let timeLeft = endTime a - now
          in if timeLeft \<le> 0 then (True, None) else (False, Some (if timeLeft > 300 then 30000 else 1000)))"

section \<open>The bids of the form are bids of the contract\<close>

lemma createBid_accepts:
  assumes "n = nounId (h_auction h)" "t_time t < endTime (h_auction h)" "h_reservePrice h \<le> t_value t" "minimum_bid h \<le> t_value t"
    and "uint256 (amount (h_auction h) * h_minBidIncrementPercentage h)" "uint256 (t_value t)" "uint256 (t_time t + h_timeBuffer h)"
    and "amount (h_auction h) \<le> h_balance h + t_value t"
  shows "\<exists>h'. house_call t (CreateBid n) h = Some h' \<and> amount (h_auction h') = t_value t \<and> bidder (h_auction h') = t_sender t"
proof -
  have "uint256 (minimum_bid h)" using assms(4,6) by linarith
  then show ?thesis
    using assms by (auto simp: house_call_def payable_def createBid_def Let_def minimum_bid_def safeTransferETHWithFallback_def emit_event_def)
qed


lemma handler_sends:
  assumes "placeBidHandler parseEther estimateGas percentage (Some a) f = Some f'" "bidsSent f' \<noteq> bidsSent f"
  obtains v gas where "parseEther (inputValue f) = Some v" "computeMinimumNextBid (amount a) percentage \<le> v" "inputValue f \<noteq> ''''"
    "estimateGas (nounId a) v = Some gas" "bidsSent f' = bidsSent f @ [(nounId a, v, gas + 10000)]"
  using assms by (auto simp: placeBidHandler_def currentBid_def Let_def split: option.splits if_splits)

text \<open>C35. A bid that the form sends is a bid the contract takes.  When the form shows the contract's auction and its
  percentage, any bid it sends for that auction is accepted, and recorded with its value and sender, as long as the
  auction is running, the bid reaches the reserve price and the numbers fit in a word.\<close>

theorem sent_bid_accepted:
  assumes "list_all house_tx_ok txs" "sorted (map (t_time \<circ> fst) txs)"
    and "h = fold house_transact txs (new_house owner timeBuffer reservePrice pct duration)"
    and "placeBidHandler parseEther estimateGas (Some (h_minBidIncrementPercentage h)) (Some (h_auction h)) f = Some f'"
    and "bidsSent f' = bidsSent f @ [(n, t_value t, gas)]"
    and "t_time t < endTime (h_auction h)" "h_reservePrice h \<le> t_value t" "0 \<le> t_value t"
    and "uint256 (amount (h_auction h) * h_minBidIncrementPercentage h)" "uint256 (t_value t)" "uint256 (t_time t + h_timeBuffer h)"
    and "\<not> settled (h_auction h)"
  shows "\<exists>h'. house_call t (CreateBid n) h = Some h' \<and> amount (h_auction h') = t_value t \<and> bidder (h_auction h') = t_sender t"
proof -
  have "\<forall>p \<in> set txs. 0 \<le> t_time (fst p)" using assms(1) by (auto simp: list_all_iff house_tx_ok_def less_imp_le)
  from house_run_inv [OF assms(1,2) new_house_inv this] obtain later where "house_inv later h" using assms(3) by blast
  then have inv: "0 \<le> amount (h_auction h)" "amount (h_auction h) \<le> h_balance h + t_value t"
    using assms(8,12) by (simp_all add: house_inv_def solvent_def escrow_def)
  have n: "n = nounId (h_auction h)" and "computeMinimumNextBid (amount (h_auction h)) (Some (h_minBidIncrementPercentage h)) \<le> t_value t"
    using handler_sends [OF assms(4)] assms(5) by auto
  then have "minimum_bid h \<le> t_value t" using site_minimum [OF inv(1)] by linarith
  from createBid_accepts [OF n assms(6,7) this assms(9,10,11) inv(2)] show ?thesis .
qed

lemma suggestion_covers:
  "0 < m \<Longrightarrow> m \<le> ceil_div m (10 ^ 16) * 10 ^ 16"
  using ceil_div_bounds(1) [of "10 ^ 16" m] by simp

text \<open>A bid that is too low is corrected.  The form refuses to send it, says so and puts its own suggestion, the
  minimum rounded up to a hundredth of an ETH, into the field; pressing the button again sends a bid of at least the
  minimum and less than a hundredth above it.  \<open>parseEther\<close> reads back the suggestion, which the form can make below
  a thousand ETH.\<close>

theorem low_bid_corrected:
  assumes "inputValue f \<noteq> ''''" "parseEther (inputValue f) = Some v" "minBid = computeMinimumNextBid (amount a) percentage"
    and "0 \<le> v" "v < minBid" "minBidEth minBid = Some s" "parseEther s = Some (ceil_div minBid (10 ^ 16) * 10 ^ 16)"
    and "\<And>w. estimateGas (nounId a) w = Some gas"
  shows "\<exists>f1 f2 w. placeBidHandler parseEther estimateGas percentage (Some a) f = Some f1
    \<and> bidsSent f1 = bidsSent f \<and> bidModal f1 = Some (InsufficientBid s)
    \<and> placeBidHandler parseEther estimateGas percentage (Some a) (render_input f1) = Some f2
    \<and> bidsSent f2 = bidsSent f @ [(nounId a, w, gas + 10000)] \<and> minBid \<le> w \<and> w < minBid + 10 ^ 16"
proof -
  define f1 where "f1 = f\<lparr>bidModal := Some (InsufficientBid s), bidInput := s\<rparr>"
  define w where "w = ceil_div minBid (10 ^ 16) * 10 ^ 16"
  have pos: "0 < minBid" using assms(4,5) by simp
  have w: "minBid \<le> w" "w < minBid + 10 ^ 16"
    using ceil_div_bounds [of "10 ^ 16" minBid] by (simp_all add: w_def)
  have "s \<noteq> ''''" using assms(6) by (auto simp: minBidEth_def fixed2_def split: if_splits)
  then have "placeBidHandler parseEther estimateGas percentage (Some a) (render_input f1) =
      Some ((render_input f1)\<lparr>bidsSent := bidsSent f @ [(nounId a, w, gas + 10000)]\<rparr>)"
    using assms(3,7,8) w(1) by (simp add: placeBidHandler_def currentBid_def Let_def render_input_def f1_def w_def)
  moreover have "placeBidHandler parseEther estimateGas percentage (Some a) f = Some f1"
    using assms by (simp add: placeBidHandler_def currentBid_def Let_def f1_def)
  ultimately show ?thesis using w by (auto simp: f1_def)
qed

text \<open>The button comes back when a bid is known to have failed, or is seen as the auction's current bid; a status of
  success that arrives otherwise leaves it loading.\<close>

lemma bid_button_released:
  assumes "placeBidStatus f \<noteq> Mining" "placeBidStatus f \<noteq> Success"
  shows "\<not> buttonLoading (placeBidEffect False err f)"
  using assms by (cases "placeBidStatus f") (simp_all add: placeBidEffect_def)

lemma bid_button_released_on_success:
  assumes "placeBidStatus f = Mining" "bidder a = me" "currentBid parseEther f = Some (amount a)"
  shows "\<exists>f'. successEffect parseEther (Some me) a f = Some f' \<and> \<not> buttonLoading f' \<and> \<not> bidDisabled (Some me) (f'\<lparr>settleStatus := NotSent\<rparr>)"
  using assms by (simp add: successEffect_def bidDisabled_def)


lemma unseen_success_keeps_loading:
  "placeBidStatus f = Success \<Longrightarrow> buttonLoading (placeBidEffect False err f) = buttonLoading f"
  by (simp add: placeBidEffect_def)

text \<open>An auction above a thousand ETH breaks the form.\<close>

lemma form_breaks: "10 ^ 21 \<le> minBid \<Longrightarrow> bidInput f = '''' \<Longrightarrow> \<not> bidFormRenders False minBid f"
  by (simp add: bidFormRenders_def minBidEth_def ethers_number_def)

section \<open>Examples\<close>

abbreviation running_house :: house where
  "running_house \<equiv> fold house_transact (take 2 example_calls) (new_house ''dao'' 15 5 10 50)"

lemma running_house:
  "h_auction running_house = \<lparr>amount = 10, bidder = ''ann'', startTime = 100, endTime = 150, nounId = 7, settled = False\<rparr>"
  "h_minBidIncrementPercentage running_house = 10" "h_reservePrice running_house = 5" "h_timeBuffer running_house = 15"
  by (simp_all add: house_evaluation Let_def)

lemma running_calls_ok: "list_all house_tx_ok (take 2 example_calls)" "sorted (map (t_time \<circ> fst) (take 2 example_calls))"
  by (simp_all add: example_calls_def house_tx_ok_def zero_address_def Let_def)

abbreviation typed_form :: bid_form where
  "typed_form \<equiv> (new_bid_form False)\<lparr>bidInput := ''1'', inputValue := ''1''\<rparr>"

theorem sent_bid_accepted_witness:
  "\<exists>h'. house_call \<lparr>t_sender = ''cat'', t_value = 11, t_time = 140, t_hash = ''k'', t_mint = MintError, t_moves = True\<rparr> (CreateBid 7)
      running_house = Some h' \<and> amount (h_auction h') = 11 \<and> bidder (h_auction h') = ''cat''"
  using sent_bid_accepted [OF running_calls_ok refl, of "\<lambda>_. Some 11" "\<lambda>_ _. Some 0" "''dao''" 15 5 10 50 typed_form
      "typed_form\<lparr>bidsSent := [(7, 11, 10000)]\<rparr>" 7
      "\<lparr>t_sender = ''cat'', t_value = 11, t_time = 140, t_hash = ''k'', t_mint = MintError, t_moves = True\<rparr>" 10000]
  unfolding running_house by (simp add: placeBidHandler_def currentBid_def computeMinimumNextBid_def ceil_div_def new_bid_form_def)

lemma suggestion_of_11: "minBidEth 11 = Some ''0.01''"
  by (simp add: minBidEth_def ethers_number_def ceil_div_def fixed2_def pad2_def padStart_def nat_to_string_def to_radix_def digits.simps hex_digit_def char_of_def bit_0)

theorem low_bid_corrected_witness:
  "\<exists>f1 f2 w. placeBidHandler (\<lambda>s. Some (if s = ''1'' then 5 else 10 ^ 16)) (\<lambda>_ _. Some 0) (Some 10) (Some (h_auction running_house)) typed_form = Some f1
    \<and> bidsSent f1 = bidsSent typed_form \<and> bidModal f1 = Some (InsufficientBid (''0.01''))
    \<and> placeBidHandler (\<lambda>s. Some (if s = ''1'' then 5 else 10 ^ 16)) (\<lambda>_ _. Some 0) (Some 10) (Some (h_auction running_house)) (render_input f1) = Some f2
    \<and> bidsSent f2 = bidsSent typed_form @ [(7, w, 10000)] \<and> 11 \<le> w \<and> w < 11 + 10 ^ 16"
  using low_bid_corrected [of typed_form "\<lambda>s. Some (if s = ''1'' then 5 else 10 ^ 16)" 5 11 "h_auction running_house" "Some 10" "''0.01''"
      "\<lambda>_ _. Some 0" 0]
  unfolding running_house suggestion_of_11 by (simp add: computeMinimumNextBid_def ceil_div_def)

end
