(* ===== verification/Market_Contract.thy ===== *)
theory Market_Contract imports Composables_Wrapper begin

text \<open>
  The market of the Composables, \<open>composables/market/ComposablesMarket.sol\<close>: listings of items, their sale, and the
  balances of the sellers.  A contract of items is outside the market and may be anyone's: what its \<open>owner\<close>,
  \<open>minter\<close> and \<open>mint\<close> answer during a call is part of the transaction.  Arithmetic is checked.
\<close>

section \<open>State\<close>

record listing =
  l_seller :: string
  l_tokenAddress :: string
  l_tokenId :: int
  l_price :: int
  l_quantity :: int
  l_filled :: int
  l_maxPerAddress :: int
  l_completed :: bool
  l_deleted :: bool

datatype market_event =
    ListingCreated int string string int int int int
  | ListingFilled int string string int string int int
  | ListingDeleted int
  | ListingFeeUpdated int

text \<open>The listings are numbered from zero on, so that the mapping is a list and its length the next number.\<close>

record market =
  m_address :: string
  m_owner :: string
  m_paused :: bool
  m_eth :: int
  m_listings :: "listing list"
  m_tokenListings :: "string \<times> int \<Rightarrow> nat list"
  m_perAddressCount :: "nat \<times> string \<Rightarrow> int"
  m_balances :: "string \<Rightarrow> int"
  m_listingFee :: int
  m_events :: "market_event list"

definition new_market :: "string \<Rightarrow> string \<Rightarrow> market" where
  "new_market this owner =
     \<lparr>m_address = this, m_owner = owner, m_paused = False, m_eth = 0, m_listings = [], m_tokenListings = (\<lambda>_. []),
      m_perAddressCount = (\<lambda>_. 0), m_balances = (\<lambda>_. 0), m_listingFee = 500, m_events = []\<rparr>"

record market_tx =
  x_sender :: string
  x_value :: int
  x_owner :: "string \<Rightarrow> string option"
  x_minter :: "string \<Rightarrow> string option"
  x_mints :: "string \<Rightarrow> int \<Rightarrow> int \<Rightarrow> bool"
  x_pays :: bool

definition emit_market :: "market_event \<Rightarrow> market \<Rightarrow> market" where
  "emit_market e m = m\<lparr>m_events := m_events m @ [e]\<rparr>"

abbreviation word256 :: "int \<Rightarrow> bool" where
  "word256 n \<equiv> n < 2 ^ 256"

abbreviation word64 :: "int \<Rightarrow> bool" where
  "word64 n \<equiv> n < 2 ^ 64"

section \<open>Listings\<close>

definition is_collection_owner :: "market_tx \<Rightarrow> string \<Rightarrow> market \<Rightarrow> bool" where
  "is_collection_owner t addr m = (x_owner t addr = Some (x_sender t) \<and> x_minter t addr = Some (m_address m))"

definition create_listing :: "market_tx \<Rightarrow> string \<Rightarrow> int \<Rightarrow> int \<Rightarrow> int \<Rightarrow> int \<Rightarrow> market \<Rightarrow> market option" where
  "create_listing t addr tokenId price quantity maxPerAddress m =
     (let previous = m_tokenListings m (addr, tokenId); listingId = length (m_listings m)
      in if \<not> is_collection_owner t addr m then None
         else if previous \<noteq> [] \<and> \<not> l_deleted (m_listings m ! last previous) then None
         else Some (emit_market (ListingCreated (int listingId) (x_sender t) addr tokenId price quantity maxPerAddress)
                (m\<lparr>m_listings := m_listings m @ [\<lparr>l_seller = x_sender t, l_tokenAddress = addr, l_tokenId = tokenId,
                     l_price = price, l_quantity = quantity, l_filled = 0, l_maxPerAddress = maxPerAddress,
                     l_completed = False, l_deleted = False\<rparr>],
                   m_tokenListings := (m_tokenListings m)((addr, tokenId) := previous @ [listingId])\<rparr>)))"

text \<open>The arrays of the batch are read up to the length of the first; a shorter one makes the call revert.\<close>

fun create_listings :: "market_tx \<Rightarrow> string list \<Rightarrow> int list \<Rightarrow> int list \<Rightarrow> int list \<Rightarrow> int list \<Rightarrow> market \<Rightarrow> market option" where
  "create_listings t [] ids prices quantities maxs m = Some m"
| "create_listings t (a # as) (i # ids) (p # prices) (q # quantities) (x # maxs) m =
     Option.bind (create_listing t a i p q x m) (create_listings t as ids prices quantities maxs)"
| "create_listings t (a # as) _ _ _ _ m = None"

text \<open>A number without listing has the zero address as its token, which has no code to call.\<close>

definition delete_listing :: "market_tx \<Rightarrow> nat \<Rightarrow> market \<Rightarrow> market option" where
  "delete_listing t listingId m =
     (if length (m_listings m) \<le> listingId then None
      else let l = m_listings m ! listingId
           in if \<not> is_collection_owner t (l_tokenAddress l) m then None
              else if l_deleted l then None
              else Some (emit_market (ListingDeleted (int listingId))
                     (m\<lparr>m_listings := (m_listings m)[listingId := l\<lparr>l_deleted := True\<rparr>]\<rparr>)))"

section \<open>Sales\<close>

definition fill_counts :: "market_tx \<Rightarrow> nat \<Rightarrow> int \<Rightarrow> listing \<Rightarrow> market \<Rightarrow> market option" where
  "fill_counts t listingId q l m =
     (if l_maxPerAddress l > 0
      then let n = q + m_perAddressCount m (listingId, x_sender t)
           in if \<not> word64 n \<or> l_maxPerAddress l < n then None
              else Some (m\<lparr>m_perAddressCount := (m_perAddressCount m)((listingId, x_sender t) := n)\<rparr>)
      else Some m)"

definition fill_supply :: "int \<Rightarrow> listing \<Rightarrow> listing option" where
  "fill_supply q l =
     (if l_quantity l > 0
      then let remaining = l_quantity l - l_filled l
           in if remaining < 0 \<or> remaining < q then None
              else if \<not> word64 (l_filled l + q) then None
              else Some (l\<lparr>l_completed := (l_completed l \<or> remaining - q = 0), l_filled := l_filled l + q\<rparr>)
      else if \<not> word64 (l_filled l + q) then None
      else Some (l\<lparr>l_filled := l_filled l + q\<rparr>))"

definition add_balance :: "string \<Rightarrow> int \<Rightarrow> market \<Rightarrow> market option" where
  "add_balance who n m =
     (if word256 (m_balances m who + n) then Some (m\<lparr>m_balances := (m_balances m)(who := m_balances m who + n)\<rparr>) else None)"

definition fill_balances :: "int \<Rightarrow> listing \<Rightarrow> market \<Rightarrow> market option" where
  "fill_balances q l m =
     (if l_price l > 0
      then let total = l_price l * q; fee = m_listingFee m
           in if 10000 < fee \<or> \<not> word256 (total * (10000 - fee)) \<or> \<not> word256 (total * fee) then None
              else Option.bind (add_balance (l_seller l) (total * (10000 - fee) div 10000) m)
                     (add_balance (m_owner m) (total * fee div 10000))
      else Some m)"

definition fill_listing :: "market_tx \<Rightarrow> nat \<Rightarrow> int \<Rightarrow> market \<Rightarrow> market option" where
  "fill_listing t listingId q m =
     (if length (m_listings m) \<le> listingId then None
      else let l = m_listings m ! listingId
           in if \<not> word256 (l_price l * q) \<or> x_value t \<noteq> l_price l * q then None
              else if l_deleted l \<or> l_completed l then None
              else (case fill_supply q l of
                      None \<Rightarrow> None
                    | Some l' \<Rightarrow>
                        Option.bind (fill_counts t listingId q l m) (\<lambda>m1.
                        Option.bind (fill_balances q l (m1\<lparr>m_listings := (m_listings m1)[listingId := l']\<rparr>)) (\<lambda>m2.
                        if \<not> x_mints t (l_tokenAddress l) (l_tokenId l) q then None
                        else Some (emit_market (ListingFilled (int listingId) (x_sender t) (l_tokenAddress l) (l_tokenId l)
                                (l_seller l) (l_price l) q) m2)))))"

text \<open>Every sale of a batch is compared with the whole value of the call.\<close>

fun fill_listings :: "market_tx \<Rightarrow> nat list \<Rightarrow> int list \<Rightarrow> market \<Rightarrow> market option" where
  "fill_listings t [] qs m = Some m"
| "fill_listings t (i # is) (q # qs) m = Option.bind (fill_listing t i q m) (fill_listings t is qs)"
| "fill_listings t (i # is) [] m = None"

definition withdraw :: "market_tx \<Rightarrow> string \<Rightarrow> int \<Rightarrow> market \<Rightarrow> market option" where
  "withdraw t to_address n m =
     (if m_balances m (x_sender t) < n then None
      else if m_eth m < n \<or> \<not> x_pays t then None
      else Some (m\<lparr>m_balances := (m_balances m)(x_sender t := m_balances m (x_sender t) - n), m_eth := m_eth m - n\<rparr>))"

datatype market_function =
    CreateListing string int int int int
  | CreateListingBatch "string list" "int list" "int list" "int list" "int list"
  | DeleteListing nat
  | DeleteListingBatch "nat list"
  | FillListing nat int
  | FillListingBatch "nat list" "int list"
  | Withdraw string int
  | SetListingFee int
  | MarketPause
  | MarketUnpause

fun market_perform :: "market_tx \<Rightarrow> market_function \<Rightarrow> market \<Rightarrow> market option" where
  "market_perform t (CreateListing a i p q x) m = create_listing t a i p q x m"
| "market_perform t (CreateListingBatch as ids prices quantities maxs) m = create_listings t as ids prices quantities maxs m"
| "market_perform t (DeleteListing i) m = delete_listing t i m"
| "market_perform t (DeleteListingBatch is) m = each (delete_listing t) is m"
| "market_perform t (FillListing i q) m = (if m_paused m then None else fill_listing t i q m)"
| "market_perform t (FillListingBatch is qs) m = (if m_paused m then None else fill_listings t is qs m)"
| "market_perform t (Withdraw to_address n) m = (if m_paused m then None else withdraw t to_address n m)"
| "market_perform t (SetListingFee n) m =
     (if x_sender t = m_owner m then Some (emit_market (ListingFeeUpdated n) (m\<lparr>m_listingFee := n\<rparr>)) else None)"
| "market_perform t MarketPause m = (if x_sender t = m_owner m \<and> \<not> m_paused m then Some (m\<lparr>m_paused := True\<rparr>) else None)"
| "market_perform t MarketUnpause m = (if x_sender t = m_owner m \<and> m_paused m then Some (m\<lparr>m_paused := False\<rparr>) else None)"

definition market_payable :: "market_function \<Rightarrow> bool" where
  "market_payable f = (case f of FillListing _ _ \<Rightarrow> True | FillListingBatch _ _ \<Rightarrow> True | _ \<Rightarrow> False)"

definition market_call :: "market_tx \<Rightarrow> market_function \<Rightarrow> market \<Rightarrow> market option" where
  "market_call t f m =
     (if x_value t \<noteq> 0 \<and> \<not> market_payable f then None else market_perform t f (m\<lparr>m_eth := m_eth m + x_value t\<rparr>))"

definition market_transact :: "market_tx \<times> market_function \<Rightarrow> market \<Rightarrow> market" where
  "market_transact p m = (case market_call (fst p) (snd p) m of None \<Rightarrow> m | Some m' \<Rightarrow> m')"


section \<open>Runs\<close>

text \<open>Values and unsigned arguments are not negative.\<close>

fun market_args_ok :: "market_function \<Rightarrow> bool" where
  "market_args_ok (CreateListing a i p q x) = (0 \<le> p \<and> 0 \<le> q)"
| "market_args_ok (CreateListingBatch as ids prices quantities maxs) = (list_all (\<lambda>p. 0 \<le> p) prices \<and> list_all (\<lambda>q. 0 \<le> q) quantities)"
| "market_args_ok (FillListing i q) = (0 \<le> q)"
| "market_args_ok (FillListingBatch is qs) = list_all (\<lambda>q. 0 \<le> q) qs"
| "market_args_ok (Withdraw to_address n) = (0 \<le> n)"
| "market_args_ok (SetListingFee n) = (0 \<le> n)"
| "market_args_ok _ = True"

definition market_ok :: "market_tx \<times> market_function \<Rightarrow> bool" where
  "market_ok p = (0 \<le> x_value (fst p) \<and> market_args_ok (snd p))"

text \<open>What every single step keeps, every call keeps, batches included.\<close>

locale market_invariant =
  fixes inv :: "market \<Rightarrow> bool"
  assumes create: "inv m \<Longrightarrow> 0 \<le> p \<Longrightarrow> 0 \<le> q \<Longrightarrow> create_listing t a i p q x m = Some m' \<Longrightarrow> inv m'"
    and delete: "inv m \<Longrightarrow> delete_listing t k m = Some m' \<Longrightarrow> inv m'"
    and fill: "inv m \<Longrightarrow> 0 \<le> q \<Longrightarrow> fill_listing t k q m = Some m' \<Longrightarrow> inv m'"
    and books: "inv m \<Longrightarrow> inv (m\<lparr>m_balances := b, m_eth := e, m_paused := u\<rparr>)"
    and fee: "inv m \<Longrightarrow> inv (emit_market (ListingFeeUpdated n) (m\<lparr>m_listingFee := n\<rparr>))"
begin

lemma creates:
  assumes "create_listings t as ids ps qs xs m = Some m'" "inv m" "list_all (\<lambda>p. 0 \<le> p) ps" "list_all (\<lambda>q. 0 \<le> q) qs"
  shows "inv m'"
  using assms
  by (induction t as ids ps qs xs m rule: create_listings.induct) (auto simp: bind_eq_Some_conv intro: create)

lemma fills:
  assumes "fill_listings t is qs m = Some m'" "inv m" "list_all (\<lambda>q. 0 \<le> q) qs"
  shows "inv m'"
  using assms by (induction t "is" qs m rule: fill_listings.induct) (auto simp: bind_eq_Some_conv intro: fill)

lemma some_books:
  "inv m \<Longrightarrow> inv (m\<lparr>m_balances := b, m_eth := e\<rparr>)" "inv m \<Longrightarrow> inv (m\<lparr>m_eth := e\<rparr>)" "inv m \<Longrightarrow> inv (m\<lparr>m_paused := u\<rparr>)"
  using books [of m, where u = "m_paused m" and b = b and e = e] books [of m, where u = "m_paused m" and b = "m_balances m" and e = e]
    books [of m, where u = u and b = "m_balances m" and e = "m_eth m"]
  by simp_all

lemma transact:
  assumes "inv m" "market_ok p"
  shows "inv (market_transact p m)"
proof (cases "market_call (fst p) (snd p) m")
  case None
  then show ?thesis using assms by (simp add: market_transact_def)
next
  case (Some m')
  let ?m = "m\<lparr>m_eth := m_eth m + x_value (fst p)\<rparr>"
  have perform: "market_perform (fst p) (snd p) ?m = Some m'"
    using Some by (simp add: market_call_def split: if_splits)
  have start: "inv ?m" using assms(1) by (rule some_books)
  have "inv m'"
  proof (cases "snd p")
    case (CreateListing a i p q x)
    then show ?thesis using perform start assms(2) by (auto simp: market_ok_def intro: create)
  next
    case (CreateListingBatch as ids ps qs xs)
    then show ?thesis using perform start assms(2) by (auto simp: market_ok_def intro: creates)
  next
    case (DeleteListing k)
    then show ?thesis using perform start by (auto intro: delete)
  next
    case (DeleteListingBatch ks)
    then have "each (delete_listing (fst p)) ks ?m = Some m'" using perform by simp
    then show ?thesis using start by (rule each_preserves) (rule delete)
  next
    case (FillListing k q)
    then show ?thesis using perform start assms(2) by (auto simp: market_ok_def split: if_splits intro: fill)
  next
    case (FillListingBatch ks qs)
    then show ?thesis using perform start assms(2) by (auto simp: market_ok_def split: if_splits intro: fills)
  next
    case (Withdraw to_address n)
    then have "m' = ?m\<lparr>m_balances := m_balances m', m_eth := m_eth m'\<rparr>"
      using perform by (auto simp: withdraw_def split: if_splits)
    then show ?thesis using some_books(1) [OF start] by metis
  next
    case (SetListingFee n)
    then show ?thesis using perform start fee by (auto split: if_splits)
  qed (use perform start some_books(3) in \<open>auto split: if_splits\<close>)
  with Some show ?thesis by (simp add: market_transact_def)
qed

lemma run:
  assumes "inv m" "list_all market_ok ps"
  shows "inv (fold market_transact ps m)"
  using assms by (induction ps arbitrary: m) (auto intro: transact)

end

section \<open>Supply\<close>

lemma create_effect:
  assumes "create_listing t a i p q x m = Some m'"
  shows "is_collection_owner t a m"
    "m_tokenListings m (a, i) = [] \<or> l_deleted (m_listings m ! last (m_tokenListings m (a, i)))"
    "m' = m\<lparr>m_listings := m_listings m @ [\<lparr>l_seller = x_sender t, l_tokenAddress = a, l_tokenId = i,
       l_price = p, l_quantity = q, l_filled = 0, l_maxPerAddress = x, l_completed = False, l_deleted = False\<rparr>],
       m_tokenListings := (m_tokenListings m)((a, i) := m_tokenListings m (a, i) @ [length (m_listings m)]),
       m_events := m_events m @ [ListingCreated (int (length (m_listings m))) (x_sender t) a i p q x]\<rparr>"
  using assms by (auto simp: create_listing_def emit_market_def Let_def split: if_splits)

lemma delete_effect:
  assumes "delete_listing t k m = Some m'"
  shows "k < length (m_listings m)" "is_collection_owner t (l_tokenAddress (m_listings m ! k)) m" "\<not> l_deleted (m_listings m ! k)"
    "m' = m\<lparr>m_listings := (m_listings m)[k := (m_listings m ! k)\<lparr>l_deleted := True\<rparr>], m_events := m_events m @ [ListingDeleted (int k)]\<rparr>"
  using assms by (auto simp: delete_listing_def emit_market_def Let_def split: if_splits)

lemma add_balance_effect:
  assumes "add_balance who n m = Some m'"
  shows "m' = m\<lparr>m_balances := (m_balances m)(who := m_balances m who + n)\<rparr>"
  using assms by (simp add: add_balance_def split: if_splits)

lemma fill_balances_effect:
  assumes "fill_balances q l m = Some m'"
  shows "m' = m\<lparr>m_balances := m_balances m'\<rparr>"
  using assms by (auto simp: fill_balances_def Let_def bind_eq_Some_conv dest!: add_balance_effect split: if_splits)

lemma fill_counts_effect:
  assumes "fill_counts t k q l m = Some m'"
  shows "m' = m\<lparr>m_perAddressCount := m_perAddressCount m'\<rparr>"
  using assms by (auto simp: fill_counts_def Let_def split: if_splits)

lemma fill_supply_effect:
  assumes "fill_supply q l = Some l'" "\<not> l_completed l"
  shows "l' = l\<lparr>l_filled := l_filled l + q, l_completed := (0 < l_quantity l \<and> l_quantity l = l_filled l + q)\<rparr>"
    "0 < l_quantity l \<longrightarrow> l_filled l + q \<le> l_quantity l"
  using assms by (auto simp: fill_supply_def Let_def diff_eq_eq add.commute split: if_splits)

lemma fill_effect:
  assumes "fill_listing t k q m = Some m'"
  defines "l \<equiv> m_listings m ! k"
  shows "k < length (m_listings m)" "x_value t = l_price l * q" "\<not> l_deleted l" "\<not> l_completed l"
    "0 < l_quantity l \<longrightarrow> l_filled l + q \<le> l_quantity l"
    "m' = m\<lparr>m_listings := (m_listings m)[k := l\<lparr>l_filled := l_filled l + q,
         l_completed := (0 < l_quantity l \<and> l_quantity l = l_filled l + q)\<rparr>],
       m_perAddressCount := m_perAddressCount m', m_balances := m_balances m',
       m_events := m_events m @ [ListingFilled (int k) (x_sender t) (l_tokenAddress l) (l_tokenId l) (l_seller l) (l_price l) q]\<rparr>"
proof -
  obtain l' m1 m2 where steps: "fill_supply q l = Some l'" "fill_counts t k q l m = Some m1"
      "fill_balances q l (m1\<lparr>m_listings := (m_listings m1)[k := l']\<rparr>) = Some m2"
    and m': "m' = emit_market (ListingFilled (int k) (x_sender t) (l_tokenAddress l) (l_tokenId l) (l_seller l) (l_price l) q) m2"
    and guards: "k < length (m_listings m)" "x_value t = l_price l * q" "\<not> l_deleted l" "\<not> l_completed l"
    using assms by (auto simp: fill_listing_def Let_def bind_eq_Some_conv split: if_splits option.splits)
  show "k < length (m_listings m)" "x_value t = l_price l * q" "\<not> l_deleted l" "\<not> l_completed l" by (fact guards)+
  note l' = fill_supply_effect [OF steps(1) guards(4)]
  show "0 < l_quantity l \<longrightarrow> l_filled l + q \<le> l_quantity l" by (fact l'(2))
  obtain c where m1: "m1 = m\<lparr>m_perAddressCount := c\<rparr>" using fill_counts_effect [OF steps(2)] by blast
  obtain b where m2: "m2 = m1\<lparr>m_listings := (m_listings m1)[k := l'], m_balances := b\<rparr>" using fill_balances_effect [OF steps(3)] by blast
  show "m' = m\<lparr>m_listings := (m_listings m)[k := l\<lparr>l_filled := l_filled l + q,
         l_completed := (0 < l_quantity l \<and> l_quantity l = l_filled l + q)\<rparr>],
       m_perAddressCount := m_perAddressCount m', m_balances := m_balances m',
       m_events := m_events m @ [ListingFilled (int k) (x_sender t) (l_tokenAddress l) (l_tokenId l) (l_seller l) (l_price l) q]\<rparr>"
    unfolding m' m2 m1 l'(1) by (simp add: emit_market_def)
qed


definition sold :: "int \<Rightarrow> market_event \<Rightarrow> int" where
  "sold k e = (case e of ListingFilled j _ _ _ _ _ q \<Rightarrow> if j = k then q else 0 | _ \<Rightarrow> 0)"

definition sold_total :: "int \<Rightarrow> market \<Rightarrow> int" where
  "sold_total k m = sum_list (map (sold k) (m_events m))"

definition listing_supply :: "listing \<Rightarrow> bool" where
  "listing_supply l =
     (0 \<le> l_price l \<and> 0 \<le> l_quantity l \<and> 0 \<le> l_filled l
      \<and> (if l_quantity l = 0 then \<not> l_completed l
         else l_filled l \<le> l_quantity l \<and> l_completed l = (l_filled l = l_quantity l)))"

definition supply_inv :: "market \<Rightarrow> bool" where
  "supply_inv m =
     ((\<forall>k < length (m_listings m). listing_supply (m_listings m ! k) \<and> l_filled (m_listings m ! k) = sold_total (int k) m)
      \<and> (\<forall>k \<ge> length (m_listings m). sold_total (int k) m = 0))"

lemma sold_total_simps [simp]:
  "sold_total k (m\<lparr>m_listings := ls, m_tokenListings := ids, m_events := es\<rparr>) = sum_list (map (sold k) es)"
  "sold_total k (m\<lparr>m_listings := ls, m_events := es\<rparr>) = sum_list (map (sold k) es)"
  "sold_total k (m\<lparr>m_listings := ls, m_perAddressCount := c, m_balances := b, m_events := es\<rparr>) = sum_list (map (sold k) es)"
  "sold_total k (m\<lparr>m_balances := b, m_eth := n, m_paused := u\<rparr>) = sold_total k m"
  "sold_total k (emit_market (ListingFeeUpdated n) (m\<lparr>m_listingFee := n\<rparr>)) = sold_total k m"
  by (simp_all add: sold_total_def emit_market_def sold_def)

interpretation stock: market_invariant supply_inv
proof unfold_locales
  fix m m' t a i p q x
  assume inv: "supply_inv m" and pos: "0 \<le> p" "0 \<le> q" and step: "create_listing t a i p q x m = Some m'"
  show "supply_inv m'"
    using inv pos unfolding create_effect(3) [OF step]
    by (auto simp: supply_inv_def listing_supply_def nth_append less_Suc_eq sold_total_def sold_def)
next
  fix m m' t k
  assume inv: "supply_inv m" and step: "delete_listing t k m = Some m'"
  show "supply_inv m'"
    using inv delete_effect(1) [OF step] unfolding delete_effect(4) [OF step]
    by (auto simp: supply_inv_def listing_supply_def nth_list_update sold_total_def sold_def)
next
  fix m m' t k and q :: int
  assume inv: "supply_inv m" and pos: "0 \<le> q" and step: "fill_listing t k q m = Some m'"
  note e = fill_effect [OF step]
  have "listing_supply (m_listings m ! k)" using inv e(1) by (simp add: supply_inv_def)
  then show "supply_inv m'"
    using inv pos e(1-5)
    by (subst e(6)) (auto simp: supply_inv_def listing_supply_def nth_list_update sold_total_def sold_def)
qed (simp_all add: supply_inv_def emit_market_def sold_total_def sold_def)

section \<open>One live listing per item\<close>

definition token_of :: "listing \<Rightarrow> string \<times> int" where
  "token_of l = (l_tokenAddress l, l_tokenId l)"

definition created_event :: "nat \<Rightarrow> listing \<Rightarrow> market_event" where
  "created_event k l =
     ListingCreated (int k) (l_seller l) (l_tokenAddress l) (l_tokenId l) (l_price l) (l_quantity l) (l_maxPerAddress l)"

fun is_created :: "market_event \<Rightarrow> bool" where
  "is_created (ListingCreated _ _ _ _ _ _ _) = True"
| "is_created _ = False"

fun deleted_ids :: "market_event list \<Rightarrow> int list" where
  "deleted_ids [] = []"
| "deleted_ids (ListingDeleted k # es) = k # deleted_ids es"
| "deleted_ids (e # es) = deleted_ids es"

lemma deleted_ids_append [simp]: "deleted_ids (xs @ ys) = deleted_ids xs @ deleted_ids ys"
  by (induction xs rule: deleted_ids.induct) auto

definition token_ids :: "listing list \<Rightarrow> string \<times> int \<Rightarrow> nat list" where
  "token_ids ls k = filter (\<lambda>j. token_of (ls ! j) = k) [0..<length ls]"

definition directory_inv :: "market \<Rightarrow> bool" where
  "directory_inv m =
     (m_tokenListings m = token_ids (m_listings m)
      \<and> (\<forall>k < length (m_listings m). \<not> l_deleted (m_listings m ! k) \<longrightarrow> last (token_ids (m_listings m) (token_of (m_listings m ! k))) = k)
      \<and> filter is_created (m_events m) = map (\<lambda>k. created_event k (m_listings m ! k)) [0..<length (m_listings m)]
      \<and> set (deleted_ids (m_events m)) = int ` {k. k < length (m_listings m) \<and> l_deleted (m_listings m ! k)})"

lemma token_ids_append:
  "token_ids (ls @ [l]) k = token_ids ls k @ (if token_of l = k then [length ls] else [])"
proof -
  have "filter (\<lambda>j. token_of ((ls @ [l]) ! j) = k) [0..<length ls] = filter (\<lambda>j. token_of (ls ! j) = k) [0..<length ls]"
    by (rule filter_cong) (simp_all add: nth_append)
  then show ?thesis by (simp add: token_ids_def)
qed

lemma token_ids_update:
  "j < length ls \<Longrightarrow> token_of l = token_of (ls ! j) \<Longrightarrow> token_ids (ls[j := l]) = token_ids ls"
  by (rule ext) (auto simp: token_ids_def nth_list_update intro!: filter_cong)

lemma token_ids_mem: "k \<in> set (token_ids ls t) \<longleftrightarrow> k < length ls \<and> token_of (ls ! k) = t"
  by (auto simp: token_ids_def)

lemma created_unchanged:
  assumes "j < length ls" "created_event j l = created_event j (ls ! j)"
  shows "map (\<lambda>k. created_event k (ls[j := l] ! k)) [0..<length ls] = map (\<lambda>k. created_event k (ls ! k)) [0..<length ls]"
  using assms by (auto simp: nth_list_update)


lemma create_directory:
  assumes inv: "directory_inv m" and step: "create_listing t a i p q x m = Some m'"
  shows "directory_inv m'"
proof -
  note e = create_effect [OF step]
  let ?ls = "m_listings m"
  define l where "l = \<lparr>l_seller = x_sender t, l_tokenAddress = a, l_tokenId = i, l_price = p, l_quantity = q, l_filled = 0,
    l_maxPerAddress = x, l_completed = False, l_deleted = False\<rparr>"
  have l: "token_of l = (a, i)" "\<not> l_deleted l" by (simp_all add: l_def token_of_def)
  have ids: "m_tokenListings m = token_ids ?ls" and live: "\<forall>k < length ?ls. \<not> l_deleted (?ls ! k) \<longrightarrow> last (token_ids ?ls (token_of (?ls ! k))) = k"
    and created: "filter is_created (m_events m) = map (\<lambda>k. created_event k (?ls ! k)) [0..<length ?ls]"
    and deleted: "set (deleted_ids (m_events m)) = int ` {k. k < length ?ls \<and> l_deleted (?ls ! k)}"
    using inv by (simp_all add: directory_inv_def)
  have gone: "l_deleted (?ls ! k)" if k: "k < length ?ls" "token_of (?ls ! k) = (a, i)" for k
  proof (rule ccontr)
    assume alive: "\<not> l_deleted (?ls ! k)"
    then have "last (token_ids ?ls (a, i)) = k" using live k by metis
    moreover have "token_ids ?ls (a, i) \<noteq> []" using k token_ids_mem [of k ?ls "(a, i)"] by auto
    ultimately show False using e(2) ids alive by simp
  qed
  have "last (token_ids (?ls @ [l]) (token_of ((?ls @ [l]) ! k))) = k"
    if k: "k < Suc (length ?ls)" "\<not> l_deleted ((?ls @ [l]) ! k)" for k
  proof (cases "k = length ?ls")
    case False
    then have alive: "k < length ?ls" "\<not> l_deleted (?ls ! k)" using k by (simp_all add: nth_append)
    then have "token_of (?ls ! k) \<noteq> token_of l" using gone l(1) by metis
    then show ?thesis using alive live by (simp add: token_ids_append nth_append)
  qed (simp add: token_ids_append l(1))
  moreover have "map (\<lambda>k. created_event k ((?ls @ [l]) ! k)) [0..<length ?ls] = map (\<lambda>k. created_event k (?ls ! k)) [0..<length ?ls]"
    by (simp add: nth_append)
  moreover have "{k. k < Suc (length ?ls) \<and> l_deleted ((?ls @ [l]) ! k)} = {k. k < length ?ls \<and> l_deleted (?ls ! k)}"
    using l(2) by (auto simp: nth_append less_Suc_eq)
  moreover have "(token_ids ?ls)((a, i) := token_ids ?ls (a, i) @ [length ?ls]) = token_ids (?ls @ [l])"
    using l(1) by (auto simp: token_ids_append)
  moreover have "created_event (length ?ls) l = ListingCreated (int (length ?ls)) (x_sender t) a i p q x"
    by (simp add: created_event_def l_def)
  ultimately show ?thesis
    unfolding e(3) l_def [symmetric] using ids created deleted by (simp add: directory_inv_def)
qed

lemma update_directory:
  assumes inv: "directory_inv m" and k: "k < length (m_listings m)"
    and same: "token_of l = token_of (m_listings m ! k)" "created_event k l = created_event k (m_listings m ! k)"
    and live: "l_deleted (m_listings m ! k) \<longrightarrow> l_deleted l"
    and m': "m_listings m' = (m_listings m)[k := l]" "m_tokenListings m' = m_tokenListings m"
    and es: "m_events m' = m_events m @ es" "filter is_created es = []"
      "set (deleted_ids es) = (if l_deleted l \<and> \<not> l_deleted (m_listings m ! k) then {int k} else {})"
  shows "directory_inv m'"
proof -
  let ?ls = "m_listings m"
  have "int ` {j. j < length ?ls \<and> l_deleted (?ls[k := l] ! j)}
      = int ` {j. j < length ?ls \<and> l_deleted (?ls ! j)} \<union> (if l_deleted l \<and> \<not> l_deleted (?ls ! k) then {int k} else {})"
    using k live by (auto simp: nth_list_update)
  moreover have "last (token_ids ?ls (token_of (?ls[k := l] ! j))) = j"
    if "j < length ?ls" "\<not> l_deleted (?ls[k := l] ! j)" for j
    using that inv k same(1) live by (auto simp: directory_inv_def nth_list_update split: if_splits)
  ultimately show ?thesis
    using inv m' es created_unchanged [OF k same(2)] token_ids_update [OF k same(1)]
    by (simp add: directory_inv_def)
qed

interpretation directory: market_invariant directory_inv
proof unfold_locales
  fix m m' t k
  assume inv: "directory_inv m" and step: "delete_listing t k m = Some m'"
  note e = delete_effect [OF step]
  show "directory_inv m'"
    using inv e(1) by (rule update_directory [where l = "(m_listings m ! k)\<lparr>l_deleted := True\<rparr>" and es = "[ListingDeleted (int k)]"])
      (simp_all add: e(3,4) token_of_def created_event_def)
next
  fix m m' t k and q :: int
  assume inv: "directory_inv m" and step: "fill_listing t k q m = Some m'"
  note e = fill_effect [OF step]
  let ?l = "m_listings m ! k"
  have fields: "m_listings m' = (m_listings m)[k := ?l\<lparr>l_filled := l_filled ?l + q, l_completed := (0 < l_quantity ?l \<and> l_quantity ?l = l_filled ?l + q)\<rparr>]"
    "m_tokenListings m' = m_tokenListings m"
    "m_events m' = m_events m @ [ListingFilled (int k) (x_sender t) (l_tokenAddress ?l) (l_tokenId ?l) (l_seller ?l) (l_price ?l) q]"
    by (subst e(6), simp)+
  show "directory_inv m'"
    using inv e(1)
    by (rule update_directory [where l = "?l\<lparr>l_filled := l_filled ?l + q, l_completed := (0 < l_quantity ?l \<and> l_quantity ?l = l_filled ?l + q)\<rparr>"
          and es = "[ListingFilled (int k) (x_sender t) (l_tokenAddress ?l) (l_tokenId ?l) (l_seller ?l) (l_price ?l) q]"])
      (simp_all add: fields e(3) token_of_def created_event_def)
qed (rule create_directory, assumption, assumption, simp_all add: directory_inv_def emit_market_def)


section \<open>Solvency\<close>

text \<open>The balances \<open>b\<close> of any addresses together are at most \<open>e\<close>.\<close>

definition covers :: "(string \<Rightarrow> int) \<Rightarrow> int \<Rightarrow> bool" where
  "covers b e = ((\<forall>who. 0 \<le> b who) \<and> (\<forall>as. distinct as \<longrightarrow> sum_list (map b as) \<le> e))"

lemma sum_update:
  "distinct as \<Longrightarrow> sum_list (map (b(who := b who + n)) as) = sum_list (map b as) + (if who \<in> set as then n else (0::int))"
  by (induction as) auto

lemma covers_add:
  assumes "covers b e" "0 \<le> n"
  shows "covers (b(who := b who + n)) (e + n)"
proof -
  have "sum_list (map (b(who := b who + n)) as) \<le> e + n" if "distinct as" for as
    using that assms by (force simp: covers_def sum_update simp del: fun_upd_apply)
  then show ?thesis using assms by (simp add: covers_def add_nonneg_nonneg)
qed

lemma covers_subtract:
  assumes "covers b e" "n \<le> b who"
  shows "covers (b(who := b who - n)) (e - n)"
proof -
  have sums: "sum_list (map b as) \<le> e" if "distinct as" for as using assms(1) that by (simp add: covers_def)
  have "sum_list (map (b(who := b who + - n)) as) \<le> e - n" if as: "distinct as" for as
    unfolding sum_update [OF as] using sums [OF as] sums [of "who # as"] as assms(2) by (cases "who \<in> set as") simp_all
  then show ?thesis using assms by (simp add: covers_def)
qed

lemma shares_at_most:
  assumes "0 \<le> (f::int)" "f \<le> 10000" "0 \<le> paid"
  shows "paid * (10000 - f) div 10000 + paid * f div 10000 \<le> paid"
proof -
  have "paid * (10000 - f) div 10000 * 10000 \<le> paid * (10000 - f)" "paid * f div 10000 * 10000 \<le> paid * f"
    using div_mult_mod_eq [of "paid * (10000 - f)" 10000] div_mult_mod_eq [of "paid * f" 10000] by linarith+
  moreover have "paid * (10000 - f) + paid * f = paid * 10000" by (simp add: algebra_simps)
  ultimately show ?thesis by linarith
qed

lemma fill_balances_covers:
  assumes "fill_balances q l m = Some m'" "covers (m_balances m) e" "0 \<le> q" "0 \<le> l_price l" "0 \<le> m_listingFee m"
  shows "covers (m_balances m') (e + l_price l * q)"
proof (cases "0 < l_price l")
  case True
  define paid where "paid = l_price l * q"
  define share where "share = paid * (10000 - m_listingFee m) div 10000"
  define rest where "rest = paid * m_listingFee m div 10000"
  have fee: "m_listingFee m \<le> 10000" and steps: "Option.bind (add_balance (l_seller l) share m) (add_balance (m_owner m) rest) = Some m'"
    using assms(1) True by (auto simp: fill_balances_def Let_def paid_def share_def rest_def split: if_splits)
  obtain m1 where m1: "add_balance (l_seller l) share m = Some m1" "add_balance (m_owner m) rest m1 = Some m'"
    using steps by (auto simp: bind_eq_Some_conv)
  have paid: "0 \<le> paid" using assms(3,4) by (simp add: paid_def)
  have pos: "0 \<le> share" "0 \<le> rest" using paid fee assms(5) by (simp_all add: share_def rest_def pos_imp_zdiv_nonneg_iff)
  have "covers (m_balances m1) (e + share)"
    using covers_add [OF assms(2) pos(1)] by (simp add: add_balance_effect [OF m1(1)])
  then have "covers (m_balances m') (e + share + rest)"
    using covers_add [OF _ pos(2)] by (simp add: add_balance_effect [OF m1(2)])
  moreover have "share + rest \<le> paid" using shares_at_most assms(5) fee paid unfolding share_def rest_def by blast
  ultimately show ?thesis unfolding covers_def paid_def by force
next
  case False
  then show ?thesis using assms by (simp add: fill_balances_def)
qed

lemma fill_covers:
  assumes fill: "fill_listing t k q m = Some m'" and inv: "supply_inv m" "covers (m_balances m) e" "0 \<le> q" "0 \<le> m_listingFee m"
  shows "covers (m_balances m') (e + x_value t)" "m_listingFee m' = m_listingFee m" "m_eth m' = m_eth m"
proof -
  let ?l = "m_listings m ! k"
  note e = fill_effect [OF fill]
  have price: "0 \<le> l_price ?l" using inv(1) e(1) by (simp add: supply_inv_def listing_supply_def)
  obtain l' m1 m2 where steps: "fill_counts t k q ?l m = Some m1"
      "fill_balances q ?l (m1\<lparr>m_listings := (m_listings m1)[k := l']\<rparr>) = Some m2" and m': "m_balances m' = m_balances m2"
    using fill by (auto simp: fill_listing_def Let_def bind_eq_Some_conv emit_market_def split: if_splits option.splits)
  obtain c where m1: "m1 = m\<lparr>m_perAddressCount := c\<rparr>" using fill_counts_effect [OF steps(1)] by blast
  have "covers (m_balances m2) (e + l_price ?l * q)"
    using fill_balances_covers [OF steps(2)] inv(2,3,4) price unfolding m1 by simp
  then show "covers (m_balances m') (e + x_value t)" by (simp add: m' fill_effect(2) [OF fill])
  show "m_listingFee m' = m_listingFee m" "m_eth m' = m_eth m" by (subst e(6), simp)+
qed


text \<open>A batch that pays for at most one sale.\<close>

definition single_sale :: "market_tx \<times> market_function \<Rightarrow> bool" where
  "single_sale p = (case snd p of FillListingBatch is qs \<Rightarrow> length is \<le> 1 \<or> x_value (fst p) = 0 | _ \<Rightarrow> True)"

definition books_inv :: "market \<Rightarrow> bool" where
  "books_inv m = (supply_inv m \<and> covers (m_balances m) (m_eth m) \<and> 0 \<le> m_listingFee m)"

lemma fills_cover:
  assumes "fill_listings t is qs m = Some m'" "supply_inv m" "covers (m_balances m) e" "list_all (\<lambda>q. 0 \<le> q) qs" "0 \<le> m_listingFee m"
  shows "covers (m_balances m') (e + int (length is) * x_value t) \<and> m_listingFee m' = m_listingFee m \<and> m_eth m' = m_eth m"
  using assms
proof (induction t "is" qs m arbitrary: e rule: fill_listings.induct)
  case (2 t i "is" q qs m)
  obtain m1 where m1: "fill_listing t i q m = Some m1" "fill_listings t is qs m1 = Some m'"
    using 2(2) by (auto simp: bind_eq_Some_conv)
  have q: "0 \<le> q" "list_all (\<lambda>q. 0 \<le> q) qs" using 2(5) by simp_all
  note e = fill_covers [OF m1(1) 2(3,4) q(1) 2(6)]
  have "supply_inv m1" using stock.fill [OF 2(3) q(1) m1(1)] .
  from 2(1) [OF m1 this e(1) q(2)] 2(6) e(2,3) show ?case by (simp add: algebra_simps)
qed simp_all

lemma books_keep:
  assumes "books_inv m" "m_listings m' = m_listings m" "m_balances m' = m_balances m" "m_eth m' = m_eth m"
    "0 \<le> m_listingFee m'" "supply_inv m'"
  shows "books_inv m'"
  using assms by (simp add: books_inv_def)

lemma create_frame:
  "create_listing t a i p q x m = Some m' \<Longrightarrow> m_balances m' = m_balances m \<and> m_eth m' = m_eth m \<and> m_listingFee m' = m_listingFee m"
  by (drule create_effect(3)) simp

lemma creates_frame:
  "create_listings t as ids ps qs xs m = Some m' \<Longrightarrow> m_balances m' = m_balances m \<and> m_eth m' = m_eth m \<and> m_listingFee m' = m_listingFee m"
  by (induction t as ids ps qs xs m rule: create_listings.induct) (auto simp: bind_eq_Some_conv dest: create_frame)

lemma delete_frame:
  "delete_listing t k m = Some m' \<Longrightarrow> m_balances m' = m_balances m \<and> m_eth m' = m_eth m \<and> m_listingFee m' = m_listingFee m"
  by (drule delete_effect(4)) simp

lemma deletes_frame:
  assumes "each (delete_listing t) ks m = Some m'"
  shows "m_balances m' = m_balances m \<and> m_eth m' = m_eth m \<and> m_listingFee m' = m_listingFee m"
  using assms
proof (rule each_preserves [where P = "\<lambda>s. m_balances s = m_balances m \<and> m_eth s = m_eth m \<and> m_listingFee s = m_listingFee m"])
  fix k s s'
  assume "m_balances s = m_balances m \<and> m_eth s = m_eth m \<and> m_listingFee s = m_listingFee m" "delete_listing t k s = Some s'"
  then show "m_balances s' = m_balances m \<and> m_eth s' = m_eth m \<and> m_listingFee s' = m_listingFee m" using delete_frame by metis
qed simp

lemma market_books:
  assumes inv: "books_inv m" and ok: "market_ok p" "single_sale p"
  shows "books_inv (market_transact p m)"
proof (cases "market_call (fst p) (snd p) m")
  case (Some m')
  let ?t = "fst p" and ?m = "m\<lparr>m_eth := m_eth m + x_value (fst p)\<rparr>"
  have money: "0 \<le> x_value ?t" using ok(1) by (simp add: market_ok_def)
  have perform: "market_perform ?t (snd p) ?m = Some m'" using Some by (simp add: market_call_def split: if_splits)
  have start: "supply_inv ?m" "covers (m_balances ?m) (m_eth m)" "0 \<le> m_listingFee ?m"
    using inv stock.some_books(2) by (simp_all add: books_inv_def)
  have wider: "covers (m_balances ?m) (m_eth ?m)" using start(2) money by (force simp: covers_def)
  have stays: "books_inv m'"
    if "m_balances m' = m_balances ?m \<and> m_eth m' = m_eth ?m \<and> m_listingFee m' = m_listingFee ?m" "supply_inv m'"
    using that wider start(3) by (simp add: books_inv_def)
  have "supply_inv (market_transact p m)" using stock.transact inv ok(1) by (simp add: books_inv_def)
  then have stocked: "supply_inv m'" using Some by (simp add: market_transact_def)
  have "books_inv m'"
  proof (cases "snd p")
    case (CreateListing a i p q x)
    then show ?thesis using perform by (intro stays stocked) (simp add: create_frame)
  next
    case (CreateListingBatch as ids ps qs xs)
    then show ?thesis using perform by (intro stays stocked) (simp add: creates_frame)
  next
    case (DeleteListing k)
    then show ?thesis using perform by (intro stays stocked) (simp add: delete_frame)
  next
    case (DeleteListingBatch ks)
    then show ?thesis using perform by (intro stays stocked) (simp add: deletes_frame)
  next
    case (FillListing k q)
    then have "fill_listing ?t k q ?m = Some m'" "0 \<le> q" using perform ok(1) by (auto simp: market_ok_def split: if_splits)
    then show ?thesis using fill_covers [OF _ start(1,2) _ start(3)] stocked start(3) by (simp add: books_inv_def)
  next
    case (FillListingBatch ks qs)
    then have fills: "fill_listings ?t ks qs ?m = Some m'" "list_all (\<lambda>q. 0 \<le> q) qs"
      using perform ok(1) by (auto simp: market_ok_def split: if_splits)
    have "int (length ks) * x_value ?t \<le> x_value ?t"
      using ok(2) FillListingBatch money by (auto simp: single_sale_def le_Suc_eq length_Suc_conv)
    then show ?thesis using fills_cover [OF fills(1) start(1,2) fills(2) start(3)] stocked start(3) by (force simp: books_inv_def covers_def)
  next
    case (Withdraw to_address n)
    then have w: "m' = ?m\<lparr>m_balances := (m_balances m)(x_sender ?t := m_balances m (x_sender ?t) - n), m_eth := m_eth ?m - n\<rparr>"
      "n \<le> m_balances m (x_sender ?t)"
      using perform by (auto simp: withdraw_def split: if_splits)
    have "covers (m_balances m') (m_eth m')" using covers_subtract [OF wider, of n "x_sender ?t"] w by simp
    then show ?thesis using stocked start(3) w(1) by (simp add: books_inv_def)
  qed (use perform start wider ok stocked in \<open>auto simp: books_inv_def market_ok_def emit_market_def split: if_splits\<close>)
  with Some show ?thesis by (simp add: market_transact_def)
qed (use inv in \<open>simp add: market_transact_def\<close>)

interpretation market_books: event_driven market_transact "\<lambda>m p. market_ok p \<and> single_sale p" books_inv
  by unfold_locales (simp add: market_books)

lemma new_market_inv: "books_inv (new_market this owner)" "supply_inv (new_market this owner)" "directory_inv (new_market this owner)"
proof -
  have "sum_list (map (\<lambda>_. 0::int) as) \<le> 0" for as :: "string list" by (induction as) simp_all
  then show "books_inv (new_market this owner)" "supply_inv (new_market this owner)" "directory_inv (new_market this owner)"
    by (simp_all add: books_inv_def supply_inv_def covers_def directory_inv_def new_market_def token_ids_def sold_total_def fun_eq_iff)
qed


section \<open>Limits\<close>

definition bought :: "int \<Rightarrow> string \<Rightarrow> market_event \<Rightarrow> int" where
  "bought k who e = (case e of ListingFilled j buyer _ _ _ _ q \<Rightarrow> if j = k \<and> buyer = who then q else 0 | _ \<Rightarrow> 0)"

definition bought_total :: "int \<Rightarrow> string \<Rightarrow> market \<Rightarrow> int" where
  "bought_total k who m = sum_list (map (bought k who) (m_events m))"

definition limits_inv :: "market \<Rightarrow> bool" where
  "limits_inv m =
     ((\<forall>k who. k < length (m_listings m) \<and> 0 < l_maxPerAddress (m_listings m ! k)
        \<longrightarrow> bought_total (int k) who m = m_perAddressCount m (k, who) \<and> m_perAddressCount m (k, who) \<le> l_maxPerAddress (m_listings m ! k))
      \<and> (\<forall>k who. length (m_listings m) \<le> k \<longrightarrow> bought_total (int k) who m = 0 \<and> m_perAddressCount m (k, who) = 0))"

lemma fill_counted:
  assumes "fill_listing t k q m = Some m'"
  shows "m_perAddressCount m' = (if 0 < l_maxPerAddress (m_listings m ! k)
      then (m_perAddressCount m)((k, x_sender t) := q + m_perAddressCount m (k, x_sender t)) else m_perAddressCount m)"
    "0 < l_maxPerAddress (m_listings m ! k) \<longrightarrow> q + m_perAddressCount m (k, x_sender t) \<le> l_maxPerAddress (m_listings m ! k)"
proof -
  obtain l' m1 m2 where steps: "fill_counts t k q (m_listings m ! k) m = Some m1"
      "fill_balances q (m_listings m ! k) (m1\<lparr>m_listings := (m_listings m1)[k := l']\<rparr>) = Some m2"
      and m': "m_perAddressCount m' = m_perAddressCount m2"
    using assms by (auto simp: fill_listing_def Let_def bind_eq_Some_conv emit_market_def split: if_splits option.splits)
  have "m_perAddressCount m2 = m_perAddressCount m1" by (subst fill_balances_effect [OF steps(2)]) simp
  then show "m_perAddressCount m' = (if 0 < l_maxPerAddress (m_listings m ! k)
      then (m_perAddressCount m)((k, x_sender t) := q + m_perAddressCount m (k, x_sender t)) else m_perAddressCount m)"
    "0 < l_maxPerAddress (m_listings m ! k) \<longrightarrow> q + m_perAddressCount m (k, x_sender t) \<le> l_maxPerAddress (m_listings m ! k)"
    using steps(1) m' by (auto simp: fill_counts_def Let_def split: if_splits)
qed

lemma fill_limits:
  assumes inv: "limits_inv m" and step: "fill_listing t k q m = Some m'"
  shows "limits_inv m'"
proof -
  note e = fill_effect [OF step]
  let ?l = "m_listings m ! k"
  have fields: "length (m_listings m') = length (m_listings m)"
    "l_maxPerAddress (m_listings m' ! j) = l_maxPerAddress (m_listings m ! j)"
    "m_events m' = m_events m @ [ListingFilled (int k) (x_sender t) (l_tokenAddress ?l) (l_tokenId ?l) (l_seller ?l) (l_price ?l) q]" for j
    using e(1) by (subst e(6), simp add: nth_list_update)+
  have new: "bought_total (int j) who m' = bought_total (int j) who m + (if j = k \<and> who = x_sender t then q else 0)" for j who
    by (simp add: bought_total_def fields(3) bought_def)
  show ?thesis
    unfolding limits_inv_def fields(1,2) new fill_counted(1) [OF step]
    using inv e(1) fill_counted(2) [OF step] by (auto simp: limits_inv_def)
qed

interpretation limits: market_invariant limits_inv
proof unfold_locales
  fix m m' t a i p q x
  assume inv: "limits_inv m" and step: "create_listing t a i p q x m = Some m'"
  show "limits_inv m'"
    using inv unfolding create_effect(3) [OF step]
    by (auto simp: limits_inv_def nth_append less_Suc_eq bought_total_def bought_def)
next
  fix m m' t k
  assume inv: "limits_inv m" and step: "delete_listing t k m = Some m'"
  show "limits_inv m'"
    using inv delete_effect(1) [OF step] unfolding delete_effect(4) [OF step]
    by (auto simp: limits_inv_def nth_list_update bought_total_def bought_def)
next
  fix m m' t k and q :: int
  assume "limits_inv m" "fill_listing t k q m = Some m'"
  then show "limits_inv m'" by (rule fill_limits)
qed (simp_all add: limits_inv_def emit_market_def bought_total_def bought_def)

lemma new_market_limits: "limits_inv (new_market this owner)"
  by (simp add: limits_inv_def new_market_def bought_total_def)

section \<open>What the market promises\<close>

text \<open>C3. The market can pay.  After any calls of which none pays for two sales at once, whatever the contracts of items
  answer, the balances of any sellers, together with the owner's fees, are held by the contract in ETH.\<close>

theorem market_solvent:
  assumes "list_all market_ok ps" "list_all single_sale ps" "distinct sellers" "m = fold market_transact ps (new_market this owner)"
  shows "sum_list (map (m_balances m) sellers) \<le> m_eth m"
proof -
  have "list_all (\<lambda>p. market_ok p \<and> single_sale p) ps" using assms(1,2) by (simp add: list_all_iff)
  then have "books_inv m"
    using market_books.run_inv [OF new_market_inv(1)] assms(4) by (simp add: admissible_all)
  then show ?thesis using assms(3) by (simp add: books_inv_def covers_def)
qed

text \<open>C12. No item is oversold.  After any calls, batches included, what was sold of a listing is what it records, within
  its quantity unless that is zero; a listing is completed exactly when it is sold out; and no address has bought more of it
  than the limit per address.\<close>

theorem market_limits:
  assumes "list_all market_ok ps" "m = fold market_transact ps (new_market this owner)" "k < length (m_listings m)" "l = m_listings m ! k"
  shows "l_filled l = sold_total (int k) m \<and> (0 < l_quantity l \<longrightarrow> l_filled l \<le> l_quantity l)
    \<and> (l_completed l \<longleftrightarrow> 0 < l_quantity l \<and> l_filled l = l_quantity l)
    \<and> (0 < l_maxPerAddress l \<longrightarrow> bought_total (int k) who m \<le> l_maxPerAddress l)"
proof -
  have "supply_inv m" "limits_inv m"
    using stock.run [OF new_market_inv(2) assms(1)] limits.run [OF new_market_limits assms(1)] assms(2) by simp_all
  then show ?thesis using assms(3,4) by (auto simp: supply_inv_def listing_supply_def limits_inv_def split: if_splits)
qed


section \<open>Examples\<close>

definition market_example_tx :: "string \<Rightarrow> int \<Rightarrow> market_tx" where
  "market_example_tx sender v =
     \<lparr>x_sender = sender, x_value = v, x_owner = (\<lambda>_. Some ''ann''), x_minter = (\<lambda>_. Some ''mkt''), x_mints = (\<lambda>_ _ _. True), x_pays = True\<rparr>"

definition two_listings :: "market_tx \<times> market_function" where
  "two_listings = (market_example_tx ''ann'' 0, CreateListingBatch [''col'', ''col''] [0, 1] [100, 100] [2, 0] [2, 0])"

abbreviation example_sales :: "(market_tx \<times> market_function) list" where
  "example_sales \<equiv> [two_listings, (market_example_tx ''bob'' 200, FillListing 0 2), (market_example_tx ''ann'' 0, Withdraw ''ann'' 190)]"

lemmas market_evaluation = two_listings_def market_example_tx_def new_market_def market_transact_def market_call_def market_payable_def
  create_listing_def is_collection_owner_def emit_market_def fill_listing_def fill_supply_def fill_counts_def fill_balances_def
  add_balance_def withdraw_def

lemma example_market:
  "m_eth (fold market_transact example_sales (new_market ''mkt'' ''dao'')) = 10"
  "m_balances (fold market_transact example_sales (new_market ''mkt'' ''dao'')) ''ann'' = 0"
  "m_balances (fold market_transact example_sales (new_market ''mkt'' ''dao'')) ''dao'' = 10"
  "m_listings (fold market_transact example_sales (new_market ''mkt'' ''dao'')) =
     [\<lparr>l_seller = ''ann'', l_tokenAddress = ''col'', l_tokenId = 0, l_price = 100, l_quantity = 2, l_filled = 2, l_maxPerAddress = 2,
       l_completed = True, l_deleted = False\<rparr>,
      \<lparr>l_seller = ''ann'', l_tokenAddress = ''col'', l_tokenId = 1, l_price = 100, l_quantity = 0, l_filled = 0, l_maxPerAddress = 0,
       l_completed = False, l_deleted = False\<rparr>]"
  by (simp_all add: market_evaluation)

lemma example_sales_ok: "list_all market_ok example_sales" "list_all single_sale example_sales"
  by (simp_all add: market_ok_def two_listings_def market_example_tx_def single_sale_def)

theorem market_solvent_witness:
  "m_balances (fold market_transact example_sales (new_market ''mkt'' ''dao'')) ''ann''
     + m_balances (fold market_transact example_sales (new_market ''mkt'' ''dao'')) ''dao'' \<le> 10"
  using market_solvent [OF example_sales_ok _ refl, of "[''ann'', ''dao'']" "''mkt''" "''dao''"]
  unfolding example_market by simp

theorem market_limits_witness:
  "sold_total 0 (fold market_transact example_sales (new_market ''mkt'' ''dao'')) = 2
    \<and> bought_total 0 ''bob'' (fold market_transact example_sales (new_market ''mkt'' ''dao'')) \<le> 2"
  using market_limits [OF example_sales_ok(1) refl _ refl, of 0 "''mkt''" "''dao''" "''bob''"]
  unfolding example_market by simp


end
