(* ===== verification/Market_Pages.thy ===== *)
theory Market_Pages imports Market_Contract begin

text \<open>
  The market in the web application: what its pages show of the listings, the purchase of an item
  (\<open>components/ComposableItemModal\<close>), the form that lists items and removes listings
  (\<open>pages/Collection/ListingForm\<close>) and the withdrawal of the proceeds (\<open>pages/Collection/ListingHistory\<close>), against
  the contract of \<open>Market_Contract\<close>.  What the user types is read by \<open>BigNumber\<close> and \<open>parseEther\<close>, parameters that may
  throw (\<open>None\<close>).
\<close>

section \<open>Which listing a page shows\<close>

text \<open>The arguments of the contract's events, as ethers delivers them.\<close>

fun created_args :: "market_event \<Rightarrow> obj" where
  "created_args (ListingCreated k seller addr tokenId price quantity maxPerAddress) =
     [(''listingId'', BigNum k), (''seller'', Str seller), (''tokenAddress'', Str addr), (''tokenId'', BigNum tokenId),
      (''price'', BigNum price), (''quantity'', BigNum quantity), (''maxPerAddress'', BigNum maxPerAddress)]"
| "created_args _ = []"

definition deleted_args :: "int \<Rightarrow> obj" where
  "deleted_args k = [(''listingId'', BigNum k)]"

definition logs_market :: "composables_config \<Rightarrow> rpc \<Rightarrow> market \<Rightarrow> bool" where
  "logs_market cfg net m =
     (map re_args (rpc_events net (cfg_composablesMarketProxy cfg) ''ListingCreated'' []) = map created_args (filter is_created (m_events m))
      \<and> map re_args (rpc_events net (cfg_composablesMarketProxy cfg) ''ListingDeleted'' []) = map deleted_args (deleted_ids (m_events m)))"

definition site_listing :: "nat \<Rightarrow> listing \<Rightarrow> market_listing" where
  "site_listing k l =
     \<lparr>ml_listingId = Some (int k), ml_seller = Str (l_seller l), ml_tokenAddress = Str (l_tokenAddress l),
      ml_tokenId = Some (l_tokenId l), ml_price = Some (l_price l), ml_quantity = Some (l_quantity l),
      ml_maxPerAddress = Some (l_maxPerAddress l)\<rparr>"

text \<open>The listing that keeps the contract from taking another one for the item.\<close>

definition current_listing :: "market \<Rightarrow> string \<Rightarrow> int \<Rightarrow> nat option" where
  "current_listing m a i =
     (let ids = m_tokenListings m (a, i)
      in if ids = [] \<or> l_deleted (m_listings m ! last ids) then None else Some (last ids))"


lemma field_spread_last:
  assumes "distinct (map fst b)" "k \<in> fst ` set b"
  shows "field (spread a b) k = field b k"
  using assms
proof (induction b arbitrary: a)
  case (Cons p b)
  obtain j v where p: "p = (j, v)" by force
  have step: "spread a (p # b) = spread (AList.update j v a) b" by (simp add: spread_def p)
  show ?case
  proof (cases "k = j")
    case True
    then have "k \<notin> fst ` set b" using Cons.prems(1) p by simp
    then show ?thesis unfolding step field_spread [OF \<open>k \<notin> fst ` set b\<close>] using True p by simp
  next
    case False
    then have "k \<in> fst ` set b" using Cons.prems(2) p by simp
    then have "field (spread (AList.update j v a) b) k = field b k" using Cons.IH Cons.prems(1) p by simp
    then show ?thesis using False unfolding step by (simp add: p)
  qed
qed simp

lemma created_fields:
  assumes "re_args e = created_args (created_event k l)" "c \<in> {''listingId'', ''seller'', ''tokenAddress'', ''tokenId'', ''price'', ''quantity'', ''maxPerAddress''}"
  shows "field (event_with_block e) c = field (created_args (created_event k l)) c"
  unfolding event_with_block_def assms(1)
  by (rule field_spread_last) (use assms(2) in \<open>auto simp: created_event_def\<close>)

lemma created_listing:
  assumes "re_args e = created_args (created_event k l)"
  shows "listing_of (event_with_block e) (as_int (field (event_with_block e) ''maxPerAddress'')) = site_listing k l"
    "as_string (field (event_with_block e) ''listingId'') = int_to_string (int k)"
  by (simp_all add: created_fields [OF assms] listing_of_def site_listing_def)
    (simp_all add: created_event_def as_int_def as_string_def)

lemma deleted_listing:
  assumes "re_args e = deleted_args k"
  shows "as_string (field (event_with_block e) ''listingId'') = int_to_string k"
  by (simp add: event_with_block_def spread_def assms deleted_args_def as_string_def)

lemma map_by_args:
  assumes "map re_args es = map g xs" "\<And>e x. re_args e = g x \<Longrightarrow> h e = k x"
  shows "map h es = map k xs"
  using assms(1)
proof (induction es arbitrary: xs)
  case (Cons e es)
  then show ?case using assms(2) by (cases xs) auto
qed simp

lemma site_listings:
  assumes logs: "logs_market (en_cfg en) (en_net en) m" and dir: "directory_inv m" and chain: "\<not> en_isIndexer en"
  shows "getComposablesMarketListings en d
    = map (\<lambda>k. site_listing k (m_listings m ! k)) (filter (\<lambda>k. \<not> l_deleted (m_listings m ! k)) [0..<length (m_listings m)])"
proof -
  let ?created = "rpc_events (en_net en) (cfg_composablesMarketProxy (en_cfg en)) ''ListingCreated'' []"
  let ?deleted = "rpc_events (en_net en) (cfg_composablesMarketProxy (en_cfg en)) ''ListingDeleted'' []"
  let ?ls = "m_listings m"
  have created: "map re_args ?created = map (\<lambda>k. created_args (created_event k (?ls ! k))) [0..<length ?ls]"
    using logs dir by (simp add: logs_market_def directory_inv_def)
  have "map (\<lambda>e. as_string (field (event_with_block e) ''listingId'')) ?deleted = map int_to_string (deleted_ids (m_events m))"
    by (rule map_by_args [where g = deleted_args]) (use logs in \<open>simp_all add: logs_market_def deleted_listing\<close>)
  from arg_cong [OF this, of set]
  have ids: "(\<lambda>e. as_string (field (event_with_block e) ''listingId'')) ` set ?deleted = int_to_string ` set (deleted_ids (m_events m))"
    by simp
  define dead where "dead s = list_ex (\<lambda>dl. as_string (field dl ''listingId'') = s) (chain_listingDeleted (en_cfg en) (en_net en))" for s
  have dead: "dead s \<longleftrightarrow> s \<in> int_to_string ` set (deleted_ids (m_events m))" for s
    unfolding ids [symmetric] dead_def chain_listingDeleted_def list_ex_iff by auto
  have gone: "dead (int_to_string (int k)) \<longleftrightarrow> k < length ?ls \<and> l_deleted (?ls ! k)" for k
    using dir unfolding dead directory_inv_def by auto
  define pick where "pick = (\<lambda>e. (as_string (field (event_with_block e) ''listingId''),
    listing_of (event_with_block e) (as_int (field (event_with_block e) ''maxPerAddress''))))"
  have picked: "map pick ?created = map (\<lambda>k. (int_to_string (int k), site_listing k (?ls ! k))) [0..<length ?ls]"
    by (rule map_by_args [OF created]) (simp add: pick_def created_listing)
  have "getComposablesMarketListings en d = map (\<lambda>e. listing_of e (as_int (field e ''maxPerAddress'')))
      (filter (\<lambda>l. \<not> dead (as_string (field l ''listingId''))) (map event_with_block ?created))"
    using chain by (simp add: getComposablesMarketListings_def chain_listingCreated_def dead_def)
  also have "\<dots> = map snd (filter (\<lambda>p. \<not> dead (fst p)) (map pick ?created))"
    by (simp add: filter_map comp_def pick_def)
  also have "\<dots> = map (\<lambda>k. site_listing k (?ls ! k)) (filter (\<lambda>k. \<not> dead (int_to_string (int k))) [0..<length ?ls])"
    unfolding picked by (simp add: filter_map comp_def)
  also have "filter (\<lambda>k. \<not> dead (int_to_string (int k))) [0..<length ?ls] = filter (\<lambda>k. \<not> l_deleted (?ls ! k)) [0..<length ?ls]"
    by (rule filter_cong) (simp_all add: gone)
  finally show ?thesis .
qed


lemma find_the_one:
  assumes "x \<in> set xs" "P x" "\<And>y. y \<in> set xs \<Longrightarrow> P y \<Longrightarrow> y = x"
  shows "find P xs = Some x"
  using assms
proof (induction xs)
  case (Cons y ys)
  show ?case
  proof (cases "P y")
    case True
    then have "y = x" using Cons.prems(3) by simp
    then show ?thesis using True by simp
  next
    case False
    then have "x \<in> set ys" using Cons.prems(1,2) by auto
    from this Cons.prems(2) have "find P ys = Some x" by (rule Cons.IH) (rule Cons.prems(3), simp_all)
    then show ?thesis using False by simp
  qed
qed simp

lemma current_listing_iff:
  assumes "directory_inv m"
  shows "current_listing m a i = Some k \<longleftrightarrow> k < length (m_listings m) \<and> token_of (m_listings m ! k) = (a, i) \<and> \<not> l_deleted (m_listings m ! k)"
proof -
  have ids: "m_tokenListings m (a, i) = token_ids (m_listings m) (a, i)" using assms by (simp add: directory_inv_def)
  show ?thesis
  proof
    assume some: "current_listing m a i = Some k"
    then have "k \<in> set (token_ids (m_listings m) (a, i))" "\<not> l_deleted (m_listings m ! k)"
      by (auto simp: current_listing_def ids Let_def split: if_splits)
    then show "k < length (m_listings m) \<and> token_of (m_listings m ! k) = (a, i) \<and> \<not> l_deleted (m_listings m ! k)"
      by (simp add: token_ids_mem)
  next
    assume live: "k < length (m_listings m) \<and> token_of (m_listings m ! k) = (a, i) \<and> \<not> l_deleted (m_listings m ! k)"
    then have "k \<in> set (token_ids (m_listings m) (a, i))" by (simp add: token_ids_mem)
    moreover have "last (token_ids (m_listings m) (token_of (m_listings m ! k))) = k" using live assms unfolding directory_inv_def by blast
    ultimately show "current_listing m a i = Some k" using live by (auto simp: current_listing_def ids Let_def)
  qed
qed

lemma shown_listing_is_current:
  assumes logs: "logs_market (en_cfg en) (en_net en) m" and dir: "directory_inv m" and chain: "\<not> en_isIndexer en"
  shows "filterComposableItemMarketListing (Some (getComposablesMarketListings en d)) (Str a) i
    = map_option (\<lambda>k. site_listing k (m_listings m ! k)) (current_listing m a i)"
proof -
  let ?ls = "m_listings m"
  let ?P = "\<lambda>l. ml_tokenAddress l = Str a \<and> ml_tokenId l = Some i"
  let ?shown = "map (\<lambda>k. site_listing k (?ls ! k)) (filter (\<lambda>k. \<not> l_deleted (?ls ! k)) [0..<length ?ls])"
  have match: "?P (site_listing k (?ls ! k)) \<longleftrightarrow> token_of (?ls ! k) = (a, i)" for k
    by (simp add: site_listing_def token_of_def)
  have live: "l \<in> set ?shown \<and> ?P l \<longleftrightarrow> (\<exists>k. l = site_listing k (?ls ! k) \<and> current_listing m a i = Some k)" for l
    using match by (auto simp: current_listing_iff [OF dir])
  have "find ?P ?shown = map_option (\<lambda>k. site_listing k (?ls ! k)) (current_listing m a i)"
  proof (cases "current_listing m a i")
    case None
    then show ?thesis using live by (auto simp: find_None_iff simp del: set_map set_filter)
  next
    case (Some k)
    then show ?thesis using live by (simp del: set_map set_filter) (rule find_the_one; metis option.inject)
  qed
  then show ?thesis by (simp add: filterComposableItemMarketListing_def site_listings [OF assms])
qed

lemma market_directory:
  assumes "list_all market_ok ps" "m = fold market_transact ps (new_market this owner)"
  shows "directory_inv m"
  using directory.run [OF new_market_inv(3) assms(1)] assms(2) by simp

text \<open>C13. The page shows the listing that counts.  After any calls, a page that reads the events of the market shows, for any
  item, the one listing for which the contract refuses another, with its price, quantity and limit, and none when there is
  no such listing.\<close>

theorem page_shows_current_listing:
  assumes "list_all market_ok ps" "m = fold market_transact ps (new_market this owner)"
    and "logs_market (en_cfg en) (en_net en) m" "\<not> en_isIndexer en"
  shows "filterComposableItemMarketListing (Some (getComposablesMarketListings en d)) (Str a) i
    = (let ids = m_tokenListings m (a, i)
       in if ids = [] \<or> l_deleted (m_listings m ! last ids) then None else Some (site_listing (last ids) (m_listings m ! last ids)))"
  unfolding shown_listing_is_current [OF assms(3) market_directory [OF assms(1,2)] assms(4)]
  by (simp add: current_listing_def Let_def)


section \<open>Buying an item\<close>

text \<open>What a handler does: it throws (\<open>None\<close>), or sends a call to the contract or nothing.\<close>

definition fillListingHandler ::
    "(string \<Rightarrow> int option) \<Rightarrow> string option \<Rightarrow> market_listing option \<Rightarrow> string \<Rightarrow> (int \<times> int \<times> int) option option" where
  "fillListingHandler parse activeAccount listing quantity =
     (case (activeAccount, listing) of
        (Some me, Some l) \<Rightarrow>
          if quantity = '''' then Some None
          else (case (ml_listingId l, ml_price l, parse quantity) of
                  (Some k, Some price, Some fillQuantity) \<Rightarrow>
                    (case (ethers_number k, ethers_number fillQuantity, ethers_number (price * fillQuantity)) of
                       (Some k', Some q, Some fillTotal) \<Rightarrow> Some (Some (k', q, fillTotal))
                     | _ \<Rightarrow> None)
                | _ \<Rightarrow> None)
      | _ \<Rightarrow> Some None)"

lemma balances_accept:
  assumes "covers (m_balances m) e" "0 \<le> l_price l" "0 \<le> q" "0 \<le> m_listingFee m" "m_listingFee m \<le> 10000"
    and "word256 (e + l_price l * q)" "word256 (l_price l * q * 10000)"
  shows "\<exists>m'. fill_balances q l m = Some m'"
proof (cases "0 < l_price l")
  case True
  define paid where "paid = l_price l * q"
  define share where "share = paid * (10000 - m_listingFee m) div 10000"
  define rest where "rest = paid * m_listingFee m div 10000"
  have paid: "0 \<le> paid" using assms(2,3) by (simp add: paid_def)
  have pos: "0 \<le> share" "0 \<le> rest" using paid assms(4,5) by (simp_all add: share_def rest_def pos_imp_zdiv_nonneg_iff)
  have sum: "share + rest \<le> paid" using shares_at_most assms(4,5) paid unfolding share_def rest_def by blast
  have "m_balances m who \<le> e" for who
    using assms(1) unfolding covers_def by (metis (no_types) distinct_singleton list.simps(8,9) sum_list.Cons sum_list.Nil add_0_right)
  then have fits: "word256 (m_balances m who + paid)" for who using assms(6) unfolding paid_def by (meson add_mono_thms_linordered_semiring(3) order_le_less_trans)
  have "paid * (10000 - m_listingFee m) \<le> paid * 10000" "paid * m_listingFee m \<le> paid * 10000"
    using paid assms(4,5) by (simp_all add: mult_left_mono)
  then have words: "word256 (paid * (10000 - m_listingFee m))" "word256 (paid * m_listingFee m)"
    using assms(7) unfolding paid_def by linarith+
  let ?m1 = "m\<lparr>m_balances := (m_balances m)(l_seller l := m_balances m (l_seller l) + share)\<rparr>"
  have "add_balance (l_seller l) share m = Some ?m1"
    using fits [of "l_seller l"] sum pos by (simp add: add_balance_def)
  moreover have "\<exists>m'. add_balance (m_owner m) rest ?m1 = Some m'"
    using fits [of "m_owner m"] fits [of "l_seller l"] sum pos by (auto simp: add_balance_def)
  ultimately show ?thesis
    using True assms(5) words by (simp add: fill_balances_def Let_def paid_def share_def rest_def)
qed (simp add: fill_balances_def)

lemma fill_accepts:
  assumes inv: "supply_inv m" "covers (m_balances m) e" "0 \<le> m_listingFee m" "m_listingFee m \<le> 10000"
    and k: "k < length (m_listings m)" and l: "l = m_listings m ! k" "\<not> l_deleted l" "\<not> l_completed l"
    and paid: "x_value t = l_price l * q" "0 \<le> q" "word256 (e + l_price l * q)" "word256 (l_price l * q * 10000)"
    and room: "0 < l_quantity l \<longrightarrow> l_filled l + q \<le> l_quantity l" "word64 (l_filled l + q)"
    and limit: "0 < l_maxPerAddress l \<longrightarrow> q + m_perAddressCount m (k, x_sender t) \<le> l_maxPerAddress l" "word64 (l_maxPerAddress l)"
    and mints: "x_mints t (l_tokenAddress l) (l_tokenId l) q"
  shows "\<exists>m'. fill_listing t k q m = Some m'"
proof -
  have price: "0 \<le> l_price l" using inv(1) k l(1) by (simp add: supply_inv_def listing_supply_def)
  obtain l' where l': "fill_supply q l = Some l'" using room paid(2) by (fastforce simp: fill_supply_def Let_def)
  obtain m1 where m1: "fill_counts t k q l m = Some m1" using limit by (fastforce simp: fill_counts_def Let_def)
  let ?m = "m1\<lparr>m_listings := (m_listings m1)[k := l']\<rparr>"
  obtain c where c: "m1 = m\<lparr>m_perAddressCount := c\<rparr>" using fill_counts_effect [OF m1] by blast
  obtain m2 where m2: "fill_balances q l ?m = Some m2"
    using balances_accept [of ?m e l q] inv(2,3,4) price paid c by auto
  have "0 \<le> l_price l * q" using price paid(2) by simp
  then have "word256 (l_price l * q)" using paid(4) by linarith
  then show ?thesis
    using k l l' m1 m2 paid(1) mints by (simp add: fill_listing_def Let_def)
qed



section \<open>Listing items\<close>

definition form_field :: "(string \<Rightarrow> string option) \<Rightarrow> string \<Rightarrow> nat \<Rightarrow> string" where
  "form_field formInputs name i = (case formInputs (name @ nat_to_string i) of None \<Rightarrow> '''' | Some s \<Rightarrow> s)"

text \<open>\<open>!s || !s.trim()\<close>\<close>

definition filled_in :: "string \<Rightarrow> bool" where
  "filled_in s = list_ex (\<lambda>c. \<not> is_space c) s"

definition onFormInputChange :: "string \<Rightarrow> string \<Rightarrow> (string \<Rightarrow> string option) \<Rightarrow> string \<Rightarrow> string option" where
  "onFormInputChange target_id v formInputs = formInputs(target_id \<mapsto> v)"

definition validateFormInputs :: "'i list \<Rightarrow> (string \<Rightarrow> string option) \<Rightarrow> bool" where
  "validateFormInputs composableItems formInputs =
     list_all (\<lambda>i. filled_in (form_field formInputs ''txtPrice'' i) \<and> filled_in (form_field formInputs ''txtQuantity'' i)
        \<and> filled_in (form_field formInputs ''txtMax'' i)) [0..<length composableItems]"

type_synonym listing_args = "string \<times> int \<times> int \<times> int \<times> int"

definition listing_row ::
    "(string \<Rightarrow> int option) \<Rightarrow> (string \<Rightarrow> int option) \<Rightarrow> (string \<Rightarrow> string option) \<Rightarrow> nat \<Rightarrow> composable_item \<Rightarrow> listing_args option" where
  "listing_row parseEther parse formInputs i item =
     (case (it_tokenAddress item, ethers_number (it_tokenId item),
            Option.bind (parseEther (form_field formInputs ''txtPrice'' i)) ethers_number,
            Option.bind (parse (form_field formInputs ''txtQuantity'' i)) ethers_number,
            Option.bind (parse (form_field formInputs ''txtMax'' i)) ethers_number) of
        (Str a, Some tokenId, Some price, Some quantity, Some maxPerAddress) \<Rightarrow> Some (a, tokenId, price, quantity, maxPerAddress)
      | _ \<Rightarrow> None)"

fun batch_of :: "listing_args list \<Rightarrow> market_function" where
  "batch_of rows = CreateListingBatch (map fst rows) (map (\<lambda>(a, i, p, q, x). i) rows) (map (\<lambda>(a, i, p, q, x). p) rows)
     (map (\<lambda>(a, i, p, q, x). q) rows) (map (\<lambda>(a, i, p, q, x). x) rows)"

definition createListingHandler ::
    "(string \<Rightarrow> int option) \<Rightarrow> (string \<Rightarrow> int option) \<Rightarrow> string option \<Rightarrow> composable_item list \<Rightarrow> (string \<Rightarrow> string option)
      \<Rightarrow> market_function option option" where
  "createListingHandler parseEther parse activeAccount composableItems formInputs =
     (if activeAccount = None \<or> \<not> validateFormInputs composableItems formInputs then Some None
      else map_option (\<lambda>rows. Some (batch_of rows))
             (all_or_none (map (\<lambda>i. listing_row parseEther parse formInputs i (composableItems ! i)) [0..<length composableItems])))"

text \<open>Without a listing the handler reads a property of \<open>undefined\<close>, unless there is no account either.\<close>

definition deleteListingHandler :: "string option \<Rightarrow> market_listing option \<Rightarrow> market_function option option" where
  "deleteListingHandler activeAccount listing =
     (case listing of
        None \<Rightarrow> if activeAccount = None then Some None else None
      | Some l \<Rightarrow> map_option (\<lambda>k. Some (DeleteListing (nat k))) (Option.bind (ml_listingId l) ethers_number))"

section \<open>Proceeds\<close>

definition withdrawHandler :: "string option \<Rightarrow> int option \<Rightarrow> market_function option option" where
  "withdrawHandler activeAccount sellerBalance =
     (case (activeAccount, sellerBalance) of
        (Some me, Some b) \<Rightarrow> if b = 0 then Some None else map_option (\<lambda>n. Some (Withdraw me n)) (ethers_number b)
      | _ \<Rightarrow> Some None)"

text \<open>\<open>formatEther\<close> and \<open>toFixed(d)\<close>, which rounds half up, of an amount that is not negative.\<close>

definition fixed_digits :: "nat \<Rightarrow> nat \<Rightarrow> string" where
  "fixed_digits d n = nat_to_string (n div 10 ^ d) @ ''.'' @ padStart d CHR ''0'' (nat_to_string (n mod 10 ^ d))"

definition getTruncatedAmount :: "nat \<Rightarrow> int \<Rightarrow> string option" where
  "getTruncatedAmount d n = map_option (\<lambda>w. fixed_digits d (nat ((2 * w * 10 ^ d + 10 ^ 18) div (2 * 10 ^ 18)))) (ethers_number n)"

text \<open>A card shows the price of its listing; a page of cards renders when each of them does.\<close>

definition card_renders :: "market_listing option \<Rightarrow> bool" where
  "card_renders listing =
     (case listing of None \<Rightarrow> True | Some l \<Rightarrow> Option.bind (ml_price l) (getTruncatedAmount 2) \<noteq> None)"

definition cards_render :: "composable_item list \<Rightarrow> market_listing list option \<Rightarrow> bool" where
  "cards_render composableItems listings =
     list_all (\<lambda>item. card_renders (filterComposableItemMarketListing listings (it_tokenAddress item) (it_tokenId item))) composableItems"



section \<open>Sellers\<close>

definition new_listing :: "string \<Rightarrow> listing_args \<Rightarrow> listing" where
  "new_listing seller row =
     (case row of (a, i, p, q, x) \<Rightarrow>
        \<lparr>l_seller = seller, l_tokenAddress = a, l_tokenId = i, l_price = p, l_quantity = q, l_filled = 0, l_maxPerAddress = x,
         l_completed = False, l_deleted = False\<rparr>)"

definition row_token :: "listing_args \<Rightarrow> string \<times> int" where
  "row_token row = (fst row, fst (snd row))"

definition row_ok :: "listing_args \<Rightarrow> bool" where
  "row_ok row = (case row of (a, i, p, q, x) \<Rightarrow> 0 \<le> p \<and> 0 \<le> q)"

definition lists_rows :: "market_tx \<Rightarrow> listing_args list \<Rightarrow> market \<Rightarrow> market option" where
  "lists_rows t rows = create_listings t (map fst rows) (map (\<lambda>(a, i, p, q, x). i) rows) (map (\<lambda>(a, i, p, q, x). p) rows)
     (map (\<lambda>(a, i, p, q, x). q) rows) (map (\<lambda>(a, i, p, q, x). x) rows)"

lemma lists_rows_simps [simp]:
  "lists_rows t [] m = Some m"
  "lists_rows t ((a, i, p, q, x) # rows) m = Option.bind (create_listing t a i p q x m) (lists_rows t rows)"
  by (simp_all add: lists_rows_def)

lemma free_after_create:
  assumes "directory_inv m" "create_listing t a i p q x m = Some m'" "directory_inv m'" "(b, j) \<noteq> (a, i)" "current_listing m b j = None"
  shows "current_listing m' b j = None"
proof -
  have ls: "m_listings m' = m_listings m @ [\<lparr>l_seller = x_sender t, l_tokenAddress = a, l_tokenId = i,
       l_price = p, l_quantity = q, l_filled = 0, l_maxPerAddress = x, l_completed = False, l_deleted = False\<rparr>]"
    by (subst create_effect(3) [OF assms(2)]) simp
  have none: "\<not> (k < length (m_listings m) \<and> token_of (m_listings m ! k) = (b, j) \<and> \<not> l_deleted (m_listings m ! k))" for k
    using assms(5) current_listing_iff [OF assms(1)] by (metis option.distinct(1))
  have "current_listing m' b j \<noteq> Some k" for k
    using none [of k] assms(4) unfolding current_listing_iff [OF assms(3)] ls
    by (auto simp: nth_append token_of_def less_Suc_eq split: if_splits)
  then show ?thesis by (cases "current_listing m' b j") auto
qed

lemma lists_rows_succeed:
  assumes "directory_inv m" "list_all row_ok rows" "distinct (map row_token rows)"
    and "\<forall>row \<in> set rows. is_collection_owner t (fst row) m \<and> current_listing m (fst row) (fst (snd row)) = None"
  shows "\<exists>m'. lists_rows t rows m = Some m' \<and> m_listings m' = m_listings m @ map (new_listing (x_sender t)) rows \<and> directory_inv m'"
  using assms
proof (induction rows arbitrary: m)
  case (Cons row rows)
  obtain a i p q x where row: "row = (a, i, p, q, x)" by (cases row) auto
  have free: "m_tokenListings m (a, i) = [] \<or> l_deleted (m_listings m ! last (m_tokenListings m (a, i)))"
    using Cons.prems(4) row by (auto simp: current_listing_def Let_def split: if_splits)
  obtain m1 where m1: "create_listing t a i p q x m = Some m1"
    using free Cons.prems(4) row by (auto simp: create_listing_def Let_def)
  have dir: "directory_inv m1" using directory.create [OF Cons.prems(1) _ _ m1] Cons.prems(2) row by (simp add: row_ok_def)
  have fields: "m_listings m1 = m_listings m @ [new_listing (x_sender t) row]" "m_address m1 = m_address m"
    by (subst create_effect(3) [OF m1], simp add: new_listing_def row)+
  have "\<forall>r \<in> set rows. is_collection_owner t (fst r) m1 \<and> current_listing m1 (fst r) (fst (snd r)) = None"
  proof
    fix r assume r: "r \<in> set rows"
    then have "(fst r, fst (snd r)) \<noteq> (a, i)" using Cons.prems(3) row by (auto simp: row_token_def)
    then have "current_listing m1 (fst r) (fst (snd r)) = None"
      using free_after_create [OF Cons.prems(1) m1 dir] Cons.prems(4) r by simp
    then show "is_collection_owner t (fst r) m1 \<and> current_listing m1 (fst r) (fst (snd r)) = None"
      using Cons.prems(4) r fields(2) by (simp add: is_collection_owner_def)
  qed
  from Cons.IH [OF dir _ _ this] Cons.prems(2,3)
  obtain m' where "lists_rows t rows m1 = Some m'" "m_listings m' = m_listings m1 @ map (new_listing (x_sender t)) rows" "directory_inv m'"
    by auto
  then show ?case using m1 row fields(1) by simp
qed simp

lemma row_of_typed:
  assumes "all_or_none (map f xs) = Some rows" "j < length xs"
  shows "length rows = length xs \<and> f (xs ! j) = Some (rows ! j)"
  using assms
proof (induction xs arbitrary: rows j)
  case (Cons x xs)
  obtain r rs where "f x = Some r" "all_or_none (map f xs) = Some rs" "rows = r # rs"
    using Cons.prems(1) by (cases "f x") auto
  then show ?case using Cons.IH [of rs "j - 1"] Cons.IH [of rs 0] Cons.prems(2) by (cases j; cases xs) auto
qed simp

lemma typed_row:
  assumes "listing_row parseEther parse inputs j item = Some row"
  shows "it_tokenAddress item = Str (l_tokenAddress (new_listing s row)) \<and> it_tokenId item = l_tokenId (new_listing s row)
    \<and> parseEther (form_field inputs ''txtPrice'' j) = Some (l_price (new_listing s row))
    \<and> parse (form_field inputs ''txtQuantity'' j) = Some (l_quantity (new_listing s row))
    \<and> parse (form_field inputs ''txtMax'' j) = Some (l_maxPerAddress (new_listing s row))"
  using assms by (auto simp: listing_row_def new_listing_def ethers_number_def bind_eq_Some_conv
      split: option.splits js_value.splits if_splits)

lemma batch_of_inject: "batch_of rs = batch_of ss \<Longrightarrow> rs = ss"
proof (induction rs arbitrary: ss)
  case (Cons r rs)
  then obtain s ss' where "ss = s # ss'" by (cases ss) auto
  then show ?case using Cons by (cases r; cases s) auto
qed simp




lemma large_proceeds_stuck: "10 ^ 21 \<le> b \<Longrightarrow> withdrawHandler (Some me) (Some b) = None"
  by (simp add: withdrawHandler_def ethers_number_def)

section \<open>The state of a transaction\<close>

datatype market_status = NoTransaction | SignaturePending | BeingMined | Succeeded | Failed | Raised

record market_button =
  loading :: bool
  label :: string
  notice :: "(string \<times> string) option"

text \<open>The effect of a status on a button with the text \<open>idle\<close>: with what the page does besides when it succeeded.\<close>

definition status_effect :: "string \<Rightarrow> string \<Rightarrow> string \<Rightarrow> string option \<Rightarrow> ('s \<Rightarrow> 's) \<Rightarrow> market_status \<Rightarrow> 's \<times> market_button \<Rightarrow> 's \<times> market_button" where
  "status_effect idle done_text failed errorMessage complete status p =
     (let message = (case errorMessage of Some e \<Rightarrow> if e = '''' then ''Please try again.'' else e | None \<Rightarrow> ''Please try again.'');
          ready = (snd p)\<lparr>loading := False, label := idle\<rparr>
      in case status of
           NoTransaction \<Rightarrow> (fst p, ready)
         | SignaturePending \<Rightarrow> (fst p, (snd p)\<lparr>loading := True, label := ''''\<rparr>)
         | BeingMined \<Rightarrow> (fst p, (snd p)\<lparr>loading := True, label := ''''\<rparr>)
         | Succeeded \<Rightarrow> (complete (fst p), ready\<lparr>notice := Some (''Success'', done_text)\<rparr>)
         | Failed \<Rightarrow> (fst p, ready\<lparr>notice := Some (failed, message)\<rparr>)
         | Raised \<Rightarrow> (fst p, ready\<lparr>notice := Some (''Transaction Error'', message)\<rparr>))"

definition fillListingEffect where
  "fillListingEffect = status_effect ''Buy'' ''Item successfully purchased on-chain!'' ''Transaction Failed''"

definition createListingEffect where
  "createListingEffect = status_effect ''List On-Chain'' ''Item successfully listed on-chain!'' ''Transaction Failed''"

definition deleteListingEffect where
  "deleteListingEffect = status_effect ''Remove Listing'' ''Listing successfully removed on-chain!'' ''Transaction Failed''"

definition withdrawEffect where
  "withdrawEffect = status_effect ''Withdraw'' ''Withdraw successfully processed on-chain!'' ''Transaction Failed''"

lemma button_ready:
  assumes "status \<noteq> SignaturePending" "status \<noteq> BeingMined"
  shows "\<not> loading (snd (status_effect idle done_text failed err complete status p))"
  using assms by (cases status) (simp_all add: status_effect_def Let_def)


section \<open>Examples\<close>

definition example_raw :: "obj \<Rightarrow> raw_event" where
  "example_raw args = \<lparr>re_blockNumber = 0, re_blockHash = '''', re_transactionIndex = 0, re_args = args\<rparr>"

definition market_env :: "market \<Rightarrow> env" where
  "market_env m =
     \<lparr>en_isIndexer = False,
      en_cfg = \<lparr>cfg_composableItemFactory = ''fac'', cfg_composablesMarketProxy = ''mkt'', cfg_nounsToken = ''nou''\<rparr>,
      en_net = \<lparr>rpc_events = (\<lambda>addr name args. map example_raw
                  (if name = ''ListingCreated'' then map created_args (filter is_created (m_events m))
                   else map deleted_args (deleted_ids (m_events m)))),
                rpc_call = (\<lambda>_ _ _. Undefined)\<rparr>,
      en_rt = \<lparr>rt_parse_json = (\<lambda>_. None), rt_from_base64 = (\<lambda>s. s)\<rparr>, en_fill = (\<lambda>_ _. [])\<rparr>"

lemma market_env_facts [simp]: "logs_market (en_cfg (market_env m)) (en_net (market_env m)) m" "\<not> en_isIndexer (market_env m)"
  by (simp_all add: market_env_def logs_market_def comp_def example_raw_def)

definition sold_out_market :: market where
  "sold_out_market = fold market_transact example_sales (new_market ''mkt'' ''dao'')"

lemma sold_out_facts:
  "m_tokenListings sold_out_market (''col'', 0) = [0]" "m_tokenListings sold_out_market (''col'', 1) = [1]"
  "m_tokenListings sold_out_market (''col'', 2) = []" "m_paused sold_out_market = False" "m_listingFee sold_out_market = 500"
  "m_address sold_out_market = ''mkt''" "bought_total 1 ''bob'' sold_out_market = 0"
  by (simp_all add: sold_out_market_def market_evaluation bought_total_def bought_def)

lemmas sold_out_run = example_market [folded sold_out_market_def]

text \<open>The listing that is sold out is still shown for sale.\<close>

theorem page_shows_current_listing_witness:
  "\<forall>d. filterComposableItemMarketListing (Some (getComposablesMarketListings (market_env sold_out_market) d)) (Str ''col'') 0
     = Some (site_listing 0 (m_listings sold_out_market ! 0)) \<and> l_completed (m_listings sold_out_market ! 0)"
  using page_shows_current_listing [OF example_sales_ok(1) sold_out_market_def market_env_facts, of _ "''col''" 0]
  unfolding sold_out_facts by (simp add: sold_out_run)

lemma open_listing:
  "m_listings sold_out_market ! Suc 0 = \<lparr>l_seller = ''ann'', l_tokenAddress = ''col'', l_tokenId = 1, l_price = 100, l_quantity = 0,
     l_filled = 0, l_maxPerAddress = 0, l_completed = False, l_deleted = False\<rparr>"
  unfolding sold_out_run by simp


definition example_item :: "int \<Rightarrow> composable_item" where
  "example_item i = \<lparr>it_collection = Str ''c'', it_meta = Undefined,
     it_image = \<lparr>ci_filename = '''', ci_data = Undefined, ci_palette = []\<rparr>, it_tokenAddress = Str ''col'', it_tokenId = i\<rparr>"




end
