(* ===== verification/Item_Contract.thy ===== *)
theory Item_Contract imports Nouns_Prelude begin

text \<open>
  The contract of an item collection, \<open>composables/items/ComposableItem.sol\<close>, with \<open>libs/SSTORE2.sol\<close>: pages of compressed
  images and texts that are only ever added to, the palettes, the supplies of the items.  Byte strings are written as
  ethers delivers them, \<open>0x\<close> and two digits per byte.  The inflator, the renderer and the token library it inherits
  from are outside the contract: the former are parameters (\<open>item_lib\<close>), whether the latter mints is part of the
  transaction.
\<close>

section \<open>State\<close>

datatype item_error = SenderNotMinter | SenderNotOwner | NonexistentToken | EmptyPalette | BadPaletteLength | EmptyBytes
  | BadDecompressedLength | BadItemCount | ItemNotFound | PaletteNotFound | DeploymentFailed | NewOwnerZero | MintRefused
  | InflatorFailed | DecodingFailed | ItemPanic | BadCalldata

type_synonym 'a item_result = "item_error + 'a"

definition then_do :: "'a item_result \<Rightarrow> ('a \<Rightarrow> 'b item_result) \<Rightarrow> 'b item_result" where
  "then_do x f = (case x of Inl e \<Rightarrow> Inl e | Inr a \<Rightarrow> f a)"

lemma then_do_simps [simp]: "then_do (Inl e) f = Inl e" "then_do (Inr a) f = f a"
  by (simp_all add: then_do_def)

lemma then_do_Inr_iff [simp]: "then_do x f = Inr y \<longleftrightarrow> (\<exists>a. x = Inr a \<and> f a = Inr y)"
  by (cases x) simp_all

type_synonym bytes = string

definition byte_count :: "bytes \<Rightarrow> nat" where
  "byte_count b = (length b - 2) div 2"

record storage_page =
  page_itemCount :: nat
  page_decompressedLength :: nat
  page_pointer :: nat

record storage_set =
  set_pages :: "storage_page list"
  set_storedCount :: nat

datatype item_event =
    MinterUpdated string
  | PaletteSet nat
  | ImagesAdded nat
  | MetaAdded nat
  | OwnershipTransferred string string

text \<open>\<open>ic_code\<close> are the data contracts of the chain, in the order of their creation; they are not destroyed.
  The pointer 0 is the zero address, \<open>k + 1\<close> the address of the data contract number \<open>k\<close>.\<close>

record item_collection =
  ic_owner :: string
  ic_minter :: string
  ic_name :: string
  ic_symbol :: string
  ic_tokenSupply :: "int \<Rightarrow> int"
  ic_palettesPointers :: "nat \<Rightarrow> nat"
  ic_imageSet :: storage_set
  ic_metaSet :: storage_set
  ic_code :: "bytes list"
  ic_events :: "item_event list"

definition empty_set :: storage_set where
  "empty_set = \<lparr>set_pages = [], set_storedCount = 0\<rparr>"

definition new_collection :: "string \<Rightarrow> string \<Rightarrow> string \<Rightarrow> string \<Rightarrow> bytes list \<Rightarrow> item_collection" where
  "new_collection name symbol creator minter code =
     \<lparr>ic_owner = creator, ic_minter = minter, ic_name = name, ic_symbol = symbol, ic_tokenSupply = (\<lambda>_. 0),
      ic_palettesPointers = (\<lambda>_. 0), ic_imageSet = empty_set, ic_metaSet = empty_set, ic_code = code, ic_events = []\<rparr>"

text \<open>A transaction: its sender, which data can be deployed as a contract (its size, the gas), and whether the token
  library mints.\<close>

record item_tx =
  y_sender :: string
  y_deploys :: "bytes \<Rightarrow> bool"
  y_mints :: "string \<Rightarrow> (int \<times> int) list \<Rightarrow> bool"

definition emit_item :: "item_event \<Rightarrow> item_collection \<Rightarrow> item_collection" where
  "emit_item e c = c\<lparr>ic_events := ic_events c @ [e]\<rparr>"

section \<open>Data contracts\<close>

definition sstore_write :: "item_tx \<Rightarrow> bytes \<Rightarrow> item_collection \<Rightarrow> (nat \<times> item_collection) item_result" where
  "sstore_write t data c =
     (if y_deploys t data then Inr (length (ic_code c) + 1, c\<lparr>ic_code := ic_code c @ [data]\<rparr>) else Inl DeploymentFailed)"

text \<open>Without code at the address its length less one underflows.\<close>

definition sstore_read :: "nat \<Rightarrow> item_collection \<Rightarrow> bytes item_result" where
  "sstore_read pointer c =
     (if pointer = 0 \<or> length (ic_code c) < pointer then Inl ItemPanic else Inr (ic_code c ! (pointer - 1)))"

section \<open>Palettes\<close>

definition set_palette :: "item_tx \<Rightarrow> nat \<Rightarrow> bytes \<Rightarrow> item_collection \<Rightarrow> item_collection item_result" where
  "set_palette t paletteIndex palette c =
     (if byte_count palette = 0 then Inl EmptyPalette
      else if byte_count palette mod 3 \<noteq> 0 \<or> 768 < byte_count palette then Inl BadPaletteLength
      else then_do (sstore_write t palette c) (\<lambda>(pointer, c').
             Inr (emit_item (PaletteSet paletteIndex)
               (c'\<lparr>ic_palettesPointers := (ic_palettesPointers c')(paletteIndex := pointer)\<rparr>))))"

definition palettes :: "nat \<Rightarrow> item_collection \<Rightarrow> bytes item_result" where
  "palettes paletteIndex c =
     (let pointer = ic_palettesPointers c paletteIndex
      in if pointer = 0 then Inl PaletteNotFound else sstore_read pointer c)"

section \<open>Pages\<close>

definition add_page :: "nat \<Rightarrow> nat \<Rightarrow> nat \<Rightarrow> storage_set \<Rightarrow> storage_set item_result" where
  "add_page pointer decompressedLength itemCount s =
     (if decompressedLength = 0 then Inl BadDecompressedLength
      else if itemCount = 0 then Inl BadItemCount
      else if 2 ^ 256 \<le> set_storedCount s + itemCount then Inl ItemPanic
      else Inr \<lparr>set_pages = set_pages s @ [\<lparr>page_itemCount = itemCount, page_decompressedLength = decompressedLength,
                  page_pointer = pointer\<rparr>],
                set_storedCount = set_storedCount s + itemCount\<rparr>)"

text \<open>The two storage sets of a collection.\<close>

datatype which_set = Images | Metas

definition the_set :: "which_set \<Rightarrow> item_collection \<Rightarrow> storage_set" where
  "the_set w c = (case w of Images \<Rightarrow> ic_imageSet c | Metas \<Rightarrow> ic_metaSet c)"

definition put_set :: "which_set \<Rightarrow> storage_set \<Rightarrow> item_collection \<Rightarrow> item_collection" where
  "put_set w s c = (case w of Images \<Rightarrow> c\<lparr>ic_imageSet := s\<rparr> | Metas \<Rightarrow> c\<lparr>ic_metaSet := s\<rparr>)"

definition add_pointer_page :: "which_set \<Rightarrow> nat \<Rightarrow> nat \<Rightarrow> nat \<Rightarrow> item_collection \<Rightarrow> item_collection item_result" where
  "add_pointer_page w pointer decompressedLength itemCount c =
     then_do (add_page pointer decompressedLength itemCount (the_set w c)) (\<lambda>s. Inr (put_set w s c))"

definition add_data_page :: "item_tx \<Rightarrow> which_set \<Rightarrow> bytes \<Rightarrow> nat \<Rightarrow> nat \<Rightarrow> item_collection \<Rightarrow> item_collection item_result" where
  "add_data_page t w encodedCompressed decompressedLength itemCount c =
     (if byte_count encodedCompressed = 0 then Inl EmptyBytes
      else then_do (sstore_write t encodedCompressed c) (\<lambda>(pointer, c').
             add_pointer_page w pointer decompressedLength itemCount c'))"

definition added :: "which_set \<Rightarrow> nat \<Rightarrow> item_event" where
  "added w n = (case w of Images \<Rightarrow> ImagesAdded n | Metas \<Rightarrow> MetaAdded n)"

record add_items_args =
  ai_encodedImagesCompressed :: bytes
  ai_decompressedImagesLength :: nat
  ai_imageCount :: nat
  ai_encodedMetaCompressed :: bytes
  ai_decompressedMetaLength :: nat
  ai_metaCount :: nat
  ai_paletteIndex :: nat
  ai_palette :: bytes

definition addItems :: "item_tx \<Rightarrow> add_items_args \<Rightarrow> item_collection \<Rightarrow> item_collection item_result" where
  "addItems t a c =
     then_do (add_data_page t Images (ai_encodedImagesCompressed a) (ai_decompressedImagesLength a) (ai_imageCount a) c) (\<lambda>c1.
     then_do (add_data_page t Metas (ai_encodedMetaCompressed a) (ai_decompressedMetaLength a) (ai_metaCount a)
                (emit_item (ImagesAdded (ai_imageCount a)) c1)) (\<lambda>c2.
     let c3 = emit_item (MetaAdded (ai_metaCount a)) c2
     in if byte_count (ai_palette a) \<noteq> 0 then set_palette t (ai_paletteIndex a) (ai_palette a) c3 else Inr c3))"

section \<open>Minting\<close>

definition add_supply :: "int \<Rightarrow> int \<Rightarrow> item_collection \<Rightarrow> item_collection item_result" where
  "add_supply i amount c =
     (if 2 ^ 256 \<le> ic_tokenSupply c i + amount then Inl ItemPanic
      else Inr (c\<lparr>ic_tokenSupply := (ic_tokenSupply c)(i := ic_tokenSupply c i + amount)\<rparr>))"

fun add_supplies :: "int list \<Rightarrow> int list \<Rightarrow> item_collection \<Rightarrow> item_collection item_result" where
  "add_supplies [] amounts c = Inr c"
| "add_supplies (i # ids) [] c = Inl ItemPanic"
| "add_supplies (i # ids) (a # amounts) c = then_do (add_supply i a c) (add_supplies ids amounts)"

definition mint :: "item_tx \<Rightarrow> string \<Rightarrow> int \<Rightarrow> int \<Rightarrow> item_collection \<Rightarrow> item_collection item_result" where
  "mint t account i amount c =
     (if y_sender t \<noteq> ic_minter c then Inl SenderNotMinter
      else if \<not> y_mints t account [(i, amount)] then Inl MintRefused
      else add_supply i amount c)"

definition mintBatch :: "item_tx \<Rightarrow> string \<Rightarrow> int list \<Rightarrow> int list \<Rightarrow> item_collection \<Rightarrow> item_collection item_result" where
  "mintBatch t account ids amounts c =
     (if y_sender t \<noteq> ic_minter c then Inl SenderNotMinter
      else if \<not> y_mints t account (zip ids amounts) then Inl MintRefused
      else add_supplies ids amounts c)"

section \<open>Calls\<close>

datatype item_function =
    Mint string int int
  | MintBatch string "int list" "int list"
  | SetPalette nat bytes
  | AddItems add_items_args
  | AddData which_set bytes nat nat
  | SetPalettePointer nat nat
  | AddFromPointer which_set nat nat nat
  | SetMinter string
  | TransferOwnership string

fun item_owned :: "item_tx \<Rightarrow> item_function \<Rightarrow> item_collection \<Rightarrow> item_collection item_result" where
  "item_owned t (SetPalette i p) c = set_palette t i p c"
| "item_owned t (AddItems a) c = addItems t a c"
| "item_owned t (AddData w data decompressedLength n) c =
     then_do (add_data_page t w data decompressedLength n c) (\<lambda>c'. Inr (emit_item (added w n) c'))"
| "item_owned t (SetPalettePointer i pointer) c =
     Inr (emit_item (PaletteSet i) (c\<lparr>ic_palettesPointers := (ic_palettesPointers c)(i := pointer)\<rparr>))"
| "item_owned t (AddFromPointer w pointer decompressedLength n) c =
     then_do (add_pointer_page w pointer decompressedLength n c) (\<lambda>c'. Inr (emit_item (added w n) c'))"
| "item_owned t (SetMinter m) c = Inr (emit_item (MinterUpdated m) (c\<lparr>ic_minter := m\<rparr>))"
| "item_owned t (TransferOwnership newOwner) c =
     (if newOwner = zero_address then Inl NewOwnerZero
      else Inr (emit_item (OwnershipTransferred (ic_owner c) newOwner) (c\<lparr>ic_owner := newOwner\<rparr>)))"
| "item_owned t _ c = Inr c"

fun item_dispatch :: "item_tx \<Rightarrow> item_function \<Rightarrow> item_collection \<Rightarrow> item_collection item_result" where
  "item_dispatch t (Mint account i amount) c = mint t account i amount c"
| "item_dispatch t (MintBatch account ids amounts) c = mintBatch t account ids amounts c"
| "item_dispatch t f c = (if y_sender t \<noteq> ic_owner c then Inl SenderNotOwner else item_owned t f c)"

text \<open>Arguments that do not fit their types are refused before the function starts: the identifiers and amounts are
  \<open>uint256\<close>, the index of a palette \<open>uint8\<close>, a decompressed length \<open>uint80\<close>, a count of items \<open>uint16\<close>.\<close>

definition page_args_ok :: "nat \<Rightarrow> nat \<Rightarrow> bool" where
  "page_args_ok decompressedLength itemCount = (decompressedLength < 2 ^ 80 \<and> itemCount < 2 ^ 16)"

fun calldata_ok :: "item_function \<Rightarrow> bool" where
  "calldata_ok (Mint _ i amount) = (0 \<le> i \<and> i < 2 ^ 256 \<and> 0 \<le> amount \<and> amount < 2 ^ 256)"
| "calldata_ok (MintBatch _ ids amounts) = list_all (\<lambda>n. 0 \<le> n \<and> n < 2 ^ 256) (ids @ amounts)"
| "calldata_ok (SetPalette i _) = (i < 2 ^ 8)"
| "calldata_ok (AddItems a) = (page_args_ok (ai_decompressedImagesLength a) (ai_imageCount a)
     \<and> page_args_ok (ai_decompressedMetaLength a) (ai_metaCount a) \<and> ai_paletteIndex a < 2 ^ 8)"
| "calldata_ok (AddData _ _ decompressedLength n) = page_args_ok decompressedLength n"
| "calldata_ok (SetPalettePointer i _) = (i < 2 ^ 8)"
| "calldata_ok (AddFromPointer _ _ decompressedLength n) = page_args_ok decompressedLength n"
| "calldata_ok _ = True"

definition item_call :: "item_tx \<Rightarrow> item_function \<Rightarrow> item_collection \<Rightarrow> item_collection item_result" where
  "item_call t f c = (if calldata_ok f then item_dispatch t f c else Inl BadCalldata)"

text \<open>What happens to a collection: a call, or data deployed by someone else.\<close>

datatype item_step = ItemCall item_tx item_function | DataDeployed bytes

fun item_transact :: "item_step \<Rightarrow> item_collection \<Rightarrow> item_collection" where
  "item_transact (ItemCall t f) c = (case item_call t f c of Inl e \<Rightarrow> c | Inr c' \<Rightarrow> c')"
| "item_transact (DataDeployed data) c = c\<lparr>ic_code := ic_code c @ [data]\<rparr>"

section \<open>Reading\<close>

record item_lib =
  il_puff :: "bytes \<Rightarrow> nat \<Rightarrow> bytes option"
  il_decode :: "bytes \<Rightarrow> bytes list option"
  il_text :: "bytes \<Rightarrow> string"
  il_generateSVG :: "(bytes \<times> bytes) list \<Rightarrow> string \<Rightarrow> string"
  il_base64 :: "string \<Rightarrow> string"

text \<open>The index is never below the first index of the page that is looked at.\<close>

fun get_page :: "storage_page list \<Rightarrow> nat \<Rightarrow> nat \<Rightarrow> (storage_page \<times> nat) item_result" where
  "get_page [] pageFirstItemIndex index = Inl ItemNotFound"
| "get_page (page # pages) pageFirstItemIndex index =
     (if index < pageFirstItemIndex + page_itemCount page then Inr (page, index - pageFirstItemIndex)
      else get_page pages (pageFirstItemIndex + page_itemCount page) index)"

definition decompressAndDecode :: "item_lib \<Rightarrow> storage_page \<Rightarrow> item_collection \<Rightarrow> bytes list item_result" where
  "decompressAndDecode lib page c =
     then_do (sstore_read (page_pointer page) c) (\<lambda>compressedData.
       case il_puff lib compressedData (page_decompressedLength page) of
         None \<Rightarrow> Inl InflatorFailed
       | Some decompressedData \<Rightarrow>
           (case il_decode lib decompressedData of None \<Rightarrow> Inl DecodingFailed | Some items \<Rightarrow> Inr items))"

definition page_item :: "item_lib \<Rightarrow> storage_page \<Rightarrow> nat \<Rightarrow> item_collection \<Rightarrow> bytes item_result" where
  "page_item lib page indexInPage c =
     then_do (decompressAndDecode lib page c) (\<lambda>items. if indexInPage < length items then Inr (items ! indexInPage) else Inl ItemPanic)"

definition itemBytesByIndex :: "item_lib \<Rightarrow> which_set \<Rightarrow> nat \<Rightarrow> item_collection \<Rightarrow> bytes item_result" where
  "itemBytesByIndex lib w index c =
     then_do (get_page (set_pages (the_set w c)) 0 index) (\<lambda>(page, indexInPage). page_item lib page indexInPage c)"

definition exists_item :: "nat \<Rightarrow> item_collection \<Rightarrow> bool" where
  "exists_item tokenId c = (tokenId < set_storedCount (ic_imageSet c))"

definition getImageBytes :: "item_lib \<Rightarrow> nat \<Rightarrow> item_collection \<Rightarrow> bytes item_result" where
  "getImageBytes lib tokenId c =
     (if exists_item tokenId c then itemBytesByIndex lib Images tokenId c else Inl NonexistentToken)"

definition getMetaBytes :: "item_lib \<Rightarrow> nat \<Rightarrow> item_collection \<Rightarrow> bytes item_result" where
  "getMetaBytes lib tokenId c =
     (if exists_item tokenId c then itemBytesByIndex lib Metas tokenId c else Inl NonexistentToken)"

definition generateMeta :: "item_lib \<Rightarrow> nat \<Rightarrow> item_collection \<Rightarrow> string item_result" where
  "generateMeta lib tokenId c = then_do (itemBytesByIndex lib Metas tokenId c) (\<lambda>b. Inr (il_text lib b))"

definition totalSupply :: "nat \<Rightarrow> item_collection \<Rightarrow> int item_result" where
  "totalSupply tokenId c = (if exists_item tokenId c then Inr (ic_tokenSupply c (int tokenId)) else Inl NonexistentToken)"

text \<open>The palette of a part is the one its first byte names.\<close>

definition part_palette :: "bytes \<Rightarrow> item_collection \<Rightarrow> bytes item_result" where
  "part_palette item c =
     (case parse_hex (substring 2 4 item) of
        None \<Rightarrow> Inl ItemPanic
      | Some i \<Rightarrow> palettes (nat i) c)"

definition part_of :: "item_lib \<Rightarrow> nat \<Rightarrow> item_collection \<Rightarrow> (bytes \<times> bytes) item_result" where
  "part_of lib tokenId c =
     then_do (itemBytesByIndex lib Images tokenId c) (\<lambda>item. then_do (part_palette item c) (\<lambda>p. Inr (item, p)))"

definition getPart :: "item_lib \<Rightarrow> nat \<Rightarrow> item_collection \<Rightarrow> (bytes \<times> bytes) item_result" where
  "getPart lib tokenId c = (if exists_item tokenId c then part_of lib tokenId c else Inl NonexistentToken)"

definition generateImage :: "item_lib \<Rightarrow> nat \<Rightarrow> item_collection \<Rightarrow> string item_result" where
  "generateImage lib tokenId c =
     then_do (part_of lib tokenId c) (\<lambda>part. Inr (il_base64 lib (il_generateSVG lib [part] '''')))"

definition dataURI :: "item_lib \<Rightarrow> nat \<Rightarrow> item_collection \<Rightarrow> string item_result" where
  \<open>dataURI lib tokenId c =
     (if \<not> exists_item tokenId c then Inl NonexistentToken
      else then_do (generateMeta lib tokenId c) (\<lambda>metadata.
           then_do (generateImage lib tokenId c) (\<lambda>image.
             Inr (''data:application/json;base64,'' @ il_base64 lib
               (''{'' @ metadata @ '', "image": "data:image/svg+xml;base64,'' @ image @ ''" }'')))))\<close>


section \<open>Growth\<close>

text \<open>A collection only grows: nothing already stored is moved or changed.\<close>

definition set_grows :: "storage_set \<Rightarrow> storage_set \<Rightarrow> bool" where
  "set_grows s s' \<longleftrightarrow> (\<exists>new. set_pages s' = set_pages s @ new)"

definition grows :: "item_collection \<Rightarrow> item_collection \<Rightarrow> bool" where
  "grows c c' \<longleftrightarrow> (\<exists>data. ic_code c' = ic_code c @ data) \<and> (\<forall>w. set_grows (the_set w c) (the_set w c'))"

lemma grows_refl [simp, intro]: "grows c c"
  by (simp add: grows_def set_grows_def)

lemma grows_trans [trans]: "grows a b \<Longrightarrow> grows b c \<Longrightarrow> grows a c"
  unfolding grows_def set_grows_def by (metis append_assoc)

lemma the_put_set [simp]: "the_set w (put_set w' s c) = (if w = w' then s else the_set w c)" "ic_code (put_set w s c) = ic_code c"
  by (cases w; cases w'; simp add: the_set_def put_set_def)+

lemma put_set_keeps [simp]:
  "ic_owner (put_set w s c) = ic_owner c" "ic_minter (put_set w s c) = ic_minter c"
  "ic_tokenSupply (put_set w s c) = ic_tokenSupply c" "ic_palettesPointers (put_set w s c) = ic_palettesPointers c"
  by (cases w; simp add: put_set_def)+

lemma the_set_keeps [simp]:
  "the_set w (c\<lparr>ic_owner := a\<rparr>) = the_set w c" "the_set w (c\<lparr>ic_minter := a\<rparr>) = the_set w c"
  "the_set w (c\<lparr>ic_tokenSupply := s\<rparr>) = the_set w c" "the_set w (c\<lparr>ic_palettesPointers := p\<rparr>) = the_set w c"
  "the_set w (c\<lparr>ic_code := d\<rparr>) = the_set w c" "the_set w (c\<lparr>ic_events := es\<rparr>) = the_set w c"
  by (cases w; simp add: the_set_def)+

lemma emit_item_keeps [simp]:
  "the_set w (emit_item e c) = the_set w c" "ic_code (emit_item e c) = ic_code c" "ic_owner (emit_item e c) = ic_owner c"
  "ic_minter (emit_item e c) = ic_minter c" "ic_palettesPointers (emit_item e c) = ic_palettesPointers c"
  "ic_tokenSupply (emit_item e c) = ic_tokenSupply c"
  by (simp_all add: emit_item_def)

lemma sstore_write_effect:
  "sstore_write t data c = Inr (p, c') \<longleftrightarrow> y_deploys t data \<and> p = length (ic_code c) + 1 \<and> c' = c\<lparr>ic_code := ic_code c @ [data]\<rparr>"
  by (auto simp: sstore_write_def)

lemma add_page_effect:
  "add_page pointer n k s = Inr s' \<longleftrightarrow> n \<noteq> 0 \<and> k \<noteq> 0 \<and> set_storedCount s + k < 2 ^ 256
     \<and> s' = \<lparr>set_pages = set_pages s @ [\<lparr>page_itemCount = k, page_decompressedLength = n, page_pointer = pointer\<rparr>],
             set_storedCount = set_storedCount s + k\<rparr>"
  by (auto simp: add_page_def)

lemma add_data_page_effect:
  assumes "add_data_page t w data n k c = Inr c'"
  shows "grows c c'" "ic_code c' = ic_code c @ [data]" "ic_owner c' = ic_owner c" "ic_minter c' = ic_minter c"
    "ic_tokenSupply c' = ic_tokenSupply c" "ic_palettesPointers c' = ic_palettesPointers c"
    "the_set v c' = (if v = w then \<lparr>set_pages = set_pages (the_set w c) @ [\<lparr>page_itemCount = k, page_decompressedLength = n,
        page_pointer = length (ic_code c) + 1\<rparr>], set_storedCount = set_storedCount (the_set w c) + k\<rparr> else the_set v c)"
  using assms
  by (auto simp: add_data_page_def add_pointer_page_def sstore_write_effect add_page_effect grows_def set_grows_def split: if_splits)

lemma set_palette_effect:
  assumes "set_palette t i p c = Inr c'"
  shows "c' = emit_item (PaletteSet i) (c\<lparr>ic_code := ic_code c @ [p],
      ic_palettesPointers := (ic_palettesPointers c)(i := length (ic_code c) + 1)\<rparr>)"
    "byte_count p \<noteq> 0" "byte_count p mod 3 = 0" "byte_count p \<le> 768"
  using assms by (auto simp: set_palette_def sstore_write_effect split: if_splits)

lemma add_supplies_effect:
  assumes "add_supplies ids amounts c = Inr c'"
  shows "\<exists>s. c' = c\<lparr>ic_tokenSupply := s\<rparr>"
  using assms
proof (induction ids amounts c rule: add_supplies.induct)
  case (1 amounts c)
  then show ?case by (intro exI [of _ "ic_tokenSupply c"]) simp
next
  case (3 i ids a amounts c)
  then obtain c1 where c1: "add_supply i a c = Inr c1" "add_supplies ids amounts c1 = Inr c'" by auto
  then obtain s where "c1 = c\<lparr>ic_tokenSupply := s\<rparr>" by (auto simp: add_supply_def split: if_splits)
  then show ?case using "3.IH" [OF c1(2)] by auto
qed simp


section \<open>Every call\<close>

text \<open>What the steps of an item collection have in common: a law for the pages, the palettes and the supplies,
  which every call then keeps.\<close>

locale collection_law =
  fixes law :: "item_collection \<Rightarrow> item_collection \<Rightarrow> bool"
  assumes law_refl: "law c c"
    and law_trans: "law c c1 \<Longrightarrow> law c1 c2 \<Longrightarrow> law c c2"
    and law_data: "law c (c\<lparr>ic_code := ic_code c @ [data]\<rparr>)"
    and law_page: "add_page pointer n k (the_set w c) = Inr s \<Longrightarrow> law c (put_set w s c)"
    and law_emit: "law c (emit_item e c)"
    and law_palette: "law c (c\<lparr>ic_palettesPointers := p\<rparr>)"
    and law_supply: "law c (c\<lparr>ic_tokenSupply := u\<rparr>)"
    and law_owner: "law c (c\<lparr>ic_owner := who\<rparr>)"
    and law_minter: "law c (c\<lparr>ic_minter := who\<rparr>)"
begin

lemma law_data_page:
  assumes "add_data_page t w data n k c = Inr c'"
  shows "law c c'"
proof -
  let ?c = "c\<lparr>ic_code := ic_code c @ [data]\<rparr>"
  obtain p s where "add_page p n k (the_set w ?c) = Inr s" "c' = put_set w s ?c"
    using assms by (auto simp: add_data_page_def add_pointer_page_def sstore_write_effect split: if_splits)
  then show ?thesis using law_trans [OF law_data law_page] by blast
qed

lemma law_set_palette:
  assumes "set_palette t i p c = Inr c'"
  shows "law c c'"
proof -
  let ?c = "c\<lparr>ic_code := ic_code c @ [p]\<rparr>"
  have "law c (emit_item e (?c\<lparr>ic_palettesPointers := q\<rparr>))" for e q
    by (rule law_trans [OF law_trans [OF law_data law_palette] law_emit])
  then show ?thesis unfolding set_palette_effect(1) [OF assms] by simp
qed

lemma law_then_emit: "law c c1 \<Longrightarrow> law c (emit_item e c1)"
  using law_trans law_emit by blast

lemma law_add_items:
  assumes "addItems t a c = Inr c'"
  shows "law c c'"
proof -
  obtain c1 c2 where c12: "add_data_page t Images (ai_encodedImagesCompressed a) (ai_decompressedImagesLength a) (ai_imageCount a) c = Inr c1"
    "add_data_page t Metas (ai_encodedMetaCompressed a) (ai_decompressedMetaLength a) (ai_metaCount a) (emit_item (ImagesAdded (ai_imageCount a)) c1) = Inr c2"
    "c' = emit_item (MetaAdded (ai_metaCount a)) c2 \<or> set_palette t (ai_paletteIndex a) (ai_palette a) (emit_item (MetaAdded (ai_metaCount a)) c2) = Inr c'"
    using assms by (auto simp: addItems_def Let_def split: if_splits)
  have "law c (emit_item (MetaAdded (ai_metaCount a)) c2)"
    by (intro law_then_emit law_trans [OF law_then_emit [OF law_data_page [OF c12(1)]] law_data_page [OF c12(2)]])
  then show ?thesis using c12(3) law_set_palette law_trans by blast
qed

lemma law_owned:
  assumes "item_owned t f c = Inr c'"
  shows "law c c'"
proof (cases f)
  case (AddFromPointer w p n k)
  then show ?thesis using assms by (auto simp: add_pointer_page_def intro: law_then_emit law_page)
qed (use assms in \<open>auto split: if_splits intro: law_refl law_set_palette law_add_items law_then_emit law_data_page law_minter law_owner law_palette\<close>)

lemma law_call:
  assumes "item_call t f c = Inr c'"
  shows "law c c'"
proof -
  have "law c c'" if "mint t account i amount c = Inr c'" for account i amount
    using that by (auto simp: mint_def add_supply_def split: if_splits intro: law_supply)
  moreover have "law c c'" if "mintBatch t account ids amounts c = Inr c'" for account ids amounts
    using that by (auto simp: mintBatch_def split: if_splits dest!: add_supplies_effect intro: law_supply)
  moreover have "item_dispatch t f c = Inr c'" using assms by (simp add: item_call_def split: if_splits)
  ultimately show ?thesis by (cases f) (auto split: if_splits intro: law_owned simp del: item_owned.simps)
qed

lemma law_step: "law c (item_transact st c)"
  by (cases st) (auto split: sum.split intro: law_refl law_data law_call)

lemma law_run: "law c (fold item_transact sts c)"
  by (induction sts arbitrary: c) (auto intro: law_refl law_trans law_step)

end

interpretation growth: collection_law grows
proof
  show "grows c (put_set w s c)" if "add_page pointer n k (the_set w c) = Inr s" for pointer n k w c s
    using that by (auto simp: grows_def set_grows_def add_page_effect)
  show "grows c (emit_item e c)" "grows c (c\<lparr>ic_owner := a\<rparr>)" "grows c (c\<lparr>ic_minter := a\<rparr>)" "grows c (c\<lparr>ic_palettesPointers := p\<rparr>)"
    "grows c (c\<lparr>ic_tokenSupply := u\<rparr>)" "grows c (c\<lparr>ic_code := ic_code c @ [data]\<rparr>)" for c e a p u data
    by (simp_all add: grows_def set_grows_def)
qed (auto intro: grows_trans)

text \<open>The number of items is that of the pages.\<close>

definition counted :: "storage_set \<Rightarrow> bool" where
  "counted s \<longleftrightarrow> set_storedCount s = sum_list (map page_itemCount (set_pages s))"

definition counts_kept :: "item_collection \<Rightarrow> item_collection \<Rightarrow> bool" where
  "counts_kept c c' \<longleftrightarrow> ((\<forall>w. counted (the_set w c)) \<longrightarrow> (\<forall>w. counted (the_set w c')))"

interpretation counts: collection_law counts_kept
  by unfold_locales
    (auto simp: counts_kept_def counted_def add_page_effect)


section \<open>The list of items\<close>

abbreviation item_count :: "storage_page list \<Rightarrow> nat" where
  "item_count ps \<equiv> sum_list (map page_itemCount ps)"

text \<open>What the pages hold, one after the other: the loop of \<open>_getPage\<close> is a lookup in this list.\<close>

definition page_items :: "item_lib \<Rightarrow> item_collection \<Rightarrow> storage_page \<Rightarrow> bytes item_result list" where
  "page_items lib c p = map (\<lambda>j. page_item lib p j c) [0..<page_itemCount p]"

definition all_items :: "item_lib \<Rightarrow> which_set \<Rightarrow> item_collection \<Rightarrow> bytes item_result list" where
  "all_items lib w c = concat (map (page_items lib c) (set_pages (the_set w c)))"

lemma length_pages [simp]: "length (concat (map (page_items lib c) ps)) = item_count ps"
  by (induction ps) (simp_all add: page_items_def)

lemma get_page_lookup:
  "first \<le> k \<Longrightarrow> then_do (get_page ps first k) (\<lambda>(page, j). page_item lib page j c)
     = (if k < first + item_count ps then concat (map (page_items lib c) ps) ! (k - first) else Inl ItemNotFound)"
proof (induction ps first k rule: get_page.induct)
  case (2 page pages first k)
  then show ?case
  proof (cases "k < first + page_itemCount page")
    case True
    then have "k - first < page_itemCount page" using "2.prems" by linarith
    with True show ?thesis by (simp add: nth_append page_items_def)
  next
    case False
    then have "\<not> k - first < page_itemCount page" by linarith
    moreover have "length (page_items lib c page) = page_itemCount page" by (simp add: page_items_def)
    ultimately show ?thesis using False "2.IH" by (simp add: nth_append add.assoc)
  qed
qed simp

lemma item_lookup:
  "itemBytesByIndex lib w k c = (if k < item_count (set_pages (the_set w c)) then all_items lib w c ! k else Inl ItemNotFound)"
  using get_page_lookup [of 0 k "set_pages (the_set w c)" lib c] by (simp add: itemBytesByIndex_def all_items_def)

lemma sstore_read_grows: "grows c c' \<Longrightarrow> sstore_read p c = Inr d \<Longrightarrow> sstore_read p c' = Inr d"
  by (auto simp: grows_def sstore_read_def nth_append split: if_splits)

lemma page_item_grows:
  assumes "grows c c'" "page_item lib p j c = Inr b"
  shows "page_item lib p j c' = Inr b"
  using assms(2) sstore_read_grows [OF assms(1)]
  by (fastforce simp: page_item_def decompressAndDecode_def split: option.splits if_splits)

lemma item_bytes_grows:
  assumes "grows c c'" "itemBytesByIndex lib w k c = Inr b"
  shows "itemBytesByIndex lib w k c' = Inr b"
proof -
  obtain new where new: "set_pages (the_set w c') = set_pages (the_set w c) @ new"
    using assms(1) by (auto simp: grows_def set_grows_def)
  obtain p j where p: "get_page (set_pages (the_set w c)) 0 k = Inr (p, j)" "page_item lib p j c = Inr b"
    using assms(2) by (auto simp: itemBytesByIndex_def)
  have "get_page ps f k = Inr r \<Longrightarrow> get_page (ps @ qs) f k = Inr r" for ps qs f r
    by (induction ps f k rule: get_page.induct) (auto split: if_splits)
  with p page_item_grows [OF assms(1)] show ?thesis by (auto simp: itemBytesByIndex_def new)
qed

lemma new_collection_counted: "counted (the_set w (new_collection name symbol creator minter code))"
  by (cases w) (simp_all add: the_set_def new_collection_def empty_set_def counted_def)

lemma run_counted:
  "counted (the_set w (fold item_transact sts (new_collection name symbol creator minter code)))"
  using counts.law_run [of "new_collection name symbol creator minter code" sts] new_collection_counted
  by (auto simp: counts_kept_def)

text \<open>The items of a collection are a list: an item exists when its number is below the number of images, and reading it
  reads the list.\<close>

theorem item_list_refines:
  assumes "c = fold item_transact sts (new_collection name symbol creator minter code)"
  shows "length (all_items lib w c) = set_storedCount (the_set w c)
    \<and> itemBytesByIndex lib w k c = (if k < length (all_items lib w c) then all_items lib w c ! k else Inl ItemNotFound)
    \<and> (exists_item k c \<longleftrightarrow> k < length (all_items lib Images c))"
  using run_counted [of w sts name symbol creator minter code] run_counted [of Images sts name symbol creator minter code]
  unfolding item_lookup assms [symmetric] by (simp add: all_items_def counted_def exists_item_def the_set_def)

lemma exists_grows:
  assumes "grows c c'" "\<forall>w. counted (the_set w c)" "\<forall>w. counted (the_set w c')" "exists_item k c"
  shows "exists_item k c'"
proof -
  have c: "counted (ic_imageSet c)" "counted (ic_imageSet c')" using assms(2,3) by (metis the_set_def which_set.case(1))+
  obtain new where "set_pages (ic_imageSet c') = set_pages (ic_imageSet c) @ new"
    using assms(1) by (auto simp: grows_def set_grows_def dest!: spec [of _ Images] simp: the_set_def)
  then show ?thesis using c assms(4) by (simp add: counted_def exists_item_def)
qed

text \<open>C6. Items are permanent.  What a collection has once returned as the image or the text of an item, it returns after
  any further calls, whoever makes them, and data deployed by others.\<close>

theorem items_permanent:
  assumes "c = fold item_transact sts (new_collection name symbol creator minter code)" "c' = fold item_transact sts' c"
  shows "(getImageBytes lib k c = Inr b \<longrightarrow> getImageBytes lib k c' = Inr b)
    \<and> (getMetaBytes lib k c = Inr b \<longrightarrow> getMetaBytes lib k c' = Inr b)
    \<and> (generateMeta lib k c = Inr text \<longrightarrow> generateMeta lib k c' = Inr text)"
proof -
  have g: "grows c c'" unfolding assms(2) by (rule growth.law_run)
  have "\<forall>w. counted (the_set w c)" unfolding assms(1) using run_counted by blast
  moreover have "\<forall>w. counted (the_set w c')" using calculation counts.law_run [of c sts'] by (simp add: assms(2) counts_kept_def)
  ultimately have e: "exists_item k c \<Longrightarrow> exists_item k c'" using exists_grows [OF g] by blast
  note i = item_bytes_grows [OF g, of lib _ k]
  show ?thesis by (auto simp: getImageBytes_def getMetaBytes_def generateMeta_def e i split: if_splits)
qed


section \<open>Adding items\<close>

lemma addItems_effect:
  assumes "addItems t a c = Inr c'"
  obtains c1 c2 where
    "add_data_page t Images (ai_encodedImagesCompressed a) (ai_decompressedImagesLength a) (ai_imageCount a) c = Inr c1"
    "add_data_page t Metas (ai_encodedMetaCompressed a) (ai_decompressedMetaLength a) (ai_metaCount a)
       (emit_item (ImagesAdded (ai_imageCount a)) c1) = Inr c2"
    "if byte_count (ai_palette a) \<noteq> 0
     then set_palette t (ai_paletteIndex a) (ai_palette a) (emit_item (MetaAdded (ai_metaCount a)) c2) = Inr c'
     else c' = emit_item (MetaAdded (ai_metaCount a)) c2"
  using assms by (auto simp: addItems_def Let_def split: if_splits)

lemma data_page_items:
  assumes "add_data_page t w data n k c = Inr c'" "counted (the_set w c)"
    and "il_puff lib data n = Some d" "il_decode lib d = Some items" "length items = k" "j < k"
  shows "itemBytesByIndex lib w (set_storedCount (the_set w c) + j) c' = Inr (items ! j)"
proof -
  note e = add_data_page_effect [OF assms(1)]
  let ?p = "\<lparr>page_itemCount = k, page_decompressedLength = n, page_pointer = length (ic_code c) + 1\<rparr>"
  have pages: "set_pages (the_set w c') = set_pages (the_set w c) @ [?p]" by (simp add: e(7))
  have "page_item lib ?p j c' = Inr (items ! j)"
    using assms(3-6) by (simp add: page_item_def decompressAndDecode_def sstore_read_def e(2))
  then show ?thesis
    using assms(2,6) by (simp add: item_lookup all_items_def pages counted_def nth_append) (simp add: page_items_def)
qed

lemma set_palette_palettes:
  assumes "set_palette t i p c = Inr c'"
  shows "palettes i c' = Inr p" "grows c c'" "the_set w c' = the_set w c"
  using growth.law_set_palette [OF assms] by (simp_all add: set_palette_effect(1) [OF assms] palettes_def sstore_read_def Let_def)

lemma addItems_items:
  assumes "addItems t a c = Inr c'" "counted (ic_imageSet c)" "counted (ic_metaSet c)"
    and "il_puff lib (ai_encodedImagesCompressed a) (ai_decompressedImagesLength a) = Some d" "il_decode lib d = Some images"
    and "il_puff lib (ai_encodedMetaCompressed a) (ai_decompressedMetaLength a) = Some e" "il_decode lib e = Some metas"
    and "length images = ai_imageCount a" "length metas = ai_metaCount a"
  shows "set_storedCount (ic_imageSet c') = set_storedCount (ic_imageSet c) + length images"
    "set_storedCount (ic_metaSet c') = set_storedCount (ic_metaSet c) + length metas"
    "j < length images \<Longrightarrow> itemBytesByIndex lib Images (set_storedCount (ic_imageSet c) + j) c' = Inr (images ! j)"
    "j < length metas \<Longrightarrow> itemBytesByIndex lib Metas (set_storedCount (ic_metaSet c) + j) c' = Inr (metas ! j)"
    "byte_count (ai_palette a) \<noteq> 0 \<Longrightarrow> palettes (ai_paletteIndex a) c' = Inr (ai_palette a)"
    "grows c c'"
proof -
  obtain c1 c2 where c1: "add_data_page t Images (ai_encodedImagesCompressed a) (ai_decompressedImagesLength a) (ai_imageCount a) c = Inr c1"
    and c2: "add_data_page t Metas (ai_encodedMetaCompressed a) (ai_decompressedMetaLength a) (ai_metaCount a)
       (emit_item (ImagesAdded (ai_imageCount a)) c1) = Inr c2"
    and c3: "if byte_count (ai_palette a) \<noteq> 0
     then set_palette t (ai_paletteIndex a) (ai_palette a) (emit_item (MetaAdded (ai_metaCount a)) c2) = Inr c'
     else c' = emit_item (MetaAdded (ai_metaCount a)) c2"
    by (rule addItems_effect [OF assms(1)])
  have last: "the_set w c' = the_set w c2" "grows c2 c'" for w
    using c3 set_palette_palettes(2,3) [of t "ai_paletteIndex a" "ai_palette a" "emit_item (MetaAdded (ai_metaCount a)) c2" c']
      growth.law_emit [of c2] by (auto split: if_splits intro: grows_trans)
  have i: "ic_imageSet c = the_set Images c" "ic_metaSet c = the_set Metas c" for c by (simp_all add: the_set_def)
  have sets: "the_set Images c2 = the_set Images c1" "the_set Metas c1 = the_set Metas c"
    using add_data_page_effect(7) [OF c2, of Images] add_data_page_effect(7) [OF c1, of Metas] by simp_all
  show "set_storedCount (ic_imageSet c') = set_storedCount (ic_imageSet c) + length images"
    "set_storedCount (ic_metaSet c') = set_storedCount (ic_metaSet c) + length metas"
    using add_data_page_effect(7) [OF c2, of Metas] add_data_page_effect(7) [OF c1, of Images] assms(8,9)
    by (simp_all add: i last sets)
  have g1: "grows c1 c'" using growth.law_emit growth.law_data_page [OF c2] last(2) by (blast intro: grows_trans)
  show "grows c c'" using growth.law_data_page [OF c1] g1 by (rule grows_trans)
  show "itemBytesByIndex lib Images (set_storedCount (ic_imageSet c) + j) c' = Inr (images ! j)" if "j < length images"
    using data_page_items [OF c1 _ assms(4,5,8)] assms(2,8) that unfolding i by (intro item_bytes_grows [OF g1]) simp
  show "itemBytesByIndex lib Metas (set_storedCount (ic_metaSet c) + j) c' = Inr (metas ! j)" if "j < length metas"
    using data_page_items [OF c2 _ assms(6,7,9)] assms(3,9) that sets(2) unfolding i by (intro item_bytes_grows [OF last(2)]) simp
  show "palettes (ai_paletteIndex a) c' = Inr (ai_palette a)" if "byte_count (ai_palette a) \<noteq> 0"
    using c3 that set_palette_palettes(1) by simp
qed

lemma addItems_accepts:
  assumes "\<forall>d. y_deploys t d" "byte_count (ai_encodedImagesCompressed a) \<noteq> 0" "byte_count (ai_encodedMetaCompressed a) \<noteq> 0"
    and "ai_decompressedImagesLength a \<noteq> 0" "ai_decompressedMetaLength a \<noteq> 0" "ai_imageCount a \<noteq> 0" "ai_metaCount a \<noteq> 0"
    and "set_storedCount (ic_imageSet c) + ai_imageCount a < 2 ^ 256" "set_storedCount (ic_metaSet c) + ai_metaCount a < 2 ^ 256"
    and "byte_count (ai_palette a) mod 3 = 0" "byte_count (ai_palette a) \<le> 768"
  shows "\<exists>c'. addItems t a c = Inr c'"
  using assms
  by (simp add: addItems_def add_data_page_def add_pointer_page_def sstore_write_def add_page_def set_palette_def
      the_set_def put_set_def emit_item_def Let_def)

section \<open>Who may do what\<close>

lemma add_data_page_people: "add_data_page t w data n k c = Inr c' \<Longrightarrow> ic_tokenSupply c' = ic_tokenSupply c"
  by (rule add_data_page_effect(5))

text \<open>Only the owner of a collection changes its items, its palettes and its minter, and only the minter its supplies.\<close>

theorem collection_access:
  assumes "item_call t f c = Inr c'"
  shows "(y_sender t \<noteq> ic_owner c \<longrightarrow> c' = c\<lparr>ic_tokenSupply := ic_tokenSupply c'\<rparr>)
    \<and> (y_sender t \<noteq> ic_minter c \<longrightarrow> ic_tokenSupply c' = ic_tokenSupply c)"
proof -
  have supplies: "ic_tokenSupply c' = ic_tokenSupply c" if "item_owned t f c = Inr c'" for f
  proof (cases f)
    case (AddItems a)
    then have "addItems t a c = Inr c'" using that by simp
    then show ?thesis
      by (rule addItems_effect) (auto dest!: add_data_page_people set_palette_effect(1) split: if_splits)
  qed (use that in \<open>auto simp: add_pointer_page_def dest!: add_data_page_people set_palette_effect(1) split: if_splits\<close>)
  have call: "item_dispatch t f c = Inr c'" using assms by (simp add: item_call_def split: if_splits)
  show ?thesis
  proof (cases f)
    case (Mint account i amount)
    then show ?thesis using call by (auto simp: mint_def add_supply_def split: if_splits)
  next
    case (MintBatch account ids amounts)
    then show ?thesis using call by (auto simp: mintBatch_def dest!: add_supplies_effect split: if_splits)
  qed (use call supplies in \<open>auto split: if_splits simp del: item_owned.simps\<close>)
qed


section \<open>Examples\<close>

definition example_lib :: item_lib where
  "example_lib = \<lparr>il_puff = (\<lambda>b n. Some b), il_decode = (\<lambda>b. Some [b]), il_text = drop 2,
     il_generateSVG = (\<lambda>_ _. ''''), il_base64 = (\<lambda>s. s)\<rparr>"

definition example_item_tx :: "string \<Rightarrow> item_tx" where
  "example_item_tx who = \<lparr>y_sender = who, y_deploys = (\<lambda>_. True), y_mints = (\<lambda>_ _. True)\<rparr>"

definition example_items :: "bytes \<Rightarrow> bytes \<Rightarrow> item_step" where
  "example_items img txt = ItemCall (example_item_tx ''ann'') (AddItems
     \<lparr>ai_encodedImagesCompressed = img, ai_decompressedImagesLength = 1, ai_imageCount = 1,
      ai_encodedMetaCompressed = txt, ai_decompressedMetaLength = 1, ai_metaCount = 1,
      ai_paletteIndex = 0, ai_palette = ''0x000000''\<rparr>)"

definition example_start :: item_collection where
  "example_start = new_collection ''Hats'' ''HAT'' ''ann'' ''mkt'' []"

definition example_before :: "item_step list" where
  "example_before = [example_items ''0xaa'' ''0xbb'']"

definition example_after :: "item_step list" where
  "example_after = [DataDeployed ''0x01'', ItemCall (example_item_tx ''eve'') (SetMinter ''eve''), example_items ''0xcc'' ''0xdd'',
     ItemCall (example_item_tx ''ann'') (SetPalette 0 ''0x000000ff0000'')]"

lemmas item_evaluation = example_before_def example_after_def example_items_def example_item_tx_def example_start_def example_lib_def
  new_collection_def empty_set_def addItems_def add_data_page_def add_pointer_page_def sstore_write_def add_page_def set_palette_def
  the_set_def put_set_def emit_item_def byte_count_def getImageBytes_def generateMeta_def exists_item_def itemBytesByIndex_def
  page_item_def decompressAndDecode_def sstore_read_def item_call_def page_args_ok_def

theorem items_permanent_witness:
  "let c = fold item_transact example_before example_start; c' = fold item_transact example_after c
   in getImageBytes example_lib 0 c = Inr ''0xaa'' \<and> getImageBytes example_lib 0 c' = Inr ''0xaa''
      \<and> generateMeta example_lib 0 c' = Inr ''bb'' \<and> getImageBytes example_lib 1 c' = Inr ''0xcc'' \<and> ic_minter c' = ''mkt''"
proof -
  let ?c = "fold item_transact example_before example_start"
  have "getImageBytes example_lib 0 ?c = Inr ''0xaa''" "generateMeta example_lib 0 ?c = Inr ''bb''"
    by (simp_all add: item_evaluation)
  moreover have "getImageBytes example_lib 1 (fold item_transact example_after ?c) = Inr ''0xcc''"
    "ic_minter (fold item_transact example_after ?c) = ''mkt''"
    by (simp_all add: item_evaluation)
  moreover note items_permanent [OF refl refl, of example_lib 0 example_before "''Hats''" "''HAT''" "''ann''" "''mkt''" "[]" "''0xaa''"
      example_after "''bb''", folded example_start_def]
  ultimately show ?thesis unfolding Let_def by blast
qed

theorem item_list_refines_witness:
  "let c = fold item_transact example_before example_start
   in length (all_items example_lib Images c) = 1 \<and> itemBytesByIndex example_lib Images 0 c = all_items example_lib Images c ! 0"
proof -
  let ?c = "fold item_transact example_before example_start"
  have "set_storedCount (the_set Images ?c) = 1" by (simp add: item_evaluation)
  with item_list_refines [OF refl, of example_lib Images example_before "''Hats''" "''HAT''" "''ann''" "''mkt''" "[]" 0, folded example_start_def]
  show ?thesis unfolding Let_def by (metis One_nat_def zero_less_one)
qed

end
