(* ===== verification/Collection_Page.thy ===== *)
theory Collection_Page imports Market_Pages Item_Contract Composables_Pages Png_Encoder begin

text \<open>
  The page of a collection, \<open>pages/Collection/index.tsx\<close>, and the form of its profile,
  \<open>pages/Collection/EditCollection/index.tsx\<close>: what it loads, the upload of new items and their storage on the chain,
  against the contract of \<open>Item_Contract\<close>.  The packing of the pages (\<open>defaultAbiCoder\<close>, \<open>deflateRawSync\<close>,
  \<open>toUtf8Bytes\<close>) is a parameter.
\<close>

section \<open>State\<close>

record collection_page =
  cp_address :: string
  cp_toggleLoad :: bool
  cp_collection :: "obj option"
  cp_collectionItems :: "composable_item list option"
  cp_listings :: "market_listing list option"
  cp_collectionInfo :: "obj option"
  cp_pendingCollectionItems :: "composable_item list"
  cp_pendingTrait :: "pending_trait option"
  cp_traitValid :: "bool option"
  cp_displayListingForm :: bool
  cp_displayEditCollection :: bool
  cp_displayListingHistory :: bool
  cp_selectedItems :: "composable_item list"
  cp_selectedListing :: "market_listing option"
  cp_formInputs :: "string \<Rightarrow> string option"
  cp_button :: market_button

definition open_collection :: "string \<Rightarrow> collection_page" where
  "open_collection address =
     \<lparr>cp_address = address, cp_toggleLoad = True, cp_collection = None, cp_collectionItems = None, cp_listings = None,
      cp_collectionInfo = None, cp_pendingCollectionItems = [], cp_pendingTrait = None, cp_traitValid = None,
      cp_displayListingForm = False, cp_displayEditCollection = False, cp_displayListingHistory = False,
      cp_selectedItems = [], cp_selectedListing = None, cp_formInputs = Map.empty,
      cp_button = \<lparr>loading = False, label = ''Save On-Chain'', notice = None\<rparr>\<rparr>"

section \<open>Loading\<close>

text \<open>The jobs of the index run first.  Where one throws, nothing is set.\<close>

definition loadCollectionInfo :: "env \<Rightarrow> collection_page \<Rightarrow> db \<Rightarrow> collection_page \<times> db" where
  "loadCollectionInfo en pg d =
     (let a = cp_address pg; d1 = snd (wrap_indexComposableItemCollections en d)
      in case wrap_indexComposableItems en a d1 of
           None \<Rightarrow> (pg, d1)
         | Some (_, d2) \<Rightarrow>
             (let d3 = snd (wrap_indexComposablesMarketListings en d2);
                  d4 = snd (wrap_indexComposablesMarketListingsFilled en d3)
              in (pg\<lparr>cp_collection := getComposableItemCollection en a d4, cp_collectionInfo := wrap_getCollectionInfo en a d4\<rparr>, d4)))"

definition loadCollectionInfoEffect :: "env \<Rightarrow> collection_page \<Rightarrow> db \<Rightarrow> collection_page \<times> db" where
  "loadCollectionInfoEffect en pg d = (if cp_address pg = '''' then (pg, d) else loadCollectionInfo en pg d)"

definition batch_entry :: "obj \<Rightarrow> string \<times> int \<times> js_value" where
  "batch_entry c =
     (as_string (field c ''tokenAddress''), (case as_int (field c ''itemCount'') of Some n \<Rightarrow> n | None \<Rightarrow> 0), field c ''name'')"

definition loadShownItems :: "env \<Rightarrow> db \<Rightarrow> collection_page \<Rightarrow> collection_page" where
  "loadShownItems en d pg =
     (case cp_collection pg of
        None \<Rightarrow> pg
      | Some c \<Rightarrow>
          (case getComposableItemsBatch en [batch_entry c] d of
             None \<Rightarrow> pg
           | Some collectionItemsAll \<Rightarrow>
               pg\<lparr>cp_collectionItems := filterComposableItemByAddress (Some collectionItemsAll) (field c ''tokenAddress''),
                  cp_listings := Some (getComposablesMarketListings en d)\<rparr>))"

section \<open>Uploading an item\<close>

text \<open>The palette read from the chain starts with the spacer \<open>000000\<close>, which stands for the transparent index 0: it is
  replaced in the array of the first item itself.\<close>

definition clear_spacer :: "string list \<Rightarrow> string list" where
  "clear_spacer colors = (case colors of [] \<Rightarrow> [] | c # cs \<Rightarrow> if c = ''000000'' then '''' # cs else c # cs)"

definition clear_item_spacer :: "composable_item \<Rightarrow> composable_item" where
  "clear_item_spacer item = item\<lparr>it_image := (it_image item)\<lparr>ci_palette := clear_spacer (ci_palette (it_image item))\<rparr>\<rparr>"

definition clear_first :: "collection_page \<Rightarrow> collection_page" where
  "clear_first pg =
     (case cp_collectionItems pg of
        Some (item # items) \<Rightarrow> pg\<lparr>cp_collectionItems := Some (clear_item_spacer item # items)\<rparr>
      | _ \<Rightarrow> pg)"

definition upload_palette :: "collection_page \<Rightarrow> string list" where
  "upload_palette pg =
     (if cp_pendingCollectionItems pg \<noteq> [] then ci_palette (it_image (last (cp_pendingCollectionItems pg)))
      else (case cp_collectionItems pg of
              Some (item # _) \<Rightarrow> clear_spacer (ci_palette (it_image item))
            | _ \<Rightarrow> []))"

definition file_stem :: "string \<Rightarrow> string" where
  "file_stem name = (let stem = remove_first ''.png'' name in if stem = '''' then ''custom'' else stem)"

definition item_type :: string where "item_type = ''items''"

definition too_many_colors :: "string \<times> string" where
  "too_many_colors =
     (''File Error'', ''This item will push the total color count of the collection past the allowed limit.'')"

text \<open>A file is its name and what the PNG decoder gives, \<open>None\<close> when it throws.\<close>

definition validateItemFile :: "(string \<times> png option) option \<Rightarrow> collection_page \<Rightarrow> collection_page" where
  "validateItemFile file pg =
     (case file of
        None \<Rightarrow> pg
      | Some (name, content) \<Rightarrow>
          (case content of
             None \<Rightarrow> pg\<lparr>cp_traitValid := Some False\<rparr>
           | Some f \<Rightarrow>
               if png_width f \<noteq> 32 \<or> png_height f \<noteq> 32 then pg\<lparr>cp_traitValid := Some False\<rparr>
               else (let (encoded, encoder) = encodeImage (file_stem name) (png_image f) None (new_encoder (Some (upload_palette pg)));
                         colors = palette (get_data encoder); pg1 = clear_first pg
                     in if 256 < length colors
                        then pg1\<lparr>cp_button := (cp_button pg1)\<lparr>notice := Some too_many_colors\<rparr>, cp_traitValid := Some False\<rparr>
                        else pg1\<lparr>cp_pendingTrait := Some \<lparr>pt_type = item_type, pt_data = encoded, pt_palette = colors,
                                   pt_filename = file_stem name\<rparr>,
                                 cp_traitValid := Some True\<rparr>)))"

definition itemErrorTimeout :: "collection_page \<Rightarrow> collection_page" where
  "itemErrorTimeout pg = pg\<lparr>cp_traitValid := None\<rparr>"

definition pending_item :: "pending_trait \<Rightarrow> composable_item" where
  "pending_item t =
     \<lparr>it_collection = Str ''None'', it_meta = Obj [(''name'', Str (pt_filename t))],
      it_image = \<lparr>ci_filename = pt_filename t, ci_data = Str (pt_data t), ci_palette = pt_palette t\<rparr>,
      it_tokenAddress = Str (pt_filename t), it_tokenId = 0\<rparr>"

definition uploadItem :: "collection_page \<Rightarrow> collection_page" where
  "uploadItem pg =
     (case cp_pendingTrait pg of
        None \<Rightarrow> pg
      | Some t \<Rightarrow>
          if pt_type t = '''' \<or> pt_data t = '''' \<or> pt_filename t = '''' then pg
          else pg\<lparr>cp_pendingCollectionItems := cp_pendingCollectionItems pg @ [pending_item t],
                  cp_pendingTrait := None, cp_traitValid := None\<rparr>)"

section \<open>Saving the items\<close>

definition resetItems :: "collection_page \<Rightarrow> collection_page" where
  "resetItems pg = pg\<lparr>cp_pendingCollectionItems := [], cp_formInputs := Map.empty\<rparr>"

definition itemInputChange :: "string \<Rightarrow> string \<Rightarrow> collection_page \<Rightarrow> collection_page" where
  "itemInputChange target_id v pg = pg\<lparr>cp_formInputs := onFormInputChange target_id v (cp_formInputs pg)\<rparr>"

definition validateItemInputs :: "collection_page \<Rightarrow> bool" where
  "validateItemInputs pg =
     list_all (\<lambda>i. filled_in (form_field (cp_formInputs pg) ''txtName'' i) \<and> filled_in (form_field (cp_formInputs pg) ''txtCreator'' i)
        \<and> filled_in (form_field (cp_formInputs pg) ''selCategory'' i)) [0..<length (cp_pendingCollectionItems pg)]"

definition meta_text :: "string \<Rightarrow> string \<Rightarrow> string \<Rightarrow> string" where
  \<open>meta_text itemName creatorName categoryName =
     ''"name":"'' @ itemName @ ''", "description":"'' @ itemName @ '' '' @ categoryName
       @ ''", "attributes": [{"trait_type": "Category", "value": "'' @ categoryName
       @ ''"}, {"trait_type": "Creator", "value": "'' @ creatorName @ ''"}]''\<close>

definition item_metas :: "collection_page \<Rightarrow> string list" where
  "item_metas pg =
     map (\<lambda>i. meta_text (form_field (cp_formInputs pg) ''txtName'' i) (form_field (cp_formInputs pg) ''txtCreator'' i)
                (form_field (cp_formInputs pg) ''selCategory'' i)) [0..<length (cp_pendingCollectionItems pg)]"

record packer =
  pk_abi_encode :: "bytes list \<Rightarrow> bytes"
  pk_deflate :: "bytes \<Rightarrow> bytes"
  pk_utf8 :: "string \<Rightarrow> bytes"

text \<open>\<open>dataToDescriptorInput\<close>: the compressed array, its length before the compression and its number of elements.\<close>

definition descriptor_input :: "packer \<Rightarrow> bytes list \<Rightarrow> bytes \<times> nat \<times> nat" where
  "descriptor_input pk items =
     (let abiEncoded = pk_abi_encode pk items in (pk_deflate pk abiEncoded, byte_count abiEncoded, length items))"

text \<open>The handler throws (\<open>None\<close>), sends nothing, or sends a call of \<open>addItems\<close>.\<close>

definition saveItems :: "packer \<Rightarrow> collection_page \<Rightarrow> add_items_args option option" where
  "saveItems pk pg =
     (let pending = cp_pendingCollectionItems pg
      in if \<not> validateItemInputs pg then Some None
         else if pending = [] then None
         else (let (images, imagesLength, imageCount) = descriptor_input pk (map (\<lambda>i. as_string (ci_data (it_image i))) pending);
                   (metas, metasLength, metaCount) = descriptor_input pk (map (pk_utf8 pk) (item_metas pg))
               in Some (Some
                    \<lparr>ai_encodedImagesCompressed = images, ai_decompressedImagesLength = imagesLength, ai_imageCount = imageCount,
                     ai_encodedMetaCompressed = metas, ai_decompressedMetaLength = metasLength, ai_metaCount = metaCount,
                     ai_paletteIndex = 0, ai_palette = ''0x000000'' @ concat (ci_palette (it_image (last pending)))\<rparr>)))"

text \<open>What the state of the transaction does: once it succeeds the page forgets the uploads and loads again.\<close>

definition itemsSaved :: "collection_page \<Rightarrow> collection_page" where
  "itemsSaved pg =
     pg\<lparr>cp_pendingCollectionItems := [], cp_formInputs := Map.empty, cp_collection := None, cp_collectionItems := None,
        cp_toggleLoad := \<not> cp_toggleLoad pg\<rparr>"

definition addItemsEffect :: "string option \<Rightarrow> market_status \<Rightarrow> collection_page \<Rightarrow> collection_page" where
  "addItemsEffect errorMessage status pg =
     (let (pg', button) = status_effect ''Save On-Chain'' ''Items successfully saved on-chain!'' ''Transaction Failed''
            errorMessage itemsSaved status (pg, cp_button pg)
      in pg'\<lparr>cp_button := button\<rparr>)"

section \<open>The other controls\<close>

text \<open>\<open>same\<close> is the identity of two item objects.\<close>

definition onItemButtonClick ::
    "(composable_item \<Rightarrow> composable_item \<Rightarrow> bool) \<Rightarrow> composable_item \<Rightarrow> collection_page \<Rightarrow> collection_page" where
  "onItemButtonClick same item pg =
     (let pg1 = (case filterComposableItemMarketListing (cp_listings pg) (it_tokenAddress item) (it_tokenId item) of
                   Some listing \<Rightarrow> pg\<lparr>cp_selectedListing := Some listing\<rparr>
                 | None \<Rightarrow>
                     if \<not> list_ex (\<lambda>selectedItem. same selectedItem item) (cp_selectedItems pg)
                     then pg\<lparr>cp_selectedListing := None, cp_selectedItems := cp_selectedItems pg @ [item]\<rparr>
                     else pg\<lparr>cp_selectedListing := None\<rparr>)
      in pg1\<lparr>cp_displayListingForm := True\<rparr>)"

text \<open>The answer of the listing form: 1 when something was listed or removed, -1 to clear the selection.\<close>

definition listingFormComplete :: "int option \<Rightarrow> collection_page \<Rightarrow> collection_page" where
  "listingFormComplete action pg =
     (let pg1 = (if action = Some 1
                 then pg\<lparr>cp_selectedItems := [], cp_collection := None, cp_collectionItems := None, cp_toggleLoad := \<not> cp_toggleLoad pg\<rparr>
                 else pg);
          pg2 = (if action = Some (-1) then pg1\<lparr>cp_selectedItems := []\<rparr> else pg1)
      in pg2\<lparr>cp_displayListingForm := False\<rparr>)"

definition editCollectionComplete :: "bool \<Rightarrow> collection_page \<Rightarrow> collection_page" where
  "editCollectionComplete updated pg =
     pg\<lparr>cp_toggleLoad := (if updated then \<not> cp_toggleLoad pg else cp_toggleLoad pg), cp_displayEditCollection := False\<rparr>"

definition isOwner :: "string option \<Rightarrow> collection_page \<Rightarrow> bool" where
  "isOwner activeAccount pg =
     (case (activeAccount, cp_collection pg) of
        (Some a, Some c) \<Rightarrow> a \<noteq> '''' \<and> to_lower a = to_lower (as_string (field c ''owner''))
      | _ \<Rightarrow> False)"

definition colorCount :: "collection_page \<Rightarrow> nat" where
  "colorCount pg = (case cp_collectionItems pg of Some (item # _) \<Rightarrow> length (ci_palette (it_image item)) | _ \<Rightarrow> 0)"

definition saveDisabled :: "string option \<Rightarrow> market_status \<Rightarrow> collection_page \<Rightarrow> bool" where
  "saveDisabled activeAccount status pg = (\<not> validateItemInputs pg \<or> status = BeingMined \<or> \<not> truthy_string activeAccount)"

end
