(* ===== verification/Collection_Items.thy ===== *)
theory Collection_Items imports Collection_Page begin

text \<open>
  The way of an item from the file its owner chooses on the page of the collection to the picture the site draws from
  the chain: what a session of uploads keeps (\<open>session_inv\<close>), what the contract stores, and what is drawn of it.
\<close>

section \<open>A session of uploads\<close>

text \<open>What the owner does between the loading of the items and their storage.\<close>

datatype upload_event =
    FileChosen "(string \<times> png option) option"
  | UploadPressed
  | ResetPressed
  | InputChanged string string
  | ErrorTimeout

fun upload_step :: "upload_event \<Rightarrow> collection_page \<Rightarrow> collection_page" where
  "upload_step (FileChosen file) pg = validateItemFile file pg"
| "upload_step UploadPressed pg = uploadItem pg"
| "upload_step ResetPressed pg = resetItems pg"
| "upload_step (InputChanged target_id v) pg = itemInputChange target_id v pg"
| "upload_step ErrorTimeout pg = itemErrorTimeout pg"

text \<open>The channels of a pixel are bytes.\<close>

definition bytes_file :: "png \<Rightarrow> bool" where
  "bytes_file f \<longleftrightarrow> (\<forall>i. png_bytes f i < 256)"

definition event_bytes :: "upload_event \<Rightarrow> bool" where
  "event_bytes e = (case e of FileChosen (Some (_, Some f)) \<Rightarrow> bytes_file f | _ \<Rightarrow> True)"

definition chosen_in :: "upload_event list \<Rightarrow> string \<times> png \<Rightarrow> bool" where
  "chosen_in es f = (FileChosen (Some (fst f, Some (snd f))) \<in> set es)"

definition picture :: "png \<Rightarrow> image" where
  "picture f = new_image (png_width f) (png_height f) (getRgbaAt (png_image f))"

section \<open>Colours\<close>

definition hex_color :: "string \<Rightarrow> bool" where
  "hex_color s \<longleftrightarrow> length s = 6 \<and> list_all (\<lambda>c. \<not> is_line_end c) s"

definition hex_palette :: "nat js_map \<Rightarrow> bool" where
  "hex_palette m \<longleftrightarrow> list_all hex_color (map fst (tl m))"

lemma rgb_hex_color: "r < 256 \<Longrightarrow> g < 256 \<Longrightarrow> b < 256 \<Longrightarrow> hex_color (rgbToHex r g b)"
  by (auto simp: hex_color_def rgbToHex_def toPaddedHex_byte list_all_iff hex_byte_no_line_end)

lemma picture_hex:
  assumes "bytes_file f"
  shows "hex_color (pixel_hex (picture f) p)"
  using assms
  by (cases p) (simp add: pixel_hex_def picture_def new_image_def png_image_def Let_def bytes_file_def rgb_hex_color)

lemma add_colors_hex:
  assumes "hex_palette m" "m \<noteq> []" "\<And>p. hex_color (pixel_hex img p)"
  shows "hex_palette (add_colors img ps m)"
  using assms(1,2)
proof (induction ps arbitrary: m)
  case (Cons p ps)
  have "hex_palette (add_color (pixel_hex img p) m)" "add_color (pixel_hex img p) m \<noteq> []"
    using Cons.prems assms(3) by (auto simp: add_color_def hex_palette_def)
  then show ?case using Cons.IH by simp
qed simp

lemma add_colors_names: "fst ` set (add_colors img ps m) \<subseteq> fst ` set m \<union> range (pixel_hex img)"
proof (induction ps arbitrary: m)
  case (Cons p ps)
  have "fst ` set (add_color (pixel_hex img p) m) \<subseteq> fst ` set m \<union> range (pixel_hex img)" by (auto simp: add_color_def)
  with Cons.IH [of "add_color (pixel_hex img p) m"] show ?case unfolding add_colors_simps by blast
qed simp

text \<open>An encoder made from the names of a palette has this palette.\<close>

lemma update_colors:
  "distinct (map fst m @ cs) \<Longrightarrow> fold (\<lambda>(index, color) m. AList.update color index m) (zip [k..<k + length cs] cs) m
     = m @ zip cs [k..<k + length cs]"
proof (induction cs arbitrary: m k)
  case (Cons c cs)
  have "AList.update c k m = m @ [(c, k)]" using Cons.prems by (intro update_new) auto
  moreover have "fold (\<lambda>(index, color) m. AList.update color index m) (zip [Suc k..<Suc k + length cs] cs) (m @ [(c, k)])
      = (m @ [(c, k)]) @ zip cs [Suc k..<Suc k + length cs]"
    using Cons.prems by (intro Cons.IH) auto
  moreover have "[k..<k + length (c # cs)] = k # [Suc k..<Suc k + length cs]" by (subst upt_conv_Cons) simp_all
  ultimately show ?case by simp
qed simp

lemma encoder_of_palette:
  assumes "palette_ok m"
  shows "enc_colors (new_encoder (Some (map fst m))) = m"
proof -
  obtain cs where m: "map fst m = '''' # cs" using assms by (cases m) (auto simp: palette_ok_def)
  have z: "m = zip (map fst m) [0..<length m]" using assms zip_map_fst_snd [of m] by (simp add: palette_ok_def)
  have len: "length m = Suc (length cs)" using m by (metis length_Cons length_map)
  have "distinct ('''' # cs)" using assms m by (metis palette_ok_def)
  then have "fold (\<lambda>(index, color) m. AList.update color index m) (zip [1..<1 + length cs] cs) [('''', 0)]
      = [('''', 0)] @ zip cs [1..<1 + length cs]" by (intro update_colors) simp
  moreover have zero: "[0..<Suc (length cs)] = 0 # [1..<1 + length cs]" by (subst upt_conv_Cons) simp_all
  moreover have "m = ('''', 0) # zip cs [1..<1 + length cs]"
    using z unfolding m len zero by simp
  ultimately show ?thesis
    unfolding m new_encoder_def by (simp del: upt_Suc)
qed

lemma encoder_of_nothing: "enc_colors (new_encoder (Some [])) = [('''', 0)]"
  by (simp add: new_encoder_def)

lemma start_palette: "palette_ok [('''', 0)]" "hex_palette [('''', 0)]"
  by (simp_all add: palette_ok_def hex_palette_def)


section \<open>What a session keeps\<close>

text \<open>The colours the next upload starts from, and an image encoded from one of the chosen files.\<close>

definition upload_base :: "collection_page \<Rightarrow> nat js_map" where
  "upload_base pg = enc_colors (new_encoder (Some (upload_palette pg)))"

definition start_base :: "composable_item list option \<Rightarrow> nat js_map" where
  "start_base items =
     enc_colors (new_encoder (Some (case items of Some (item # _) \<Rightarrow> clear_spacer (ci_palette (it_image item)) | _ \<Rightarrow> [])))"

definition encoded_in :: "(string \<times> png) \<Rightarrow> nat js_map \<Rightarrow> string \<Rightarrow> bool" where
  "encoded_in f m data \<longleftrightarrow> (\<exists>colors. fits_format (picture (snd f)) colors \<and> data = fst (toRLE (picture (snd f)) colors)
     \<and> palette_extends (fst (snd (toRLE (picture (snd f)) colors))) m)"

lemma encoded_in_extends: "encoded_in f m data \<Longrightarrow> palette_extends m m' \<Longrightarrow> encoded_in f m' data"
  unfolding encoded_in_def using palette_extends_trans by blast

definition item_of_file :: "(string \<times> png \<Rightarrow> bool) \<Rightarrow> nat js_map \<Rightarrow> composable_item \<Rightarrow> bool" where
  "item_of_file chosen m item \<longleftrightarrow> (\<exists>f data. chosen f \<and> it_tokenAddress item = Str (file_stem (fst f))
     \<and> ci_data (it_image item) = Str data \<and> encoded_in f m data)"

text \<open>Where the colours of a palette come from.\<close>

definition colors_from :: "nat js_map \<Rightarrow> (string \<times> png \<Rightarrow> bool) \<Rightarrow> nat js_map \<Rightarrow> bool" where
  "colors_from base chosen m \<longleftrightarrow>
     (\<forall>s \<in> fst ` set m. s \<in> fst ` set base \<or> (\<exists>f p. chosen f \<and> s = pixel_hex (picture (snd f)) p))"

definition trait_of_file :: "nat js_map \<Rightarrow> (string \<times> png \<Rightarrow> bool) \<Rightarrow> nat js_map \<Rightarrow> pending_trait \<Rightarrow> bool" where
  "trait_of_file base chosen m t \<longleftrightarrow> (\<exists>f mt. chosen f \<and> pt_filename t = file_stem (fst f) \<and> pt_palette t = map fst mt
     \<and> palette_extends m mt \<and> hex_palette mt \<and> length mt \<le> 256 \<and> encoded_in f mt (pt_data t) \<and> colors_from base chosen mt)"

definition session_inv :: "nat js_map \<Rightarrow> (string \<times> png \<Rightarrow> bool) \<Rightarrow> collection_page \<Rightarrow> bool" where
  "session_inv base chosen pg \<longleftrightarrow>
     palette_extends base (upload_base pg) \<and> hex_palette (upload_base pg) \<and> colors_from base chosen (upload_base pg)
     \<and> start_base (cp_collectionItems pg) = base \<and> (cp_pendingCollectionItems pg = [] \<longrightarrow> upload_base pg = base)
     \<and> (cp_pendingCollectionItems pg \<noteq> [] \<longrightarrow>
          ci_palette (it_image (last (cp_pendingCollectionItems pg))) = map fst (upload_base pg) \<and> length (upload_base pg) \<le> 256)
     \<and> (\<forall>item \<in> set (cp_pendingCollectionItems pg). item_of_file chosen (upload_base pg) item)
     \<and> (\<forall>t. cp_pendingTrait pg = Some t \<longrightarrow> trait_of_file base chosen (upload_base pg) t)"

lemma palette_extends_refl: "palette_ok m \<Longrightarrow> palette_extends m m"
  by (simp add: palette_extends_def)

lemma hex_extends:
  assumes "palette_extends m m'" "hex_palette m'"
  shows "hex_palette m"
proof -
  obtain new where "m' = m @ new" "m \<noteq> []" using assms(1) by (auto simp: palette_extends_def palette_ok_def)
  then show ?thesis using assms(2) by (simp add: hex_palette_def)
qed

lemma clear_spacer_twice [simp]: "clear_spacer (clear_spacer cs) = clear_spacer cs"
  by (auto simp: clear_spacer_def split: list.split)

lemma start_base_clear [simp]: "start_base (cp_collectionItems (clear_first pg)) = start_base (cp_collectionItems pg)"
  by (auto simp: start_base_def clear_first_def clear_item_spacer_def split: option.splits list.splits)

lemma upload_base_eq:
  "upload_base pg = (if cp_pendingCollectionItems pg \<noteq> []
     then enc_colors (new_encoder (Some (ci_palette (it_image (last (cp_pendingCollectionItems pg)))))) else start_base (cp_collectionItems pg))"
  by (simp add: upload_base_def upload_palette_def start_base_def)

lemma clear_first_keeps [simp]:
  "cp_pendingCollectionItems (clear_first pg) = cp_pendingCollectionItems pg" "cp_pendingTrait (clear_first pg) = cp_pendingTrait pg"
  "cp_formInputs (clear_first pg) = cp_formInputs pg"
  by (auto simp: clear_first_def split: option.splits list.splits)

text \<open>Only the uploads and the pending trait matter.\<close>

lemma session_inv_cong:
  assumes "session_inv base chosen pg" "cp_pendingCollectionItems pg' = cp_pendingCollectionItems pg"
    and "start_base (cp_collectionItems pg') = start_base (cp_collectionItems pg)"
    and "cp_pendingTrait pg' = None \<or> cp_pendingTrait pg' = cp_pendingTrait pg"
  shows "session_inv base chosen pg'"
proof -
  have "upload_base pg' = upload_base pg" using assms(2,3) by (simp add: upload_base_eq)
  then show ?thesis using assms unfolding session_inv_def by auto
qed

lemma encoded_file:
  assumes "png_width f = 32" "png_height f = 32" "bytes_file f" "palette_ok m" "hex_palette m"
    and "encodeImage name (png_image f) None (new_encoder (Some colors)) = (encoded, encoder)"
    and "enc_colors (new_encoder (Some colors)) = m" "length (palette (get_data encoder)) \<le> 256"
  shows "\<exists>mt. palette (get_data encoder) = map fst mt \<and> palette_extends m mt \<and> hex_palette mt \<and> length mt \<le> 256
    \<and> encoded_in (n, f) mt encoded \<and> fst ` set mt \<subseteq> fst ` set m \<union> range (pixel_hex (picture f))"
proof -
  let ?mt = "fst (snd (toRLE (picture f) m))"
  have e: "encoded = fst (toRLE (picture f) m)" "enc_colors encoder = ?mt"
    using assms(6,7) by (auto simp: encodeImage_def Let_def case_prod_unfold picture_def new_image_def png_image_def)
  have mt: "?mt = add_colors (picture f) (bounds_pixels (calcBounds (picture f))) m" by (simp add: toRLE_eq Let_def)
  have len: "length ?mt \<le> 256" using assms(8) by (simp add: get_data_def e)
  have ext: "palette_extends m ?mt" using assms(4) by (rule toRLE_colors)
  have "m \<noteq> []" using assms(4) by (auto simp: palette_ok_def)
  then have "hex_palette ?mt" unfolding mt by (intro add_colors_hex assms(5) picture_hex assms(3))
  moreover have "fits_format (picture f) m"
    using assms(1,2,4) len unfolding mt by (simp add: fits_format_def picture_def new_image_def)
  then have "encoded_in (n, f) ?mt encoded"
    unfolding encoded_in_def e snd_conv using ext by (auto simp: palette_extends_def)
  moreover have "fst ` set ?mt \<subseteq> fst ` set m \<union> range (pixel_hex (picture f))" unfolding mt by (rule add_colors_names)
  ultimately show ?thesis using ext len by (intro exI [of _ ?mt]) (simp add: get_data_def e)
qed

lemma session_step:
  assumes inv: "session_inv base0 chosen pg" and bytes: "event_bytes e"
    and chosen: "\<And>n f. e = FileChosen (Some (n, Some f)) \<Longrightarrow> chosen (n, f)"
  shows "session_inv base0 chosen (upload_step e pg)"
proof (cases e)
  case (FileChosen chosen_file)
  show ?thesis
  proof (cases "\<exists>n f. chosen_file = Some (n, Some f) \<and> png_width f = 32 \<and> png_height f = 32")
    case False
    then have "upload_step e pg = pg \<or> upload_step e pg = pg\<lparr>cp_traitValid := Some False\<rparr>"
      by (auto simp: FileChosen validateItemFile_def split: option.splits)
    then show ?thesis using inv by (auto intro: session_inv_cong)
  next
    case True
    then obtain n f where f: "chosen_file = Some (n, Some f)" "png_width f = 32" "png_height f = 32" by blast
    obtain encoded encoder where enc: "encodeImage (file_stem n) (png_image f) None (new_encoder (Some (upload_palette pg))) = (encoded, encoder)"
      by fastforce
    let ?colors = "palette (get_data encoder)"
    let ?t = "\<lparr>pt_type = item_type, pt_data = encoded, pt_palette = ?colors, pt_filename = file_stem n\<rparr>"
    have clear: "session_inv base0 chosen (clear_first pg)" using inv by (rule session_inv_cong) simp_all
    show ?thesis
    proof (cases "256 < length ?colors")
      case True
      then have "upload_step e pg = clear_first pg\<lparr>cp_button := (cp_button (clear_first pg))\<lparr>notice := Some too_many_colors\<rparr>, cp_traitValid := Some False\<rparr>"
        unfolding FileChosen f(1) upload_step.simps validateItemFile_def option.case prod.case Let_def f(2,3) enc by simp
      then show ?thesis by (simp only:) (rule session_inv_cong [OF clear], simp_all)
    next
      case False
      have channels: "bytes_file f" using bytes by (simp add: FileChosen f(1) event_bytes_def)
      have base: "palette_ok (upload_base pg)" "hex_palette (upload_base pg)" using inv by (auto simp: session_inv_def palette_extends_def)
      have few: "length ?colors \<le> 256" using False by simp
      obtain mt where "?colors = map fst mt" "palette_extends (upload_base pg) mt" "hex_palette mt" "length mt \<le> 256" "encoded_in (n, f) mt encoded"
        and names: "fst ` set mt \<subseteq> fst ` set (upload_base pg) \<union> range (pixel_hex (picture f))"
        using encoded_file [OF f(2,3) channels base enc upload_base_def [symmetric] few, of n] by blast
      moreover have known: "chosen (n, f)" using chosen by (simp add: FileChosen f(1))
      have "colors_from base0 chosen (upload_base pg)" using inv by (simp add: session_inv_def)
      then have "colors_from base0 chosen mt"
        unfolding colors_from_def using names known by (metis (no_types, lifting) UnE rangeE snd_conv subsetD)
      ultimately have "trait_of_file base0 chosen (upload_base pg) ?t"
        unfolding trait_of_file_def using known by (intro exI [of _ "(n, f)"] exI [of _ mt]) simp
      moreover have "upload_base (clear_first pg\<lparr>cp_pendingTrait := Some ?t, cp_traitValid := Some True\<rparr>) = upload_base pg"
        by (simp add: upload_base_eq)
      ultimately have "session_inv base0 chosen (clear_first pg\<lparr>cp_pendingTrait := Some ?t, cp_traitValid := Some True\<rparr>)"
        using inv unfolding session_inv_def by simp
      moreover have "upload_step e pg = clear_first pg\<lparr>cp_pendingTrait := Some ?t, cp_traitValid := Some True\<rparr>"
        using False unfolding FileChosen f(1) upload_step.simps validateItemFile_def option.case prod.case Let_def f(2,3) enc by simp
      ultimately show ?thesis by simp
    qed
  qed
next
  case UploadPressed
  show ?thesis
  proof (cases "upload_step e pg = pg")
    case True
    then show ?thesis using inv by simp
  next
    case False
    then obtain t where t: "cp_pendingTrait pg = Some t"
      and new: "upload_step e pg = pg\<lparr>cp_pendingCollectionItems := cp_pendingCollectionItems pg @ [pending_item t], cp_pendingTrait := None, cp_traitValid := None\<rparr>"
      by (auto simp: UploadPressed uploadItem_def split: option.splits if_splits)
    obtain f mt where f: "chosen f" "pt_filename t = file_stem (fst f)" "pt_palette t = map fst mt" "palette_extends (upload_base pg) mt"
        "hex_palette mt" "length mt \<le> 256" "encoded_in f mt (pt_data t)" "colors_from base0 chosen mt"
      using inv t unfolding session_inv_def trait_of_file_def by blast
    have base: "upload_base (upload_step e pg) = mt"
      using encoder_of_palette [of mt] f(3,4) by (simp add: new upload_base_def upload_palette_def pending_item_def palette_extends_def)
    have item: "item_of_file chosen mt (pending_item t)"
      unfolding item_of_file_def using f(1,2,7) by (intro exI [of _ f] exI [of _ "pt_data t"]) (simp add: pending_item_def)
    have old: "item_of_file chosen mt item" if "item \<in> set (cp_pendingCollectionItems pg)" for item
    proof -
      have "item_of_file chosen (upload_base pg) item" using inv that by (simp add: session_inv_def)
      then show ?thesis unfolding item_of_file_def using encoded_in_extends [OF _ f(4)] by blast
    qed
    have grow: "palette_extends base0 mt" using inv f(4) by (auto simp: session_inv_def intro: palette_extends_trans)
    have empty: "start_base (cp_collectionItems (upload_step e pg)) = base0" using inv by (simp add: new session_inv_def)
    have last: "cp_pendingCollectionItems (upload_step e pg) = cp_pendingCollectionItems pg @ [pending_item t]" "cp_pendingTrait (upload_step e pg) = None"
      by (simp_all add: new)
    show ?thesis
      unfolding session_inv_def base empty last using f(3,5,6,8) item old grow by (auto simp: pending_item_def)
  qed
next
  case ResetPressed
  have base: "palette_extends base0 (upload_base pg)" "start_base (cp_collectionItems pg) = base0" "hex_palette (upload_base pg)"
    using inv by (auto simp: session_inv_def)
  have refl: "palette_extends base0 base0" using base(1) by (simp add: palette_extends_def)
  have "trait_of_file base0 chosen base0 t" if "cp_pendingTrait pg = Some t" for t
  proof -
    have "trait_of_file base0 chosen (upload_base pg) t" using inv that by (simp add: session_inv_def)
    then show ?thesis unfolding trait_of_file_def using palette_extends_trans [OF base(1)] by blast
  qed
  then show ?thesis
    using base(2) refl hex_extends [OF base(1,3)]
    by (simp add: ResetPressed resetItems_def session_inv_def upload_base_eq colors_from_def)
qed (use inv in \<open>auto intro!: session_inv_cong [of base0 chosen pg] simp: itemInputChange_def itemErrorTimeout_def\<close>)


lemma session_run:
  assumes "session_inv base chosen pg" "list_all event_bytes es" "\<And>f. chosen_in es f \<Longrightarrow> chosen f"
  shows "session_inv base chosen (fold upload_step es pg)"
  using assms
proof (induction es arbitrary: pg)
  case (Cons e es)
  have "session_inv base chosen (upload_step e pg)"
    using Cons.prems by (intro session_step) (simp_all add: chosen_in_def)
  then show ?case using Cons by (simp add: chosen_in_def)
qed simp

section \<open>What the site draws\<close>

text \<open>The bytes of the palette \<open>m\<close>: the spacer, then the colours.\<close>

definition chain_colors :: "nat js_map \<Rightarrow> bytes" where
  "chain_colors m = ''0x000000'' @ concat (map fst (tl m))"

definition site_colors :: "bytes \<Rightarrow> string list" where
  "site_colors p = match_chunks 6 (drop 2 p)"

definition site_draws :: "item_lib \<Rightarrow> nat \<Rightarrow> item_collection \<Rightarrow> svg_rect list option" where
  "site_draws lib k c =
     (case (getImageBytes lib k c, palettes 0 c) of
        (Inr data, Inr p) \<Rightarrow> draw_part (site_colors p) data
      | _ \<Rightarrow> None)"

definition exactly_drawn :: "image \<Rightarrow> svg_rect list option \<Rightarrow> bool" where
  "exactly_drawn img drawn \<longleftrightarrow> (\<exists>out. drawn = Some out \<and> distinct (map fst (painted out))
     \<and> set (painted out) = {((x, y), Some (pixel_hex img (x, y))) | x y. opaque img x y})"

lemma site_chain_colors:
  assumes "hex_palette m"
  shows "site_colors (chain_colors m) = ''000000'' # map fst (tl m)"
proof -
  have "list_all hex_color (''000000'' # map fst (tl m))" using assms by (simp add: hex_palette_def hex_color_def is_line_end_def)
  then have "match_chunks 6 (concat (''000000'' # map fst (tl m))) = ''000000'' # map fst (tl m)"
    by (intro match_chunks_concat) (simp add: hex_color_def list_all_iff)
  then show ?thesis by (simp add: site_colors_def chain_colors_def)
qed

text \<open>The colour of index 0 is never drawn.\<close>

lemma paint_values_spacer: "paint_values (a # cs) ps vs = paint_values (b # cs) ps vs"
  by (auto simp: paint_values_def palette_at_def nth_Cons' nat_eq_iff)

lemma encoded_drawn:
  assumes fits: "fits_format img colors" and ext: "palette_extends (fst (snd (toRLE img colors))) m"
  shows "exactly_drawn img (draw_part (''000000'' # map fst (tl m)) (fst (toRLE img colors)))"
proof -
  let ?ps = "bounds_pixels (calcBounds img)"
  let ?vs = "map (pixel_index img (add_colors img ?ps colors)) ?ps"
  have "palette_ok m" using ext by (simp add: palette_extends_def)
  then have m: "map fst m = '''' # map fst (tl m)" by (cases m) (auto simp: palette_ok_def)
  obtain out where out: "draw_part (map fst m) (fst (toRLE img colors)) = Some out"
    "painted out = map (\<lambda>p. (p, Some (pixel_hex img p))) (filter (\<lambda>p. c_a (getRgbaAt img (fst p) (snd p)) \<noteq> 0) ?ps)"
    using paint_encoded_cells [OF fits ext] by blast
  obtain out' where out': "draw_part (''000000'' # map fst (tl m)) (fst (toRLE img colors)) = Some out'"
    "painted out' = paint_values (''000000'' # map fst (tl m)) ?ps ?vs"
    using draw_encoded [OF fits, of "''000000'' # map fst (tl m)"] by blast
  have "painted out' = paint_values (map fst m) ?ps ?vs" unfolding out'(2) m by (rule paint_values_spacer)
  also have "\<dots> = painted out" using draw_encoded [OF fits, of "map fst m"] out(1) by auto
  finally have same: "painted out' = map (\<lambda>p. (p, Some (pixel_hex img p))) (filter (\<lambda>p. c_a (getRgbaAt img (fst p) (snd p)) \<noteq> 0) ?ps)"
    unfolding out(2) .
  have "set (filter (\<lambda>p. c_a (getRgbaAt img (fst p) (snd p)) \<noteq> 0) ?ps) = {(x, y). opaque img x y}"
    using fits by (intro opaque_in_bounds) (auto simp: fits_format_def)
  then show ?thesis
    unfolding exactly_drawn_def using out'(1) same distinct_bounds_pixels by (intro exI [of _ out']) (auto simp: o_def)
qed

text \<open>A collection whose items are the given pictures, each encoded with a part of the palette.\<close>

definition well_drawn :: "item_lib \<Rightarrow> image list \<Rightarrow> item_collection \<Rightarrow> bool" where
  "well_drawn lib pics c \<longleftrightarrow>
     length pics = set_storedCount (ic_imageSet c) \<and> counted (ic_imageSet c) \<and> counted (ic_metaSet c)
     \<and> (pics \<noteq> [] \<longrightarrow> (\<exists>m. palette_ok m \<and> hex_palette m \<and> palettes 0 c = Inr (chain_colors m)
          \<and> (\<forall>k < length pics. \<exists>colors. fits_format (pics ! k) colors
               \<and> getImageBytes lib k c = Inr (fst (toRLE (pics ! k) colors))
               \<and> palette_extends (fst (snd (toRLE (pics ! k) colors))) m)))"

lemma well_drawn_site:
  assumes "well_drawn lib pics c" "k < length pics"
  shows "exactly_drawn (pics ! k) (site_draws lib k c)"
proof -
  obtain m colors where m: "hex_palette m" "palettes 0 c = Inr (chain_colors m)" "fits_format (pics ! k) colors"
      "getImageBytes lib k c = Inr (fst (toRLE (pics ! k) colors))" "palette_extends (fst (snd (toRLE (pics ! k) colors))) m"
    using assms unfolding well_drawn_def by fastforce
  show ?thesis using encoded_drawn [OF m(3,5)] by (simp add: site_draws_def m(2,4) site_chain_colors [OF m(1)])
qed

lemma new_collection_drawn: "well_drawn lib [] (new_collection name symbol creator minter code)"
  by (simp add: well_drawn_def new_collection_def empty_set_def counted_def)


section \<open>From the file to the chain\<close>

text \<open>A page that has loaded the items of the collection and has no uploads yet.\<close>

definition shows_items :: "item_collection \<Rightarrow> collection_page \<Rightarrow> bool" where
  "shows_items c pg \<longleftrightarrow>
     cp_pendingCollectionItems pg = [] \<and> cp_pendingTrait pg = None
     \<and> (\<exists>items. cp_collectionItems pg = Some items \<and> (items = [] \<longleftrightarrow> set_storedCount (ic_imageSet c) = 0)
          \<and> (items \<noteq> [] \<longrightarrow> (\<exists>p. palettes 0 c = Inr p \<and> ci_palette (it_image (hd items)) = site_colors p)))"

text \<open>The inflator and the decoding of the contract undo the packing of the page.\<close>

definition codec_ok :: "item_lib \<Rightarrow> packer \<Rightarrow> bool" where
  "codec_ok lib pk \<longleftrightarrow>
     (\<forall>xs. il_puff lib (pk_deflate pk (pk_abi_encode pk xs)) (byte_count (pk_abi_encode pk xs)) = Some (pk_abi_encode pk xs)
        \<and> il_decode lib (pk_abi_encode pk xs) = Some xs)"

definition drawn_in :: "item_lib \<Rightarrow> nat js_map \<Rightarrow> image \<Rightarrow> nat \<Rightarrow> item_collection \<Rightarrow> bool" where
  "drawn_in lib m img k c \<longleftrightarrow> (\<exists>colors. fits_format img colors \<and> getImageBytes lib k c = Inr (fst (toRLE img colors))
     \<and> palette_extends (fst (snd (toRLE img colors))) m)"

lemma palette_names: "palette_ok m \<Longrightarrow> map fst m = '''' # map fst (tl m)"
  by (cases m) (auto simp: palette_ok_def)

lemma chain_colors_names: "palette_ok m \<Longrightarrow> chain_colors m = ''0x000000'' @ concat (map fst m)"
  by (subst palette_names) (simp_all add: chain_colors_def)

lemma clear_spacer_names: "palette_ok m \<Longrightarrow> clear_spacer (''000000'' # map fst (tl m)) = map fst m"
  by (subst (2) palette_names) (simp_all add: clear_spacer_def)

lemma session_start:
  assumes "well_drawn lib pics c" "shows_items c pg"
  obtains base where "session_inv base chosen pg" "palette_ok base" "hex_palette base" "\<And>k. k < length pics \<Longrightarrow> drawn_in lib base (pics ! k) k c"
proof (cases "pics = []")
  case True
  then have "cp_collectionItems pg = Some []" "cp_pendingCollectionItems pg = []" "cp_pendingTrait pg = None"
    using assms by (auto simp: well_drawn_def shows_items_def)
  then have "session_inv [('''', 0)] chosen pg"
    using start_palette by (simp add: session_inv_def upload_base_eq start_base_def encoder_of_nothing palette_extends_def colors_from_def)
  then show ?thesis using start_palette True by (intro that) auto
next
  case False
  then obtain m where m: "palette_ok m" "hex_palette m" "palettes 0 c = Inr (chain_colors m)" "\<And>k. k < length pics \<Longrightarrow> drawn_in lib m (pics ! k) k c"
    using assms(1) unfolding well_drawn_def drawn_in_def by blast
  have "set_storedCount (ic_imageSet c) = length pics" using assms(1) by (simp add: well_drawn_def)
  then have "set_storedCount (ic_imageSet c) \<noteq> 0" using False by simp
  then obtain item items where items: "cp_collectionItems pg = Some (item # items)" "ci_palette (it_image item) = site_colors (chain_colors m)"
    and none: "cp_pendingCollectionItems pg = []" "cp_pendingTrait pg = None"
    using assms(2) m(3) by (auto simp: shows_items_def neq_Nil_conv)
  have "upload_base pg = m"
    using items none m(1) by (simp add: upload_base_def upload_palette_def site_chain_colors [OF m(2)] clear_spacer_names encoder_of_palette)
  then have "session_inv m chosen pg"
    using m(1,2) none by (simp add: session_inv_def palette_extends_refl upload_base_eq colors_from_def)
  then show ?thesis using m by (intro that)
qed

lemma saved_args:
  assumes "saveItems pk pg = Some (Some args)"
  shows "cp_pendingCollectionItems pg \<noteq> []"
    "args = (let abi = pk_abi_encode pk (map (\<lambda>i. as_string (ci_data (it_image i))) (cp_pendingCollectionItems pg));
                 meta = pk_abi_encode pk (map (pk_utf8 pk) (item_metas pg))
             in \<lparr>ai_encodedImagesCompressed = pk_deflate pk abi, ai_decompressedImagesLength = byte_count abi,
                 ai_imageCount = length (cp_pendingCollectionItems pg),
                 ai_encodedMetaCompressed = pk_deflate pk meta, ai_decompressedMetaLength = byte_count meta,
                 ai_metaCount = length (cp_pendingCollectionItems pg), ai_paletteIndex = 0,
                 ai_palette = ''0x000000'' @ concat (ci_palette (it_image (last (cp_pendingCollectionItems pg))))\<rparr>)"
  using assms by (auto simp: saveItems_def descriptor_input_def item_metas_def Let_def split: if_splits)

lemma spaced_bytes: "byte_count (''0x000000'' @ s) = 3 + length s div 2"
  by (simp add: byte_count_def)

lemma drawn_in_grows:
  assumes "drawn_in lib m img k c" "palette_extends m m'" "\<And>b. getImageBytes lib k c = Inr b \<Longrightarrow> getImageBytes lib k c' = Inr b"
  shows "drawn_in lib m' img k c'"
  using assms(1,3) palette_extends_trans [OF _ assms(2)] unfolding drawn_in_def by blast

text \<open>What the contract holds once it has accepted the call of the page.\<close>

lemma session_stored:
  assumes inv: "session_inv base (chosen_in es) pg" and "saveItems pk pg = Some (Some args)" "item_call t (AddItems args) c = Inr c'"
    and "codec_ok lib pk" and counted: "counted (ic_imageSet c)" "counted (ic_metaSet c)"
  shows "palettes 0 c' = Inr (chain_colors (upload_base pg))"
    "set_storedCount (ic_imageSet c') = set_storedCount (ic_imageSet c) + length (cp_pendingCollectionItems pg)"
    "counted (ic_imageSet c')" "counted (ic_metaSet c')"
    "getImageBytes lib k c = Inr b \<Longrightarrow> getImageBytes lib k c' = Inr b"
    "j < length (cp_pendingCollectionItems pg) \<Longrightarrow> \<exists>f. chosen_in es f
       \<and> it_tokenAddress (cp_pendingCollectionItems pg ! j) = Str (file_stem (fst f))
       \<and> drawn_in lib (upload_base pg) (picture (snd f)) (set_storedCount (ic_imageSet c) + j) c'"
    "set_storedCount (ic_metaSet c') = set_storedCount (ic_metaSet c) + length (cp_pendingCollectionItems pg)"
proof -
  let ?pending = "cp_pendingCollectionItems pg"
  let ?images = "map (\<lambda>i. as_string (ci_data (it_image i))) ?pending"
  note args = saved_args [OF assms(2)]
  have names: "ci_palette (it_image (last ?pending)) = map fst (upload_base pg)" and ok: "palette_ok (upload_base pg)"
    using inv args(1) by (auto simp: session_inv_def palette_extends_def)
  have call: "addItems t args c = Inr c'" using assms(3) by (simp add: item_call_def split: if_splits)
  have metas: "length (map (pk_utf8 pk) (item_metas pg)) = length ?pending" by (simp add: item_metas_def)
  have args_eqs: "il_puff lib (ai_encodedImagesCompressed args) (ai_decompressedImagesLength args) = Some (pk_abi_encode pk ?images)"
    "il_decode lib (pk_abi_encode pk ?images) = Some ?images"
    "il_puff lib (ai_encodedMetaCompressed args) (ai_decompressedMetaLength args) = Some (pk_abi_encode pk (map (pk_utf8 pk) (item_metas pg)))"
    "il_decode lib (pk_abi_encode pk (map (pk_utf8 pk) (item_metas pg))) = Some (map (pk_utf8 pk) (item_metas pg))"
    "length ?images = ai_imageCount args" "length (map (pk_utf8 pk) (item_metas pg)) = ai_metaCount args"
    using assms(4) metas by (simp_all add: args(2) codec_ok_def Let_def)
  note added = addItems_items [OF call counted args_eqs]
  have "ai_palette args = chain_colors (upload_base pg)" "ai_paletteIndex args = 0"
    by (simp_all add: args(2) Let_def names chain_colors_names [OF ok])
  then show "palettes 0 c' = Inr (chain_colors (upload_base pg))"
    using added(5) by (simp add: chain_colors_def spaced_bytes del: append.simps)
  show stored: "set_storedCount (ic_imageSet c') = set_storedCount (ic_imageSet c) + length ?pending" using added(1) by simp
  show "set_storedCount (ic_metaSet c') = set_storedCount (ic_metaSet c) + length ?pending" using added(2) metas by simp
  show "counted (ic_imageSet c')" "counted (ic_metaSet c')"
    using counts.law_add_items [OF call] counted unfolding counts_kept_def
    by (metis the_set_def which_set.case(1) which_set.case(2) which_set.exhaust)+
  show "getImageBytes lib k c' = Inr b" if "getImageBytes lib k c = Inr b"
    using that item_bytes_grows [OF added(6)] stored by (auto simp: getImageBytes_def exists_item_def split: if_splits)
  assume j: "j < length ?pending"
  then have "item_of_file (chosen_in es) (upload_base pg) (?pending ! j)" using inv by (simp add: session_inv_def)
  then obtain f where f: "chosen_in es f" "it_tokenAddress (?pending ! j) = Str (file_stem (fst f))" "encoded_in f (upload_base pg) (?images ! j)"
    using j by (auto simp: item_of_file_def as_string_def)
  have "getImageBytes lib (set_storedCount (ic_imageSet c) + j) c' = Inr (?images ! j)"
    using added(3) [of j] j stored by (simp add: getImageBytes_def exists_item_def)
  with f show "\<exists>f. chosen_in es f \<and> it_tokenAddress (?pending ! j) = Str (file_stem (fst f))
      \<and> drawn_in lib (upload_base pg) (picture (snd f)) (set_storedCount (ic_imageSet c) + j) c'"
    by (intro exI [of _ f]) (simp add: drawn_in_def encoded_in_def)
qed

lemma session_drawn:
  assumes "well_drawn lib pics c" "shows_items c pg0" "pg = fold upload_step es pg0" "list_all event_bytes es"
    and "saveItems pk pg = Some (Some args)" "item_call t (AddItems args) c = Inr c'" "codec_ok lib pk"
  shows "\<exists>files. length files = length (cp_pendingCollectionItems pg)
    \<and> (\<forall>j < length files. chosen_in es (files ! j)
         \<and> it_tokenAddress (cp_pendingCollectionItems pg ! j) = Str (file_stem (fst (files ! j))))
    \<and> well_drawn lib (pics @ map (picture \<circ> snd) files) c'"
proof -
  obtain base where base: "session_inv base (chosen_in es) pg0" "\<And>k. k < length pics \<Longrightarrow> drawn_in lib base (pics ! k) k c"
    using session_start [OF assms(1,2)] by metis
  have inv: "session_inv base (chosen_in es) pg" unfolding assms(3) by (rule session_run [OF base(1) assms(4)])
  then have m: "palette_extends base (upload_base pg)" "hex_palette (upload_base pg)" "palette_ok (upload_base pg)"
    by (auto simp: session_inv_def palette_extends_def)
  have counted: "counted (ic_imageSet c)" "counted (ic_metaSet c)" and old: "length pics = set_storedCount (ic_imageSet c)"
    using assms(1) by (simp_all add: well_drawn_def)
  note stored = session_stored [OF inv assms(5,6,7) counted]
  obtain files where files: "length files = length (cp_pendingCollectionItems pg)"
    "\<forall>j < length files. chosen_in es (files ! j) \<and> it_tokenAddress (cp_pendingCollectionItems pg ! j) = Str (file_stem (fst (files ! j)))
       \<and> drawn_in lib (upload_base pg) (picture (snd (files ! j))) (length pics + j) c'"
    using stored(6) Skolem_list_nth [of "length (cp_pendingCollectionItems pg)" "\<lambda>j f. chosen_in es f
       \<and> it_tokenAddress (cp_pendingCollectionItems pg ! j) = Str (file_stem (fst f))
       \<and> drawn_in lib (upload_base pg) (picture (snd f)) (length pics + j) c'"] unfolding old by metis
  have kept: "drawn_in lib (upload_base pg) (pics ! k) k c'" if "k < length pics" for k
    by (rule drawn_in_grows [OF base(2) [OF that] m(1)]) (rule stored(5))
  have "drawn_in lib (upload_base pg) ((pics @ map (picture \<circ> snd) files) ! k) k c'" if "k < length pics + length files" for k
    using kept [of k] files(2) [rule_format, of "k - length pics"] that by (cases "k < length pics") (simp_all add: nth_append)
  then have "well_drawn lib (pics @ map (picture \<circ> snd) files) c'"
    unfolding well_drawn_def using stored(1-4) m(2,3) old files(1) unfolding drawn_in_def by auto
  with files show ?thesis by (intro exI [of _ files]) simp
qed


lemma session_accepted:
  assumes inv: "session_inv base chosen pg" and "saveItems pk pg = Some (Some args)" "y_sender t = ic_owner c" "\<forall>d. y_deploys t d"
    and "\<forall>xs. byte_count (pk_deflate pk (pk_abi_encode pk xs)) \<noteq> 0 \<and> byte_count (pk_abi_encode pk xs) \<noteq> 0"
    and "set_storedCount (ic_imageSet c) + length (cp_pendingCollectionItems pg) < 2 ^ 256"
    and "set_storedCount (ic_metaSet c) + length (cp_pendingCollectionItems pg) < 2 ^ 256"
    and "length (cp_pendingCollectionItems pg) < 2 ^ 16" "ai_decompressedImagesLength args < 2 ^ 80" "ai_decompressedMetaLength args < 2 ^ 80"
  shows "\<exists>c'. item_call t (AddItems args) c = Inr c'"
proof -
  let ?pending = "cp_pendingCollectionItems pg"
  note args = saved_args [OF assms(2)]
  let ?m = "upload_base pg"
  have names: "ci_palette (it_image (last ?pending)) = map fst ?m" and m: "palette_ok ?m" "hex_palette ?m" "length ?m \<le> 256"
    using inv args(1) by (auto simp: session_inv_def palette_extends_def)
  have len: "length (concat (map fst (tl n))) = 6 * length (tl n)" if "hex_palette n" for n
  proof -
    have "length (concat cs) = 6 * length cs" if "list_all hex_color cs" for cs
      using that by (induction cs) (simp_all add: hex_color_def)
    from this [of "map fst (tl n)"] that show ?thesis by (simp add: hex_palette_def)
  qed
  have palette: "ai_palette args = ''0x000000'' @ concat (map fst (tl ?m))"
    using chain_colors_names [OF m(1)] by (simp add: args(2) Let_def names chain_colors_def)
  have "byte_count (ai_palette args) = 3 * Suc (length (tl ?m))" unfolding palette spaced_bytes len [OF m(2)] by simp
  moreover have "Suc (length (tl ?m)) \<le> 256" using m(1,3) by (cases ?m) (auto simp: palette_ok_def)
  ultimately have "byte_count (ai_palette args) mod 3 = 0" "byte_count (ai_palette args) \<le> 768" by simp_all
  moreover have "length ?pending \<noteq> 0" using args(1) by simp
  ultimately show ?thesis
    using addItems_accepts [of t args c] assms(3-10) by (simp add: args(2) Let_def item_call_def page_args_ok_def)
qed


text \<open>C5. What is uploaded is what the site draws.  Start from a page that shows a collection whose items are drawn as pictures,
  let the owner choose files, upload, reset and fill in the form in any order, and store the result: the call of the page, once
  accepted by the contract, adds to the collection the pictures of chosen files, in the order of the uploads, and every item,
  the old ones included, is then drawn from the chain exactly, pixel by pixel.\<close>

theorem uploads_drawn:
  assumes "well_drawn lib pics c" "shows_items c pg0" "pg = fold upload_step es pg0" "list_all event_bytes es"
    and "saveItems pk pg = Some (Some args)" "item_call t (AddItems args) c = Inr c'" "codec_ok lib pk"
  shows "\<exists>files. length files = length (cp_pendingCollectionItems pg)
    \<and> (\<forall>j < length files. chosen_in es (files ! j)
         \<and> it_tokenAddress (cp_pendingCollectionItems pg ! j) = Str (file_stem (fst (files ! j))))
    \<and> well_drawn lib (pics @ map (picture \<circ> snd) files) c'
    \<and> (\<forall>k < length pics + length files. exactly_drawn ((pics @ map (picture \<circ> snd) files) ! k) (site_draws lib k c'))"
proof -
  obtain files where files: "length files = length (cp_pendingCollectionItems pg)"
    "\<forall>j < length files. chosen_in es (files ! j) \<and> it_tokenAddress (cp_pendingCollectionItems pg ! j) = Str (file_stem (fst (files ! j)))"
    "well_drawn lib (pics @ map (picture \<circ> snd) files) c'"
    using session_drawn [OF assms] by blast
  with well_drawn_site [OF files(3)] show ?thesis by (intro exI [of _ files]) simp
qed

text \<open>C7. The contract takes what the page sends: when the owner of a collection shown by the page presses the button, the
  call is accepted, in particular the palette, whatever files were chosen; data contracts can be deployed, the packed
  pages are not empty and the counts and lengths fit the types of the arguments.\<close>

theorem saved_items_accepted:
  assumes "well_drawn lib pics c" "shows_items c pg0" "pg = fold upload_step es pg0" "list_all event_bytes es"
    and "saveItems pk pg = Some (Some args)" "y_sender t = ic_owner c" "\<forall>d. y_deploys t d"
    and "\<forall>xs. byte_count (pk_deflate pk (pk_abi_encode pk xs)) \<noteq> 0 \<and> byte_count (pk_abi_encode pk xs) \<noteq> 0"
    and "set_storedCount (ic_imageSet c) + length (cp_pendingCollectionItems pg) < 2 ^ 256"
    and "set_storedCount (ic_metaSet c) + length (cp_pendingCollectionItems pg) < 2 ^ 256"
    and "length (cp_pendingCollectionItems pg) < 2 ^ 16" "ai_decompressedImagesLength args < 2 ^ 80" "ai_decompressedMetaLength args < 2 ^ 80"
  shows "\<exists>c'. item_call t (AddItems args) c = Inr c'"
proof -
  obtain base where "session_inv base (chosen_in es) pg0" using session_start [OF assms(1,2)] by metis
  then have "session_inv base (chosen_in es) pg" unfolding assms(3) by (rule session_run [OF _ assms(4)])
  then show ?thesis using assms(5-13) by (rule session_accepted)
qed

section \<open>Uploads before the items are there\<close>

lemma painted_colors: "(p, Some h) \<in> set (paint_values (a # cs) ps vs) \<Longrightarrow> h \<in> set cs"
  by (auto simp: paint_values_def palette_at_def nth_Cons' split: if_splits)

lemma pixel_hex_not_Nil: "pixel_hex img p \<noteq> ''''"
  by (simp add: pixel_hex_def Let_def rgbToHex_def toPaddedHex_def padStart_def)

text \<open>C39. Uploading while the items are still loading destroys the colours of the collection.  The owner's page offers the
  upload as soon as the collection is known; a file chosen before its items are there is encoded with a palette of its own,
  which replaces the one of the collection when it is stored: an item with a colour that is in none of the files is then no
  longer drawn as it was.\<close>

theorem early_upload_recolours:
  assumes "well_drawn lib pics c" "k < length pics" "opaque (pics ! k) x y"
    and "cp_collectionItems pg0 = None" "cp_pendingCollectionItems pg0 = []" "cp_pendingTrait pg0 = None"
    and "pg = fold upload_step es pg0" "list_all event_bytes es"
    and "saveItems pk pg = Some (Some args)" "item_call t (AddItems args) c = Inr c'" "codec_ok lib pk"
    and "\<forall>f p. chosen_in es f \<longrightarrow> pixel_hex (picture (snd f)) p \<noteq> pixel_hex (pics ! k) (x, y)"
  shows "exactly_drawn (pics ! k) (site_draws lib k c) \<and> \<not> exactly_drawn (pics ! k) (site_draws lib k c')"
proof
  show "exactly_drawn (pics ! k) (site_draws lib k c)" by (rule well_drawn_site [OF assms(1,2)])
  have "session_inv [('''', 0)] (chosen_in es) pg0"
    using assms(4,5,6) start_palette by (simp add: session_inv_def upload_base_eq start_base_def encoder_of_nothing palette_extends_def colors_from_def)
  then have inv: "session_inv [('''', 0)] (chosen_in es) pg" unfolding assms(7) by (rule session_run [OF _ assms(8)])
  let ?h = "pixel_hex (pics ! k) (x, y)" and ?m = "upload_base pg"
  have m: "hex_palette ?m" "palette_ok ?m" and colors: "colors_from [('''', 0)] (chosen_in es) ?m"
    using inv by (auto simp: session_inv_def palette_extends_def)
  have "?h \<notin> fst ` set ?m" using colors assms(12) pixel_hex_not_Nil by (fastforce simp: colors_from_def)
  moreover have "set (tl ?m) \<subseteq> set ?m" by (cases ?m) auto
  ultimately have fresh: "?h \<notin> set (map fst (tl ?m))" by auto
  have counted: "counted (ic_imageSet c)" "counted (ic_metaSet c)" using assms(1) by (simp_all add: well_drawn_def)
  note stored = session_stored [OF inv assms(9,10,11) counted]
  obtain colors where old: "fits_format (pics ! k) colors" "getImageBytes lib k c = Inr (fst (toRLE (pics ! k) colors))"
    using assms(1,2) unfolding well_drawn_def by fastforce
  have site: "site_draws lib k c' = draw_part (''000000'' # map fst (tl ?m)) (fst (toRLE (pics ! k) colors))"
    using stored(1) stored(5) [OF old(2)] by (simp add: site_draws_def site_chain_colors [OF m(1)])
  obtain out where out: "site_draws lib k c' = Some out" "(p, Some ?h) \<notin> set (painted out)" for p
    using draw_encoded [OF old(1), of "''000000'' # map fst (tl ?m)"] painted_colors fresh unfolding site by metis
  show "\<not> exactly_drawn (pics ! k) (site_draws lib k c')"
    using out assms(3) by (auto simp: exactly_drawn_def)
qed

section \<open>A page that has loaded\<close>

text \<open>The node answers for the contract of the collection.\<close>

definition serves_collection :: "item_lib \<Rightarrow> rpc \<Rightarrow> string \<Rightarrow> item_collection \<Rightarrow> bool" where
  "serves_collection lib net a c \<longleftrightarrow>
     (\<forall>p. palettes 0 c = Inr p \<longrightarrow> chain_palette net a = Str p)
     \<and> (\<forall>k b. getImageBytes lib k c = Inr b \<longrightarrow> chain_imageBytes net a (int_to_string (int k)) = Str b)
     \<and> (\<forall>k b. generateMeta lib k c = Inr b \<longrightarrow> chain_metaGenerated net a (int_to_string (int k)) = Str b)"

lemma prepared_from:
  assumes "prepareComposableItem rt a i n p b meta = Some item"
  shows "it_tokenAddress item = a \<and> (\<exists>s. p = Str s \<and> ci_palette (it_image item) = match_chunks 6 (drop 2 s))"
  using assms by (auto simp: prepareComposableItem_def split: option.splits list.splits js_value.splits prod.splits)

lemma all_or_none_members: "all_or_none (map f xs) = Some ys \<Longrightarrow> length ys = length xs \<and> (\<forall>y \<in> set ys. \<exists>x \<in> set xs. f x = Some y)"
proof (induction xs arbitrary: ys)
  case (Cons x xs)
  then obtain y zs where y: "f x = Some y" "all_or_none (map f xs) = Some zs" "ys = y # zs"
    by (cases "f x") auto
  then show ?case using Cons.IH by auto
qed simp

text \<open>What the page loads from the chain, where every item has an image and a text, is what the theorems above start from.\<close>

lemma loaded_page_shows:
  assumes chain: "\<not> en_isIndexer en" and node: "serves_collection lib (en_net en) a c" and drawn: "well_drawn lib pics c"
    and metas: "\<forall>k < length pics. \<exists>s. generateMeta lib k c = Inr s \<and> s \<noteq> ''''"
    and page: "cp_collection pg = Some obj" "field obj ''tokenAddress'' = Str a" "as_int (field obj ''itemCount'') = Some (int (length pics))"
    and fresh: "cp_pendingCollectionItems pg = []" "cp_pendingTrait pg = None" "cp_collectionItems pg = None"
    and loaded: "cp_collectionItems (loadShownItems en d pg) \<noteq> None"
  shows "shows_items c (loadShownItems en d pg)"
proof -
  let ?net = "en_net en" and ?n = "int (length pics)"
  let ?prep = "\<lambda>i. prepareComposableItem (en_rt en) (Str a) i (field obj ''name'') (chain_palette ?net a)
    (chain_imageBytes ?net a (int_to_string i)) (chain_metaGenerated ?net a (int_to_string i))"
  have batch: "getComposableItemsBatch en [batch_entry obj] d = getComposableItems en a ?n (field obj ''name'') d"
    using chain page
    by (cases "getComposableItems en a ?n (field obj ''name'') d") (simp_all add: getComposableItemsBatch_def batch_entry_def as_string_def)
  obtain items where items: "getComposableItems en a ?n (field obj ''name'') d = Some items"
    and pg: "loadShownItems en d pg = pg\<lparr>cp_collectionItems := Some (filter (\<lambda>i. it_tokenAddress i = Str a) items),
       cp_listings := Some (getComposablesMarketListings en d)\<rparr>"
    using loaded page fresh(3) batch by (auto simp: loadShownItems_def filterComposableItemByAddress_def split: option.splits)
  have count: "length pics = set_storedCount (ic_imageSet c)" using drawn by (simp add: well_drawn_def)
  show ?thesis
  proof (cases "pics = []")
    case True
    then have "items = []" using items by (simp add: getComposableItems_def)
    then show ?thesis using fresh True count by (simp add: shows_items_def pg)
  next
    case False
    have present: "js_truthy (chain_imageBytes ?net a (int_to_string i)) \<and> js_truthy (chain_metaGenerated ?net a (int_to_string i))"
      if i: "0 \<le> i" "i < ?n" for i
    proof -
      let ?k = "nat i"
      have k: "?k < length pics" using i by linarith
      obtain colors where "getImageBytes lib ?k c = Inr (fst (toRLE (pics ! ?k) colors))" using drawn k unfolding well_drawn_def by fastforce
      moreover obtain s where "generateMeta lib ?k c = Inr s" "s \<noteq> ''''" using metas k by blast
      moreover have "fst (toRLE (pics ! ?k) colors) \<noteq> ''''" by (simp add: toRLE_eq Let_def)
      ultimately have "chain_imageBytes ?net a (int_to_string (int ?k)) = Str (fst (toRLE (pics ! ?k) colors))"
        "chain_metaGenerated ?net a (int_to_string (int ?k)) = Str s" "fst (toRLE (pics ! ?k) colors) \<noteq> ''''"
        using node unfolding serves_collection_def by blast+
      then show ?thesis using i \<open>s \<noteq> ''''\<close> by (simp add: js_truthy_def)
    qed
    have "all_or_none (map ?prep [0..?n - 1]) = Some items"
      using items False chain present by (simp add: getComposableItems_def router_palette_def router_imageBytes_def router_metaGenerated_def Let_def cong: filter_cong)
    then have len: "length items = length pics" and each: "\<forall>y \<in> set items. \<exists>i. ?prep i = Some y"
      using all_or_none_members [of ?prep "[0..?n - 1]" items] by auto
    obtain m where p: "palettes 0 c = Inr (chain_colors m)" using drawn False by (auto simp: well_drawn_def)
    then have "chain_palette ?net a = Str (chain_colors m)" using node by (simp add: serves_collection_def)
    then have item: "it_tokenAddress y = Str a \<and> ci_palette (it_image y) = site_colors (chain_colors m)" if "y \<in> set items" for y
      using each that prepared_from by (fastforce simp: site_colors_def)
    then have "filter (\<lambda>i. it_tokenAddress i = Str a) items = items" by (simp add: filter_id_conv)
    moreover have "items \<noteq> []" using len False by auto
    moreover have "set_storedCount (ic_imageSet c) \<noteq> 0" using count False by (metis length_0_conv)
    ultimately show ?thesis using item fresh p by (simp add: shows_items_def pg)
  qed
qed


section \<open>Examples\<close>

text \<open>A packing that can be undone: every character of an element behind a \<open>+\<close>, and \<open>--\<close> after the element.\<close>

definition join_bytes :: "bytes list \<Rightarrow> bytes" where
  "join_bytes xs = concat (map (\<lambda>x. concat (map (\<lambda>c. [CHR ''+'', c]) x) @ ''--'') xs)"

fun split_bytes :: "bytes \<Rightarrow> bytes \<Rightarrow> bytes list" where
  "split_bytes x (s # c # cs) = (if s = CHR ''-'' then x # split_bytes '''' cs else split_bytes (x @ [c]) cs)"
| "split_bytes x cs = []"

lemma split_element: "split_bytes y (concat (map (\<lambda>c. [CHR ''+'', c]) x) @ cs) = split_bytes (y @ x) cs"
  by (induction x arbitrary: y) simp_all

lemma split_joined: "split_bytes '''' (join_bytes xs) = xs"
  by (induction xs) (simp_all add: join_bytes_def split_element)

definition demo_packer :: packer where
  "demo_packer = \<lparr>pk_abi_encode = (\<lambda>xs. ''0x0000'' @ join_bytes xs), pk_deflate = (\<lambda>b. b), pk_utf8 = (\<lambda>s. ''0x'' @ s)\<rparr>"

definition demo_lib :: item_lib where
  "demo_lib = \<lparr>il_puff = (\<lambda>b n. Some b), il_decode = (\<lambda>b. Some (split_bytes '''' (drop 6 b))), il_text = drop 2,
     il_generateSVG = (\<lambda>_ _. ''''), il_base64 = (\<lambda>s. s)\<rparr>"

lemma demo_codec: "codec_ok demo_lib demo_packer"
  by (simp add: codec_ok_def demo_lib_def demo_packer_def split_joined)

definition plain_png :: "nat \<Rightarrow> png" where
  "plain_png v = \<lparr>png_width = 32, png_height = 32, png_bytes = (\<lambda>_. v)\<rparr>"

definition demo_upload :: "nat \<Rightarrow> upload_event list" where
  "demo_upload v =
     [FileChosen (Some (''hat.png'', Some (plain_png v))), UploadPressed, InputChanged ''txtName0'' ''Hat'',
      InputChanged ''txtCreator0'' ''Ann'', InputChanged ''selCategory0'' ''Head'']"

definition demo_collection :: item_collection where
  "demo_collection = new_collection ''Hats'' ''HAT'' ''ann'' ''mkt'' []"

definition demo_item_tx :: item_tx where
  "demo_item_tx = \<lparr>y_sender = ''ann'', y_deploys = (\<lambda>_. True), y_mints = (\<lambda>_ _. True)\<rparr>"

definition demo_open :: "composable_item list option \<Rightarrow> collection_page" where
  "demo_open items = (open_collection ''col'')\<lparr>cp_collection := Some [(''tokenAddress'', Str ''col'')], cp_collectionItems := items\<rparr>"

lemma plain_pixel: "pixel_hex (picture (plain_png v)) p = rgbToHex v v v"
  by (cases p) (simp add: pixel_hex_def picture_def new_image_def png_image_def plain_png_def Let_def)

lemma demo_bytes: "v < 256 \<Longrightarrow> list_all event_bytes (demo_upload v)"
  by (simp add: demo_upload_def event_bytes_def bytes_file_def plain_png_def)

lemma demo_chosen: "chosen_in (demo_upload v) f \<longleftrightarrow> f = (''hat.png'', plain_png v)"
  by (cases f) (auto simp: chosen_in_def demo_upload_def)

text \<open>The encoding of an image has two digits per field and at most one run per pixel.\<close>

lemma rle_runs_length: "length (rle_runs p c ds) \<le> Suc (length ds)"
  by (induction p c ds rule: rle_runs.induct) auto

lemma runs_of_length: "length (runs_of ds) \<le> length ds"
  using rle_runs_length by (cases ds) auto

lemma run_hex_length: "byte_runs rs \<Longrightarrow> length (concat (map run_hex rs)) = 4 * length rs"
  by (induction rs) (simp_all add: byte_runs_def run_hex_def [of "_ :: nat \<times> nat"] toPaddedHex_byte hex_byte_def)

lemma encoded_length:
  assumes "fits_format img colors"
  shows "length (fst (toRLE img colors)) \<le> 12 + 4 * 2 ^ 16"
proof -
  let ?bs = "calcBounds img" and ?ps = "bounds_pixels (calcBounds img)"
  let ?rs = "runs_of (map (pixel_index img (add_colors img ?ps colors)) ?ps)"
  note b = fits_format_bounds [OF assms]
  have hex: "length (toPaddedHex i) = 2" if "0 \<le> i" "i < 256" for i
    using toPaddedHex_byte [of "nat i"] that by (simp add: hex_byte_def nat_less_iff)
  have "length ?rs \<le> length ?ps" using runs_of_length [of "map (pixel_index img (add_colors img ?ps colors)) ?ps"] by simp
  also have "\<dots> = card (set ?ps)" by (rule distinct_card [OF distinct_bounds_pixels, symmetric])
  also have "\<dots> \<le> card ({0..255 :: int} \<times> {0..255 :: int})"
    using b by (intro card_mono) (auto simp: set_bounds_pixels within_bounds_def)
  finally have "length ?rs \<le> 2 ^ 16" by simp
  then have "length (concat (map run_hex ?rs)) \<le> 4 * 2 ^ 16" unfolding run_hex_length [OF fits_format_runs [OF assms]] by simp
  then show ?thesis using b by (simp add: toRLE_eq Let_def hex)
qed

lemma joined_length: "length (join_bytes [x]) \<le> 2 * length x + 2"
  by (induction x) (simp_all add: join_bytes_def)

text \<open>One colour, one more entry.\<close>

lemma one_color:
  assumes "\<And>p. pixel_hex img p = h"
  shows "length (add_colors img ps m) \<le> Suc (length m)"
proof -
  have "add_colors img ps m = m \<or> add_colors img ps m = add_color h m"
  proof (induction ps)
    case (Cons p ps)
    have "add_colors img (p # ps) m = add_colors img ps (add_color h m)" by (simp add: assms)
    moreover have "add_colors img qs (add_color h m) = add_color h m" for qs
      by (induction qs) (use add_color_present [of h m] in \<open>auto simp: assms add_color_def\<close>)
    ultimately show ?case by simp
  qed simp
  then show ?thesis by (auto simp: add_color_def)
qed

lemma demo_saved:
  assumes "items = Some [] \<or> items = None"
  obtains args where "saveItems demo_packer (fold upload_step (demo_upload v) (demo_open items)) = Some (Some args)"
    "length (cp_pendingCollectionItems (fold upload_step (demo_upload v) (demo_open items))) = 1"
    "ai_decompressedImagesLength args < 2 ^ 80" "ai_decompressedMetaLength args < 2 ^ 80"
proof -
  let ?pg = "demo_open items"
  have pg: "upload_palette ?pg = []" "clear_first ?pg = ?pg" "cp_pendingCollectionItems ?pg = []" "cp_formInputs ?pg = Map.empty"
    using assms by (auto simp: demo_open_def open_collection_def upload_palette_def clear_first_def)
  obtain encoded encoder where enc: "encodeImage (file_stem ''hat.png'') (png_image (plain_png v)) None (new_encoder (Some [])) = (encoded, encoder)"
    by fastforce
  let ?r = "toRLE (picture (plain_png v)) [('''', 0)]"
  have e: "encoded = fst ?r" "palette (get_data encoder) = map fst (fst (snd ?r))"
    using enc encoder_of_nothing by (auto simp: encodeImage_def Let_def case_prod_unfold picture_def new_image_def png_image_def get_data_def)
  have "length (fst (snd ?r)) \<le> Suc (Suc 0)" using one_color [OF plain_pixel, of v _ "[('''', 0)]"] by (simp add: toRLE_eq Let_def)
  then have few: "length (palette (get_data encoder)) \<le> 256" by (simp add: e)
  have some: "encoded \<noteq> ''''" by (simp add: e toRLE_eq Let_def)
  have stem: "file_stem ''hat.png'' = ''hat''" by code_simp
  let ?t = "\<lparr>pt_type = item_type, pt_data = encoded, pt_palette = palette (get_data encoder), pt_filename = file_stem ''hat.png''\<rparr>"
  have chosen: "upload_step (FileChosen (Some (''hat.png'', Some (plain_png v)))) ?pg = ?pg\<lparr>cp_pendingTrait := Some ?t, cp_traitValid := Some True\<rparr>"
    using few unfolding upload_step.simps validateItemFile_def option.case prod.case pg(1,2) enc Let_def by (simp add: plain_png_def)
  let ?done = "fold upload_step (demo_upload v) ?pg"
  have pending: "cp_pendingCollectionItems ?done = [pending_item ?t]"
    and inputs: "cp_formInputs ?done = [''txtName0'' \<mapsto> ''Hat'', ''txtCreator0'' \<mapsto> ''Ann'', ''selCategory0'' \<mapsto> ''Head'']"
    unfolding demo_upload_def fold_simps chosen comp_apply
    using pg(3,4) some by (simp_all add: uploadItem_def itemInputChange_def onFormInputChange_def item_type_def stem)
  have zero: "nat_to_string 0 = ''0''" by code_simp
  have "validateItemInputs ?done"
    unfolding validateItemInputs_def pending inputs by (simp add: form_field_def zero filled_in_def is_space_def)
  moreover have "length encoded \<le> 12 + 4 * 2 ^ 16"
  proof -
    have "length (add_colors (picture (plain_png v)) ps [('''', 0)]) \<le> 2" for ps
      using one_color [OF plain_pixel, of v ps "[('''', 0)]"] by simp
    then have "fits_format (picture (plain_png v)) [('''', 0)]"
      using start_palette by (simp add: fits_format_def picture_def new_image_def plain_png_def order.trans [of _ 2])
    then show ?thesis unfolding e by (rule encoded_length)
  qed
  moreover have "item_metas ?done = [meta_text ''Hat'' ''Ann'' ''Head'']"
    unfolding item_metas_def pending inputs by (simp add: form_field_def zero)
  moreover have "length (''0x'' @ meta_text ''Hat'' ''Ann'' ''Head'') < 1000" by (simp add: meta_text_def)
  ultimately have valid: "validateItemInputs ?done" and metas: "item_metas ?done = [meta_text ''Hat'' ''Ann'' ''Head'']"
    and short: "byte_count (pk_abi_encode demo_packer [encoded]) < 2 ^ 80"
      "byte_count (pk_abi_encode demo_packer [''0x'' @ meta_text ''Hat'' ''Ann'' ''Head'']) < 2 ^ 80"
    using joined_length [of encoded] joined_length [of "''0x'' @ meta_text ''Hat'' ''Ann'' ''Head''"]
    by (simp_all add: byte_count_def demo_packer_def)
  have "as_string (ci_data (it_image (pending_item ?t))) = encoded" "pk_utf8 demo_packer s = ''0x'' @ s" for s
    by (simp_all add: pending_item_def demo_packer_def as_string_def)
  then obtain args where "saveItems demo_packer ?done = Some (Some args)"
    "ai_decompressedImagesLength args < 2 ^ 80" "ai_decompressedMetaLength args < 2 ^ 80"
    using valid short unfolding saveItems_def Let_def pending metas descriptor_input_def by (simp add: case_prod_unfold)
  then show ?thesis using that pending by auto
qed


lemma demo_shows: "shows_items demo_collection (demo_open (Some []))" "well_drawn lib [] demo_collection"
  by (simp_all add: shows_items_def demo_open_def open_collection_def demo_collection_def new_collection_def empty_set_def well_drawn_def counted_def)

lemma demo_inv:
  assumes "v < 256" "items = Some [] \<or> items = None"
  shows "session_inv [('''', 0)] (chosen_in (demo_upload v)) (fold upload_step (demo_upload v) (demo_open items))"
proof (rule session_run [OF _ demo_bytes [OF assms(1)]])
  show "session_inv [('''', 0)] (chosen_in (demo_upload v)) (demo_open items)"
    using assms(2) start_palette
    by (auto simp: session_inv_def upload_base_eq start_base_def encoder_of_nothing palette_extends_def colors_from_def demo_open_def open_collection_def)
qed

lemma demo_accepted:
  assumes "v < 256" "items = Some [] \<or> items = None" "ic_owner c = ''ann''"
    and "set_storedCount (ic_imageSet c) \<le> 1" "set_storedCount (ic_metaSet c) \<le> 1"
  obtains args c' where "saveItems demo_packer (fold upload_step (demo_upload v) (demo_open items)) = Some (Some args)"
    "item_call demo_item_tx (AddItems args) c = Inr c'" "ic_owner c' = ''ann''"
    "length (cp_pendingCollectionItems (fold upload_step (demo_upload v) (demo_open items))) = 1"
proof -
  obtain args where args: "saveItems demo_packer (fold upload_step (demo_upload v) (demo_open items)) = Some (Some args)"
    "length (cp_pendingCollectionItems (fold upload_step (demo_upload v) (demo_open items))) = 1"
    "ai_decompressedImagesLength args < 2 ^ 80" "ai_decompressedMetaLength args < 2 ^ 80"
    by (rule demo_saved [OF assms(2)])
  have "\<exists>c'. item_call demo_item_tx (AddItems args) c = Inr c'"
    by (rule session_accepted [OF demo_inv [OF assms(1,2)] args(1)])
      (use assms args(2-4) in \<open>simp_all add: demo_item_tx_def demo_packer_def byte_count_def\<close>)
  then obtain c' where c': "item_call demo_item_tx (AddItems args) c = Inr c'" by blast
  have "ic_owner c' = ic_owner c"
  proof -
    have "addItems demo_item_tx args c = Inr c'" using c' by (simp add: item_call_def split: if_splits)
    then show ?thesis by (rule addItems_effect) (auto dest!: add_data_page_effect(3) set_palette_effect(1) split: if_splits)
  qed
  with args c' assms(3) show ?thesis using that by auto
qed

theorem saved_items_accepted_witness:
  "\<exists>args c'. saveItems demo_packer (fold upload_step (demo_upload 200) (demo_open (Some []))) = Some (Some args)
     \<and> item_call demo_item_tx (AddItems args) demo_collection = Inr c'"
proof -
  obtain args where args: "saveItems demo_packer (fold upload_step (demo_upload 200) (demo_open (Some []))) = Some (Some args)"
    "length (cp_pendingCollectionItems (fold upload_step (demo_upload 200) (demo_open (Some [])))) = 1"
    "ai_decompressedImagesLength args < 2 ^ 80" "ai_decompressedMetaLength args < 2 ^ 80"
    by (rule demo_saved [of "Some []" 200]) simp
  have "\<exists>c'. item_call demo_item_tx (AddItems args) demo_collection = Inr c'"
    by (rule saved_items_accepted [OF demo_shows(2,1) refl demo_bytes args(1)])
      (use args(2-4) in \<open>simp_all add: demo_item_tx_def demo_collection_def new_collection_def empty_set_def demo_packer_def byte_count_def\<close>)
  with args show ?thesis by blast
qed

theorem uploads_drawn_witness:
  "\<exists>args c'. saveItems demo_packer (fold upload_step (demo_upload 200) (demo_open (Some []))) = Some (Some args)
     \<and> item_call demo_item_tx (AddItems args) demo_collection = Inr c'
     \<and> exactly_drawn (picture (plain_png 200)) (site_draws demo_lib 0 c')"
proof -
  obtain args c' where a: "saveItems demo_packer (fold upload_step (demo_upload 200) (demo_open (Some []))) = Some (Some args)"
    "item_call demo_item_tx (AddItems args) demo_collection = Inr c'"
    "length (cp_pendingCollectionItems (fold upload_step (demo_upload 200) (demo_open (Some [])))) = 1"
    by (rule demo_accepted [of 200 "Some []" demo_collection]) (auto simp: demo_collection_def new_collection_def empty_set_def)
  obtain files where "length files = 1" "\<forall>j < length files. chosen_in (demo_upload 200) (files ! j)"
    "\<forall>k < length files. exactly_drawn (map (picture \<circ> snd) files ! k) (site_draws demo_lib k c')"
    using uploads_drawn [OF demo_shows(2,1) refl demo_bytes a(1,2) demo_codec] a(3) by auto
  then have "exactly_drawn (picture (plain_png 200)) (site_draws demo_lib 0 c')" by (simp add: demo_chosen)
  with a show ?thesis by blast
qed

theorem early_upload_recolours_witness:
  "\<exists>c args c'. exactly_drawn (picture (plain_png 200)) (site_draws demo_lib 0 c)
     \<and> saveItems demo_packer (fold upload_step (demo_upload 100) (demo_open None)) = Some (Some args)
     \<and> item_call demo_item_tx (AddItems args) c = Inr c'
     \<and> \<not> exactly_drawn (picture (plain_png 200)) (site_draws demo_lib 0 c')"
proof -
  obtain args c where a: "saveItems demo_packer (fold upload_step (demo_upload 200) (demo_open (Some []))) = Some (Some args)"
    "item_call demo_item_tx (AddItems args) demo_collection = Inr c" "ic_owner c = ''ann''"
    "length (cp_pendingCollectionItems (fold upload_step (demo_upload 200) (demo_open (Some [])))) = 1"
    by (rule demo_accepted [of 200 "Some []" demo_collection]) (auto simp: demo_collection_def new_collection_def empty_set_def)
  obtain files where files: "length files = 1" "\<forall>j < length files. chosen_in (demo_upload 200) (files ! j)"
    "well_drawn demo_lib (map (picture \<circ> snd) files) c"
    using session_drawn [OF demo_shows(2,1) refl demo_bytes a(1,2) demo_codec] a(4) by auto
  then have drawn: "well_drawn demo_lib [picture (plain_png 200)] c" by (auto simp: length_Suc_conv demo_chosen)
  have count: "set_storedCount (ic_imageSet c) = 1" using drawn by (simp add: well_drawn_def)
  have "counted (ic_imageSet demo_collection)" "counted (ic_metaSet demo_collection)" using demo_shows(2) by (simp_all add: well_drawn_def)
  note metas = session_stored(7) [OF demo_inv a(1,2) demo_codec this]
  obtain args2 c' where b: "saveItems demo_packer (fold upload_step (demo_upload 100) (demo_open None)) = Some (Some args2)"
    "item_call demo_item_tx (AddItems args2) c = Inr c'"
    by (rule demo_accepted [of 100 None c])
      (use a(3,4) count metas in \<open>auto simp: demo_collection_def new_collection_def empty_set_def\<close>)
  have opaque: "opaque (picture (plain_png 200)) 0 0"
    by (simp add: opaque_def picture_def new_image_def png_image_def plain_png_def)
  have differs: "rgbToHex 100 100 100 \<noteq> rgbToHex 200 200 200" by code_simp
  have "exactly_drawn ([picture (plain_png 200)] ! 0) (site_draws demo_lib 0 c) \<and> \<not> exactly_drawn ([picture (plain_png 200)] ! 0) (site_draws demo_lib 0 c')"
    by (rule early_upload_recolours [where x = 0 and y = 0, OF drawn _ _ _ _ _ refl demo_bytes b demo_codec])
      (use differs opaque in \<open>simp_all add: demo_chosen plain_pixel demo_open_def open_collection_def\<close>)
  with b show ?thesis unfolding nth_Cons_0 by blast
qed

end
