(* ===== verification/Collection_Factory.thy ===== *)
theory Collection_Factory imports Market_Pages Item_Contract begin

text \<open>
  The factory of collections, \<open>composables/items/ComposableItemFactory.sol\<close>, the form that creates one
  (\<open>pages/Collections/CollectionForm\<close>) and the pages that list them (\<open>pages/Collections\<close>, \<open>pages/Profile\<close>).
  The address of a clone is a function of the implementation, the creator and the nonce (\<open>Clones\<close> and the salt of
  \<open>_getSalt\<close>), a parameter.
\<close>

section \<open>The factory\<close>

datatype factory_event =
    ImplementationUpdated string int
  | FactoryMinterUpdated string
  | CollectionCreated string string int string string int

text \<open>The collections created are kept with their addresses, in the state their initializer leaves.\<close>

record item_factory =
  if_owner :: string
  if_implementation :: string
  if_version :: int
  if_minter :: string
  if_collections :: "(string \<times> item_collection) list"
  if_events :: "factory_event list"

record factory_tx =
  fx_sender :: string
  fx_isContract :: "string \<Rightarrow> bool"
  fx_code :: "bytes list"

type_synonym clone_addresses = "string \<Rightarrow> string \<times> int \<Rightarrow> string"

definition updateImplementation :: "factory_tx \<Rightarrow> string \<Rightarrow> item_factory \<Rightarrow> item_factory option" where
  "updateImplementation t implementation f =
     (if \<not> fx_isContract t implementation then None
      else (let version = (if_version f + 1) mod 2 ^ 256
            in Some (f\<lparr>if_implementation := implementation, if_version := version,
                       if_events := if_events f @ [ImplementationUpdated implementation version]\<rparr>)))"

definition new_factory :: "factory_tx \<Rightarrow> string \<Rightarrow> string \<Rightarrow> item_factory option" where
  "new_factory t implementation minter =
     map_option (\<lambda>f. f\<lparr>if_minter := minter\<rparr>)
       (updateImplementation t implementation
         \<lparr>if_owner = fx_sender t, if_implementation = zero_address, if_version = 0, if_minter = zero_address,
          if_collections = [], if_events = []\<rparr>)"

definition predictAddress :: "clone_addresses \<Rightarrow> string \<Rightarrow> int \<Rightarrow> item_factory \<Rightarrow> string" where
  "predictAddress clone creator nonce f = clone (if_implementation f) (creator, nonce)"

definition createCollection ::
    "clone_addresses \<Rightarrow> factory_tx \<Rightarrow> string \<Rightarrow> string \<Rightarrow> int \<Rightarrow> item_factory \<Rightarrow> item_factory option" where
  "createCollection clone t name symbol nonce f =
     (let a = clone (if_implementation f) (fx_sender t, nonce)
      in if name = '''' \<or> symbol = '''' then None
         else if a \<in> fst ` set (if_collections f) then None
         else Some (f\<lparr>if_collections := if_collections f @ [(a, new_collection name symbol (fx_sender t) (if_minter f) (fx_code t))],
                      if_events := if_events f @ [CollectionCreated a (fx_sender t) (if_version f) name symbol nonce]\<rparr>))"

datatype factory_function = SetImplementation string | SetFactoryMinter string | CreateCollection string string int

fun factory_call :: "clone_addresses \<Rightarrow> factory_tx \<Rightarrow> factory_function \<Rightarrow> item_factory \<Rightarrow> item_factory option" where
  "factory_call clone t (SetImplementation a) f = (if fx_sender t = if_owner f then updateImplementation t a f else None)"
| "factory_call clone t (SetFactoryMinter m) f =
     (if fx_sender t = if_owner f then Some (f\<lparr>if_minter := m, if_events := if_events f @ [FactoryMinterUpdated m]\<rparr>) else None)"
| "factory_call clone t (CreateCollection name symbol nonce) f =
     (if 0 \<le> nonce \<and> nonce < 2 ^ 256 then createCollection clone t name symbol nonce f else None)"

definition factory_transact :: "clone_addresses \<Rightarrow> factory_tx \<times> factory_function \<Rightarrow> item_factory \<Rightarrow> item_factory" where
  "factory_transact clone p f = (case factory_call clone (fst p) (snd p) f of None \<Rightarrow> f | Some f' \<Rightarrow> f')"

section \<open>The form\<close>

text \<open>\<open>toUpperCase\<close> of ASCII text.\<close>

definition to_upper :: "string \<Rightarrow> string" where
  "to_upper = map (\<lambda>c. if 97 \<le> (of_char c :: nat) \<and> (of_char c :: nat) \<le> 122 then char_of ((of_char c :: nat) - 32) else c)"

record collection_form =
  cf_tokenAddress :: "js_value option"
  cf_redirect :: "js_value option"
  cf_shown :: bool

text \<open>What the handler sends, with the address it remembers: nothing without an account, a name or a symbol.\<close>

definition createTokenHandler ::
    "composables_config \<Rightarrow> rpc \<Rightarrow> int \<Rightarrow> string option \<Rightarrow> string \<Rightarrow> string \<Rightarrow> collection_form
      \<Rightarrow> (string \<times> string \<times> int) option \<times> collection_form" where
  "createTokenHandler cfg net nonce activeAccount name symbol form =
     (case activeAccount of
        None \<Rightarrow> (None, form)
      | Some me \<Rightarrow>
          if me = '''' \<or> \<not> filled_in name \<or> \<not> filled_in symbol then (None, form)
          else (Some (trim name, to_upper (trim symbol), nonce),
                form\<lparr>cf_tokenAddress := Some (predictCollectionAddress cfg net me nonce)\<rparr>))"

text \<open>\<open>onComplete\<close> of the pages: the form is closed, and with an address the page goes to the new collection.\<close>

definition formComplete :: "js_value option \<Rightarrow> collection_form \<Rightarrow> collection_form" where
  "formComplete tokenAddress form =
     form\<lparr>cf_redirect := (case tokenAddress of None \<Rightarrow> cf_redirect form | Some a \<Rightarrow> Some a), cf_shown := False\<rparr>"

definition createCollectionEffect ::
    "string option \<Rightarrow> market_status \<Rightarrow> collection_form \<times> market_button \<Rightarrow> collection_form \<times> market_button" where
  "createCollectionEffect errorMessage status p =
     status_effect ''Mint'' ''Collection successfully created on-chain!'' ''Transaction Failed'' errorMessage
       (\<lambda>form. formComplete (cf_tokenAddress form) form) status p"

definition createDisabled :: "string option \<Rightarrow> market_status \<Rightarrow> bool" where
  "createDisabled activeAccount status = (status = BeingMined \<or> \<not> truthy_string activeAccount)"

section \<open>The pages that list collections\<close>

definition has_items :: "obj \<Rightarrow> bool" where
  "has_items c = (case as_int (field c ''itemCount'') of Some n \<Rightarrow> n > 0 | None \<Rightarrow> False)"

definition collections_page :: "env \<Rightarrow> db \<Rightarrow> obj list" where
  "collections_page en d = rev (filter has_items (getComposableItemCollections en True None d))"

definition profile_collections :: "env \<Rightarrow> string \<Rightarrow> db \<Rightarrow> obj list" where
  "profile_collections en walletAddress d =
     (if walletAddress = '''' then []
      else filter (\<lambda>c. to_lower (as_string (field c ''owner'')) = to_lower walletAddress) (rev (getComposableItemCollections en True None d)))"

section \<open>What the factory keeps\<close>

definition created_of :: "factory_event \<Rightarrow> (string \<times> string \<times> string \<times> string) list" where
  "created_of e = (case e of CollectionCreated a creator _ name symbol _ \<Rightarrow> [(a, creator, name, symbol)] | _ \<Rightarrow> [])"

text \<open>One collection per event of a creation, at an address derived from its creator and nonce.\<close>

definition factory_inv :: "clone_addresses \<Rightarrow> item_factory \<Rightarrow> bool" where
  "factory_inv clone f \<longleftrightarrow> distinct (map fst (if_collections f))
     \<and> concat (map created_of (if_events f)) = map (\<lambda>(a, c). (a, ic_owner c, ic_name c, ic_symbol c)) (if_collections f)
     \<and> (\<forall>a \<in> fst ` set (if_collections f). \<exists>i creator version name symbol nonce.
          a = clone i (creator, nonce) \<and> CollectionCreated a creator version name symbol nonce \<in> set (if_events f))"

lemma updateImplementation_keeps:
  assumes "updateImplementation t a f = Some f'"
  shows "if_collections f' = if_collections f" "if_minter f' = if_minter f" "concat (map created_of (if_events f')) = concat (map created_of (if_events f))"
    "set (if_events f) \<subseteq> set (if_events f')"
  using assms by (auto simp: updateImplementation_def Let_def created_of_def split: if_splits)

lemma factory_step_inv:
  assumes "factory_inv clone f"
  shows "factory_inv clone (factory_transact clone p f)"
proof -
  have "factory_inv clone f'" if "factory_call clone t fn f = Some f'" for t fn f'
  proof (cases fn)
    case (SetImplementation a)
    then have u: "updateImplementation t a f = Some f'" using that by (simp split: if_splits)
    have addresses: "\<forall>a \<in> fst ` set (if_collections f). \<exists>i creator version name symbol nonce.
        a = clone i (creator, nonce) \<and> CollectionCreated a creator version name symbol nonce \<in> set (if_events f)"
      using assms by (simp add: factory_inv_def)
    have "\<forall>a \<in> fst ` set (if_collections f'). \<exists>i creator version name symbol nonce.
        a = clone i (creator, nonce) \<and> CollectionCreated a creator version name symbol nonce \<in> set (if_events f')"
      unfolding updateImplementation_keeps(1) [OF u] using addresses updateImplementation_keeps(4) [OF u] by (meson subsetD)
    then show ?thesis using assms updateImplementation_keeps [OF u] by (simp add: factory_inv_def)
  next
    case (SetFactoryMinter m)
    then show ?thesis using that assms by (fastforce simp: factory_inv_def created_of_def split: if_splits)
  next
    case (CreateCollection name symbol nonce)
    then show ?thesis using that assms
      by (fastforce simp: factory_inv_def createCollection_def Let_def created_of_def new_collection_def split: if_splits)
  qed
  then show ?thesis using assms by (auto simp: factory_transact_def split: option.split)
qed

interpretation factory: event_driven "factory_transact clone" "\<lambda>_ _. True" "factory_inv clone" for clone
  by unfold_locales (rule factory_step_inv)

lemma new_factory_inv: "new_factory t a m = Some f \<Longrightarrow> factory_inv clone f"
  by (auto simp: new_factory_def updateImplementation_def Let_def factory_inv_def created_of_def split: if_splits)

section \<open>What the site lists\<close>

fun collection_args :: "factory_event \<Rightarrow> obj list" where
  "collection_args (CollectionCreated a creator version name symbol nonce) =
     [[(''tokenAddress'', Str a), (''creator'', Str creator), (''version'', BigNum version), (''name'', Str name),
       (''symbol'', Str symbol), (''nonce'', BigNum nonce)]]"
| "collection_args _ = []"

text \<open>The node answers for the factory and for the collections in their present state \<open>now\<close>.\<close>

definition serves_factory :: "composables_config \<Rightarrow> rpc \<Rightarrow> (string \<Rightarrow> item_collection) \<Rightarrow> item_factory \<Rightarrow> bool" where
  "serves_factory cfg net now f \<longleftrightarrow>
     map re_args (rpc_events net (cfg_composableItemFactory cfg) ''CollectionCreated'' []) = concat (map collection_args (if_events f))
     \<and> (\<forall>a \<in> fst ` set (if_collections f). rpc_call net a ''owner'' [] = Str (ic_owner (now a))
          \<and> rpc_call net a ''name'' [] = Str (ic_name (now a)) \<and> rpc_call net a ''symbol'' [] = Str (ic_symbol (now a))
          \<and> rpc_call net a ''getImageCount'' [] = BigNum (int (set_storedCount (ic_imageSet (now a)))))"

definition site_collection :: "(string \<Rightarrow> item_collection) \<Rightarrow> string \<Rightarrow> obj" where
  "site_collection now a =
     collection_obj (Str a) (Str (ic_owner (now a))) (Str (ic_name (now a))) (Str (ic_symbol (now a)))
       (Num (int (set_storedCount (ic_imageSet (now a)))))"

lemma created_addresses_of: "map fst (concat (map created_of es)) = map (\<lambda>o'. as_string (field o' ''tokenAddress'')) (concat (map collection_args es))"
proof (induction es)
  case (Cons e es)
  then show ?case by (cases e) (simp_all add: created_of_def as_string_def)
qed simp

lemma args_address:
  assumes "re_args e \<in> set (concat (map collection_args es))"
  shows "field (event_with_block e) ''tokenAddress'' = field (re_args e) ''tokenAddress''"
proof -
  obtain ev where "re_args e \<in> set (collection_args ev)" using assms by auto
  then have "distinct (map fst (re_args e))" "''tokenAddress'' \<in> fst ` set (re_args e)" by (cases ev; auto)+
  then show ?thesis unfolding event_with_block_def by (simp add: field_spread_last)
qed

lemma site_lists_collections:
  assumes "factory_inv clone f" "serves_factory (en_cfg en) (en_net en) now f" "\<not> en_isIndexer en"
  shows "getComposableItemCollections en True featured d = map (\<lambda>(a, _). site_collection now a) (if_collections f)"
proof -
  let ?net = "en_net en"
  let ?es = "rpc_events ?net (cfg_composableItemFactory (en_cfg en)) ''CollectionCreated'' []"
  let ?show = "\<lambda>v. let a = as_string v in collection_obj v (chain_collectionOwner ?net a) (chain_collectionName ?net a)
      (chain_collectionSymbol ?net a) (count_value (chain_itemCount ?net a))"
  have args: "map re_args ?es = concat (map collection_args (if_events f))" using assms(2) by (simp add: serves_factory_def)
  have mem: "re_args e \<in> set (concat (map collection_args (if_events f)))" if "e \<in> set ?es" for e
    using that unfolding args [symmetric] by simp
  have str: "field o' ''tokenAddress'' = Str (as_string (field o' ''tokenAddress''))" if "o' \<in> set (collection_args ev)" for o' ev
    using that by (cases ev) (auto simp: as_string_def)
  have addr: "field (event_with_block e) ''tokenAddress'' = Str (as_string (field (re_args e) ''tokenAddress''))" if "e \<in> set ?es" for e
    using args_address [OF mem [OF that]] mem [OF that] str by auto
  have "getComposableItemCollections en True featured d = map (\<lambda>e. ?show (field (event_with_block e) ''tokenAddress'')) ?es"
    using assms(3) by (simp add: getComposableItemCollections_def chain_collectionCreated_def Let_def collection_obj_def)
  also have "\<dots> = map (\<lambda>e. ?show (Str (as_string (field (re_args e) ''tokenAddress'')))) ?es" by (simp add: addr)
  also have "\<dots> = map (\<lambda>a. ?show (Str a)) (map (\<lambda>o'. as_string (field o' ''tokenAddress'')) (map re_args ?es))"
    by (simp add: o_def)
  also have "map (\<lambda>o'. as_string (field o' ''tokenAddress'')) (map re_args ?es) = map fst (if_collections f)"
    using assms(1) unfolding args created_addresses_of [symmetric] factory_inv_def by (auto simp: case_prod_unfold)
  also have "map (\<lambda>a. ?show (Str a)) (map fst (if_collections f)) = map (\<lambda>a. site_collection now a) (map fst (if_collections f))"
  proof (rule map_cong [OF refl])
    fix a assume "a \<in> set (map fst (if_collections f))"
    then show "?show (Str a) = site_collection now a"
      using assms(2) by (auto simp: serves_factory_def site_collection_def as_string_def chain_collectionOwner_def
          chain_collectionName_def chain_collectionSymbol_def chain_itemCount_def as_int_def count_value_def)
  qed
  finally show ?thesis by (simp add: case_prod_unfold o_def)
qed


section \<open>From the form to the pages\<close>

lemma to_upper_length [simp]: "length (to_upper s) = length s"
  by (simp add: to_upper_def)

lemma trim_filled: "filled_in s \<longleftrightarrow> trim s \<noteq> ''''"
proof -
  have "dropWhile is_space (rev (dropWhile is_space s)) \<noteq> [] \<longleftrightarrow> dropWhile is_space s \<noteq> []" for s
    using hd_dropWhile [of is_space s] by (cases "dropWhile is_space s") (auto simp: dropWhile_append dropWhile_eq_Nil_conv dest: set_dropWhileD)
  then have "trim s \<noteq> '''' \<longleftrightarrow> dropWhile is_space s \<noteq> []" by (simp add: trim_def)
  then show ?thesis by (simp add: filled_in_def list_ex_iff dropWhile_eq_Nil_conv)
qed

lemma form_sends:
  assumes "createTokenHandler cfg net nonce (Some me) name symbol form = (Some (n, s, k), form')"
  shows "n = trim name" "s = to_upper (trim symbol)" "k = nonce" "n \<noteq> ''''" "s \<noteq> ''''" "me \<noteq> ''''"
    "cf_tokenAddress form' = Some (predictCollectionAddress cfg net me nonce)"
proof -
  show "n = trim name" "s = to_upper (trim symbol)" "k = nonce" "me \<noteq> ''''"
    "cf_tokenAddress form' = Some (predictCollectionAddress cfg net me nonce)"
    and "n \<noteq> ''''"
    using assms by (auto simp: createTokenHandler_def trim_filled split: if_splits)
  have "trim symbol \<noteq> ''''" "s = to_upper (trim symbol)"
    using assms by (auto simp: createTokenHandler_def trim_filled split: if_splits)
  then show "s \<noteq> ''''" by (metis length_0_conv to_upper_length)
qed



section \<open>An example\<close>

definition demo_clone :: clone_addresses where
  "demo_clone i p = replicate (nat (if snd p < 0 then - 2 * snd p - 1 else 2 * snd p)) CHR ''a'' @ CHR ''b'' # fst p"

lemma demo_clone_injective: "demo_clone i (c, n) = demo_clone j (c', n') \<Longrightarrow> c = c' \<and> n = n'"
proof -
  let ?k = "\<lambda>n. nat (if n < 0 then - 2 * n - 1 else 2 * n :: int)"
  assume eq: "demo_clone i (c, n) = demo_clone j (c', n')"
  have prefix: "takeWhile (\<lambda>x. x = CHR ''a'') (demo_clone i (c, n)) = replicate (?k n) CHR ''a''" for i c n
    by (simp add: demo_clone_def takeWhile_append)
  have "replicate (?k n) CHR ''a'' = replicate (?k n') CHR ''a''" using prefix [of i c n] prefix [of j c' n'] eq by simp
  then have k: "?k n = ?k n'" by (metis length_replicate)
  have "n = n'"
  proof (cases "n < 0"; cases "n' < 0")
    assume "n < 0" "\<not> n' < 0"
    then have "- 2 * n - 1 = 2 * n'" using k by simp
    then show ?thesis by presburger
  next
    assume "\<not> n < 0" "n' < 0"
    then have "2 * n = - 2 * n' - 1" using k by simp
    then show ?thesis by presburger
  qed (use k in auto)
  then show ?thesis using eq by (simp add: demo_clone_def)
qed

definition demo_factory_tx :: factory_tx where
  "demo_factory_tx = \<lparr>fx_sender = ''ann'', fx_isContract = (\<lambda>_. True), fx_code = []\<rparr>"

definition demo_factory :: item_factory where
  "demo_factory = the (new_factory demo_factory_tx ''impl'' ''mkt'')"

definition demo_cfg :: composables_config where
  "demo_cfg = \<lparr>cfg_composableItemFactory = ''fac'', cfg_composablesMarketProxy = ''mkt'', cfg_nounsToken = ''nouns''\<rparr>"

definition demo_hats :: item_collection where
  "demo_hats = new_collection ''Hats'' ''HAT'' ''ann'' ''mkt'' []"

definition demo_factory_net :: rpc where
  "demo_factory_net = \<lparr>
     rpc_events = (\<lambda>_ name _. if name = ''CollectionCreated''
       then [\<lparr>re_blockNumber = 1, re_blockHash = '''', re_transactionIndex = 0,
              re_args = hd (collection_args (CollectionCreated (demo_clone ''impl'' (''ann'', 1)) ''ann'' 1 ''Hats'' ''HAT'' 1))\<rparr>] else []),
     rpc_call = (\<lambda>_ name _. if name = ''owner'' then Str ''ann'' else if name = ''name'' then Str ''Hats''
       else if name = ''symbol'' then Str ''HAT'' else if name = ''getImageCount'' then BigNum 0
       else Str (demo_clone ''impl'' (''ann'', 1)))\<rparr>"

definition demo_form :: collection_form where
  "demo_form = \<lparr>cf_tokenAddress = None, cf_redirect = None, cf_shown = True\<rparr>"

definition demo_button :: market_button where
  "demo_button = \<lparr>loading = True, label = '''', notice = None\<rparr>"


end
