(* ===== verification/Proposal_Form.thy ===== *)
theory Proposal_Form imports Dao_Lifecycle Market_Pages begin

text \<open>
  The creation of a proposal: the dialog that adds a transaction (\<open>components/ProposalTransactionFormModal\<close>), the page
  (\<open>pages/CreateProposal\<close>) with its button, \<open>propose\<close> of \<open>NounsDAOLogicV2.sol\<close>, and what the subgraph and the site make
  of it.  ethers and \<open>bignumber.js\<close> are parameters (\<open>proposal_lib\<close>): which text is an address or a number, \<open>parseEther\<close>,
  the interface made from an ABI and the encoding of arguments; decimal strings of the page are the integers they denote.
\<close>

section \<open>The dialog\<close>

text \<open>An interface is its functions: signatures with the types of their inputs.  What throws is \<open>None\<close>.\<close>

type_synonym interface = "(string \<times> string list) list"

record proposal_lib =
  pl_isAddress :: "string \<Rightarrow> bool"
  pl_isNumber :: "string \<Rightarrow> bool"
  pl_parseEther :: "string \<Rightarrow> int option"
  pl_interface :: "string \<Rightarrow> interface option"
  pl_encodeParams :: "string list \<Rightarrow> string option list \<Rightarrow> string option"

record proposal_transaction =
  tx_address :: string
  tx_value :: int
  tx_signature :: string
  tx_calldata :: string

record transaction_form =
  tf_address :: string
  tf_abi :: "interface option"
  tf_value :: string
  tf_func :: string
  tf_args :: "string option list"
  tf_isABIUploadValid :: "bool option"
  tf_abiFileName :: "string option"
  tf_currentStep :: nat

definition new_transaction_form :: transaction_form where
  "new_transaction_form = \<lparr>tf_address = '''', tf_abi = None, tf_value = '''', tf_func = '''', tf_args = [],
     tf_isABIUploadValid = None, tf_abiFileName = Some '''', tf_currentStep = 0\<rparr>"

definition valueValidator :: "proposal_lib \<Rightarrow> string \<Rightarrow> bool" where
  "valueValidator lib v = (v = '''' \<or> pl_isNumber lib v)"

text \<open>\<open>abi?._encodeParams(abi?.functions[func]?.inputs, args)\<close>: \<open>undefined\<close> without an interface (\<open>Some None\<close>); it throws
  without such a function.\<close>

definition encoded_args :: "proposal_lib \<Rightarrow> transaction_form \<Rightarrow> string option option" where
  "encoded_args lib f =
     (case tf_abi f of
        None \<Rightarrow> Some None
      | Some abi \<Rightarrow> (case map_of abi (tf_func f) of
            None \<Rightarrow> None
          | Some inputs \<Rightarrow> map_option Some (pl_encodeParams lib inputs (tf_args f))))"

definition argumentsValidator :: "proposal_lib \<Rightarrow> transaction_form \<Rightarrow> bool" where
  "argumentsValidator lib f =
     (tf_func f = '''' \<or> (case encoded_args lib f of Some (Some encoded) \<Rightarrow> encoded \<noteq> '''' | _ \<Rightarrow> False))"

text \<open>The validators of the steps: address, value, function, arguments, summary.\<close>

definition step_valid :: "proposal_lib \<Rightarrow> transaction_form \<Rightarrow> bool" where
  "step_valid lib f =
     (if tf_currentStep f = 0 then pl_isAddress lib (tf_address f)
      else if tf_currentStep f = 1 then valueValidator lib (tf_value f)
      else if tf_currentStep f = 3 then argumentsValidator lib f
      else True)"

text \<open>Writing behind the end of the array leaves holes.\<close>

definition setArgument :: "nat \<Rightarrow> string \<Rightarrow> transaction_form \<Rightarrow> transaction_form" where
  "setArgument index v f =
     f\<lparr>tf_args := (tf_args f @ replicate (Suc index - length (tf_args f)) None)[index := Some v]\<rparr>"

definition setABIInvalid :: "transaction_form \<Rightarrow> transaction_form" where
  "setABIInvalid f = f\<lparr>tf_isABIUploadValid := Some False, tf_abiFileName := None\<rparr>"

definition abiErrorTimeout :: "transaction_form \<Rightarrow> transaction_form" where
  "abiErrorTimeout f = f\<lparr>tf_isABIUploadValid := None\<rparr>"

text \<open>A file is its name and its text.\<close>

definition validateAndSetABI :: "proposal_lib \<Rightarrow> (string \<times> string) option \<Rightarrow> transaction_form \<Rightarrow> transaction_form" where
  "validateAndSetABI lib abi_file f =
     (case abi_file of
        None \<Rightarrow> f
      | Some (name, content) \<Rightarrow> (case pl_interface lib content of
            None \<Rightarrow> setABIInvalid f
          | Some abi \<Rightarrow> f\<lparr>tf_abi := Some abi, tf_isABIUploadValid := Some True, tf_abiFileName := Some name\<rparr>))"

text \<open>What etherscan knows of a contract; \<open>fetch\<close> gives it for an address, \<open>None\<close> where there is nothing.\<close>

record contract_information =
  ci_Proxy :: string
  ci_Implementation :: string
  ci_ABI :: string

definition getABI :: "proposal_lib \<Rightarrow> (string \<Rightarrow> contract_information option) \<Rightarrow> string \<Rightarrow> string option" where
  "getABI lib fetch address =
     (let info = fetch address;
          info' = (case info of
                     Some i \<Rightarrow> if ci_Proxy i = ''1'' \<and> pl_isAddress lib (ci_Implementation i) then fetch (ci_Implementation i) else info
                   | None \<Rightarrow> None)
      in map_option ci_ABI info')"

definition populateABIIfExists ::
    "proposal_lib \<Rightarrow> (string \<Rightarrow> contract_information option) \<Rightarrow> string \<Rightarrow> transaction_form \<Rightarrow> transaction_form" where
  "populateABIIfExists lib fetch address f =
     (case Option.bind (getABI lib fetch address) (pl_interface lib) of
        Some abi \<Rightarrow> f\<lparr>tf_abi := Some abi, tf_isABIUploadValid := Some True, tf_abiFileName := Some ''etherscan-abi-download.json''\<rparr>
      | None \<Rightarrow> f\<lparr>tf_isABIUploadValid := None, tf_abiFileName := None\<rparr>)"

text \<open>The transaction of the last step.\<close>

definition form_transaction :: "proposal_lib \<Rightarrow> transaction_form \<Rightarrow> proposal_transaction option" where
  "form_transaction lib f =
     Option.bind (if tf_value f = '''' then Some 0 else pl_parseEther lib (tf_value f)) (\<lambda>value.
     map_option (\<lambda>calldata. \<lparr>tx_address = tf_address f, tx_value = value, tx_signature = tf_func f, tx_calldata = calldata\<rparr>)
       (if tf_func f = '''' then Some ''0x''
        else map_option (\<lambda>e. case e of Some encoded \<Rightarrow> if encoded = '''' then ''0x'' else encoded | None \<Rightarrow> ''0x'') (encoded_args lib f)))"

text \<open>The button of the dialog: the next step where the present one is valid, or the transaction; it may throw.\<close>

definition stepForwardOrCallback ::
    "proposal_lib \<Rightarrow> transaction_form \<Rightarrow> (proposal_transaction option \<times> transaction_form) option" where
  "stepForwardOrCallback lib f =
     (if tf_currentStep f \<noteq> 4
      then Some (None, if step_valid lib f then f\<lparr>tf_currentStep := Suc (tf_currentStep f)\<rparr> else f)
      else map_option (\<lambda>tx. (Some tx, new_transaction_form\<lparr>tf_abiFileName := None\<rparr>)) (form_transaction lib f))"


section \<open>The page\<close>

record create_page =
  cr_transactions :: "proposal_transaction list"
  cr_title :: string
  cr_body :: string
  cr_formShown :: bool
  cr_pending :: bool
  cr_notice :: "(string \<times> string) option"

definition new_create_page :: create_page where
  "new_create_page = \<lparr>cr_transactions = [], cr_title = '''', cr_body = '''', cr_formShown = False, cr_pending = False, cr_notice = None\<rparr>"

definition with_0x :: "string \<Rightarrow> string" where
  "with_0x s = (if take 2 s = ''0x'' then s else ''0x'' @ s)"

definition handleAddProposalAction :: "proposal_transaction \<Rightarrow> create_page \<Rightarrow> create_page" where
  "handleAddProposalAction tx pg =
     pg\<lparr>cr_transactions := cr_transactions pg @ [tx\<lparr>tx_address := with_0x (tx_address tx), tx_calldata := with_0x (tx_calldata tx)\<rparr>],
        cr_formShown := False\<rparr>"

definition handleRemoveProposalAction :: "nat \<Rightarrow> create_page \<Rightarrow> create_page" where
  "handleRemoveProposalAction index pg =
     pg\<lparr>cr_transactions := take index (cr_transactions pg) @ drop (Suc index) (cr_transactions pg)\<rparr>"

definition isFormInvalid :: "create_page \<Rightarrow> bool" where
  "isFormInvalid pg = (cr_transactions pg = [] \<or> cr_title pg = '''' \<or> cr_body pg = '''')"

definition hasEnoughVote :: "int option \<Rightarrow> int option \<Rightarrow> bool" where
  "hasEnoughVote availableVotes proposalThreshold =
     (case (availableVotes, proposalThreshold) of (Some v, Some t) \<Rightarrow> v \<noteq> 0 \<and> v > t | _ \<Rightarrow> False)"

text \<open>The latest proposal of all, which the page looks at in place of the latest of the account.\<close>

definition hasActiveOrPendingProposal :: "shown_proposal option \<Rightarrow> string option \<Rightarrow> bool" where
  "hasActiveOrPendingProposal latestProposal account =
     (case latestProposal of
        None \<Rightarrow> False
      | Some p \<Rightarrow> (sp_status p = Some proposal_state.ACTIVE \<or> sp_status p = Some proposal_state.PENDING) \<and> sp_proposer p = account)"

definition createProposalDisabled :: "create_page \<Rightarrow> bool \<Rightarrow> bool \<Rightarrow> bool" where
  "createProposalDisabled pg active enough = (isFormInvalid pg \<or> active \<or> \<not> enough)"

definition createButtonText :: "int option \<Rightarrow> bool \<Rightarrow> bool \<Rightarrow> string" where
  "createButtonText proposalThreshold active enough =
     (if active then ''You already have an active or pending proposal''
      else if \<not> enough
      then (case proposalThreshold of
              Some t \<Rightarrow> if t \<noteq> 0 then ''You must have '' @ int_to_string (t + 1) @ '' votes to submit a proposal''
                       else ''You don't have enough votes to submit a proposal''
            | None \<Rightarrow> ''You don't have enough votes to submit a proposal'')
      else ''Create Proposal'')"

record propose_args =
  ar_details :: proposal_details
  ar_description :: string

definition handleCreateProposal :: "create_page \<Rightarrow> propose_args option" where
  "handleCreateProposal pg =
     (let txs = cr_transactions pg
      in if txs = [] then None
         else Some \<lparr>ar_details = \<lparr>td_targets = map tx_address txs, td_values = map tx_value txs,
                                  td_signatures = map tx_signature txs, td_calldatas = map tx_calldata txs\<rparr>,
                    ar_description = ''# '' @ cr_title pg @ [newline, newline] @ cr_body pg\<rparr>)"

definition proposeEffect :: "string option \<Rightarrow> market_status \<Rightarrow> create_page \<Rightarrow> create_page" where
  "proposeEffect errorMessage status pg =
     (let message = (case errorMessage of Some e \<Rightarrow> if e = '''' then ''Please try again.'' else e | None \<Rightarrow> ''Please try again.'')
      in case status of
           NoTransaction \<Rightarrow> pg\<lparr>cr_pending := False\<rparr>
         | SignaturePending \<Rightarrow> pg
         | BeingMined \<Rightarrow> pg\<lparr>cr_pending := True\<rparr>
         | Succeeded \<Rightarrow> pg\<lparr>cr_notice := Some (''Success'', ''Proposal Created!''), cr_pending := False\<rparr>
         | Failed \<Rightarrow> pg\<lparr>cr_notice := Some (''Transaction Failed'', message), cr_pending := False\<rparr>
         | Raised \<Rightarrow> pg\<lparr>cr_notice := Some (''Error'', message), cr_pending := False\<rparr>)"

section \<open>The contract\<close>

definition proposalMaxOperations :: nat where "proposalMaxOperations = 10"

definition bps2Uint :: "int \<Rightarrow> int \<Rightarrow> int" where
  "bps2Uint bps number = (number * bps) div 10000"

text \<open>\<open>gn_latestProposalIds\<close> is 0 for who has not proposed yet.\<close>

record governor =
  gn_proposalCount :: int
  gn_proposals :: "int \<Rightarrow> contract_proposal"
  gn_details :: "int \<Rightarrow> proposal_details"
  gn_proposers :: "int \<Rightarrow> string"
  gn_latestProposalIds :: "string \<Rightarrow> int"
  gn_proposalThresholdBPS :: int
  gn_votingDelay :: int
  gn_votingPeriod :: int

text \<open>The transaction, with what the token answers: the supply, the votes of the sender at the block before; \<open>minQuorumVotes\<close>
  is the minimal quorum, which is the quorum of a proposal without votes.\<close>

record propose_tx =
  pt_sender :: string
  pt_hash :: string
  pt_txIndex :: int
  pt_block :: int
  pt_timestamp :: int
  pt_totalSupply :: int
  pt_priorVotes :: int
  pt_minQuorumVotes :: int

definition live_state :: "proposal_state \<Rightarrow> bool" where
  "live_state st = (st = proposal_state.ACTIVE \<or> st = proposal_state.PENDING)"

definition propose :: "propose_tx \<Rightarrow> propose_args \<Rightarrow> governor \<Rightarrow> (proposal_created \<times> governor) option" where
  "propose t a g =
     (let d = ar_details a;
          threshold = bps2Uint (gn_proposalThresholdBPS g) (pt_totalSupply t);
          latest = gn_latestProposalIds g (pt_sender t);
          startBlock = pt_block t + gn_votingDelay g;
          endBlock = startBlock + gn_votingPeriod g;
          i = gn_proposalCount g + 1
      in if list_ex (\<lambda>v. v < 0 \<or> 2 ^ 256 \<le> v) (td_values d) then None
         else if pt_priorVotes t \<le> threshold then None
         else if length (td_values d) \<noteq> length (td_targets d) \<or> length (td_signatures d) \<noteq> length (td_targets d)
           \<or> length (td_calldatas d) \<noteq> length (td_targets d) then None
         else if td_targets d = [] then None
         else if proposalMaxOperations < length (td_targets d) then None
         else if latest \<noteq> 0 \<and> live_state (contract_state (pt_block t) (pt_timestamp t) (gn_proposals g latest)) then None
         else Some
           (\<lparr>e_hash = pt_hash t, e_txIndex = pt_txIndex t, e_block = pt_block t, e_timestamp = pt_timestamp t,
             pc_id = i, pc_proposer = pt_sender t, pc_targets = td_targets d, pc_values = td_values d,
             pc_signatures = td_signatures d, pc_calldatas = td_calldatas d, pc_startBlock = startBlock, pc_endBlock = endBlock,
             pc_proposalThreshold = threshold, pc_quorumVotes = pt_minQuorumVotes t, pc_description = ar_description a\<rparr>,
            g\<lparr>gn_proposalCount := i,
              gn_proposals := (gn_proposals g)(i := new_proposal startBlock endBlock (pt_minQuorumVotes t)),
              gn_details := (gn_details g)(i := d), gn_proposers := (gn_proposers g)(i := pt_sender t),
              gn_latestProposalIds := (gn_latestProposalIds g)(pt_sender t := i)\<rparr>))"


section \<open>Texts\<close>

text \<open>No \<open>a\<close> is followed by a \<open>b\<close>.\<close>

fun no_pair :: "char \<Rightarrow> char \<Rightarrow> string \<Rightarrow> bool" where
  "no_pair a b (x # y # s) \<longleftrightarrow> \<not> (x = a \<and> y = b) \<and> no_pair a b (y # s)"
| "no_pair a b s \<longleftrightarrow> True"

lemma no_pair_Cons: "no_pair a b (x # s) \<longleftrightarrow> no_pair a b s \<and> (s = [] \<or> \<not> (x = a \<and> hd s = b))"
  by (cases s) auto

lemma no_pair_append:
  "no_pair a b (s @ t) \<longleftrightarrow> no_pair a b s \<and> no_pair a b t \<and> (s = [] \<or> t = [] \<or> \<not> (last s = a \<and> hd t = b))"
  by (induction s) (auto simp: no_pair_Cons)

lemma unescape_newlines_id: "no_pair (CHR 0x5C) (CHR ''n'') s \<Longrightarrow> unescape_newlines s = s"
  by (induction s rule: unescape_newlines.induct) auto

lemma unescape_lines_id: "no_pair (CHR 0x5C) (CHR ''n'') s \<Longrightarrow> unescape_lines s = s"
  by (induction s rule: unescape_lines.induct) auto

lemma remove_pairs_id: "no_pair c c s \<Longrightarrow> remove_pairs c s = s"
  by (induction c s rule: remove_pairs.induct) auto

definition described :: "string \<Rightarrow> string \<Rightarrow> string" where
  "described title body = ''# '' @ title @ [newline, newline] @ body"

lemma described_kept:
  assumes "no_pair (CHR 0x5C) (CHR ''n'') title" "no_pair (CHR 0x5C) (CHR ''n'') body" "body \<noteq> ''''" "\<not> is_quote (last body)"
  shows "strip_quotes (unescape_lines (unescape_newlines (described title body))) = described title body"
proof -
  have "no_pair (CHR 0x5C) (CHR ''n'') (described title body)"
    using assms(1,2) by (auto simp: described_def no_pair_append no_pair_Cons)
  then have "unescape_lines (unescape_newlines (described title body)) = described title body"
    by (simp add: unescape_newlines_id unescape_lines_id)
  then show ?thesis using assms(3,4) by (simp add: described_def strip_quotes_def is_quote_def)
qed

text \<open>A title that is one line, starts with a visible character and has no pair of stars or underscores.\<close>

definition plain_title :: "string \<Rightarrow> bool" where
  "plain_title title \<longleftrightarrow> title \<noteq> '''' \<and> \<not> is_space (hd title) \<and> newline \<notin> set title
     \<and> no_pair (CHR ''*'') (CHR ''*'') title \<and> no_pair (CHR ''_'') (CHR ''_'') title"

lemma described_title:
  assumes "plain_title title"
  shows "shown_title (Some (described title body)) = title"
proof -
  obtain c cs where t: "title = c # cs" "\<not> is_space c" using assms by (cases title) (auto simp: plain_title_def)
  have nl: "is_space newline" "\<not> is_space (CHR ''#'')" "is_space (CHR '' '')" by code_simp+
  have c: "c \<noteq> newline" using t(2) nl(1) by blast
  have line: "line_of (title @ newline # s) = title" for s
    using assms by (simp add: line_of_def plain_title_def takeWhile_append)
  have "extractHashTitle (described title body) = Some title"
    using nl t c line [of "newline # body"] by (simp add: extractHashTitle_def described_def Let_def)
  moreover have "described title body \<noteq> ''''" by (simp add: described_def)
  ultimately show ?thesis
    using assms by (simp add: shown_title_def extractTitle_def removeMarkdownStyle_def removeBold_def removeItalics_def
        remove_pairs_id plain_title_def)
qed

lemma split_commas_plain: "CHR '','' \<notin> set s \<Longrightarrow> split_commas s = [s]"
  by (induction s) auto

lemma split_commas_more: "CHR '','' \<notin> set s \<Longrightarrow> split_commas (s @ CHR '','' # t) = s # split_commas t"
  by (induction s) auto

lemma split_joined_types:
  assumes "ts \<noteq> []" "\<forall>s \<in> set ts. CHR '','' \<notin> set s"
  shows "split_commas (join_commas ts) = ts"
  using assms
proof (induction ts)
  case (Cons s ts)
  show ?case
  proof (cases ts)
    case Nil
    then show ?thesis using Cons.prems by (simp add: join_commas_def split_commas_plain)
  next
    case (Cons u us)
    then have "join_commas (s # ts) = s @ CHR '','' # join_commas ts" by (simp add: join_commas_def)
    then show ?thesis using Cons.IH Cons.prems Cons by (simp add: split_commas_more)
  qed
qed simp


section \<open>Transactions\<close>

definition plain_type :: "string \<Rightarrow> bool" where
  "plain_type s \<longleftrightarrow> s \<noteq> '''' \<and> CHR '','' \<notin> set s \<and> CHR ''('' \<notin> set s"

definition inputs_of :: "transaction_form \<Rightarrow> string list" where
  "inputs_of f = (case tf_abi f of None \<Rightarrow> [] | Some abi \<Rightarrow> (case map_of abi (tf_func f) of None \<Rightarrow> [] | Some types \<Rightarrow> types))"

text \<open>The function of the form is named by its inputs, and the coder of the site reads the arguments back that the form
  encodes.\<close>

definition readable :: "proposal_lib \<Rightarrow> coder \<Rightarrow> transaction_form \<Rightarrow> bool" where
  "readable lib co f \<longleftrightarrow> tf_func f = ''''
     \<or> (\<exists>abi name types calldata. tf_abi f = Some abi \<and> map_of abi (tf_func f) = Some types
          \<and> tf_func f = name @ ''('' @ join_commas types @ '')'' \<and> name \<noteq> '''' \<and> CHR ''('' \<notin> set name \<and> list_all plain_type types
          \<and> pl_encodeParams lib types (tf_args f) = Some calldata \<and> take 2 calldata = ''0x''
          \<and> (types \<noteq> [] \<longrightarrow> abi_decode co types calldata = Some (map the (tf_args f))))"

text \<open>What the site shows of a transaction that was typed into the dialog.\<close>

definition shown_form :: "proposal_lib \<Rightarrow> coder \<Rightarrow> transaction_form \<Rightarrow> proposal_detail" where
  "shown_form lib co f =
     (let value = (if tf_value f = '''' then 0 else the (pl_parseEther lib (tf_value f)));
          amount = formatEther co value @ '' ETH''
      in if tf_func f = ''''
         then \<lparr>pd_target = with_0x (tf_address f), pd_value = None, pd_functionSig = ''transfer'', pd_callData = amount\<rparr>
         else if inputs_of f = []
         then \<lparr>pd_target = with_0x (tf_address f), pd_value = None, pd_functionSig = before_paren (tf_func f), pd_callData = amount\<rparr>
         else \<lparr>pd_target = with_0x (tf_address f),
                pd_value = Some (if value > 0 then ''{ value: '' @ formatEther co value @ '' ETH }'' else ''''),
                pd_functionSig = before_paren (tf_func f), pd_callData = join_commas (map the (tf_args f))\<rparr>)"

definition stored_transaction :: "proposal_transaction \<Rightarrow> proposal_transaction" where
  "stored_transaction tx = tx\<lparr>tx_address := with_0x (tx_address tx), tx_calldata := with_0x (tx_calldata tx)\<rparr>"

lemma added_transactions:
  "cr_transactions (fold handleAddProposalAction txs pg) = cr_transactions pg @ map stored_transaction txs"
  by (induction txs arbitrary: pg) (simp_all add: handleAddProposalAction_def stored_transaction_def)

lemma joined_types_plain:
  assumes "list_all plain_type types"
  shows "CHR ''('' \<notin> set (join_commas types)" "join_commas types = '''' \<longleftrightarrow> types = []"
    "types \<noteq> [] \<Longrightarrow> split_commas (join_commas types) = types"
  using assms split_joined_types [of types]
  by (auto simp: plain_type_def list_all_iff join_commas_def split: list.splits)

lemma split_signature:
  assumes "CHR ''('' \<notin> set name" "CHR ''('' \<notin> set args"
  shows "split_paren (name @ CHR ''('' # args) = (name, Some args)" "before_paren (name @ CHR ''('' # s) = name"
proof -
  have "takeWhile (\<lambda>c. c \<noteq> CHR ''('') (name @ CHR ''('' # s) = name" for s using assms(1) by (induction name) auto
  moreover have "takeWhile (\<lambda>c. c \<noteq> CHR ''('') args = args" using assms(2) by (auto simp: takeWhile_eq_all_conv)
  ultimately show "split_paren (name @ CHR ''('' # args) = (name, Some args)" "before_paren (name @ CHR ''('' # s) = name"
    by (simp_all add: split_paren_def before_paren_def)
qed

text \<open>One transaction, from the form to the site.\<close>

lemma transaction_shown:
  assumes "form_transaction lib f = Some tx" "readable lib co f" "nth_or_none i (td_signatures d) = Some (tx_signature tx)"
    and "nth_or_none i (td_values d) = Some (tx_value tx)" "nth_or_none i (td_calldatas d) = Some (with_0x (tx_calldata tx))"
  shows "format_transaction co d i (with_0x (tx_address tx)) = Some (shown_form lib co f)"
proof -
  have tx: "tx_signature tx = tf_func f" "tx_address tx = tf_address f"
    "tx_value tx = (if tf_value f = '''' then 0 else the (pl_parseEther lib (tf_value f)))"
    using assms(1) by (auto simp: form_transaction_def bind_eq_Some_conv split: if_splits)
  show ?thesis
  proof (cases "tf_func f = ''''")
    case True
    then show ?thesis
      using assms(3,4) tx by (simp add: format_transaction_def shown_form_def Let_def split_paren_def before_paren_def truthy_string_def)
  next
    case False
    then obtain abi name types calldata where r: "tf_abi f = Some abi" "map_of abi (tf_func f) = Some types"
      "tf_func f = name @ ''('' @ join_commas types @ '')''" "name \<noteq> ''''" "CHR ''('' \<notin> set name" "list_all plain_type types"
      "pl_encodeParams lib types (tf_args f) = Some calldata" "take 2 calldata = ''0x''"
      "types \<noteq> [] \<longrightarrow> abi_decode co types calldata = Some (map the (tf_args f))"
      using assms(2) unfolding readable_def by blast
    have "calldata \<noteq> ''''" using r(8) by auto
    then have data: "with_0x (tx_calldata tx) = calldata"
      using assms(1) False r(1,2,7,8) by (auto simp: form_transaction_def encoded_args_def bind_eq_Some_conv with_0x_def)
    note plain = joined_types_plain [OF r(6)]
    have sig: "split_paren (take (length (tf_func f) - 1) (tf_func f)) = (name, Some (join_commas types))"
      "before_paren (tf_func f) = name"
      using split_signature [OF r(5) plain(1)] by (simp_all add: r(3) split_signature(2) [OF r(5)])
    have inputs: "inputs_of f = types" by (simp add: inputs_of_def r(1,2))
    show ?thesis
    proof (cases "types = []")
      case True
      then show ?thesis
        using assms(3,4) tx sig r(4) False plain(2) inputs by (simp add: format_transaction_def shown_form_def Let_def truthy_string_def)
    next
      case nonempty: False
      then show ?thesis
        using assms(3-5) tx sig r(4,9) False plain(2,3) inputs data
        by (simp add: format_transaction_def shown_form_def Let_def truthy_string_def)
    qed
  qed
qed

lemma format_all_nth:
  assumes "length ds = length ts" "\<And>j. j < length ts \<Longrightarrow> format_transaction co d (i + j) (ts ! j) = Some (ds ! j)"
  shows "format_all co d i ts = Some ds"
  using assms
proof (induction ts arbitrary: i ds)
  case (Cons t ts)
  obtain x xs where ds: "ds = x # xs" "length xs = length ts" using Cons.prems(1) by (cases ds) auto
  have "format_all co d (Suc i) ts = Some xs"
    using Cons.prems(2) ds by (intro Cons.IH) (auto simp: nth_Cons' dest!: meta_spec [of _ "Suc _"])
  then show ?case using Cons.prems(2) [of 0] ds by simp
qed simp


lemma details_shown:
  assumes "map (form_transaction lib) fs = map Some txs" "list_all (readable lib co) fs"
    and "d = \<lparr>td_targets = map tx_address (map stored_transaction txs), td_values = map tx_value (map stored_transaction txs),
           td_signatures = map tx_signature (map stored_transaction txs), td_calldatas = map tx_calldata (map stored_transaction txs)\<rparr>"
  shows "formatProposalTransactionDetails co d = Some (map (shown_form lib co) fs)"
proof -
  have len: "length fs = length txs" using assms(1) by (metis length_map)
  have "format_transaction co d j (td_targets d ! j) = Some (map (shown_form lib co) fs ! j)" if "j < length txs" for j
  proof -
    have "form_transaction lib (fs ! j) = Some (txs ! j)" using assms(1) that len by (metis nth_map)
    moreover have "readable lib co (fs ! j)" using assms(2) that len by (simp add: list_all_length)
    ultimately show ?thesis
      using that len transaction_shown [of lib "fs ! j" "txs ! j" co j d]
      by (simp add: assms(3) nth_or_none_def stored_transaction_def)
  qed
  then show ?thesis unfolding formatProposalTransactionDetails_def by (intro format_all_nth) (simp_all add: len assms(3))
qed

lemma delegate_found:
  assumes "\<And>d. delegates s k = Some d \<Longrightarrow> dl_id d = k"
  shows "\<exists>d s'. getOrCreateDelegate k s = Inr (d, s') \<and> dl_id d = k"
  using assms by (cases "delegates s k")
    (auto simp: getOrCreateDelegate_def getOrCreateDelegateWithNullOption_def Let_def new_delegate_def)

text \<open>The subgraph stores a new proposal as its event tells it.\<close>

lemma handler_stores:
  assumes new: "proposals s (int_to_string (pc_id e)) = None" and fresh: "\<And>k. p_id (fresh k) = k"
    and known: "\<And>d. delegates s (pc_proposer e) = Some d \<Longrightarrow> dl_id d = pc_proposer e"
  obtains s' p where "handleProposalCreatedWithRequirements fresh e s = Inr s'" "proposals s' (int_to_string (pc_id e)) = Some p"
    "p_description p = Some (unescape_newlines (pc_description e))" "p_proposer p = Some (pc_proposer e)"
    "p_targets p = Some (pc_targets e)" "p_values p = Some (pc_values e)" "p_signatures p = Some (pc_signatures e)" "p_calldatas p = Some (pc_calldatas e)"
proof -
  let ?g = "getGovernanceEntity s"
  let ?s1 = "save_governance (?g\<lparr>gv_proposals := gv_proposals ?g + 1\<rparr>) s"
  have first: "getOrCreateDelegateWithNullOption (pc_proposer e) False True ?s1 = (delegates s (pc_proposer e), ?s1)"
    by (simp add: getOrCreateDelegateWithNullOption_def save_governance_def split: option.split)
  let ?s3 = "if delegates s (pc_proposer e) = None
     then log_error ''Delegate {} not found on ProposalCreated. tx_hash: {}'' [pc_proposer e, e_hash e] ?s1 else ?s1"
  have "delegates ?s3 = delegates s" by (simp add: log_error_def save_governance_def)
  then obtain d s4 where d: "getOrCreateDelegate (pc_proposer e) ?s3 = Inr (d, s4)" "dl_id d = pc_proposer e"
    using delegate_found [of ?s3 "pc_proposer e"] known by auto
  obtain q s5 where q: "getOrCreateDynamicQuorumParams None s4 = (q, s5)" by fastforce
  have "\<exists>s' p. handleProposalCreatedWithRequirements fresh e s = Inr s' \<and> proposals s' (int_to_string (pc_id e)) = Some p
      \<and> p_description p = Some (unescape_newlines (pc_description e)) \<and> p_proposer p = Some (pc_proposer e)
      \<and> p_targets p = Some (pc_targets e) \<and> p_values p = Some (pc_values e) \<and> p_signatures p = Some (pc_signatures e)
      \<and> p_calldatas p = Some (pc_calldatas e)"
    using d(2) by (simp add: handleProposalCreatedWithRequirements_def getOrCreateProposal_def new Let_def first d(1) q fresh save_proposal_def)
  then show ?thesis using that by blast
qed


section \<open>From the form to the site\<close>


text \<open>The page looks at the latest proposal of all: with a live proposal of its own behind it, an account is offered the
  button and refused by the contract.\<close>

lemma live_proposal_overlooked:
  assumes "sp_proposer latest \<noteq> Some (pt_sender t)" "gn_latestProposalIds g (pt_sender t) \<noteq> 0"
    and "live_state (contract_state (pt_block t) (pt_timestamp t) (gn_proposals g (gn_latestProposalIds g (pt_sender t))))"
  shows "\<not> hasActiveOrPendingProposal (Some latest) (Some (pt_sender t)) \<and> propose t args g = None"
  using assms by (simp add: hasActiveOrPendingProposal_def propose_def Let_def)

text \<open>A function whose only argument is a struct is shown as a transfer of ETH: the parenthesis of the struct ends the list
  of the types.\<close>

lemma struct_hidden:
  assumes "td_signatures d = [''setConfig((address,uint256))'']" "td_values d = [0]"
  shows "format_transaction co d 0 target
    = Some \<lparr>pd_target = target, pd_value = None, pd_functionSig = ''setConfig'', pd_callData = formatEther co 0 @ '' ETH''\<rparr>"
  using assms by (simp add: format_transaction_def nth_or_none_def split_paren_def before_paren_def truthy_string_def)

section \<open>An example\<close>

definition demo_proposal_lib :: proposal_lib where
  "demo_proposal_lib = \<lparr>pl_isAddress = (\<lambda>s. take 2 s = ''0x''), pl_isNumber = (\<lambda>s. s = ''2''), pl_parseEther = (\<lambda>s. if s = ''2'' then Some 2 else None),
     pl_interface = (\<lambda>_. None), pl_encodeParams = (\<lambda>types args. if list_all (\<lambda>a. a \<noteq> None) args then Some (''0x'' @ concat (map the args)) else None)\<rparr>"

definition demo_coder :: coder where
  "demo_coder = \<lparr>abi_decode = (\<lambda>types s. Some [drop 2 s]), formatEther = int_to_string\<rparr>"

definition demo_transfer :: transaction_form where
  "demo_transfer = new_transaction_form\<lparr>tf_address := ''0xbob'', tf_value := ''2'', tf_currentStep := 4\<rparr>"

definition demo_call :: transaction_form where
  "demo_call = setArgument 0 ''ann''
     (new_transaction_form\<lparr>tf_address := ''0xdao'', tf_abi := Some [(''setVetoer(address)'', [''address''])],
        tf_func := ''setVetoer(address)'', tf_currentStep := 4\<rparr>)"

definition demo_transactions :: "proposal_transaction list" where
  "demo_transactions = [\<lparr>tx_address = ''0xbob'', tx_value = 2, tx_signature = '''', tx_calldata = ''0x''\<rparr>,
     \<lparr>tx_address = ''0xdao'', tx_value = 0, tx_signature = ''setVetoer(address)'', tx_calldata = ''0xann''\<rparr>]"

definition demo_create_page :: create_page where
  "demo_create_page = (fold handleAddProposalAction demo_transactions new_create_page)\<lparr>cr_title := ''New vetoer'', cr_body := ''Ann.''\<rparr>"

definition demo_governor :: governor where
  "demo_governor = \<lparr>gn_proposalCount = 0, gn_proposals = (\<lambda>_. new_proposal 0 0 0),
     gn_details = (\<lambda>_. \<lparr>td_targets = [], td_values = [], td_signatures = [], td_calldatas = []\<rparr>), gn_proposers = (\<lambda>_. ''''),
     gn_latestProposalIds = (\<lambda>_. 0), gn_proposalThresholdBPS = 100, gn_votingDelay = 10, gn_votingPeriod = 20\<rparr>"

definition demo_propose_tx :: propose_tx where
  "demo_propose_tx = \<lparr>pt_sender = ''0xann'', pt_hash = ''0x1'', pt_txIndex = 0, pt_block = 7, pt_timestamp = 70, pt_totalSupply = 300,
     pt_priorVotes = 4, pt_minQuorumVotes = 30\<rparr>"


end
