(* ===== verification/Site_Forms.thy ===== *)
theory Site_Forms imports Composables_Pages begin

text \<open>
  The forms in which the owner of a collection or of an account describes it (\<open>pages/Collection/EditCollection\<close> and
  \<open>pages/Profile/EditProfile\<close>), and the bar of page numbers below a list (\<open>components/Pagination\<close>).  The wallet is a
  parameter: \<open>signMessage\<close> of the account behind it, whose signature \<open>verifyMessage\<close> attributes to an address.
\<close>

section \<open>Descriptions and images\<close>

record wallet =
  wl_signMessage :: "string \<Rightarrow> string"
  wl_verifyMessage :: "string \<Rightarrow> string \<Rightarrow> string"

record info_form =
  nf_thumbnailImage :: "string option"
  nf_bannerImage :: "string option"
  nf_notice :: "(string \<times> string) option"
  nf_completed :: "bool option"

definition new_info_form :: info_form where
  "new_info_form = \<lparr>nf_thumbnailImage = None, nf_bannerImage = None, nf_notice = None, nf_completed = None\<rparr>"

text \<open>A file is what the decoder makes of it, \<open>None\<close> where it throws, and its bytes in base 64.\<close>

definition validateAndSetImage :: "(png option \<times> string) option \<Rightarrow> string \<Rightarrow> info_form \<Rightarrow> info_form" where
  "validateAndSetImage image_file kind f =
     (case image_file of
        Some (Some p, base64) \<Rightarrow>
          if png_width p > 3000 \<or> png_height p > 1000 then f
          else if kind = ''thumbnail'' then f\<lparr>nf_thumbnailImage := Some base64\<rparr>
          else if kind = ''banner'' then f\<lparr>nf_bannerImage := Some base64\<rparr>
          else f
      | _ \<Rightarrow> f)"

definition image_to_save :: "string option \<Rightarrow> js_value \<Rightarrow> js_value" where
  "image_to_save chosen stored = (if truthy_string chosen then Str (the chosen) else stored)"

text \<open>What the signature is compared with is the account that signs.\<close>

definition signed_by :: "wallet \<Rightarrow> string \<Rightarrow> string \<Rightarrow> bool" where
  "signed_by w account description =
     (let message = ''Description: '' @ description
      in to_lower (wl_verifyMessage w message (wl_signMessage w message)) = to_lower account)"

definition saveCollectionProfile ::
    "string option \<Rightarrow> wallet option \<Rightarrow> string \<Rightarrow> obj \<Rightarrow> string \<Rightarrow> info_form \<Rightarrow> db \<Rightarrow> info_form \<times> db" where
  "saveCollectionProfile activeAccount library tokenAddress collectionInfo typed f d =
     (case (activeAccount, library) of
        (Some me, Some w) \<Rightarrow>
          if me = '''' then (f, d)
          else if \<not> signed_by w me (trim typed)
          then (f\<lparr>nf_notice := Some (''Update Failed'', ''Collection info was not successfully updated'')\<rparr>, d)
          else (f\<lparr>nf_notice := Some (''Update Successful'', ''Collection info successfully updated''), nf_completed := Some True\<rparr>,
                updateCollectionInfo tokenAddress (trim typed)
                  (image_to_save (nf_thumbnailImage f) (field collectionInfo ''thumbnailImage''))
                  (image_to_save (nf_bannerImage f) (field collectionInfo ''bannerImage'')) d)
      | _ \<Rightarrow> (f, d))"

definition stored_image :: "obj option \<Rightarrow> string \<Rightarrow> js_value" where
  "stored_image profileInfo column = (case profileInfo of Some p \<Rightarrow> field p column | None \<Rightarrow> Str '''')"

definition saveProfile ::
    "filler \<Rightarrow> string option \<Rightarrow> wallet option \<Rightarrow> string \<Rightarrow> obj option \<Rightarrow> string \<Rightarrow> info_form \<Rightarrow> db \<Rightarrow> info_form \<times> db" where
  "saveProfile fill activeAccount library walletAddress profileInfo typed f d =
     (case (activeAccount, library) of
        (Some me, Some w) \<Rightarrow>
          if me = '''' then (f, d)
          else if \<not> signed_by w me (trim typed)
          then (f\<lparr>nf_notice := Some (''Update Failed'', ''Profile info was not successfully updated'')\<rparr>, d)
          else (let thumbnail = image_to_save (nf_thumbnailImage f) (stored_image profileInfo ''thumbnailImage'');
                    banner = image_to_save (nf_bannerImage f) (stored_image profileInfo ''bannerImage'')
                in (f\<lparr>nf_notice := Some (''Update Successful'', ''Profile info successfully updated''), nf_completed := Some True\<rparr>,
                    if profileInfo \<noteq> None then updateProfileInfo walletAddress (trim typed) thumbnail banner d
                    else insertProfileInfo fill walletAddress (trim typed) thumbnail banner d))
      | _ \<Rightarrow> (f, d))"

text \<open>Nothing compares the account with the owner: whoever signs with a wallet of his own changes the description of any
  collection.\<close>

lemma anyone_describes:
  assumes "me \<noteq> ''''" "\<forall>message. wl_verifyMessage w message (wl_signMessage w message) = me"
  shows "snd (saveCollectionProfile (Some me) (Some w) a info typed new_info_form d)
    = updateCollectionInfo a (trim typed) (field info ''thumbnailImage'') (field info ''bannerImage'') d"
  using assms by (simp add: saveCollectionProfile_def signed_by_def new_info_form_def image_to_save_def truthy_string_def)

section \<open>The bar of page numbers\<close>

datatype page_link = Page int | Dots

text \<open>\<open>range\<close>; the length of an array below 0 throws, which no call here reaches.\<close>

definition page_range :: "int \<Rightarrow> int \<Rightarrow> page_link list" where
  "page_range i j = map Page [i..j]"

text \<open>\<open>usePagination\<close> for \<open>totalPageCount\<close> pages; \<open>None\<close> is \<open>undefined\<close>.\<close>

definition pagination_range :: "int \<Rightarrow> int \<Rightarrow> int \<Rightarrow> page_link list option" where
  "pagination_range totalPageCount siblingCount currentPage =
     (if siblingCount + 5 \<ge> totalPageCount then Some (page_range 1 totalPageCount)
      else (let leftSiblingIndex = max (currentPage - siblingCount) 1;
                rightSiblingIndex = min (currentPage + siblingCount) totalPageCount;
                shouldShowLeftDots = leftSiblingIndex > 2;
                shouldShowRightDots = rightSiblingIndex < totalPageCount - 2
            in if \<not> shouldShowLeftDots \<and> shouldShowRightDots
               then Some (page_range 1 (3 + 2 * siblingCount) @ [Dots, Page totalPageCount])
               else if shouldShowLeftDots \<and> \<not> shouldShowRightDots
               then Some ([Page 1, Dots] @ page_range (totalPageCount - (3 + 2 * siblingCount) + 1) totalPageCount)
               else if shouldShowLeftDots \<and> shouldShowRightDots
               then Some ([Page 1, Dots] @ page_range leftSiblingIndex rightSiblingIndex @ [Dots, Page totalPageCount])
               else None))"

definition usePagination :: "int \<Rightarrow> int \<Rightarrow> int \<Rightarrow> int \<Rightarrow> page_link list option" where
  "usePagination totalCount pageSize siblingCount currentPage =
     pagination_range (- ((- totalCount) div pageSize)) siblingCount currentPage"

definition pages_of :: "page_link list \<Rightarrow> int list" where
  "pages_of ls = concat (map (\<lambda>l. case l of Page i \<Rightarrow> [i] | Dots \<Rightarrow> []) ls)"

lemma pages_of_simps [simp]:
  "pages_of [] = []" "pages_of (Page i # ls) = i # pages_of ls" "pages_of (Dots # ls) = pages_of ls"
  "pages_of (xs @ ys) = pages_of xs @ pages_of ys" "pages_of (page_range i j) = [i..j]"
proof -
  have "concat (map (\<lambda>x. case Page x of Page i \<Rightarrow> [i] | Dots \<Rightarrow> []) is) = is" for "is" by (induction "is") auto
  then show "pages_of (page_range i j) = [i..j]" by (simp add: pages_of_def page_range_def o_def)
qed (simp_all add: pages_of_def)

text \<open>With one sibling the bar is always there, its numbers increase from the first page to the last, and it offers the
  present page with both of its neighbours: every page can be reached.\<close>

lemma pagination_reaches:
  assumes "1 \<le> cur" "cur \<le> n"
  obtains ls where "pagination_range n 1 cur = Some ls" "sorted_wrt (<) (pages_of ls)"
    "set (pages_of ls) \<subseteq> {1..n}" "{1, n, cur} \<union> ({cur - 1, cur + 1} \<inter> {1..n}) \<subseteq> set (pages_of ls)"
proof -
  let ?bar = "pagination_range n 1 cur"
  consider "n \<le> 6" | "n > 6" "cur \<le> 3" | "n > 6" "cur > 3" "cur \<ge> n - 3" | "n > 6" "cur > 3" "cur < n - 3" by linarith
  then show ?thesis
  proof cases
    case 1
    then show ?thesis using assms by (intro that [of "page_range 1 n"]) (auto simp: pagination_range_def)
  next
    case 2
    then have "?bar = Some (page_range 1 5 @ [Dots, Page n])" using assms by (simp add: pagination_range_def Let_def)
    then show ?thesis by (rule that) (use 2 assms in \<open>auto simp: sorted_wrt_append\<close>)
  next
    case 3
    then have "?bar = Some ([Page 1, Dots] @ page_range (n - 4) n)" using assms by (simp add: pagination_range_def Let_def)
    then show ?thesis by (rule that) (use 3 assms in auto)
  next
    case 4
    then have "?bar = Some ([Page 1, Dots] @ page_range (cur - 1) (cur + 1) @ [Dots, Page n])"
      using assms by (simp add: pagination_range_def Let_def)
    then show ?thesis by (rule that) (use 4 assms in \<open>auto simp: sorted_wrt_append\<close>)
  qed
qed

text \<open>Dots on the left may stand for a single page; with two siblings and eight pages there may be no bar at all.\<close>

lemma dots_for_one_page: "pagination_range 10 1 4 = Some [Page 1, Dots, Page 3, Page 4, Page 5, Dots, Page 10]"
  by (simp add: pagination_range_def page_range_def Let_def upto.simps)

lemma no_bar: "pagination_range 8 2 4 = None"
  by (simp add: pagination_range_def)

end
