(* ===== verification/Spec2Isabelle.thy ===== *)
theory Spec2Isabelle imports Png_Encoder Web_Auction Web_Logs Composables_Jobs Composables_Pages Dao_Lifecycle Noun_Seed Bots_Runs Composer_Drawing Deploy_Runs Web_Bid Market_Pages Collection_Items Collection_Factory Proposal_Form Site_Forms begin

text \<open>
  The Nouns monorepo with Composables, as a shallow embedding.

  The program.  Contracts in Solidity hold Nouns, auctions, the DAO and the Composables: items that artists mint, a
  market for them, and a composer that puts items on a Noun.  Around the contracts stand TypeScript programs, which are
  most of the repository: the SDK encodes images into the run-length form the contracts store and draws them; the
  assets package computes seeds; the subgraph turns the events of token, DAO and auction house into entities; the web
  application shows auctions, proposals, the market and the composer, reading from the subgraph, from the chain and
  from an index it keeps of the Composables; bots announce auctions, proposals and votes; tasks deploy and configure the
  contracts.  They interact by events and calls: what one part emits or stores the next one reads, and the main theorems
  here are about such pairs.

  Theories and sources (paths under \<open>packages/\<close>).

  \<^item> \<open>Nouns_Prelude\<close>: strings and numbers as JavaScript prints and parses them, its insertion-ordered map, numbers
    that may be NaN, folds that may fail; facts on folds with a guard shared by all runs.
  \<^item> \<open>Image_RLE\<close>, \<open>Svg_Builder\<close>, \<open>Png_Encoder\<close>: \<open>nouns-sdk/src/image\<close>.  \<open>toRLE\<close>, \<open>decodeImage\<close>, \<open>buildSVG\<close> and
    the collection encoder; encoding and drawing are inverse, and a collection shows each of its images.
  \<^item> \<open>Graph_Store\<close>, \<open>Graph_Token\<close>, \<open>Graph_Dao\<close>: \<open>nouns-subgraph\<close>.  The store as tables of records, the handlers as
    functions on it that may trap; the token store implements the ledger, tallies and quorum are those of the DAO.
  \<^item> \<open>Web_Auction\<close>, \<open>Auction_House\<close>, \<open>Web_Bid\<close>: the slices and selectors of auctions in \<open>nouns-webapp\<close>, the contract
    \<open>NounsAuctionHouse.sol\<close> and the listeners of \<open>index.tsx\<close>, and the bid form.  The contract is solvent, the page
    shows what the contract stores, and the bids of the form are accepted.
  \<^item> \<open>Web_Logs\<close>: keys, slice and updater of the logs (\<open>utils/logParsing.ts\<close>, \<open>state/slices/logs.ts\<close>,
    \<open>state/updaters/logs.ts\<close>, \<open>hooks/useLogs.ts\<close>).
  \<^item> \<open>Js_Objects\<close>, \<open>Composables_Contracts\<close>, \<open>Composables_Indexer\<close>, \<open>Composables_Wrapper\<close>, \<open>Composables_Jobs\<close>,
    \<open>Composables_Pages\<close>: objects and rows; \<open>utils/composables\<close> with its contract readers, database, jobs and facade.
    The jobs bring the tables to what the chain holds, and balances are those the events imply.
  \<^item> \<open>Web_Dao\<close>, \<open>Dao_Lifecycle\<close>, \<open>Proposal_Form\<close>: \<open>wrappers/nounsDao.ts\<close>, the life of a proposal through
    \<open>NounsDAOLogicV2.sol\<close>, the subgraph and the site, and its creation (\<open>pages/CreateProposal\<close>,
    \<open>components/ProposalTransactionFormModal\<close>, \<open>propose\<close>).  A proposal is shown as it was typed.
  \<^item> \<open>Noun_Seed\<close>: \<open>nouns-assets/src/utils.ts\<close> against \<open>NounsSeeder.sol\<close>, and the seed cache of \<open>wrappers/nounToken.ts\<close>.
  \<^item> \<open>Bots\<close>, \<open>Bots_Runs\<close>: \<open>nouns-bots\<close>, its cache, texts and ticks, and runs of them.
  \<^item> \<open>Composer_Contract\<close>, \<open>Composer_Page\<close>, \<open>Composer_Save\<close>, \<open>Composer_Drawing\<close>: \<open>NounsComposer.sol\<close>,
    \<open>pages/Composer\<close> with its Noun picker and save modal, and \<open>getPartsForSeed\<close> of the descriptor.  A saved composition
    is the one shown, and the contract draws what the page previews.
  \<^item> \<open>Market_Contract\<close>, \<open>Market_Pages\<close>: \<open>ComposablesMarket.sol\<close>, and the listings, the purchase, the listing form and
    the withdrawal of the site (\<open>components/ComposableItemModal\<close>, \<open>pages/Collection/ListingForm\<close>,
    \<open>pages/Collection/ListingHistory\<close>).  The market is solvent as long as nobody fills a batch, its limits hold, the
    pages show the current listing and what they send is accepted.
  \<^item> \<open>Item_Contract\<close>, \<open>Collection_Page\<close>, \<open>Collection_Items\<close>: \<open>ComposableItem.sol\<close> with \<open>SSTORE2.sol\<close>, and
    \<open>pages/Collection\<close>.  Items are permanent, what the page sends is accepted, and the files an owner uploads are drawn
    from the chain pixel by pixel.
  \<^item> \<open>Collection_Factory\<close>: \<open>ComposableItemFactory.sol\<close>, the form of \<open>pages/Collections\<close>, and the lists of collections on
    their page and on profiles.  A created collection opens at its address.
  \<^item> \<open>Site_Forms\<close>: the forms that describe collections and profiles (\<open>EditCollection\<close>, \<open>EditProfile\<close>) and the bar of page
    numbers (\<open>components/Pagination\<close>), from which every page can be reached.
  \<^item> \<open>Deploy_Tasks\<close>, \<open>Deploy_Setup\<close>, \<open>Deploy_Runs\<close>: \<open>nouns-contracts/tasks\<close>: tables of contracts, prompts, art,
    configuration.

  How the code is modelled.  Records and datatypes have the fields and cases of the source.  An operation is a function
  of the state it changes; an exception, revert or trap is \<open>None\<close>, \<open>Inl\<close> or a result of its own.  \<open>Reachable\<close> states are
  those of a fold of the operations over any list of calls or events, with the guards of the environment as hypotheses.
  Numbers of the chain are integers with their bounds written where the code can meet them; the seeder uses words.
  Definitions keep the names of the source where HOL has no such name.

  Loops.  Loops over data are structural.  \<open>draw_loop\<close> (\<open>Svg_Builder\<close>) and \<open>chunk_loop\<close> (\<open>Deploy_Setup\<close>) are
  \<open>partial_function (option)\<close>, so that not returning is \<open>None\<close>: they are proved to return where they do, and the first is
  proved not to on certain malformed parts.  \<open>block_ranges\<close> (\<open>Web_Logs\<close>), \<open>match_quads\<close> and \<open>match_chunks\<close> end by a measure on
  what is left.  There is no fuel.

  Parameters.  Code outside the repository is an argument: the provider and its responses, the database's own columns, ABI
  coder and compression, \<open>keccak256\<close>, the addresses of clones, \<open>parseEther\<close>, PNG decoding, the renderer and the inflator of
  the contracts, tokens that a contract calls, redis and the services of the bots.
  What a theorem needs of them is a hypothesis, and its witness instantiates it.

  Groups of lemmas.  Each component theory first states what one operation does (\<open>_cases\<close>, \<open>_facts\<close>), then the invariant and
  that every operation keeps it (\<open>_inv\<close>), then runs, then the properties.  Interfaces are locales: the tables of the
  subgraph, a job that copies a log, balances kept by credits and debits, what every call keeps of a collection,
  announcements; each is interpreted on the
  components that provide it, and the properties use the interpreted facts.

  Not modelled.  Markup, styles and texts of the web application, and its pages without logic of their own (notes,
  documentation, navigation, voting, the playground); generated bindings, ABIs and image data; the HTTP servers \<open>nouns-api\<close> and the
  serverless functions; tests; tasks that send a single transaction.  Of the contracts only those are modelled that the
  programs above are compared with.
\<close>

end
